(* ===== verification/Prelude.thy ===== *)
theory Prelude
  imports Main "HOL-Library.Signed_Division" "HOL-Library.AList"
begin

text \<open>
  Shared vocabulary of the development.

  \<^item> A TypeScript function that awaits, mutates or throws is a program
    \<open>('s, 'a) prog\<close>: it takes the state and gives either a thrown error (\<open>Inl\<close>) or a
    value (\<open>Inr\<close>), and the state at that moment. A throw keeps the effects made
    before it, as in the language.
  \<^item> \<open>preserves\<close> and \<open>frame\<close> are the two judgements the components reason with;
    their rules follow the structure of a program and are collected in \<open>prog_rules\<close>.
  \<^item> A JavaScript \<open>Map\<close> is an association list in insertion order
    (\<open>AList.update\<close> overwrites in place or appends, as \<open>Map.set\<close> does), a \<open>Set\<close> a
    list without repetition.
  \<^item> Strings are lists of ASCII characters; \<open>trim\<close>, \<open>toLowerCase\<close>, \<open>split\<close>,
    \<open>padEnd\<close> and the decimal printing of integers are written out here.
\<close>

named_theorems prog_rules \<open>introduction rules for preserves and frame\<close>
named_theorems prog_defs \<open>definitions of the program combinators\<close>

section \<open>Errors and programs\<close>

datatype js_error = Error string | PendingEnforcement int bool string

fun errorMessage :: "js_error \<Rightarrow> string" where
  "errorMessage (Error m) = m"
| "errorMessage (PendingEnforcement i b c) =
     ''Desired state persisted but kernel enforcement is pending: '' @ c"

type_synonym ('s, 'a) prog = "'s \<Rightarrow> (js_error + 'a) \<times> 's"

definition ret :: "'a \<Rightarrow> ('s, 'a) prog" where
  "ret x = (\<lambda>s. (Inr x, s))"

definition throw :: "js_error \<Rightarrow> ('s, 'a) prog" where
  "throw e = (\<lambda>s. (Inl e, s))"

definition bnd :: "('s, 'a) prog \<Rightarrow> ('a \<Rightarrow> ('s, 'b) prog) \<Rightarrow> ('s, 'b) prog" where
  "bnd m f = (\<lambda>s. case m s of (Inl e, t) \<Rightarrow> (Inl e, t) | (Inr x, t) \<Rightarrow> f x t)"

definition thn :: "('s, 'a) prog \<Rightarrow> ('s, 'b) prog \<Rightarrow> ('s, 'b) prog" where
  "thn m n = bnd m (\<lambda>_. n)"

definition tryCatch :: "('s, 'a) prog \<Rightarrow> (js_error \<Rightarrow> ('s, 'a) prog) \<Rightarrow> ('s, 'a) prog" where
  "tryCatch m h = (\<lambda>s. case m s of (Inl e, t) \<Rightarrow> h e t | (Inr x, t) \<Rightarrow> (Inr x, t))"

definition tryFinally :: "('s, 'a) prog \<Rightarrow> ('s \<Rightarrow> 's) \<Rightarrow> ('s, 'a) prog" where
  "tryFinally m f = (\<lambda>s. case m s of (r, t) \<Rightarrow> (r, f t))"

definition gets :: "('s \<Rightarrow> 'a) \<Rightarrow> ('s, 'a) prog" where
  "gets f = (\<lambda>s. (Inr (f s), s))"

definition modify :: "('s \<Rightarrow> 's) \<Rightarrow> ('s, unit) prog" where
  "modify f = (\<lambda>s. (Inr (), f s))"

definition skip :: "('s, unit) prog" where
  "skip = ret ()"

definition whenP :: "bool \<Rightarrow> ('s, unit) prog \<Rightarrow> ('s, unit) prog" where
  "whenP c m = (if c then m else skip)"

primrec forEach :: "'a list \<Rightarrow> ('a \<Rightarrow> ('s, unit) prog) \<Rightarrow> ('s, unit) prog" where
  "forEach [] f = skip"
| "forEach (x # xs) f = thn (f x) (forEach xs f)"

primrec mapProg :: "('a \<Rightarrow> ('s, 'b) prog) \<Rightarrow> 'a list \<Rightarrow> ('s, 'b list) prog" where
  "mapProg f [] = ret []"
| "mapProg f (x # xs) = bnd (f x) (\<lambda>y. bnd (mapProg f xs) (\<lambda>ys. ret (y # ys)))"

text \<open>An optional method \<open>service?.method\<close> that is awaited only when it is present.\<close>

definition optCall :: "'f option \<Rightarrow> ('f \<Rightarrow> ('s, unit) prog) \<Rightarrow> ('s, unit) prog" where
  "optCall m call = (case m of None \<Rightarrow> skip | Some f \<Rightarrow> call f)"

lemmas [prog_defs] = ret_def throw_def bnd_def thn_def tryCatch_def tryFinally_def gets_def
  modify_def skip_def whenP_def optCall_def

subsection \<open>Algebra of programs\<close>

lemma bnd_ret [simp]: "bnd (ret x) f = f x"
  by (simp add: prog_defs)

lemma bnd_throw [simp]: "bnd (throw e) f = throw e"
  by (simp add: prog_defs)

lemma thn_throw [simp]: "thn (throw e) m = throw e"
  by (simp add: prog_defs)

lemma thn_skip [simp]: "thn skip m = m"
  by (simp add: prog_defs)

lemma bnd_assoc: "bnd (bnd m f) g = bnd m (\<lambda>x. bnd (f x) g)"
  by (auto simp: prog_defs split: prod.splits sum.splits)

lemma whenP_simps [simp]: "whenP True m = m" "whenP False m = skip"
  by (simp_all add: whenP_def)

lemma optCall_simps [simp]: "optCall None c = skip" "optCall (Some f) c = c f"
  by (simp_all add: optCall_def)

lemma ret_apply [simp]: "ret x s = (Inr x, s)"
  by (simp add: ret_def)

lemma throw_apply [simp]: "throw e s = (Inl e, s)"
  by (simp add: throw_def)

lemma skip_apply [simp]: "skip s = (Inr (), s)"
  by (simp add: skip_def)

lemma gets_apply [simp]: "gets f s = (Inr (f s), s)"
  by (simp add: gets_def)

lemma modify_apply [simp]: "modify f s = (Inr (), f s)"
  by (simp add: modify_def)

lemma bnd_Inr: "m s = (Inr x, t) \<Longrightarrow> bnd m f s = f x t"
  by (simp add: bnd_def)

lemma bnd_Inl: "m s = (Inl e, t) \<Longrightarrow> bnd m f s = (Inl e, t)"
  by (simp add: bnd_def)

lemma thn_Inr: "m s = (Inr x, t) \<Longrightarrow> thn m n s = n t"
  by (simp add: thn_def bnd_def)

lemma thn_Inl: "m s = (Inl e, t) \<Longrightarrow> thn m n s = (Inl e, t)"
  by (simp add: thn_def bnd_def)

lemma bnd_InrE:
  assumes "bnd m f s = (Inr y, u)"
  obtains x t where "m s = (Inr x, t)" "f x t = (Inr y, u)"
  using assms by (auto simp: bnd_def split: prod.splits sum.splits)

lemma thn_InrE:
  assumes "thn m n s = (Inr y, u)"
  obtains x t where "m s = (Inr x, t)" "n t = (Inr y, u)"
  using assms by (auto simp: thn_def elim: bnd_InrE)

lemma tryCatch_Inr: "m s = (Inr x, t) \<Longrightarrow> tryCatch m h s = (Inr x, t)"
  by (simp add: tryCatch_def)

lemma tryCatch_Inl: "m s = (Inl e, t) \<Longrightarrow> tryCatch m h s = h e t"
  by (simp add: tryCatch_def)

subsection \<open>Invariants kept whatever the outcome\<close>

definition preserves :: "('s \<Rightarrow> bool) \<Rightarrow> ('s, 'a) prog \<Rightarrow> bool" where
  "preserves P m \<longleftrightarrow> (\<forall>s. P s \<longrightarrow> P (snd (m s)))"

definition frame :: "('s \<Rightarrow> 'v) \<Rightarrow> ('s, 'a) prog \<Rightarrow> bool" where
  "frame v m \<longleftrightarrow> (\<forall>s. v (snd (m s)) = v s)"

lemma preservesD: "preserves P m \<Longrightarrow> P s \<Longrightarrow> m s = (r, t) \<Longrightarrow> P t"
  by (auto simp: preserves_def dest: spec [where x = s])

lemma frameD: "frame v m \<Longrightarrow> m s = (r, t) \<Longrightarrow> v t = v s"
  by (auto simp: frame_def dest: spec [where x = s])

lemma frame_comp: "frame v m \<Longrightarrow> frame (\<lambda>s. g (v s)) m"
  by (simp add: frame_def)

lemma frame_pair: "frame v m \<Longrightarrow> frame w m \<Longrightarrow> frame (\<lambda>s. (v s, w s)) m"
  by (simp add: frame_def)

lemma frame_iff_preserves: "frame v m \<longleftrightarrow> (\<forall>c. preserves (\<lambda>s. v s = c) m)"
  by (auto simp: frame_def preserves_def)

lemma frame_preserves: "frame v m \<Longrightarrow> preserves (\<lambda>s. Q (v s)) m"
  by (simp add: frame_def preserves_def)

lemma preserves_ret [prog_rules]: "preserves P (ret x)"
  by (simp add: preserves_def)

lemma preserves_throw [prog_rules]: "preserves P (throw e)"
  by (simp add: preserves_def)

lemma preserves_skip [prog_rules]: "preserves P skip"
  by (simp add: preserves_def)

lemma preserves_gets [prog_rules]: "preserves P (gets f)"
  by (simp add: preserves_def)

lemma preserves_bnd [prog_rules]:
  assumes "preserves P m" and "\<And>x. preserves P (f x)"
  shows "preserves P (bnd m f)"
  using assms by (auto simp: preserves_def bnd_def split: prod.splits sum.splits)

lemma preserves_thn [prog_rules]:
  assumes "preserves P m" and "preserves P n"
  shows "preserves P (thn m n)"
  using assms by (auto simp: thn_def intro: preserves_bnd)

lemma preserves_tryCatch [prog_rules]:
  assumes "preserves P m" and "\<And>e. preserves P (h e)"
  shows "preserves P (tryCatch m h)"
  using assms by (auto simp: preserves_def tryCatch_def split: prod.splits sum.splits)

lemma preserves_whenP [prog_rules]: "(c \<Longrightarrow> preserves P m) \<Longrightarrow> preserves P (whenP c m)"
  by (cases c) (simp_all add: preserves_skip)

lemma preserves_optCall [prog_rules]:
  "(\<And>f. m = Some f \<Longrightarrow> preserves P (c f)) \<Longrightarrow> preserves P (optCall m c)"
  by (cases m) (simp_all add: preserves_skip)

lemma preserves_forEach [prog_rules]:
  assumes "\<And>x. x \<in> set xs \<Longrightarrow> preserves P (f x)"
  shows "preserves P (forEach xs f)"
  using assms by (induction xs) (auto intro: prog_rules)

lemma preserves_mapProg [prog_rules]:
  assumes "\<And>x. x \<in> set xs \<Longrightarrow> preserves P (f x)"
  shows "preserves P (mapProg f xs)"
  using assms by (induction xs) (auto intro!: prog_rules)

lemma preserves_if [prog_rules]:
  "(c \<Longrightarrow> preserves P m) \<Longrightarrow> (\<not> c \<Longrightarrow> preserves P n) \<Longrightarrow> preserves P (if c then m else n)"
  by simp

lemma preserves_case_option [prog_rules]:
  "(x = None \<Longrightarrow> preserves P m) \<Longrightarrow> (\<And>y. x = Some y \<Longrightarrow> preserves P (f y)) \<Longrightarrow>
   preserves P (case x of None \<Rightarrow> m | Some y \<Rightarrow> f y)"
  by (cases x) simp_all

lemma frame_ret [prog_rules]: "frame v (ret x)"
  by (simp add: frame_def)

lemma frame_throw [prog_rules]: "frame v (throw e)"
  by (simp add: frame_def)

lemma frame_skip [prog_rules]: "frame v skip"
  by (simp add: frame_def)

lemma frame_gets [prog_rules]: "frame v (gets f)"
  by (simp add: frame_def)

lemma frame_bnd [prog_rules]:
  "frame v m \<Longrightarrow> (\<And>x. frame v (f x)) \<Longrightarrow> frame v (bnd m f)"
  unfolding frame_iff_preserves by (blast intro: preserves_bnd)

lemma frame_thn [prog_rules]: "frame v m \<Longrightarrow> frame v n \<Longrightarrow> frame v (thn m n)"
  unfolding frame_iff_preserves by (blast intro: preserves_thn)

lemma frame_tryCatch [prog_rules]:
  "frame v m \<Longrightarrow> (\<And>e. frame v (h e)) \<Longrightarrow> frame v (tryCatch m h)"
  unfolding frame_iff_preserves by (blast intro: preserves_tryCatch)

lemma frame_whenP [prog_rules]: "(c \<Longrightarrow> frame v m) \<Longrightarrow> frame v (whenP c m)"
  by (cases c) (simp_all add: frame_skip)

lemma frame_optCall [prog_rules]:
  "(\<And>f. m = Some f \<Longrightarrow> frame v (c f)) \<Longrightarrow> frame v (optCall m c)"
  by (cases m) (simp_all add: frame_skip)

lemma frame_forEach [prog_rules]:
  "(\<And>x. x \<in> set xs \<Longrightarrow> frame v (f x)) \<Longrightarrow> frame v (forEach xs f)"
  unfolding frame_iff_preserves by (blast intro: preserves_forEach)

lemma frame_mapProg [prog_rules]:
  "(\<And>x. x \<in> set xs \<Longrightarrow> frame v (f x)) \<Longrightarrow> frame v (mapProg f xs)"
  unfolding frame_iff_preserves by (blast intro: preserves_mapProg)

lemma frame_if [prog_rules]:
  "(c \<Longrightarrow> frame v m) \<Longrightarrow> (\<not> c \<Longrightarrow> frame v n) \<Longrightarrow> frame v (if c then m else n)"
  by simp

lemma frame_case_option [prog_rules]:
  "(x = None \<Longrightarrow> frame v m) \<Longrightarrow> (\<And>y. x = Some y \<Longrightarrow> frame v (f y)) \<Longrightarrow>
   frame v (case x of None \<Rightarrow> m | Some y \<Rightarrow> f y)"
  by (cases x) simp_all

text \<open>A loop whose body succeeds and establishes a per-element fact that later rounds keep.\<close>

lemma forEach_establishes:
  assumes "forEach xs f s = (Inr u, t)"
    and "\<And>x s u t. x \<in> set xs \<Longrightarrow> f x s = (Inr u, t) \<Longrightarrow> Q x t"
    and "\<And>x y. x \<in> set xs \<Longrightarrow> y \<in> set xs \<Longrightarrow> preserves (Q x) (f y)"
  shows "\<forall>x \<in> set xs. Q x t"
  using assms
proof (induction xs arbitrary: s)
  case Nil
  then show ?case by simp
next
  case (Cons x xs)
  from Cons.prems(1) obtain w s' where first: "f x s = (Inr w, s')" and rest: "forEach xs f s' = (Inr u, t)"
    by (auto elim: thn_InrE)
  have "Q x s'" using Cons.prems(2) [OF _ first] by simp
  moreover have "preserves (Q x) (forEach xs f)"
    using Cons.prems(3) by (auto intro!: preserves_forEach)
  ultimately have "Q x t" using rest by (metis preservesD)
  moreover have "\<forall>y \<in> set xs. Q y t"
    using Cons.IH [OF rest] Cons.prems(2,3) by (meson list.set_intros(2))
  ultimately show ?case by simp
qed

subsection \<open>What a run may end in\<close>

text \<open>
  \<open>spec m s Q\<close>: running \<open>m\<close> from \<open>s\<close> ends in a result and a state that satisfy \<open>Q\<close>. The
  rules walk through a program; the postcondition of the first part of a sequence is left to
  unification with the lemma about that part.
\<close>

named_theorems spec_rules \<open>rules of spec for the program combinators\<close>

definition spec :: "('s, 'a) prog \<Rightarrow> 's \<Rightarrow> (js_error + 'a \<Rightarrow> 's \<Rightarrow> bool) \<Rightarrow> bool" where
  "spec m s Q \<longleftrightarrow> (case m s of (r, t) \<Rightarrow> Q r t)"

lemma specI: "(\<And>r t. m s = (r, t) \<Longrightarrow> Q r t) \<Longrightarrow> spec m s Q"
  by (simp add: spec_def split: prod.split)

lemma specD: "spec m s Q \<Longrightarrow> m s = (r, t) \<Longrightarrow> Q r t"
  by (simp add: spec_def)

lemma spec_Pair [simp]: "spec (Pair r) s Q \<longleftrightarrow> Q r s"
  by (simp add: spec_def)

lemma spec_mono: "spec m s R \<Longrightarrow> (\<And>r t. R r t \<Longrightarrow> Q r t) \<Longrightarrow> spec m s Q"
  by (auto simp: spec_def)

lemma spec_frame: "frame v m \<Longrightarrow> spec m s (\<lambda>r t. v t = v s)"
  by (auto intro: specI dest: frameD)

lemma spec_conj: "spec m s Q \<Longrightarrow> spec m s R \<Longrightarrow> spec m s (\<lambda>r t. Q r t \<and> R r t)"
  by (auto simp: spec_def)

lemma spec_ret [spec_rules]: "Q (Inr x) s \<Longrightarrow> spec (ret x) s Q"
  by (simp add: spec_def)

lemma spec_throw [spec_rules]: "Q (Inl e) s \<Longrightarrow> spec (throw e) s Q"
  by (simp add: spec_def)

lemma spec_skip [spec_rules]: "Q (Inr ()) s \<Longrightarrow> spec skip s Q"
  by (simp add: spec_def)

lemma spec_simps [simp]:
  "spec skip s Q \<longleftrightarrow> Q (Inr ()) s" "spec (ret x) s R \<longleftrightarrow> R (Inr x) s" "spec (throw e) s S \<longleftrightarrow> S (Inl e) s"
  by (simp_all add: spec_def)

lemma spec_gets [spec_rules]: "Q (Inr (f s)) s \<Longrightarrow> spec (gets f) s Q"
  by (simp add: spec_def)

lemma spec_bnd:
  assumes "spec m s R" "\<And>e t. R (Inl e) t \<Longrightarrow> Q (Inl e) t" "\<And>x t. R (Inr x) t \<Longrightarrow> spec (f x) t Q"
  shows "spec (bnd m f) s Q"
  using assms by (cases "m s"; cases "fst (m s)") (force simp: spec_def bnd_def)+

lemma spec_thn:
  assumes "spec m s R" "\<And>e t. R (Inl e) t \<Longrightarrow> Q (Inl e) t" "\<And>x t. R (Inr x) t \<Longrightarrow> spec n t Q"
  shows "spec (thn m n) s Q"
  using assms by (auto simp: thn_def intro: spec_bnd)

lemma spec_tryCatch:
  assumes "spec m s R" "\<And>e t. R (Inl e) t \<Longrightarrow> spec (h e) t Q" "\<And>x t. R (Inr x) t \<Longrightarrow> Q (Inr x) t"
  shows "spec (tryCatch m h) s Q"
  using assms by (cases "m s"; cases "fst (m s)") (force simp: spec_def tryCatch_def)+

lemma spec_if [spec_rules]:
  "(c \<Longrightarrow> spec m s Q) \<Longrightarrow> (\<not> c \<Longrightarrow> spec n s Q) \<Longrightarrow> spec (if c then m else n) s Q"
  by simp

lemma spec_whenP [spec_rules]:
  "(c \<Longrightarrow> spec m s Q) \<Longrightarrow> (\<not> c \<Longrightarrow> Q (Inr ()) s) \<Longrightarrow> spec (whenP c m) s Q"
  by (cases c) (simp_all add: spec_skip)

lemma spec_optCall [spec_rules]:
  "(\<And>f. m = Some f \<Longrightarrow> spec (c f) s Q) \<Longrightarrow> (m = None \<Longrightarrow> Q (Inr ()) s) \<Longrightarrow> spec (optCall m c) s Q"
  by (cases m) (simp_all add: spec_skip)

lemma spec_option [spec_rules]:
  "(x = None \<Longrightarrow> spec m s Q) \<Longrightarrow> (\<And>y. x = Some y \<Longrightarrow> spec (f y) s Q) \<Longrightarrow>
   spec (case x of None \<Rightarrow> m | Some y \<Rightarrow> f y) s Q"
  by (cases x) simp_all

text \<open>A loop: \<open>I done\<close> holds when the elements \<open>done\<close> have been handled without a throw.\<close>

lemma spec_forEach:
  assumes "I [] s"
    and "\<And>done x rest t. xs = done @ x # rest \<Longrightarrow> I done t \<Longrightarrow>
      spec (f x) t (\<lambda>r u. case r of Inl e \<Rightarrow> Q (Inl e) u | Inr _ \<Rightarrow> I (done @ [x]) u)"
    and "\<And>t. I xs t \<Longrightarrow> Q (Inr ()) t"
  shows "spec (forEach xs f) s Q"
proof -
  have "I pre t \<Longrightarrow> xs = pre @ ys \<Longrightarrow> spec (forEach ys f) t Q" for pre ys t
  proof (induction ys arbitrary: pre t)
    case Nil
    with assms(3) show ?case by (simp add: spec_def)
  next
    case (Cons y ys)
    from assms(2) [OF Cons.prems(2,1)]
    show ?case
      unfolding forEach.simps
      by (rule spec_thn) (use Cons.IH [of "pre @ [y]"] Cons.prems(2) in auto)
  qed
  from this [of "[]" s xs] assms(1) show ?thesis by simp
qed

section \<open>Sets in insertion order\<close>

definition setAdd :: "'a \<Rightarrow> 'a list \<Rightarrow> 'a list" where
  "setAdd x xs = (if x \<in> set xs then xs else xs @ [x])"

lemma set_setAdd [simp]: "set (setAdd x xs) = insert x (set xs)"
  by (auto simp: setAdd_def)

lemma distinct_setAdd [simp]: "distinct xs \<Longrightarrow> distinct (setAdd x xs)"
  by (simp add: setAdd_def)

definition setOfList :: "'a list \<Rightarrow> 'a list" where
  "setOfList xs = fold setAdd xs []"

lemma set_fold_setAdd: "set (fold setAdd xs acc) = set xs \<union> set acc"
  by (induction xs arbitrary: acc) auto

lemma set_setOfList [simp]: "set (setOfList xs) = set xs"
  by (simp add: setOfList_def set_fold_setAdd)

lemma distinct_setOfList [simp]: "distinct (setOfList xs)"
proof -
  have "distinct acc \<Longrightarrow> distinct (fold setAdd xs acc)" for acc
    by (induction xs arbitrary: acc) simp_all
  then show ?thesis by (simp add: setOfList_def)
qed

text \<open>\<open>new Map(list)\<close>: later pairs overwrite earlier ones.\<close>

definition mapOfList :: "('k \<times> 'v) list \<Rightarrow> ('k \<times> 'v) list" where
  "mapOfList ps = fold (\<lambda>(k, v) m. AList.update k v m) ps []"

lemma map_of_fold_update:
  "map_of (fold (\<lambda>(k, v) m. AList.update k v m) ps m) = map_of m ++ map_of (rev ps)"
  by (induction ps arbitrary: m) (auto simp: update_conv' fun_eq_iff map_add_def split: option.splits)

lemma map_of_mapOfList: "map_of (mapOfList ps) = map_of (rev ps)"
  by (simp add: mapOfList_def map_of_fold_update)

section \<open>Characters and strings\<close>

definition isDigit :: "char \<Rightarrow> bool" where
  "isDigit c \<longleftrightarrow> 48 \<le> (of_char c :: nat) \<and> of_char c \<le> (57 :: nat)"

definition isHexLower :: "char \<Rightarrow> bool" where
  "isHexLower c \<longleftrightarrow> isDigit c \<or> (97 \<le> (of_char c :: nat) \<and> of_char c \<le> (102 :: nat))"

definition isHex :: "char \<Rightarrow> bool" where
  "isHex c \<longleftrightarrow> isHexLower c \<or> (65 \<le> (of_char c :: nat) \<and> of_char c \<le> (70 :: nat))"

definition isSpace :: "char \<Rightarrow> bool" where
  "isSpace c \<longleftrightarrow> of_char c \<in> {9, 10, 11, 12, 13, 32 :: nat}"

definition lowerChar :: "char \<Rightarrow> char" where
  "lowerChar c = (if 65 \<le> (of_char c :: nat) \<and> of_char c \<le> (90 :: nat)
     then char_of ((of_char c :: nat) + 32) else c)"

definition upperChar :: "char \<Rightarrow> char" where
  "upperChar c = (if 97 \<le> (of_char c :: nat) \<and> of_char c \<le> (122 :: nat)
     then char_of ((of_char c :: nat) - 32) else c)"

definition trimStart :: "string \<Rightarrow> string" where
  "trimStart s = dropWhile isSpace s"

definition trimEnd :: "string \<Rightarrow> string" where
  "trimEnd s = rev (dropWhile isSpace (rev s))"

definition trim :: "string \<Rightarrow> string" where
  "trim s = trimEnd (trimStart s)"

definition toLowerCase :: "string \<Rightarrow> string" where
  "toLowerCase s = map lowerChar s"

definition toUpperCase :: "string \<Rightarrow> string" where
  "toUpperCase s = map upperChar s"

fun splitOn :: "char \<Rightarrow> string \<Rightarrow> string list" where
  "splitOn c [] = [[]]"
| "splitOn c (x # xs) = (if x = c then [] # splitOn c xs
     else (case splitOn c xs of [] \<Rightarrow> [[x]] | w # ws \<Rightarrow> (x # w) # ws))"

fun joinWith :: "string \<Rightarrow> string list \<Rightarrow> string" where
  "joinWith sep [] = []"
| "joinWith sep [w] = w"
| "joinWith sep (w # ws) = w @ sep @ joinWith sep ws"

fun startsWith :: "string \<Rightarrow> string \<Rightarrow> bool" where
  "startsWith [] s = True"
| "startsWith (p # ps) [] = False"
| "startsWith (p # ps) (c # cs) = (p = c \<and> startsWith ps cs)"

fun hasSubstr :: "string \<Rightarrow> string \<Rightarrow> bool" where
  "hasSubstr p [] = (p = [])"
| "hasSubstr p (c # cs) = (startsWith p (c # cs) \<or> hasSubstr p cs)"

definition padStart :: "nat \<Rightarrow> char \<Rightarrow> string \<Rightarrow> string" where
  "padStart n c s = replicate (n - length s) c @ s"

definition padEnd :: "nat \<Rightarrow> char \<Rightarrow> string \<Rightarrow> string" where
  "padEnd n c s = s @ replicate (n - length s) c"

text \<open>A nullable string is truthy when it is neither null nor empty.\<close>

definition truthy :: "string option \<Rightarrow> bool" where
  "truthy x \<longleftrightarrow> x \<noteq> None \<and> x \<noteq> Some []"

definition normalizeText :: "string \<Rightarrow> string" where
  "normalizeText s = toLowerCase (trim s)"

subsection \<open>Decimal integers\<close>

definition digitChar :: "nat \<Rightarrow> char" where
  "digitChar d = char_of (48 + d)"

definition digitVal :: "char \<Rightarrow> nat" where
  "digitVal c = of_char c - 48"

fun showNat :: "nat \<Rightarrow> string" where
  "showNat n = (if n < 10 then [digitChar n] else showNat (n div 10) @ [digitChar (n mod 10)])"

declare showNat.simps [simp del]

definition showInt :: "int \<Rightarrow> string" where
  "showInt i = (if i < 0 then ''-'' @ showNat (nat (- i)) else showNat (nat i))"

definition readNat :: "string \<Rightarrow> nat" where
  "readNat s = foldl (\<lambda>n c. 10 * n + digitVal c) 0 s"

lemma of_char_digitChar [simp]: "d < 10 \<Longrightarrow> of_char (digitChar d) = 48 + d"
  by (simp add: digitChar_def)

lemma isDigit_digitChar [simp]: "d < 10 \<Longrightarrow> isDigit (digitChar d)"
  by (simp add: isDigit_def)

lemma digitVal_digitChar [simp]: "d < 10 \<Longrightarrow> digitVal (digitChar d) = d"
  by (simp add: digitVal_def)

lemma digitVal_less: "isDigit c \<Longrightarrow> digitVal c < 10"
  by (auto simp: digitVal_def isDigit_def)

lemma readNat_append: "readNat (xs @ [c]) = 10 * readNat xs + digitVal c"
  by (simp add: readNat_def)

lemma showNat_digits: "\<forall>c \<in> set (showNat n). isDigit c"
proof (induction n rule: showNat.induct)
  case (1 n)
  then show ?case by (cases "n < 10") (simp_all add: showNat.simps [of n])
qed

lemma showNat_nonempty [simp]: "showNat n \<noteq> []"
  by (subst showNat.simps) simp

lemma readNat_showNat [simp]: "readNat (showNat n) = n"
proof (induction n rule: showNat.induct)
  case (1 n)
  then show ?case
    by (cases "n < 10") (simp_all add: showNat.simps [of n] readNat_append, simp add: readNat_def)
qed

lemma length_showNat: "n < 10 ^ k \<Longrightarrow> 0 < k \<Longrightarrow> length (showNat n) \<le> k"
proof (induction n arbitrary: k rule: showNat.induct)
  case (1 n)
  show ?case
  proof (cases "n < 10")
    case True
    with "1.prems" show ?thesis by (simp add: showNat.simps [of n])
  next
    case False
    from "1.prems" obtain j where k: "k = Suc j" by (cases k) auto
    with False "1.prems"(1) have j: "0 < j" by (cases j) auto
    from k "1.prems"(1) have "n div 10 < 10 ^ j" by (simp add: less_mult_imp_div_less mult.commute)
    with "1.IH" [OF False] j have "length (showNat (n div 10)) \<le> j" by blast
    with False k show ?thesis by (simp add: showNat.simps [of n])
  qed
qed

lemma foldl_digits: "foldl (\<lambda>n c. 10 * n + digitVal c) a s = a * 10 ^ length s + readNat s"
proof (induction s rule: rev_induct)
  case Nil
  then show ?case by (simp add: readNat_def)
next
  case (snoc c s)
  then show ?case by (simp add: readNat_append algebra_simps)
qed

lemma readNat_append2: "readNat (xs @ ys) = readNat xs * 10 ^ length ys + readNat ys"
  using foldl_digits [of "readNat xs" ys] by (simp add: readNat_def)

lemma readNat_zeros [simp]: "readNat (replicate n (CHR ''0'')) = 0"
  by (induction n) (simp_all add: readNat_def digitVal_def)

lemma readNat_less: "\<forall>c \<in> set s. isDigit c \<Longrightarrow> readNat s < 10 ^ length s"
proof (induction s rule: rev_induct)
  case Nil
  then show ?case by (simp add: readNat_def)
next
  case (snoc c s)
  then have "readNat s < 10 ^ length s" "digitVal c < 10" by (auto intro: digitVal_less)
  then show ?case by (simp add: readNat_append)
qed

subsection \<open>Splitting and joining\<close>

lemma splitOn_nonempty [simp]: "splitOn c s \<noteq> []"
  by (induction s) (auto split: list.splits)

lemma splitOn_no_sep: "c \<notin> set s \<Longrightarrow> splitOn c s = [s]"
  by (induction s) auto

lemma splitOn_append: "c \<notin> set w \<Longrightarrow> splitOn c (w @ c # rest) = w # splitOn c rest"
  by (induction w) auto

lemma splitOn_parts: "w \<in> set (splitOn c s) \<Longrightarrow> c \<notin> set w"
proof (induction s arbitrary: w)
  case Nil
  then show ?case by simp
next
  case (Cons x xs)
  show ?case
  proof (cases "splitOn c xs")
    case Nil
    then show ?thesis by simp
  next
    case (Cons v vs)
    with Cons.prems Cons.IH show ?thesis by (auto split: if_splits)
  qed
qed

lemma joinWith_splitOn: "joinWith [c] (splitOn c s) = s"
proof (induction s)
  case Nil
  then show ?case by simp
next
  case (Cons x xs)
  then show ?case by (cases "splitOn c xs"; cases "tl (splitOn c xs)") auto
qed

lemma startsWith_append [simp]: "startsWith p (p @ s)"
  by (induction p) auto

lemma startsWith_iff: "startsWith p s \<longleftrightarrow> (\<exists>t. s = p @ t)"
  by (induction p s rule: startsWith.induct) auto

subsection \<open>Trimming and case\<close>

lemma dropWhile_hd: "dropWhile P s = x # xs \<Longrightarrow> \<not> P x"
  by (metis hd_dropWhile list.discI list.sel(1))

lemma trim_ends: "trim s \<noteq> [] \<Longrightarrow> \<not> isSpace (hd (trim s)) \<and> \<not> isSpace (last (trim s))"
proof -
  assume ne: "trim s \<noteq> []"
  let ?d = "dropWhile isSpace (rev (trimStart s))"
  have t: "trim s = rev ?d" by (simp add: trim_def trimEnd_def)
  with ne have d: "?d \<noteq> []" by auto
  then have "\<not> isSpace (hd ?d)" by (rule hd_dropWhile)
  with d t have l: "\<not> isSpace (last (trim s))" by (simp add: last_rev)
  have "\<exists>zs. rev (trimStart s) = zs @ ?d"
    by (metis takeWhile_dropWhile_id)
  then obtain zs where "rev (trimStart s) = zs @ ?d" ..
  then have "trimStart s = rev ?d @ rev zs" by (metis rev_append rev_rev_ident)
  then have split: "trimStart s = trim s @ rev zs" by (simp only: t)
  with ne have "hd (trimStart s) = hd (trim s)" and "trimStart s \<noteq> []"
    by (metis hd_append2, metis append_is_Nil_conv)
  with l show ?thesis by (metis hd_dropWhile trimStart_def)
qed

lemma trim_id: "s = [] \<or> (\<not> isSpace (hd s) \<and> \<not> isSpace (last s)) \<Longrightarrow> trim s = s"
proof (cases s)
  case (Cons x xs)
  assume "s = [] \<or> (\<not> isSpace (hd s) \<and> \<not> isSpace (last s))"
  with Cons have h: "\<not> isSpace x" and l: "\<not> isSpace (last s)" by auto
  have start: "trimStart s = s" using Cons h by (simp add: trimStart_def)
  obtain ys y where s: "s = ys @ [y]" using Cons by (metis list.discI rev_exhaust)
  with l have "dropWhile isSpace (rev s) = rev s" by simp
  with start show ?thesis by (simp add: trim_def trimEnd_def)
qed (simp add: trim_def trimStart_def trimEnd_def)

lemma trim_trim [simp]: "trim (trim s) = trim s"
  using trim_ends [of s] by (blast intro: trim_id)

lemma of_char_lowerChar:
  "(of_char (lowerChar c) :: nat) =
     (if 65 \<le> (of_char c :: nat) \<and> of_char c \<le> (90 :: nat) then of_char c + 32 else of_char c)"
  by (simp add: lowerChar_def)

lemma lowerChar_lowerChar [simp]: "lowerChar (lowerChar c) = lowerChar c"
  by (simp add: lowerChar_def)

lemma toLowerCase_idem [simp]: "toLowerCase (toLowerCase s) = toLowerCase s"
  by (simp add: toLowerCase_def)

lemma isSpace_lowerChar [simp]: "isSpace (lowerChar c) = isSpace c"
  by (auto simp: isSpace_def lowerChar_def)

lemma toLowerCase_trim: "toLowerCase (trim s) = trim (toLowerCase s)"
  by (simp add: toLowerCase_def trim_def trimEnd_def trimStart_def rev_map dropWhile_map comp_def)

lemma lowerChar_hex: "isHex c \<Longrightarrow> isHexLower (lowerChar c)"
  by (auto simp: isHex_def isHexLower_def isDigit_def of_char_lowerChar)

lemma lowerChar_hexLower [simp]: "isHexLower c \<Longrightarrow> lowerChar c = c"
  by (auto simp: isHexLower_def isDigit_def lowerChar_def)

end
