(* ===== verification/Values.thy ===== *)
theory Values
  imports Prelude
begin

text \<open>
  The value objects of \<open>src/backend/src/domain/value-objects\<close>: \<open>MacAddress\<close>,
  \<open>IpAddress\<close> and \<open>TcClassId\<close>. A value object with one private string is modelled by
  that string; \<open>create\<close> is the only way to obtain one, so it returns an error or the
  normalised string. \<open>isIP\<close> of \<open>node:net\<close> belongs to the language's library and is
  written out; the SHA-256 digest used by \<open>TcClassId.fromMac\<close> is a parameter.
\<close>

section \<open>MacAddress\<close>

text \<open>\<open>/^([0-9a-f]{2}:){5}[0-9a-f]{2}$/i\<close>\<close>

definition MAC_REGEX :: "string \<Rightarrow> bool" where
  "MAC_REGEX s \<longleftrightarrow> (let ps = splitOn (CHR '':'') s in
     length ps = 6 \<and> list_all (\<lambda>p. length p = 2 \<and> list_all isHex p) ps)"

definition MacAddress_create :: "string \<Rightarrow> js_error + string" where
  "MacAddress_create value =
     (let normalized = toLowerCase (trim value)
      in if \<not> MAC_REGEX normalized then Inl (Error (''Invalid MAC address: '' @ value))
         else Inr normalized)"

definition MacAddress_equals :: "string \<Rightarrow> string \<Rightarrow> bool" where
  "MacAddress_equals this other \<longleftrightarrow> this = other"

section \<open>IpAddress\<close>

text \<open>One decimal octet without leading zeros, as \<open>node:net\<close> accepts it.\<close>

definition isOctet :: "string \<Rightarrow> bool" where
  "isOctet p \<longleftrightarrow> p \<noteq> [] \<and> length p \<le> 3 \<and> list_all isDigit p \<and> readNat p \<le> 255 \<and>
     (length p = 1 \<or> hd p \<noteq> CHR ''0'')"

definition isIPv4 :: "string \<Rightarrow> bool" where
  "isIPv4 s \<longleftrightarrow> (let ps = splitOn (CHR ''.'') s in length ps = 4 \<and> list_all isOctet ps)"

definition isV6Seg :: "string \<Rightarrow> bool" where
  "isV6Seg p \<longleftrightarrow> p \<noteq> [] \<and> length p \<le> 4 \<and> list_all isHex p"

text \<open>
  The number of 16-bit groups that a colon-separated run of segments stands for; a dotted
  quad may end the run and counts for two.
\<close>

fun v6Groups :: "string list \<Rightarrow> nat option" where
  "v6Groups [] = Some 0"
| "v6Groups [p] = (if isV6Seg p then Some 1 else if isIPv4 p then Some 2 else None)"
| "v6Groups (p # ps) = (if isV6Seg p then map_option Suc (v6Groups ps) else None)"

fun cutAtDoubleColon :: "string \<Rightarrow> (string \<times> string) option" where
  "cutAtDoubleColon [] = None"
| "cutAtDoubleColon [c] = None"
| "cutAtDoubleColon (c # d # cs) =
     (if c = CHR '':'' \<and> d = CHR '':'' then Some ([], cs)
      else map_option (\<lambda>(a, b). (c # a, b)) (cutAtDoubleColon (d # cs)))"

definition v6Run :: "string \<Rightarrow> nat option" where
  "v6Run s = (if s = [] then Some 0 else v6Groups (splitOn (CHR '':'') s))"

definition isIPv6 :: "string \<Rightarrow> bool" where
  "isIPv6 s \<longleftrightarrow>
     (let addr = takeWhile (\<lambda>c. c \<noteq> CHR ''%'') s; zone = dropWhile (\<lambda>c. c \<noteq> CHR ''%'') s
      in (zone = [] \<or> (tl zone \<noteq> [] \<and> list_all (\<lambda>c. isDigit c \<or>
            (97 \<le> (of_char (lowerChar c) :: nat) \<and> of_char (lowerChar c) \<le> (122 :: nat)) \<or>
            c = CHR ''-'' \<or> c = CHR ''.'' \<or> c = CHR '':'') (tl zone))) \<and>
         (case cutAtDoubleColon addr of
            None \<Rightarrow> v6Run addr = Some 8
          | Some (l, r) \<Rightarrow>
              (case (v6Run l, v6Run r) of
                 (Some a, Some b) \<Rightarrow> a + b \<le> 7 \<and> \<not> (CHR ''.'' \<in> set l)
               | _ \<Rightarrow> False)))"

definition isIP :: "string \<Rightarrow> nat" where
  "isIP s = (if isIPv4 s then 4 else if isIPv6 s then 6 else 0)"

definition IpAddress_create :: "string \<Rightarrow> js_error + string" where
  "IpAddress_create value =
     (let normalized = trim value
      in if isIP normalized = 0 then Inl (Error (''Invalid IP address: '' @ value))
         else Inr normalized)"

definition IpAddress_equals :: "string \<Rightarrow> string \<Rightarrow> bool" where
  "IpAddress_equals this other \<longleftrightarrow> this = other"

lemma isIP_Nil [simp]: "isIP [] = 0"
  by code_simp

lemma IpAddress_create_normal:
  "IpAddress_create v = Inr ip \<Longrightarrow> trim ip = ip \<and> ip \<noteq> []"
  by (auto simp: IpAddress_create_def Let_def split: if_splits)

section \<open>TcClassId\<close>

datatype TcTrafficDirection = Download | Upload

fun directionText :: "TcTrafficDirection \<Rightarrow> string" where
  "directionText Download = ''download''"
| "directionText Upload = ''upload''"

text \<open>\<open>replace(/^0+(?=[0-9a-f])/i, "")\<close>: leading zeros go while a hex digit follows.\<close>

fun stripLeadingZeros :: "string \<Rightarrow> string" where
  "stripLeadingZeros (z # c # cs) =
     (if z = CHR ''0'' \<and> isHex c then stripLeadingZeros (c # cs) else z # c # cs)"
| "stripLeadingZeros s = s"

definition TcClassId_normalize :: "string \<Rightarrow> string" where
  "TcClassId_normalize classId =
     (let normalized = stripLeadingZeros (toLowerCase (trim classId))
      in if normalized = [] then ''0'' else normalized)"

definition hexVal :: "char \<Rightarrow> nat" where
  "hexVal c = (let v = of_char (lowerChar c) in if v \<le> 57 then v - 48 else v - 87)"

definition readHex :: "string \<Rightarrow> nat" where
  "readHex s = foldl (\<lambda>n c. 16 * n + hexVal c) 0 s"

definition hexChar :: "nat \<Rightarrow> char" where
  "hexChar d = (if d < 10 then char_of (48 + d) else char_of (87 + d))"

fun showHex :: "nat \<Rightarrow> string" where
  "showHex n = (if n < 16 then [hexChar n] else showHex (n div 16) @ [hexChar (n mod 16)])"

declare showHex.simps [simp del]

text \<open>\<open>Number.parseInt(s, 16)\<close> on text without sign or \<open>0x\<close> prefix; \<open>None\<close> is NaN.\<close>

definition parseIntHex :: "string \<Rightarrow> nat option" where
  "parseIntHex s = (let ds = takeWhile isHex s in if ds = [] then None else Some (readHex ds))"

definition TcClassId_fromMac :: "(string \<Rightarrow> string) \<Rightarrow> string \<Rightarrow> TcTrafficDirection \<Rightarrow> string" where
  "TcClassId_fromMac sha256hex mac direction =
     (let normalized = toLowerCase (trim mac);
          hash = sha256hex (directionText direction @ '':'' @ normalized);
          value = (case parseIntHex (take 4 hash) of None \<Rightarrow> 2 | Some v \<Rightarrow> if v = 0 then 2 else v);
          normalizedValue = (if value = 1 then 2 else value)
      in showHex normalizedValue)"

section \<open>Lemmas\<close>

lemma set_joinWith: "set (joinWith sep ps) \<subseteq> set sep \<union> \<Union> (set (map set ps))"
  by (induction sep ps rule: joinWith.induct) auto

lemma MAC_REGEX_chars:
  assumes "MAC_REGEX s"
  shows "\<forall>c \<in> set s. isHex c \<or> c = CHR '':''"
proof -
  let ?ps = "splitOn (CHR '':'') s"
  have "\<forall>p \<in> set ?ps. \<forall>c \<in> set p. isHex c"
    using assms by (auto simp: MAC_REGEX_def Let_def list_all_iff)
  moreover have "set s \<subseteq> set '':'' \<union> \<Union> (set (map set ?ps))"
    using set_joinWith [of "'':''" ?ps] by (simp only: joinWith_splitOn)
  ultimately show ?thesis by auto
qed

lemma isSpace_not_mac: "isHex c \<or> c = CHR '':'' \<Longrightarrow> \<not> isSpace c"
  by (auto simp: isHex_def isHexLower_def isDigit_def isSpace_def)

lemma MAC_REGEX_nonempty: "MAC_REGEX s \<Longrightarrow> s \<noteq> []"
  by (auto simp: MAC_REGEX_def Let_def)

lemma MAC_REGEX_trim: "MAC_REGEX s \<Longrightarrow> trim s = s"
  using MAC_REGEX_chars [of s] MAC_REGEX_nonempty [of s]
  by (intro trim_id) (metis hd_in_set last_in_set isSpace_not_mac)

lemma MacAddress_create_normal:
  "MacAddress_create v = Inr m \<Longrightarrow> MAC_REGEX m \<and> toLowerCase m = m \<and> trim m = m"
  by (auto simp: MacAddress_create_def Let_def MAC_REGEX_trim split: if_splits)

lemma MacAddress_create_idem:
  "MacAddress_create v = Inr m \<Longrightarrow> MacAddress_create m = Inr m"
  using MacAddress_create_normal [of v m] by (simp add: MacAddress_create_def Let_def)

lemma IpAddress_create_idem:
  "IpAddress_create v = Inr i \<Longrightarrow> IpAddress_create i = Inr i"
  by (auto simp: IpAddress_create_def Let_def split: if_splits)

lemma hexVal_less: "isHex c \<Longrightarrow> hexVal c < 16"
  by (auto simp: hexVal_def Let_def isHex_def isHexLower_def isDigit_def of_char_lowerChar)

lemma readHex_snoc: "readHex (s @ [c]) = 16 * readHex s + hexVal c"
  by (simp add: readHex_def)

lemma readHex_less: "list_all isHex s \<Longrightarrow> readHex s < 16 ^ length s"
proof (induction s rule: rev_induct)
  case Nil
  then show ?case by (simp add: readHex_def)
next
  case (snoc c s)
  then have "readHex s < 16 ^ length s" "hexVal c < 16" by (auto intro: hexVal_less)
  then show ?case by (simp add: readHex_snoc)
qed

lemma of_char_hexChar: "d < 16 \<Longrightarrow> (of_char (hexChar d) :: nat) = (if d < 10 then 48 + d else 87 + d)"
  by (simp add: hexChar_def)

lemma hexVal_hexChar [simp]: "d < 16 \<Longrightarrow> hexVal (hexChar d) = d"
  by (simp add: hexVal_def Let_def of_char_lowerChar of_char_hexChar)

lemma isHexLower_hexChar [simp]: "d < 16 \<Longrightarrow> isHexLower (hexChar d)"
  by (simp add: isHexLower_def isDigit_def of_char_hexChar)

lemma readHex_showHex [simp]: "readHex (showHex n) = n"
proof (induction n rule: showHex.induct)
  case (1 n)
  then show ?case
    by (cases "n < 16") (simp_all add: showHex.simps [of n] readHex_snoc, simp add: readHex_def)
qed

lemma showHex_lower: "\<forall>c \<in> set (showHex n). isHexLower c"
proof (induction n rule: showHex.induct)
  case (1 n)
  then show ?case by (cases "n < 16") (simp_all add: showHex.simps [of n])
qed

lemma hexChar_zero: "d < 16 \<Longrightarrow> hexChar d = CHR ''0'' \<longleftrightarrow> d = 0"
proof
  assume "d < 16" "hexChar d = CHR ''0''"
  then have "(of_char (hexChar d) :: nat) = 48" by simp
  with \<open>d < 16\<close> show "d = 0" by (simp add: of_char_hexChar split: if_splits)
qed (simp add: hexChar_def char_of_def bit_0)

lemma hd_showHex: "0 < n \<Longrightarrow> showHex n \<noteq> [] \<and> hd (showHex n) \<noteq> CHR ''0''"
proof (induction n rule: showHex.induct)
  case (1 n)
  show ?case
  proof (cases "n < 16")
    case True
    with "1.prems" show ?thesis by (simp add: showHex.simps [of n] hexChar_zero)
  next
    case False
    with "1.IH" have "showHex (n div 16) \<noteq> [] \<and> hd (showHex (n div 16)) \<noteq> CHR ''0''" by simp
    with False show ?thesis by (simp add: showHex.simps [of n])
  qed
qed

lemma stripLeadingZeros_id: "s = [] \<or> hd s \<noteq> CHR ''0'' \<Longrightarrow> stripLeadingZeros s = s"
  by (cases s rule: stripLeadingZeros.cases) auto

lemma map_lowerChar_hexLower: "\<forall>c \<in> set s. isHexLower c \<Longrightarrow> toLowerCase s = s"
  by (induction s) (auto simp: toLowerCase_def)

lemma trim_hexLower: "\<forall>c \<in> set s. isHexLower c \<Longrightarrow> trim s = s"
  by (rule trim_id) (metis hd_in_set last_in_set isHex_def isSpace_not_mac)

lemma TcClassId_normalize_showHex: "0 < n \<Longrightarrow> TcClassId_normalize (showHex n) = showHex n"
  using hd_showHex [of n] showHex_lower [of n]
  by (simp add: TcClassId_normalize_def Let_def map_lowerChar_hexLower trim_hexLower stripLeadingZeros_id)

lemma stripLeadingZeros_result:
  "stripLeadingZeros s = [] \<or> (\<exists>c cs. stripLeadingZeros s = c # cs \<and>
     (c = CHR ''0'' \<longrightarrow> cs = [] \<or> \<not> isHex (hd cs)))"
  by (induction s rule: stripLeadingZeros.induct) auto

lemma stripLeadingZeros_strip [simp]: "stripLeadingZeros (stripLeadingZeros s) = stripLeadingZeros s"
  by (induction s rule: stripLeadingZeros.induct) auto

lemma stripLeadingZeros_suffix: "\<exists>p. s = p @ stripLeadingZeros s"
proof (induction s rule: stripLeadingZeros.induct)
  case (1 z c cs)
  then show ?case by (auto) (metis append_Cons)
qed auto

lemma set_stripLeadingZeros: "set (stripLeadingZeros s) \<subseteq> set s"
  using stripLeadingZeros_suffix [of s] by (metis set_append sup_ge2)

lemma TcClassId_value_bounds:
  assumes "parseIntHex (take 4 h) = Some v"
  shows "v < 65536"
proof -
  let ?ds = "takeWhile isHex (take 4 h)"
  have "list_all isHex ?ds" by (simp add: list_all_iff) (meson set_takeWhileD)
  then have "readHex ?ds < 16 ^ length ?ds" by (rule readHex_less)
  also have "length ?ds \<le> 4" using length_takeWhile_le [of isHex "take 4 h"] by simp
  then have "(16::nat) ^ length ?ds \<le> 16 ^ 4" by (intro power_increasing) simp_all
  finally show ?thesis using assms by (auto simp: parseIntHex_def Let_def split: if_splits)
qed

section \<open>Properties\<close>

text \<open>
  C7. Every class id \<open>TcClassId.fromMac\<close> derives, whatever digest SHA-256 returns, is the
  hexadecimal text of a number between 2 and 65535 (0 and 1 stay reserved for the root) and is
  already in the normal form that \<open>TcClassId.normalize\<close> gives the ids read back from \<open>tc\<close>.
\<close>

theorem classId_in_range_and_normal:
  "\<exists>n. 2 \<le> n \<and> n \<le> 65535 \<and> TcClassId_fromMac sha256hex mac direction = showHex n \<and>
     TcClassId_normalize (TcClassId_fromMac sha256hex mac direction) =
       TcClassId_fromMac sha256hex mac direction"
proof -
  let ?h = "sha256hex (directionText direction @ '':'' @ toLowerCase (trim mac))"
  let ?v = "case parseIntHex (take 4 ?h) of None \<Rightarrow> 2 | Some v \<Rightarrow> if v = 0 then 2 else v"
  let ?n = "if ?v = 1 then 2 else ?v"
  have f: "TcClassId_fromMac sha256hex mac direction = showHex ?n"
    by (simp add: TcClassId_fromMac_def Let_def)
  have "2 \<le> ?n \<and> ?n \<le> 65535"
    using TcClassId_value_bounds [of ?h] by (auto split: option.splits)
  moreover from this have "TcClassId_normalize (showHex ?n) = showHex ?n"
    by (intro TcClassId_normalize_showHex) simp
  ultimately show ?thesis unfolding f by blast
qed

text \<open>
  C8. \<open>MacAddress.create\<close> accepts exactly the texts that normalise to six colon-separated
  hexadecimal pairs; what it returns is in normal form, so creating it again changes nothing and
  two spellings of one address become the same value.
\<close>

theorem macAddress_normal_form:
  "(case MacAddress_create v of
      Inl e \<Rightarrow> \<not> MAC_REGEX (toLowerCase (trim v)) \<and> e = Error (''Invalid MAC address: '' @ v)
    | Inr m \<Rightarrow> m = toLowerCase (trim v) \<and> MAC_REGEX m \<and> MacAddress_create m = Inr m)"
proof (cases "MacAddress_create v")
  case (Inl e)
  then show ?thesis by (auto simp: MacAddress_create_def Let_def split: if_splits)
next
  case (Inr m)
  with MacAddress_create_normal [OF Inr] MacAddress_create_idem [OF Inr] show ?thesis
    by (auto simp: MacAddress_create_def Let_def split: if_splits)
qed

end
