(* ===== verification/Entities.thy ===== *)
theory Entities
  imports Values Complex_Main
begin

text \<open>
  The entities of \<open>src/backend/src/domain\<close> and the interfaces of
  \<open>domain/repositories\<close> and \<open>application/enforcement\<close> the services are constructed with.

  An entity is a record with the source's fields (a prefix names the entity). An id, a
  \<open>bigint\<close>, or a point in time (milliseconds since the epoch) is an \<open>int\<close>; \<open>null\<close>
  and \<open>undefined\<close> are \<open>None\<close>. In a partial update a field is an \<open>option\<close> of the new
  value, so a nullable field has two layers: \<open>None\<close> leaves it, \<open>Some None\<close> writes null.
  An interface is a record of its operations over a state \<open>'s\<close>; an optional method
  (\<open>blockIp?\<close>) is an option.
\<close>

section \<open>Network observations\<close>

record DhcpLease =
  l_expiry :: rat
  l_mac :: string
  l_ip :: string
  l_hostname :: "string option"
  l_clientId :: "string option"

record NeighborEntry =
  n_ip :: string
  n_mac :: string
  n_state :: string

record CapturedIdentity =
  c_mac :: string
  c_ethernetSource :: "string option"
  c_sourceIp :: "string option"
  c_capturedAt :: int

record LastDhcpMetadata =
  dm_messageType :: "string option"
  dm_clientMac :: "string option"
  dm_ethernetSource :: "string option"
  dm_sourceIp :: "string option"
  dm_capturedAt :: int

datatype IdentitySource = DHCP | DHCP_CONFIRMED_PROXY | STATIC_ARP | PROXY_UNCONFIRMED
  | PROXY_ACCEPTED_BY_ADMIN

record ValidatedDeviceIdentity =
  v_mac :: string
  v_ip :: string
  v_hostname :: "string option"
  v_clientId :: "string option"
  v_neighborState :: string
  v_l2Visible :: bool
  v_proxyMac :: "string option"
  v_identityValidated :: bool
  v_identitySource :: IdentitySource
  v_deferred :: "bool option"

section \<open>Devices and policies\<close>

record Device =
  d_id :: int
  d_mac :: string
  d_ip :: "string option"
  d_hostname :: "string option"
  d_l2Visible :: bool
  d_proxyMac :: "string option"
  d_identityValidated :: bool
  d_identitySource :: IdentitySource
  d_firstSeen :: int
  d_lastSeen :: int

record DevicePolicy =
  p_id :: int
  p_deviceId :: int
  p_blocked :: bool
  p_downloadLimit :: "int option"
  p_uploadLimit :: "int option"
  p_quota :: "int option"
  p_quotaPeriod :: "string option"
  p_quotaAction :: "string option"
  p_quotaEnforcedAction :: "string option"
  p_profileId :: "int option"
  p_scheduleId :: "int option"

record PolicyPatch =
  pp_blocked :: "bool option"
  pp_downloadLimit :: "int option option"
  pp_uploadLimit :: "int option option"
  pp_quota :: "int option option"
  pp_quotaPeriod :: "string option option"
  pp_quotaAction :: "string option option"
  pp_quotaEnforcedAction :: "string option option"
  pp_profileId :: "int option option"
  pp_scheduleId :: "int option option"

definition noPatch :: PolicyPatch where
  "noPatch = \<lparr>pp_blocked = None, pp_downloadLimit = None, pp_uploadLimit = None,
     pp_quota = None, pp_quotaPeriod = None, pp_quotaAction = None,
     pp_quotaEnforcedAction = None, pp_profileId = None, pp_scheduleId = None\<rparr>"

record DeviceUpsert =
  du_mac :: string
  du_ip :: string
  du_hostname :: "string option"
  du_l2Visible :: "bool option"
  du_proxyMac :: "string option"
  du_identityValidated :: "bool option"
  du_identitySource :: "IdentitySource option"
  du_seenAt :: int

record DevicePatch =
  dp_ip :: "string option"
  dp_hostname :: "string option option"
  dp_l2Visible :: "bool option"
  dp_proxyMac :: "string option option"
  dp_identityValidated :: "bool option"
  dp_identitySource :: "IdentitySource option"
  dp_lastSeen :: "int option"

definition noDevicePatch :: DevicePatch where
  "noDevicePatch = \<lparr>dp_ip = None, dp_hostname = None, dp_l2Visible = None, dp_proxyMac = None,
     dp_identityValidated = None, dp_identitySource = None, dp_lastSeen = None\<rparr>"

record QuotaPeriodData =
  q_id :: int
  q_deviceId :: int
  q_periodType :: string
  q_periodStart :: int
  q_periodEnd :: int
  q_usedDownloadBytes :: int
  q_usedUploadBytes :: int

record TrafficUsage =
  u_downloadBytes :: int
  u_uploadBytes :: int

section \<open>Interfaces\<close>

record 's DeviceRepository =
  dr_findByMac :: "string \<Rightarrow> ('s, Device option) prog"
  dr_findById :: "int \<Rightarrow> ('s, Device option) prog"
  dr_findAll :: "('s, Device list) prog"
  dr_upsert :: "DeviceUpsert \<Rightarrow> ('s, Device) prog"
  dr_create :: "string \<Rightarrow> string \<Rightarrow> string option \<Rightarrow> ('s, Device) prog"
  dr_update :: "int \<Rightarrow> DevicePatch \<Rightarrow> ('s, Device) prog"

record 's DevicePolicyRepository =
  pr_findByDeviceId :: "int \<Rightarrow> ('s, DevicePolicy option) prog"
  pr_upsert :: "int \<Rightarrow> PolicyPatch \<Rightarrow> ('s, DevicePolicy) prog"

record 's BlockedDeviceRepository =
  br_recordBlock :: "int \<Rightarrow> string option \<Rightarrow> string option \<Rightarrow> string option \<Rightarrow> ('s, unit) prog"
  br_releaseBlock :: "int \<Rightarrow> ('s, unit) prog"
  br_activeIps :: "int \<Rightarrow> ('s, string list) prog"
  br_activeBindings :: "('s, (int \<times> string) list) prog"
  br_releaseIp :: "(int \<Rightarrow> string \<Rightarrow> string \<Rightarrow> ('s, unit) prog) option"

record 's DeviceBlocker =
  b_block :: "string \<Rightarrow> string option \<Rightarrow> ('s, unit) prog"
  b_unblock :: "string \<Rightarrow> string option \<Rightarrow> ('s, unit) prog"
  b_blockIp :: "(string \<Rightarrow> ('s, unit) prog) option"
  b_unblockIp :: "(string \<Rightarrow> ('s, unit) prog) option"
  b_getBlockedMacs :: "('s, string list) prog option"
  b_getBlockedIps :: "('s, string list) prog option"

record 's TrafficEnforcer =
  te_initializeBaseState :: "('s, unit) prog"
  te_clearBaseState :: "('s, unit) prog"
  te_limitDownload :: "Device \<Rightarrow> int \<Rightarrow> ('s, unit) prog"
  te_limitUpload :: "Device \<Rightarrow> int \<Rightarrow> ('s, unit) prog"
  te_limitDownloadBits :: "Device \<Rightarrow> int \<Rightarrow> ('s, unit) prog"
  te_limitUploadBits :: "Device \<Rightarrow> int \<Rightarrow> ('s, unit) prog"
  te_clearDownload :: "Device \<Rightarrow> ('s, unit) prog"
  te_clearUpload :: "Device \<Rightarrow> ('s, unit) prog"
  te_reconcileTrafficState :: "string list \<Rightarrow> ('s, unit) prog"
  te_reconcileDownloadState :: "string list \<Rightarrow> ('s, unit) prog"
  te_reconcileUploadState :: "string list \<Rightarrow> ('s, unit) prog"

text \<open>One record of the audit trail of \<open>OperationsRepository\<close>; details are field and text.\<close>

record AuditData =
  a_action :: string
  a_mac :: "string option"
  a_deviceId :: "int option"
  a_actor :: "string option"
  a_details :: "(string \<times> string) list"

record 's QuotaPeriodRepository =
  qr_findCurrent :: "int \<Rightarrow> string \<Rightarrow> int \<Rightarrow> ('s, QuotaPeriodData option) prog"
  qr_create :: "int \<Rightarrow> string \<Rightarrow> int \<Rightarrow> int \<Rightarrow> ('s, QuotaPeriodData) prog"
  qr_reset :: "int \<Rightarrow> int \<Rightarrow> int \<Rightarrow> ('s, QuotaPeriodData) prog"
  qr_updateUsage :: "int \<Rightarrow> int \<Rightarrow> int \<Rightarrow> ('s, QuotaPeriodData) prog"
  qr_incrementUsage :: "int \<Rightarrow> int \<Rightarrow> int \<Rightarrow> ('s, QuotaPeriodData) prog"

end
