(* ===== verification/Ipv4.thy ===== *)
theory Ipv4
  imports Entities "HOL-Library.Word"
begin

text \<open>
  IPv4 arithmetic on 32-bit words: the helpers of \<open>DhcpNeighborIdentityValidator.ts\<close>
  (\<open>ipToNumber\<close>, \<open>parseCidr\<close>, \<open>isIpInSubnet\<close>) and those of \<open>SetupService.ts\<close>
  (\<open>networkOf\<close>, \<open>subnetRange\<close>, \<open>usableHost\<close>, \<open>deriveGateway\<close>,
  \<open>proposeClientSubnets\<close>). \<open>x >>> 0\<close> reads a JavaScript number as an unsigned 32-bit
  word, so the code's bit operations are the word operations.
\<close>

unbundle bit_operations_syntax

section \<open>Number(text)\<close>

fun takeSign :: "string \<Rightarrow> int \<times> string" where
  "takeSign [] = (1, [])"
| "takeSign (c # cs) = (if c = CHR ''+'' then (1, cs) else if c = CHR ''-'' then (-1, cs) else (1, c # cs))"

definition decimalLiteral :: "string \<Rightarrow> rat option" where
  "decimalLiteral s =
     (let i = takeWhile isDigit s; r = dropWhile isDigit s;
          (f, e) = (case r of [] \<Rightarrow> ([], []) | c # cs \<Rightarrow>
            if c = CHR ''.'' then (takeWhile isDigit cs, dropWhile isDigit cs) else ([], r));
          mantissa = of_nat (readNat (i @ f)) / 10 ^ length f
      in if i = [] \<and> f = [] then None
         else case e of [] \<Rightarrow> Some mantissa | c # cs \<Rightarrow>
           if c \<noteq> CHR ''e'' \<and> c \<noteq> CHR ''E'' then None
           else let (sg, ds) = takeSign cs
                in if ds = [] \<or> \<not> list_all isDigit ds then None
                   else Some (if sg = 1 then mantissa * 10 ^ readNat ds
                              else mantissa / 10 ^ readNat ds))"

definition readBase :: "nat \<Rightarrow> string \<Rightarrow> nat option" where
  "readBase b s = (if s \<noteq> [] \<and> list_all (\<lambda>c. isHex c \<and> hexVal c < b) s
     then Some (foldl (\<lambda>n c. b * n + hexVal c) 0 s) else None)"

text \<open>The finite value of \<open>Number(s)\<close>, exactly; \<open>None\<close> is NaN or an infinity.\<close>

definition jsNumber :: "string \<Rightarrow> rat option" where
  "jsNumber s =
     (let t = trim s; p = toLowerCase (take 2 t)
      in if t = [] then Some 0
         else if p = ''0x'' then map_option of_nat (readBase 16 (drop 2 t))
         else if p = ''0o'' then map_option of_nat (readBase 8 (drop 2 t))
         else if p = ''0b'' then map_option of_nat (readBase 2 (drop 2 t))
         else let (sg, u) = takeSign t in map_option (\<lambda>r. of_int sg * r) (decimalLiteral u))"

definition isInteger :: "rat \<Rightarrow> bool" where
  "isInteger r \<longleftrightarrow> of_int \<lfloor>r\<rfloor> = r"

section \<open>Addresses of the discovery code\<close>

definition jsOctet :: "rat option \<Rightarrow> bool" where
  "jsOctet p \<longleftrightarrow> (case p of None \<Rightarrow> False | Some r \<Rightarrow> isInteger r \<and> 0 \<le> r \<and> r \<le> 255)"

definition isValidIpv4 :: "string \<Rightarrow> bool" where
  "isValidIpv4 ip \<longleftrightarrow> (let parts = map jsNumber (splitOn (CHR ''.'') ip)
     in length parts = 4 \<and> list_all jsOctet parts)"

definition quad :: "int \<Rightarrow> int \<Rightarrow> int \<Rightarrow> int \<Rightarrow> 32 word" where
  "quad a b c d = push_bit 24 (word_of_int a) + push_bit 16 (word_of_int b)
     + push_bit 8 (word_of_int c) + word_of_int d"

definition ipToNumber :: "string \<Rightarrow> 32 word option" where
  "ipToNumber ip =
     (let parts = map jsNumber (splitOn (CHR ''.'') (trim ip))
      in if length parts \<noteq> 4 \<or> \<not> list_all jsOctet parts then None
         else let v = (\<lambda>i. \<lfloor>the (parts ! i)\<rfloor>) in Some (quad (v 0) (v 1) (v 2) (v 3)))"

definition maskForPrefix :: "nat \<Rightarrow> 32 word" where
  "maskForPrefix prefix = (if prefix = 0 then 0 else push_bit (32 - prefix) (-1))"

definition parseCidr :: "string \<Rightarrow> (32 word \<times> 32 word) option" where
  "parseCidr cidr =
     (case splitOn (CHR ''/'') (trim cidr) of
        ip # prefixString # _ \<Rightarrow>
          if ip = [] \<or> prefixString = [] then None
          else (case jsNumber prefixString of
              None \<Rightarrow> None
            | Some prefix \<Rightarrow>
                if \<not> isInteger prefix \<or> prefix < 0 \<or> 32 < prefix then None
                else (case ipToNumber ip of
                    None \<Rightarrow> None
                  | Some ipNumber \<Rightarrow>
                      let netmask = maskForPrefix (nat \<lfloor>prefix\<rfloor>) in Some (ipNumber AND netmask, netmask)))
      | _ \<Rightarrow> None)"

definition isIpInSubnet :: "string \<Rightarrow> string \<Rightarrow> bool" where
  "isIpInSubnet ip subnet \<longleftrightarrow>
     (case (ipToNumber ip, parseCidr subnet) of
        (Some ipNumber, Some (network, netmask)) \<Rightarrow> ipNumber AND netmask = network
      | _ \<Rightarrow> False)"

section \<open>Addresses of the setup service\<close>

definition shortDigits :: "string \<Rightarrow> bool" where
  "shortDigits p \<longleftrightarrow> p \<noteq> [] \<and> length p \<le> 3 \<and> list_all isDigit p"

definition IPV4_RE :: "string \<Rightarrow> bool" where
  "IPV4_RE s \<longleftrightarrow> (let ps = splitOn (CHR ''.'') s in length ps = 4 \<and> list_all shortDigits ps)"

definition setup_ipToNumber :: "string \<Rightarrow> 32 word option" where
  "setup_ipToNumber ip =
     (if \<not> IPV4_RE ip then None
      else let parts = map readNat (splitOn (CHR ''.'') ip)
           in if \<not> list_all (\<lambda>n. n \<le> 255) parts then None
              else Some (push_bit 24 (of_nat (parts ! 0)) OR push_bit 16 (of_nat (parts ! 1))
                OR push_bit 8 (of_nat (parts ! 2)) OR of_nat (parts ! 3)))"

definition numberToIp :: "32 word \<Rightarrow> string" where
  "numberToIp value =
     joinWith ''.'' (map (\<lambda>k. showNat (unat (drop_bit k value AND 255))) [24, 16, 8, 0])"

text \<open>\<open>CIDR_RE\<close>, with its two groups.\<close>

definition CIDR_RE :: "string \<Rightarrow> (string \<times> string) option" where
  "CIDR_RE s = (case splitOn (CHR ''/'') s of
     [ip, p] \<Rightarrow> if IPV4_RE ip \<and> p \<noteq> [] \<and> length p \<le> 2 \<and> list_all isDigit p then Some (ip, p) else None
   | _ \<Rightarrow> None)"

definition networkOf :: "string \<Rightarrow> string option" where
  "networkOf cidr =
     (case CIDR_RE cidr of None \<Rightarrow> None
      | Some (a, p) \<Rightarrow>
          let prefix = readNat p
          in case setup_ipToNumber a of None \<Rightarrow> None
             | Some ip \<Rightarrow> if 32 < prefix then None
                 else Some (numberToIp (ip AND maskForPrefix prefix) @ ''/'' @ showNat prefix))"

definition prefixOf :: "string \<Rightarrow> nat option" where
  "prefixOf cidr =
     (case CIDR_RE cidr of None \<Rightarrow> None
      | Some (_, p) \<Rightarrow> if readNat p \<le> 32 then Some (readNat p) else None)"

definition subnetRange :: "string \<Rightarrow> (int \<times> int) option" where
  "subnetRange cidr =
     (case networkOf cidr of None \<Rightarrow> None
      | Some normalized \<Rightarrow> (case CIDR_RE normalized of None \<Rightarrow> None
          | Some (a, p) \<Rightarrow> (case setup_ipToNumber a of None \<Rightarrow> None
              | Some base \<Rightarrow>
                  let prefix = readNat p; size = (if prefix = 32 then 1 else 2 ^ (32 - prefix))
                  in Some (uint base, uint base + size - 1))))"

definition subnetOverlaps :: "string \<Rightarrow> string \<Rightarrow> bool" where
  "subnetOverlaps a b \<longleftrightarrow>
     (case (subnetRange a, subnetRange b) of
        (Some ar, Some br) \<Rightarrow> fst ar \<le> snd br \<and> fst br \<le> snd ar
      | _ \<Rightarrow> False)"

definition subnetOverlapsAny :: "string \<Rightarrow> string list \<Rightarrow> bool" where
  "subnetOverlapsAny candidate occupied \<longleftrightarrow> list_ex (subnetOverlaps candidate) occupied"

definition usableHost :: "string \<Rightarrow> string \<Rightarrow> bool" where
  "usableHost ip subnet \<longleftrightarrow>
     (case (setup_ipToNumber ip, subnetRange subnet, prefixOf subnet) of
        (Some v, Some rng, Some prefix) \<Rightarrow>
          if 31 \<le> prefix then False else fst rng < uint v \<and> uint v < snd rng
      | _ \<Rightarrow> False)"

definition deriveGateway :: "string list \<Rightarrow> string \<Rightarrow> string option" where
  "deriveGateway addresses subnet =
     (case subnetRange subnet of None \<Rightarrow> None
      | Some rng \<Rightarrow>
          let hosts = filter (\<lambda>ip. usableHost ip subnet)
                (map (\<lambda>address. hd (splitOn (CHR ''/'') address)) addresses);
              existing = sort_key (\<lambda>ip. - (case setup_ipToNumber ip of None \<Rightarrow> 0 | Some v \<Rightarrow> uint v)) hosts
          in if existing \<noteq> [] then Some (hd existing)
             else let candidate = numberToIp (word_of_int (fst rng + 1))
                  in if usableHost candidate subnet then Some candidate else None)"

definition proposeClientSubnets :: "string list \<Rightarrow> string list" where
  "proposeClientSubnets occupied =
     filter (\<lambda>candidate. \<not> subnetOverlapsAny candidate occupied)
       [''10.0.0.0/24'', ''10.77.0.0/24'', ''10.200.0.0/24'', ''172.20.0.0/24'', ''172.30.0.0/24'',
        ''172.31.0.0/24'', ''192.168.50.0/24'', ''192.168.60.0/24'', ''192.168.100.0/24'',
        ''192.168.200.0/24'']"

section \<open>Lemmas\<close>

lemma bit_maskForPrefix:
  "p \<le> 32 \<Longrightarrow> bit (maskForPrefix p) n \<longleftrightarrow> 32 - p \<le> n \<and> n < 32"
  by (auto simp: maskForPrefix_def bit_not_iff bit_mask_iff possible_bit_word)

text \<open>Masking agrees exactly when the top \<open>p\<close> bits agree.\<close>

lemma mask_agree:
  assumes "p \<le> 32"
  shows "a AND maskForPrefix p = b AND maskForPrefix p \<longleftrightarrow> drop_bit (32 - p) a = drop_bit (32 - p) b"
proof
  assume eq: "a AND maskForPrefix p = b AND maskForPrefix p"
  show "drop_bit (32 - p) a = drop_bit (32 - p) b"
  proof (rule bit_word_eqI)
    fix n :: nat assume "n < LENGTH(32)"
    have "bit (a AND maskForPrefix p) (32 - p + n) = bit (b AND maskForPrefix p) (32 - p + n)"
      by (simp only: eq)
    moreover have "\<not> 32 - p + n < 32 \<Longrightarrow> \<not> bit (x :: 32 word) (32 - p + n)" for x
      by (auto dest: bit_imp_le_length)
    ultimately show "bit (drop_bit (32 - p) a) n = bit (drop_bit (32 - p) b) n"
      using assms by (cases "32 - p + n < 32") (auto simp: bit_and_iff bit_maskForPrefix bit_drop_bit_eq)
  qed
next
  assume eq: "drop_bit (32 - p) a = drop_bit (32 - p) b"
  show "a AND maskForPrefix p = b AND maskForPrefix p"
  proof (rule bit_word_eqI)
    fix n :: nat assume "n < LENGTH(32)"
    have "bit a n = bit b n" if "32 - p \<le> n"
    proof -
      have "bit (drop_bit (32 - p) a) (n - (32 - p)) = bit (drop_bit (32 - p) b) (n - (32 - p))"
        by (simp only: eq)
      with that show ?thesis by (simp add: bit_drop_bit_eq)
    qed
    then show "bit (a AND maskForPrefix p) n = bit (b AND maskForPrefix p) n"
      using assms by (auto simp: bit_and_iff bit_maskForPrefix)
  qed
qed

lemma isIpInSubnet_iff:
  assumes "ipToNumber ip = Some n" "ipToNumber net = Some m" "jsNumber ps = Some (of_nat p)" "p \<le> 32"
    and "CHR ''/'' \<notin> set net" "CHR ''/'' \<notin> set ps" "trim (net @ ''/'' @ ps) = net @ ''/'' @ ps"
    and "net \<noteq> []" "ps \<noteq> []"
  shows "isIpInSubnet ip (net @ ''/'' @ ps) \<longleftrightarrow> drop_bit (32 - p) n = drop_bit (32 - p) m"
proof -
  have "splitOn (CHR ''/'') (net @ ''/'' @ ps) = [net, ps]"
    using assms by (simp add: splitOn_append splitOn_no_sep)
  then have "parseCidr (net @ ''/'' @ ps) = Some (m AND maskForPrefix p, maskForPrefix p)"
    using assms by (simp add: parseCidr_def isInteger_def Let_def)
  then show ?thesis using assms by (simp add: isIpInSubnet_def mask_agree)
qed

subsection \<open>Printing and reading addresses\<close>

lemma splitOn_joinWith:
  "ws \<noteq> [] \<Longrightarrow> \<forall>w \<in> set ws. c \<notin> set w \<Longrightarrow> splitOn c (joinWith [c] ws) = ws"
proof (induction "[c]" ws rule: joinWith.induct)
  case (3 w v ws)
  then show ?case by (simp add: splitOn_append)
qed (simp_all add: splitOn_no_sep)

lemma and_255: "w AND 255 = take_bit 8 (w :: 32 word)"
proof -
  have "(255 :: 32 word) = mask 8" by (simp add: mask_eq_exp_minus_1)
  then show ?thesis by (simp only: take_bit_eq_mask)
qed

lemma byte_less: "unat (w AND 255 :: 32 word) < 256"
proof -
  have "unat (take_bit 8 w) = take_bit 8 (unat w)" by (simp add: unsigned_take_bit_eq)
  also have "\<dots> < 2 ^ 8" by (rule take_bit_nat_less_exp)
  finally show ?thesis by (simp add: and_255)
qed

lemma numberToIp_bytes:
  "push_bit 24 (drop_bit 24 v AND 255) OR push_bit 16 (drop_bit 16 v AND 255)
     OR push_bit 8 (drop_bit 8 v AND 255) OR (drop_bit 0 v AND 255) = (v :: 32 word)"
proof (rule bit_word_eqI)
  fix n :: nat assume "n < LENGTH(32)"
  then consider "n < 8" | "8 \<le> n" "n < 16" | "16 \<le> n" "n < 24" | "24 \<le> n" "n < 32" by fastforce
  then show "bit (push_bit 24 (drop_bit 24 v AND 255) OR push_bit 16 (drop_bit 16 v AND 255)
     OR push_bit 8 (drop_bit 8 v AND 255) OR (drop_bit 0 v AND 255)) n = bit v n"
    by cases (auto simp: and_255 bit_or_iff bit_push_bit_iff bit_take_bit_iff bit_drop_bit_eq)
qed

lemma byte_text:
  assumes "n < 256"
  shows "CHR ''.'' \<notin> set (showNat n)" and "shortDigits (showNat n)"
  using showNat_digits [of n] length_showNat [of n 3] assms
  by (auto simp: isDigit_def shortDigits_def list_all_iff)

lemma splitOn_numberToIp:
  "splitOn (CHR ''.'') (numberToIp v) = map (\<lambda>k. showNat (unat (drop_bit k v AND 255))) [24, 16, 8, 0]"
  unfolding numberToIp_def using byte_text(1) byte_less by (intro splitOn_joinWith) auto

lemma IPV4_RE_numberToIp [simp]: "IPV4_RE (numberToIp v)"
  using byte_text(2) byte_less by (simp add: IPV4_RE_def splitOn_numberToIp Let_def)

lemma setup_ipToNumber_numberToIp [simp]: "setup_ipToNumber (numberToIp v) = Some v"
proof -
  have "unat (w AND 255 :: 32 word) \<le> 255" for w using byte_less [of w] by linarith
  then show ?thesis
    using numberToIp_bytes [of v]
    by (simp add: setup_ipToNumber_def splitOn_numberToIp Let_def)
qed

lemma prefix_text:
  assumes "p \<le> 32"
  shows "showNat p \<noteq> []" "length (showNat p) \<le> 2" "list_all isDigit (showNat p)"
    "CHR ''/'' \<notin> set (showNat p)"
  using showNat_digits [of p] length_showNat [of p 2] assms
  by (auto simp: isDigit_def list_all_iff)

lemma no_slash_numberToIp: "CHR ''/'' \<notin> set (numberToIp v)"
proof -
  have "\<forall>c \<in> set (numberToIp v). isDigit c \<or> c = CHR ''.''"
    using showNat_digits by (auto simp: numberToIp_def)
  then show ?thesis by (auto simp: isDigit_def)
qed

lemma CIDR_RE_print:
  "p \<le> 32 \<Longrightarrow> CIDR_RE (numberToIp v @ ''/'' @ showNat p) = Some (numberToIp v, showNat p)"
  using prefix_text [of p] no_slash_numberToIp [of v]
  by (simp add: CIDR_RE_def splitOn_append splitOn_no_sep)

lemma networkOf_print:
  "p \<le> 32 \<Longrightarrow> networkOf (numberToIp v @ ''/'' @ showNat p) =
     Some (numberToIp (v AND maskForPrefix p) @ ''/'' @ showNat p)"
  by (simp add: networkOf_def CIDR_RE_print del: append.simps)

lemma networkOfE:
  assumes "networkOf c = Some n"
  obtains v p where "p \<le> 32" "n = numberToIp (v AND maskForPrefix p) @ ''/'' @ showNat p"
    "prefixOf c = Some p"
  using assms by (auto simp: networkOf_def prefixOf_def Let_def split: option.splits if_splits)

lemma networkOf_idem: "networkOf c = Some n \<Longrightarrow> networkOf n = Some n"
  by (erule networkOfE) (simp add: networkOf_print and.assoc del: append.simps)

lemma mask_add:
  assumes "p \<le> 32"
  shows "uint (v AND maskForPrefix p) + 2 ^ (32 - p) \<le> 2 ^ 32"
proof -
  let ?b = "v AND maskForPrefix p" and ?k = "32 - p"
  have "take_bit ?k ?b = 0"
    by (rule bit_word_eqI) (use assms in \<open>auto simp: bit_take_bit_iff bit_and_iff bit_maskForPrefix\<close>)
  then have "uint ?b mod 2 ^ ?k = 0"
    by (metis take_bit_eq_mod unsigned_take_bit_eq unsigned_0)
  then obtain q where q: "uint ?b = 2 ^ ?k * q" by (auto simp: mod_eq_0_iff_dvd dvd_def)
  have "uint ?b < 2 ^ 32" using uint_lt2p [of ?b] by simp
  also have "(2::int) ^ 32 = 2 ^ ?k * 2 ^ p" using assms by (simp flip: power_add)
  finally have "q < 2 ^ p" using q by simp
  then have "2 ^ ?k * (q + 1) \<le> 2 ^ ?k * (2 ^ p :: int)" by (intro mult_left_mono) simp_all
  then show ?thesis using q \<open>(2::int) ^ 32 = 2 ^ ?k * 2 ^ p\<close> by (simp add: algebra_simps)
qed

lemma subnetRangeE:
  assumes "subnetRange c = Some r"
  obtains v p where "p \<le> 32" "prefixOf c = Some p"
    "fst r = uint (v AND maskForPrefix p)" "snd r = uint (v AND maskForPrefix p) + 2 ^ (32 - p) - 1"
    "networkOf c = Some (numberToIp (v AND maskForPrefix p) @ ''/'' @ showNat p)"
proof -
  from assms obtain n where n: "networkOf c = Some n" by (auto simp: subnetRange_def split: option.splits)
  then obtain v p where p: "p \<le> 32" "n = numberToIp (v AND maskForPrefix p) @ ''/'' @ showNat p"
    "prefixOf c = Some p" by (rule networkOfE)
  with n assms show ?thesis
    by (intro that [of p v]) (auto simp: subnetRange_def CIDR_RE_print Let_def simp del: append.simps split: if_splits)
qed

lemma deriveGateway_usable:
  assumes "deriveGateway addresses subnet = Some g"
  shows "usableHost g subnet"
proof -
  obtain rng where r: "subnetRange subnet = Some rng"
    using assms by (auto simp: deriveGateway_def split: option.splits)
  let ?hosts = "filter (\<lambda>ip. usableHost ip subnet) (map (\<lambda>address. hd (splitOn (CHR ''/'') address)) addresses)"
  let ?sorted = "sort_key (\<lambda>ip. - (case setup_ipToNumber ip of None \<Rightarrow> 0 | Some v \<Rightarrow> uint v)) ?hosts"
  have "set ?sorted = set ?hosts" by simp
  then have "?sorted \<noteq> [] \<Longrightarrow> usableHost (hd ?sorted) subnet"
    by (metis (no_types, lifting) mem_Collect_eq hd_in_set set_filter)
  with assms r show ?thesis by (auto simp: deriveGateway_def Let_def split: if_splits)
qed

text \<open>A gateway is found for every well-formed subnet with room for hosts.\<close>

lemma deriveGateway_total:
  assumes "prefixOf subnet = Some p" "p < 31" "subnetRange subnet = Some r"
  shows "deriveGateway addresses subnet \<noteq> None"
proof -
  obtain v where v: "fst r = uint (v AND maskForPrefix p)" "snd r = fst r + 2 ^ (32 - p) - 1"
    using assms by (metis option.inject subnetRangeE)
  have "(2::int) ^ 2 \<le> 2 ^ (32 - p)" using assms(2) by (intro power_increasing) simp_all
  moreover have "fst r + 2 ^ (32 - p) \<le> 2 ^ 32" using mask_add [of p v] v assms(2) by simp
  moreover have "0 \<le> fst r" using v by simp
  ultimately have "0 \<le> fst r + 1" "fst r + 1 < 2 ^ LENGTH(32)" and less: "fst r + 1 < snd r"
    using v(2) by simp_all
  then have "uint (word_of_int (fst r + 1) :: 32 word) = fst r + 1"
    by (simp only: uint_word_of_int_eq take_bit_int_eq_self)
  with less have "usableHost (numberToIp (word_of_int (fst r + 1))) subnet"
    using assms by (simp add: usableHost_def)
  with assms show ?thesis by (simp add: deriveGateway_def Let_def)
qed

end
