(* ===== verification/Identity.thy ===== *)
theory Identity
  imports Ipv4
begin

text \<open>
  Device identity: \<open>domain/services/IdentityStateReconciler.ts\<close>, the two validators of
  \<open>infrastructure/network\<close>, \<open>application/devices/DeviceDiscoveryService.ts\<close> and the
  observation counter of \<open>PrismaNeighborObservationRepository.ts\<close>. The clock is an
  argument where the code calls \<open>Date.now()\<close>.
\<close>

section \<open>Merging an observation with the persisted identity\<close>

definition positiveIdentityObservation :: "ValidatedDeviceIdentity \<Rightarrow> bool" where
  "positiveIdentityObservation observed \<longleftrightarrow>
     (v_identitySource observed = DHCP \<and> v_l2Visible observed) \<or>
     v_identitySource observed = DHCP_CONFIRMED_PROXY \<or>
     v_identitySource observed = STATIC_ARP"

definition reconcileIdentityObservation ::
  "Device option \<Rightarrow> ValidatedDeviceIdentity \<Rightarrow> ValidatedDeviceIdentity" where
  "reconcileIdentityObservation existing0 observed =
     (case existing0 of None \<Rightarrow> observed
      | Some existing \<Rightarrow>
     (let confirmedProxy = (d_identitySource existing = DHCP_CONFIRMED_PROXY);
          acceptedProxy = (d_identitySource existing = PROXY_ACCEPTED_BY_ADMIN);
          weakObservation = (v_identitySource observed = PROXY_UNCONFIRMED);
          positive = positiveIdentityObservation observed;
          sameProxy = (truthy (d_proxyMac existing) \<and> truthy (v_proxyMac observed) \<and>
             toLowerCase (the (d_proxyMac existing)) = toLowerCase (the (v_proxyMac observed)))
      in if (confirmedProxy \<or> acceptedProxy) \<and> (\<not> positive \<or> weakObservation) then
           observed\<lparr>v_deferred := None,
             v_mac := d_mac existing,
             v_identitySource := d_identitySource existing,
             v_identityValidated := d_identityValidated existing,
             v_l2Visible := v_l2Visible observed,
             v_proxyMac := (if truthy (v_proxyMac observed) then v_proxyMac observed
                            else d_proxyMac existing)\<rparr>
         else if d_identityValidated existing \<and> sameProxy \<and> \<not> positive then
           observed\<lparr>v_deferred := None,
             v_mac := d_mac existing,
             v_identitySource := d_identitySource existing,
             v_identityValidated := True,
             v_l2Visible := v_l2Visible observed,
             v_proxyMac := (case d_proxyMac existing of Some m \<Rightarrow> Some m
                            | None \<Rightarrow> v_proxyMac observed)\<rparr>
         else observed))"

section \<open>The default validator\<close>

definition defaultIdentityStep :: "(string \<times> DhcpLease) list \<Rightarrow> NeighborEntry \<Rightarrow>
    (string \<times> ValidatedDeviceIdentity) list \<Rightarrow> (string \<times> ValidatedDeviceIdentity) list" where
  "defaultIdentityStep leaseByMac neighbor validated =
     (let mac = normalizeText (n_mac neighbor); lease = map_of leaseByMac mac
      in if map_of validated mac \<noteq> None then validated
         else AList.update mac
           \<lparr>v_mac = mac, v_ip = n_ip neighbor, v_hostname = Option.bind lease l_hostname,
            v_clientId = Option.bind lease l_clientId, v_neighborState = n_state neighbor,
            v_l2Visible = True, v_proxyMac = None, v_identityValidated = True,
            v_identitySource = (if lease \<noteq> None then DHCP else STATIC_ARP), v_deferred = None\<rparr>
           validated)"

definition defaultIdentityValidate ::
  "DhcpLease list \<Rightarrow> NeighborEntry list \<Rightarrow> ValidatedDeviceIdentity list" where
  "defaultIdentityValidate leases neighbors =
     (let leaseByMac = mapOfList (map (\<lambda>l. (normalizeText (l_mac l), l)) leases)
      in map snd (fold (defaultIdentityStep leaseByMac) neighbors []))"

section \<open>The DHCP and neighbour validator\<close>

definition isUsableNeighborState :: "string \<Rightarrow> bool" where
  "isUsableNeighborState state \<longleftrightarrow>
     toUpperCase (trim state) \<in> {''REACHABLE'', ''STALE'', ''PERMANENT''}"

definition normalizeCapture :: "CapturedIdentity \<Rightarrow> CapturedIdentity" where
  "normalizeCapture capture = capture\<lparr>c_mac := normalizeText (c_mac capture),
     c_sourceIp := (if truthy (c_sourceIp capture) then map_option trim (c_sourceIp capture)
                    else c_sourceIp capture)\<rparr>"

subsection \<open>ObservationDebounce\<close>

text \<open>The counters of \<open>ObservationDebounce\<close>; \<open>observe\<close> returns whether the threshold is reached.\<close>

definition debounceObserve ::
  "string \<Rightarrow> bool \<Rightarrow> nat \<Rightarrow> (string \<times> nat) list \<Rightarrow> bool \<times> (string \<times> nat) list" where
  "debounceObserve key trusted threshold counts =
     (if \<not> trusted then (False, AList.delete key counts)
      else let count = min threshold (case map_of counts key of None \<Rightarrow> 1 | Some n \<Rightarrow> n + 1)
           in (threshold \<le> count, AList.update key count counts))"

definition debounceClearExcept :: "string list \<Rightarrow> (string \<times> nat) list \<Rightarrow> (string \<times> nat) list" where
  "debounceClearExcept keys counts = filter (\<lambda>(k, _). k \<in> set keys) counts"

subsection \<open>validate\<close>

text \<open>The loop state of \<open>validate\<close>: the result map, the keys observed in this run, the counters.\<close>

record ValidateState =
  vs_validated :: "(string \<times> ValidatedDeviceIdentity) list"
  vs_observedKeys :: "string list"
  vs_counts :: "(string \<times> nat) list"

definition usableLease :: "string \<Rightarrow> int \<Rightarrow> DhcpLease \<Rightarrow> bool" where
  "usableLease lanSubnet now lease \<longleftrightarrow>
     MAC_REGEX (normalizeText (l_mac lease)) \<and> isIpInSubnet (trim (l_ip lease)) lanSubnet \<and>
     \<not> (0 < l_expiry lease \<and> l_expiry lease < of_int now)"

definition normalizeLease :: "DhcpLease \<Rightarrow> DhcpLease" where
  "normalizeLease lease = lease\<lparr>l_mac := normalizeText (l_mac lease), l_ip := trim (l_ip lease)\<rparr>"

definition usableCaptures :: "CapturedIdentity list \<Rightarrow> CapturedIdentity list" where
  "usableCaptures captures =
     filter (\<lambda>c. case c_sourceIp c of None \<Rightarrow> True | Some ip \<Rightarrow> isValidIpv4 ip \<and> ip \<noteq> ''0.0.0.0'')
       (filter (\<lambda>c. MAC_REGEX (c_mac c)) (map normalizeCapture captures))"

definition proxyMacsOf :: "(string \<times> DhcpLease) list \<Rightarrow> NeighborEntry list \<Rightarrow> string list" where
  "proxyMacsOf leaseByIp neighbors =
     fold (\<lambda>neighbor acc.
         let neighborMac = normalizeText (n_mac neighbor)
         in case map_of leaseByIp (trim (n_ip neighbor)) of None \<Rightarrow> acc
            | Some lease \<Rightarrow> if isUsableNeighborState (n_state neighbor) \<and> MAC_REGEX neighborMac \<and>
                 neighborMac \<noteq> l_mac lease then setAdd neighborMac acc else acc) neighbors []"

text \<open>A neighbour whose IP has a lease.\<close>

definition leasedNeighborStep :: "bool \<Rightarrow> CapturedIdentity list \<Rightarrow> string list \<Rightarrow> NeighborEntry \<Rightarrow>
    DhcpLease \<Rightarrow> ValidateState \<Rightarrow> ValidateState" where
  "leasedNeighborStep internalDebounce captures renewalObservedMacs neighbor lease st =
     (let neighborMac = normalizeText (n_mac neighbor); neighborIp = trim (n_ip neighbor);
          deviceMac = normalizeText (l_mac lease)
      in if map_of (vs_validated st) deviceMac \<noteq> None then st
      else
      let neighborMatchesLease = (neighborMac = deviceMac);
          captureConfirmsLease = list_ex (\<lambda>c. c_mac c = deviceMac \<and>
             (c_sourceIp c = None \<or> c_sourceIp c = Some neighborIp)) captures
      in if \<not> neighborMatchesLease \<and> \<not> captureConfirmsLease then
           let mismatchKey = deviceMac @ ''|'' @ neighborIp @ ''|'' @ neighborMac;
               (observed, counts) = (if internalDebounce
                  then debounceObserve mismatchKey True 3 (vs_counts st) else (False, vs_counts st));
               mismatchDebounced = (\<not> internalDebounce \<or> observed);
               renewalObserved = (deviceMac \<in> set renewalObservedMacs)
           in st\<lparr>vs_observedKeys := setAdd mismatchKey (vs_observedKeys st), vs_counts := counts,
               vs_validated := AList.update deviceMac
                 \<lparr>v_mac = deviceMac, v_ip = neighborIp, v_hostname = l_hostname lease,
                  v_clientId = l_clientId lease, v_neighborState = n_state neighbor,
                  v_l2Visible = False, v_proxyMac = Some neighborMac,
                  v_identityValidated = (if mismatchDebounced \<and> renewalObserved then False
                     else captureConfirmsLease \<or> neighborMatchesLease),
                  v_identitySource = (if mismatchDebounced \<and> renewalObserved
                     then PROXY_UNCONFIRMED else DHCP),
                  v_deferred = Some True\<rparr> (vs_validated st)\<rparr>
         else st\<lparr>vs_validated := AList.update deviceMac
                 \<lparr>v_mac = deviceMac, v_ip = neighborIp, v_hostname = l_hostname lease,
                  v_clientId = l_clientId lease, v_neighborState = n_state neighbor,
                  v_l2Visible = neighborMatchesLease,
                  v_proxyMac = (if neighborMatchesLease then None else Some neighborMac),
                  v_identityValidated = True,
                  v_identitySource = (if neighborMatchesLease then DHCP else DHCP_CONFIRMED_PROXY),
                  v_deferred = None\<rparr> (vs_validated st)\<rparr>)"

text \<open>A neighbour without a lease: a static address, after three consecutive observations.\<close>

definition staticNeighborStep :: "bool \<Rightarrow> string list \<Rightarrow> NeighborEntry \<Rightarrow> ValidateState \<Rightarrow> ValidateState" where
  "staticNeighborStep internalDebounce proxyMacs neighbor st =
     (let neighborMac = normalizeText (n_mac neighbor); neighborIp = trim (n_ip neighbor)
      in if map_of (vs_validated st) neighborMac \<noteq> None \<or> neighborMac \<in> set proxyMacs then st
      else
      let staticKey = neighborMac @ ''|'' @ neighborIp;
          (observed, counts) = (if internalDebounce
             then debounceObserve staticKey True 3 (vs_counts st) else (True, vs_counts st));
          st' = st\<lparr>vs_observedKeys := setAdd staticKey (vs_observedKeys st), vs_counts := counts\<rparr>
      in if \<not> observed then st'
         else st'\<lparr>vs_validated := AList.update neighborMac
           \<lparr>v_mac = neighborMac, v_ip = neighborIp, v_hostname = None, v_clientId = None,
            v_neighborState = n_state neighbor, v_l2Visible = True, v_proxyMac = None,
            v_identityValidated = True, v_identitySource = STATIC_ARP, v_deferred = None\<rparr>
           (vs_validated st')\<rparr>)"

definition neighborStep :: "string \<Rightarrow> bool \<Rightarrow> (string \<times> DhcpLease) list \<Rightarrow> CapturedIdentity list \<Rightarrow>
    string list \<Rightarrow> string list \<Rightarrow> NeighborEntry \<Rightarrow> ValidateState \<Rightarrow> ValidateState" where
  "neighborStep lanSubnet internalDebounce leaseByIp captures renewalObservedMacs proxyMacs neighbor st =
     (if \<not> isUsableNeighborState (n_state neighbor) then st
      else let neighborMac = normalizeText (n_mac neighbor); neighborIp = trim (n_ip neighbor)
      in if \<not> MAC_REGEX neighborMac \<or> \<not> isIpInSubnet neighborIp lanSubnet then st
         else (case map_of leaseByIp neighborIp of
             Some lease \<Rightarrow> leasedNeighborStep internalDebounce captures renewalObservedMacs neighbor lease st
           | None \<Rightarrow> staticNeighborStep internalDebounce proxyMacs neighbor st))"

definition unobservedLease :: "DhcpLease \<Rightarrow> (string \<times> ValidatedDeviceIdentity) list \<Rightarrow>
    (string \<times> ValidatedDeviceIdentity) list" where
  "unobservedLease lease validated =
     (if map_of validated (l_mac lease) \<noteq> None then validated
      else AList.update (l_mac lease)
        \<lparr>v_mac = l_mac lease, v_ip = l_ip lease, v_hostname = l_hostname lease,
         v_clientId = l_clientId lease, v_neighborState = ''UNOBSERVED'', v_l2Visible = False,
         v_proxyMac = None, v_identityValidated = False, v_identitySource = DHCP,
         v_deferred = Some True\<rparr> validated)"

text \<open>
  \<open>validate\<close> returns the identities and the counters it leaves in the validator.
  \<open>new DhcpNeighborIdentityValidator(subnet)\<close> throws unless \<open>parseCidr subnet\<close> succeeds.
\<close>

definition newDhcpNeighborIdentityValidator :: "string \<Rightarrow> js_error + string" where
  "newDhcpNeighborIdentityValidator subnet =
     (if subnet = [] then Inl (Error ''Missing required environment variable: LAN_SUBNET'')
      else if parseCidr subnet = None then Inl (Error (''Invalid LAN_SUBNET: '' @ subnet))
      else Inr subnet)"

definition dhcpNeighborValidate :: "string \<Rightarrow> bool \<Rightarrow> int \<Rightarrow> (string \<times> nat) list \<Rightarrow> DhcpLease list \<Rightarrow>
    NeighborEntry list \<Rightarrow> CapturedIdentity list \<Rightarrow> string list \<Rightarrow>
    ValidatedDeviceIdentity list \<times> (string \<times> nat) list" where
  "dhcpNeighborValidate lanSubnet internalDebounce nowMs counts leases neighbors captures renewalObservedMacs =
     (let now = nowMs div 1000;
          usable = map normalizeLease (filter (usableLease lanSubnet now) leases);
          leaseByMac = mapOfList (map (\<lambda>l. (l_mac l, l)) usable);
          leaseByIp = mapOfList (map (\<lambda>l. (l_ip l, l)) usable);
          normalizedCaptures = usableCaptures captures;
          proxyMacs = proxyMacsOf leaseByIp neighbors;
          st = fold (neighborStep lanSubnet internalDebounce leaseByIp normalizedCaptures
                 renewalObservedMacs proxyMacs) neighbors
                 \<lparr>vs_validated = [], vs_observedKeys = [], vs_counts = counts\<rparr>;
          validated = fold unobservedLease (map snd leaseByMac) (vs_validated st)
      in (map snd validated, debounceClearExcept (vs_observedKeys st) (vs_counts st)))"

section \<open>Lemmas\<close>

subsection \<open>Reconciliation\<close>

definition trustedProxy :: "IdentitySource \<Rightarrow> bool" where
  "trustedProxy src \<longleftrightarrow> src = DHCP_CONFIRMED_PROXY \<or> src = PROXY_ACCEPTED_BY_ADMIN"

lemma reconcile_new [simp]: "reconcileIdentityObservation None observed = observed"
  by (simp add: reconcileIdentityObservation_def)

lemma reconcile_weak_trusted:
  assumes "trustedProxy (d_identitySource d)" "\<not> positiveIdentityObservation observed"
  shows "v_identitySource (reconcileIdentityObservation (Some d) observed) = d_identitySource d"
    and "v_identityValidated (reconcileIdentityObservation (Some d) observed) = d_identityValidated d"
    and "v_mac (reconcileIdentityObservation (Some d) observed) = d_mac d"
  using assms by (auto simp: reconcileIdentityObservation_def trustedProxy_def Let_def)

lemma positive_not_weak: "positiveIdentityObservation observed \<Longrightarrow> v_identitySource observed \<noteq> PROXY_UNCONFIRMED"
  by (auto simp: positiveIdentityObservation_def)

text \<open>A positive observation is taken as it is.\<close>

lemma reconcile_positive:
  "positiveIdentityObservation observed \<Longrightarrow> reconcileIdentityObservation d observed = observed"
  using positive_not_weak [of observed]
  by (auto simp: reconcileIdentityObservation_def Let_def split: option.split)

lemma reconcile_source:
  "v_identitySource (reconcileIdentityObservation e observed) = v_identitySource observed \<or>
   (\<exists>d. e = Some d \<and> v_identitySource (reconcileIdentityObservation e observed) = d_identitySource d)"
  by (auto simp: reconcileIdentityObservation_def Let_def split: option.split)

lemma reconcile_fields:
  "v_ip (reconcileIdentityObservation e observed) = v_ip observed"
  "v_l2Visible (reconcileIdentityObservation e observed) = v_l2Visible observed"
  by (auto simp: reconcileIdentityObservation_def Let_def split: option.split)

subsection \<open>The result map of validate\<close>

text \<open>What every entry of the result satisfies, relative to the observations it was made from.\<close>

definition identityEvidence ::
  "NeighborEntry list \<Rightarrow> CapturedIdentity list \<Rightarrow> ValidatedDeviceIdentity \<Rightarrow> bool" where
  "identityEvidence neighbors captures v \<longleftrightarrow>
     (\<exists>n \<in> set neighbors. isUsableNeighborState (n_state n) \<and> trim (n_ip n) = v_ip v \<and>
        (normalizeText (n_mac n) = v_mac v \<or>
         (\<exists>c \<in> set (usableCaptures captures). c_mac c = v_mac v \<and>
            (c_sourceIp c = None \<or> c_sourceIp c = Some (v_ip v)))))"

definition entryOk :: "string \<Rightarrow> string list \<Rightarrow> NeighborEntry list \<Rightarrow> CapturedIdentity list \<Rightarrow>
    string \<Rightarrow> ValidatedDeviceIdentity \<Rightarrow> bool" where
  "entryOk lan proxies neighbors captures k v \<longleftrightarrow>
     k = v_mac v \<and> MAC_REGEX (v_mac v) \<and> isIpInSubnet (v_ip v) lan \<and>
     (v_identityValidated v \<longrightarrow> identityEvidence neighbors captures v) \<and>
     (v_identitySource v = STATIC_ARP \<longrightarrow> v_mac v \<notin> set proxies)"

definition mapOk :: "('k \<Rightarrow> 'v \<Rightarrow> bool) \<Rightarrow> ('k \<times> 'v) list \<Rightarrow> bool" where
  "mapOk P m \<longleftrightarrow> distinct (map fst m) \<and> (\<forall>(k, v) \<in> set m. P k v)"

lemma set_update_subset: "set (AList.update k v m) \<subseteq> insert (k, v) (set m)"
  by (induction m) auto

lemma mapOk_Nil [simp]: "mapOk P []"
  by (simp add: mapOk_def)

lemma mapOk_update: "mapOk P m \<Longrightarrow> P k v \<Longrightarrow> mapOk P (AList.update k v m)"
  using set_update_subset [of k v m] by (auto simp: mapOk_def distinct_update)

lemma mapOk_mapOfList: "\<forall>(k, v) \<in> set ps. P k v \<Longrightarrow> mapOk P (mapOfList ps)"
proof -
  have "mapOk P m \<Longrightarrow> \<forall>(k, v) \<in> set ps. P k v \<Longrightarrow> mapOk P (fold (\<lambda>(k, v) m. AList.update k v m) ps m)" for m
    by (induction ps arbitrary: m) (auto intro: mapOk_update)
  then show "\<forall>(k, v) \<in> set ps. P k v \<Longrightarrow> mapOk P (mapOfList ps)" by (simp add: mapOfList_def)
qed

lemma mapOk_lookup: "mapOk P m \<Longrightarrow> map_of m k = Some v \<Longrightarrow> P k v"
  by (auto simp: mapOk_def dest!: map_of_SomeD)

lemma fold_invariant':
  assumes "P s" "\<And>x s. x \<in> set xs \<Longrightarrow> P s \<Longrightarrow> P (f x s)"
  shows "P (fold f xs s)"
  using assms by (induction xs arbitrary: s) auto

text \<open>A lease in one of the two maps is normalised, in the subnet, and stored under its own key.\<close>

definition leaseOk :: "string \<Rightarrow> DhcpLease \<Rightarrow> bool" where
  "leaseOk lan l \<longleftrightarrow> MAC_REGEX (l_mac l) \<and> normalizeText (l_mac l) = l_mac l \<and> isIpInSubnet (l_ip l) lan"

lemma normalizeText_idem [simp]: "normalizeText (normalizeText s) = normalizeText s"
  by (simp add: normalizeText_def toLowerCase_trim)

lemma leaseOk_normalizeLease: "usableLease lan now l \<Longrightarrow> leaseOk lan (normalizeLease l)"
  by (simp add: usableLease_def leaseOk_def normalizeLease_def)

lemma leasedNeighborStep_ok:
  assumes "mapOk (entryOk lan proxies neighbors captures) (vs_validated st)"
    and "n \<in> set neighbors" "isUsableNeighborState (n_state n)" "isIpInSubnet (trim (n_ip n)) lan"
    and "leaseOk lan lease"
  shows "mapOk (entryOk lan proxies neighbors captures)
    (vs_validated (leasedNeighborStep deb (usableCaptures captures) renewals n lease st))"
proof -
  let ?ok = "entryOk lan proxies neighbors captures"
  have m: "normalizeText (l_mac lease) = l_mac lease" "MAC_REGEX (l_mac lease)"
    using assms(5) by (simp_all add: leaseOk_def)
  have ev: "identityEvidence neighbors captures v"
    if "v_ip v = trim (n_ip n)" "v_mac v = l_mac lease"
      "normalizeText (n_mac n) = l_mac lease \<or> list_ex (\<lambda>c. c_mac c = l_mac lease \<and>
         (c_sourceIp c = None \<or> c_sourceIp c = Some (trim (n_ip n)))) (usableCaptures captures)" for v
    using that assms(2,3) by (auto simp: identityEvidence_def list_ex_iff)
  show ?thesis
    using assms(1,4) m
    by (auto simp: leasedNeighborStep_def Let_def split: prod.splits
        intro!: mapOk_update ev) (auto simp: entryOk_def intro!: mapOk_update ev)
qed

lemma staticNeighborStep_ok:
  assumes "mapOk (entryOk lan proxies neighbors captures) (vs_validated st)"
    and "n \<in> set neighbors" "isUsableNeighborState (n_state n)" "isIpInSubnet (trim (n_ip n)) lan"
    and "MAC_REGEX (normalizeText (n_mac n))"
  shows "mapOk (entryOk lan proxies neighbors captures)
    (vs_validated (staticNeighborStep deb proxies n st))"
  using assms
  by (auto simp: staticNeighborStep_def Let_def entryOk_def identityEvidence_def
      split: prod.splits intro!: mapOk_update)

lemma neighborStep_ok:
  assumes "mapOk (entryOk lan proxies neighbors captures) (vs_validated st)" "n \<in> set neighbors"
    and "mapOk (\<lambda>_. leaseOk lan) leaseByIp"
  shows "mapOk (entryOk lan proxies neighbors captures)
    (vs_validated (neighborStep lan deb leaseByIp (usableCaptures captures) renewals proxies n st))"
  using assms
  by (auto simp: neighborStep_def Let_def split: option.splits
      intro!: leasedNeighborStep_ok staticNeighborStep_ok dest: mapOk_lookup)

lemma unobservedLease_ok:
  assumes "mapOk (entryOk lan proxies neighbors captures) m" "leaseOk lan l"
  shows "mapOk (entryOk lan proxies neighbors captures) (unobservedLease l m)"
  using assms by (auto simp: unobservedLease_def entryOk_def leaseOk_def intro!: mapOk_update)

text \<open>The two lease maps of \<open>validate\<close>.\<close>

definition leaseMap :: "(DhcpLease \<Rightarrow> string) \<Rightarrow> string \<Rightarrow> int \<Rightarrow> DhcpLease list \<Rightarrow> (string \<times> DhcpLease) list" where
  "leaseMap key lan nowMs leases =
     mapOfList (map (\<lambda>l. (key l, l)) (map normalizeLease (filter (usableLease lan (nowMs div 1000)) leases)))"

lemma leaseMap_ok: "mapOk (\<lambda>k l. k = key l \<and> leaseOk lan l) (leaseMap key lan nowMs leases)"
  unfolding leaseMap_def by (rule mapOk_mapOfList) (auto dest: leaseOk_normalizeLease)

lemma leaseMap_leaseOk: "mapOk (\<lambda>_. leaseOk lan) (leaseMap key lan nowMs leases)"
  using leaseMap_ok [of key lan nowMs leases] by (auto simp: mapOk_def)

lemma dhcpNeighborValidate_entries:
  assumes "dhcpNeighborValidate lan deb nowMs counts leases neighbors captures renewals = (ids, counts')"
  obtains m where "ids = map snd m"
    "mapOk (entryOk lan (proxyMacsOf (leaseMap l_ip lan nowMs leases) neighbors) neighbors captures) m"
proof -
  define byMac where "byMac = leaseMap l_mac lan nowMs leases"
  define byIp where "byIp = leaseMap l_ip lan nowMs leases"
  define proxies where "proxies = proxyMacsOf byIp neighbors"
  define st where "st = fold (neighborStep lan deb byIp (usableCaptures captures) renewals proxies)
    neighbors \<lparr>vs_validated = [], vs_observedKeys = [], vs_counts = counts\<rparr>"
  let ?ok = "mapOk (entryOk lan proxies neighbors captures)"
  have ids: "ids = map snd (fold unobservedLease (map snd byMac) (vs_validated st))"
    using assms unfolding dhcpNeighborValidate_def Let_def st_def proxies_def byMac_def byIp_def
      leaseMap_def by simp
  have leases: "mapOk (\<lambda>_. leaseOk lan) byIp" "mapOk (\<lambda>_. leaseOk lan) byMac"
    unfolding byIp_def byMac_def by (rule leaseMap_leaseOk)+
  have "?ok (vs_validated st)"
    unfolding st_def
    by (rule fold_invariant' [where P = "\<lambda>st. ?ok (vs_validated st)"])
      (simp_all add: neighborStep_ok leases)
  then have "?ok (fold unobservedLease (map snd byMac) (vs_validated st))"
    by (rule fold_invariant') (use leases(2) in \<open>auto simp: mapOk_def intro!: unobservedLease_ok [unfolded mapOk_def]\<close>)
  with ids show ?thesis unfolding proxies_def byIp_def by (rule that)
qed

lemma mapOk_distinct_macs:
  assumes "mapOk P m" "\<And>k v. P k v \<Longrightarrow> k = f v"
  shows "distinct (map f (map snd m))"
proof -
  have "map f (map snd m) = map fst m" using assms by (auto simp: mapOk_def)
  moreover have "distinct (map fst m)" using assms(1) by (simp add: mapOk_def)
  ultimately show ?thesis by (simp only:)
qed

section \<open>Properties\<close>

text \<open>
  C2. \<open>DhcpNeighborIdentityValidator.validate\<close> reports each MAC once, only well-formed MACs
  with an address inside the LAN subnet, and marks an identity as validated only on evidence:
  a usable neighbour entry at that address which carries the MAC itself, or a capture of a
  packet the MAC sent from that address. A statically addressed device is never the MAC of an
  access point seen to proxy somebody else's lease.
\<close>

theorem validate_reports_evidenced_identities:
  "let ids = fst (dhcpNeighborValidate lan deb nowMs counts leases neighbors captures renewals);
       proxies = proxyMacsOf (leaseMap l_ip lan nowMs leases) neighbors
   in distinct (map v_mac ids) \<and>
      (\<forall>v \<in> set ids. MAC_REGEX (v_mac v) \<and> isIpInSubnet (v_ip v) lan \<and>
         (v_identityValidated v \<longrightarrow> identityEvidence neighbors captures v) \<and>
         (v_identitySource v = STATIC_ARP \<longrightarrow> v_mac v \<notin> set proxies))"
proof -
  obtain ids counts' where r:
    "dhcpNeighborValidate lan deb nowMs counts leases neighbors captures renewals = (ids, counts')"
    by (cases "dhcpNeighborValidate lan deb nowMs counts leases neighbors captures renewals")
  obtain m where m: "ids = map snd m"
    "mapOk (entryOk lan (proxyMacsOf (leaseMap l_ip lan nowMs leases) neighbors) neighbors captures) m"
    using r by (rule dhcpNeighborValidate_entries)
  have "distinct (map v_mac ids)"
    unfolding m(1) by (rule mapOk_distinct_macs [OF m(2)]) (simp add: entryOk_def)
  with r m show ?thesis by (auto simp: mapOk_def entryOk_def)
qed

theorem validate_reports_evidenced_identities_witness:
  "let n = \<lparr>n_ip = ''10.0.0.7'', n_mac = ''AA:BB:CC:DD:EE:01'', n_state = ''reachable''\<rparr>;
       l = \<lparr>l_expiry = 0, l_mac = ''aa:bb:cc:dd:ee:01'', l_ip = ''10.0.0.7'', l_hostname = None,
            l_clientId = None\<rparr>;
       ids = fst (dhcpNeighborValidate ''10.0.0.0/24'' True 0 [] [l] [n] [] [])
   in map v_mac ids = [''aa:bb:cc:dd:ee:01''] \<and> map v_identityValidated ids = [True] \<and>
      (\<forall>v \<in> set ids. identityEvidence [n] [] v)"
proof -
  let ?n = "\<lparr>n_ip = ''10.0.0.7'', n_mac = ''AA:BB:CC:DD:EE:01'', n_state = ''reachable''\<rparr>"
  let ?l = "\<lparr>l_expiry = 0, l_mac = ''aa:bb:cc:dd:ee:01'', l_ip = ''10.0.0.7'', l_hostname = None,
            l_clientId = None\<rparr>"
  let ?ids = "fst (dhcpNeighborValidate ''10.0.0.0/24'' True 0 [] [?l] [?n] [] [])"
  have "map v_mac ?ids = [''aa:bb:cc:dd:ee:01'']" "map v_identityValidated ?ids = [True]"
    by code_simp+
  moreover from this have "\<forall>v \<in> set ?ids. v_identityValidated v" by auto
  ultimately show ?thesis
    using validate_reports_evidenced_identities [of "''10.0.0.0/24''" True 0 "[]" "[?l]" "[?n]" "[]" "[]"]
    by (simp add: Let_def)
qed

text \<open>
  C3. Trust in a proxy identity, confirmed by DHCP or accepted by the administrator, survives any
  number of observations without positive evidence: folding them into the persisted device keeps
  its MAC, its source and its validation.
\<close>

definition observeDevice :: "Device \<Rightarrow> ValidatedDeviceIdentity \<Rightarrow> Device" where
  "observeDevice d observed =
     (let r = reconcileIdentityObservation (Some d) observed
      in d\<lparr>d_ip := Some (v_ip r), d_hostname := v_hostname r, d_l2Visible := v_l2Visible r,
           d_proxyMac := v_proxyMac r, d_identityValidated := v_identityValidated r,
           d_identitySource := v_identitySource r\<rparr>)"

theorem trusted_identity_survives_weak_observations:
  assumes "trustedProxy (d_identitySource d)" "\<forall>ob \<in> set obs. \<not> positiveIdentityObservation ob"
  shows "d_identitySource (foldl observeDevice d obs) = d_identitySource d \<and>
    d_identityValidated (foldl observeDevice d obs) = d_identityValidated d \<and>
    d_mac (foldl observeDevice d obs) = d_mac d"
  using assms
  by (induction obs arbitrary: d) (simp_all add: observeDevice_def Let_def reconcile_weak_trusted)

theorem trusted_identity_survives_weak_observations_witness:
  "let d = \<lparr>d_id = 1, d_mac = ''aa:bb:cc:dd:ee:01'', d_ip = None, d_hostname = None,
        d_l2Visible = False, d_proxyMac = None, d_identityValidated = True,
        d_identitySource = PROXY_ACCEPTED_BY_ADMIN, d_firstSeen = 0, d_lastSeen = 0\<rparr>;
       v = \<lparr>v_mac = ''aa:bb:cc:dd:ee:01'', v_ip = ''10.0.0.7'', v_hostname = None, v_clientId = None,
        v_neighborState = ''STALE'', v_l2Visible = False, v_proxyMac = Some ''aa:bb:cc:dd:ee:02'',
        v_identityValidated = False, v_identitySource = PROXY_UNCONFIRMED, v_deferred = Some True\<rparr>
   in d_identitySource (foldl observeDevice d [v, v]) = PROXY_ACCEPTED_BY_ADMIN"
  unfolding Let_def
  by (subst trusted_identity_survives_weak_observations [THEN conjunct1])
    (simp_all add: trustedProxy_def positiveIdentityObservation_def)

end
