(* ===== verification/Discovery.thy ===== *)
theory Discovery
  imports Identity
begin

text \<open>
  Discovery: \<open>application/devices/DeviceDiscoveryService.ts\<close> over the readers it is
  constructed with, \<open>PrismaNeighborObservationRepository.ts\<close> over its table,
  \<open>DeviceIdentifierResolver.ts\<close> and \<open>DeviceDiscoverySyncService.ts\<close>. The clock is read
  once per call and is an argument.
\<close>

section \<open>The observation counters\<close>

record NeighborObservation =
  o_mac :: string
  o_ip :: string
  o_neighborState :: string
  o_consecutiveCount :: nat
  o_lastSeen :: int

text \<open>The table is keyed by its unique \<open>(mac, ip)\<close>; \<open>upsert\<close> updates the row or appends it.\<close>

definition observationKey :: "string \<Rightarrow> string \<Rightarrow> string" where
  "observationKey mac ip = mac @ ''|'' @ ip"

definition findObservation :: "string \<Rightarrow> string \<Rightarrow> NeighborObservation list \<Rightarrow> NeighborObservation option" where
  "findObservation mac ip rows = find (\<lambda>r. o_mac r = mac \<and> o_ip r = ip) rows"

definition observe_count :: "NeighborObservation option \<Rightarrow> string \<Rightarrow> int \<Rightarrow> nat" where
  "observe_count existing state seenAt =
     (case existing of None \<Rightarrow> 1
      | Some r \<Rightarrow> if o_neighborState r = state \<and> o_lastSeen r < seenAt
          then o_consecutiveCount r + 1 else 1)"

definition PrismaNeighborObservation_observe ::
  "string \<Rightarrow> string \<Rightarrow> string \<Rightarrow> int \<Rightarrow> (NeighborObservation list, nat) prog" where
  "PrismaNeighborObservation_observe mac ip state seenAt rows =
     (let existing = findObservation mac ip rows;
          consecutiveCount = observe_count existing state seenAt;
          row = \<lparr>o_mac = mac, o_ip = ip, o_neighborState = state,
                 o_consecutiveCount = consecutiveCount, o_lastSeen = seenAt\<rparr>
      in (Inr consecutiveCount,
          if existing = None then rows @ [row]
          else map (\<lambda>r. if o_mac r = mac \<and> o_ip r = ip then row else r) rows))"

definition PrismaNeighborObservation_resetMissing ::
  "string list \<Rightarrow> int \<Rightarrow> (NeighborObservation list, unit) prog" where
  "PrismaNeighborObservation_resetMissing keys seenAt rows =
     (Inr (), map (\<lambda>r. if observationKey (o_mac r) (o_ip r) \<notin> set keys
                  then r\<lparr>o_consecutiveCount := 0, o_lastSeen := seenAt\<rparr> else r) rows)"

record 's NeighborObservationRepository =
  nr_observe :: "string \<Rightarrow> string \<Rightarrow> string \<Rightarrow> int \<Rightarrow> ('s, nat) prog"
  nr_resetMissing :: "string list \<Rightarrow> int \<Rightarrow> ('s, unit) prog"

definition prismaNeighborObservations :: "NeighborObservation list NeighborObservationRepository" where
  "prismaNeighborObservations = \<lparr>nr_observe = PrismaNeighborObservation_observe,
     nr_resetMissing = PrismaNeighborObservation_resetMissing\<rparr>"

section \<open>DeviceDiscoveryService\<close>

text \<open>The MACs with a DHCP request in the last minute, or a recheck.\<close>

definition renewalObserved :: "int \<Rightarrow> LastDhcpMetadata option \<Rightarrow> string list \<Rightarrow> string list" where
  "renewalObserved now lastDhcp rechecks =
     fold setAdd rechecks
       (case lastDhcp of None \<Rightarrow> []
        | Some d \<Rightarrow> if truthy (dm_clientMac d) \<and>
             map_option toLowerCase (dm_messageType d) = Some ''request'' \<and>
             now - dm_capturedAt d \<le> 60000
           then [normalizeText (the (dm_clientMac d))] else [])"

text \<open>Count the trusted neighbours; gives the counts by key and the keys in order.\<close>

fun countNeighbors :: "'s NeighborObservationRepository \<Rightarrow> int \<Rightarrow> NeighborEntry list \<Rightarrow>
    (string \<times> nat) list \<Rightarrow> string list \<Rightarrow> ('s, (string \<times> nat) list \<times> string list) prog" where
  "countNeighbors repo now [] counts keys = ret (counts, keys)"
| "countNeighbors repo now (neighbor # rest) counts keys =
     (let state = toUpperCase (trim (n_state neighbor))
      in if state \<notin> {''REACHABLE'', ''STALE'', ''PERMANENT''} then countNeighbors repo now rest counts keys
         else let mac = normalizeText (n_mac neighbor); ip = trim (n_ip neighbor);
                  key = observationKey mac ip
              in bnd (nr_observe repo mac ip state now)
                   (\<lambda>c. countNeighbors repo now rest (AList.update key c counts) (keys @ [key])))"

definition countOf :: "(string \<times> nat) list \<Rightarrow> string \<Rightarrow> string \<Rightarrow> nat" where
  "countOf counts mac ip = (case map_of counts (observationKey mac ip) of None \<Rightarrow> 0 | Some n \<Rightarrow> n)"

definition keepObservation :: "(string \<times> nat) list \<Rightarrow> ValidatedDeviceIdentity \<Rightarrow> bool" where
  "keepObservation counts obs =
     (if v_identitySource obs = STATIC_ARP then 3 \<le> countOf counts (v_mac obs) (v_ip obs)
      else if truthy (v_proxyMac obs) \<and> v_identitySource obs = PROXY_UNCONFIRMED
        then 3 \<le> countOf counts (the (v_proxyMac obs)) (v_ip obs)
      else True)"

definition deferObservation :: "(string \<times> nat) list \<Rightarrow> ValidatedDeviceIdentity \<Rightarrow> ValidatedDeviceIdentity" where
  "deferObservation counts obs =
     (if truthy (v_proxyMac obs) \<and> v_identitySource obs = PROXY_UNCONFIRMED \<and>
         countOf counts (the (v_proxyMac obs)) (v_ip obs) < 3
      then obs\<lparr>v_identitySource := DHCP, v_identityValidated := False, v_deferred := Some True\<rparr>
      else obs)"

text \<open>What the service is constructed with; the capture reader and the repository are optional.\<close>

record 's DiscoveryDeps =
  ds_readLeases :: "('s, DhcpLease list) prog"
  ds_readNeighbors :: "('s, NeighborEntry list) prog"
  ds_validate :: "DhcpLease list \<Rightarrow> NeighborEntry list \<Rightarrow> CapturedIdentity list \<Rightarrow> string list \<Rightarrow>
    ('s, ValidatedDeviceIdentity list) prog"
  ds_captures :: "(CapturedIdentity list \<times> LastDhcpMetadata option \<times> string list) option"
  ds_observations :: "'s NeighborObservationRepository option"

definition discover :: "'s DiscoveryDeps \<Rightarrow> int \<Rightarrow> ('s, ValidatedDeviceIdentity list) prog" where
  "discover deps now =
     bnd (ds_readLeases deps) (\<lambda>leases.
     bnd (ds_readNeighbors deps) (\<lambda>neighbors.
     let (captures, lastDhcp, rechecks) =
           (case ds_captures deps of None \<Rightarrow> ([], None, []) | Some c \<Rightarrow> c);
         renewalObservedMacs = renewalObserved now lastDhcp rechecks
     in bnd (ds_validate deps leases neighbors captures renewalObservedMacs) (\<lambda>observations.
        case ds_observations deps of
          None \<Rightarrow> ret observations
        | Some repo \<Rightarrow>
            bnd (countNeighbors repo now neighbors [] []) (\<lambda>(counts, keys).
            thn (nr_resetMissing repo keys now)
              (ret (map (deferObservation counts) (filter (keepObservation counts) observations)))))))"

section \<open>resolveDeviceIdentifier\<close>

definition NUMERIC_ID_REGEX :: "string \<Rightarrow> bool" where
  "NUMERIC_ID_REGEX s \<longleftrightarrow> s \<noteq> [] \<and> hd s \<noteq> CHR ''0'' \<and> list_all isDigit s"

definition MAX_SAFE_INTEGER :: int where "MAX_SAFE_INTEGER = 2 ^ 53 - 1"

definition liftE :: "js_error + 'a \<Rightarrow> ('s, 'a) prog" where
  "liftE r = (case r of Inl e \<Rightarrow> throw e | Inr x \<Rightarrow> ret x)"

definition resolveDeviceIdentifier :: "'s DeviceRepository \<Rightarrow> string \<Rightarrow> ('s, Device option) prog" where
  "resolveDeviceIdentifier repository identifier =
     (if NUMERIC_ID_REGEX identifier \<and> int (readNat identifier) \<le> MAX_SAFE_INTEGER
      then dr_findById repository (int (readNat identifier))
      else bnd (liftE (MacAddress_create identifier)) (dr_findByMac repository))"

text \<open>The device an identifier of a request stands for.\<close>

definition denotes :: "string \<Rightarrow> Device \<Rightarrow> bool" where
  "denotes identifier d \<longleftrightarrow>
     (if NUMERIC_ID_REGEX identifier \<and> int (readNat identifier) \<le> MAX_SAFE_INTEGER
      then d_id d = int (readNat identifier) else MacAddress_create identifier = Inr (d_mac d))"

section \<open>DeviceDiscoverySyncService.sync\<close>

definition knownProxyMacs :: "Device list \<Rightarrow> string list" where
  "knownProxyMacs devices = setOfList (filter (\<lambda>m. m \<noteq> [])
     (List.map_filter (\<lambda>d. map_option toLowerCase (d_proxyMac d)) devices))"

definition syncOne :: "'s DeviceRepository \<Rightarrow> string list \<Rightarrow> int \<Rightarrow> ValidatedDeviceIdentity \<Rightarrow> ('s, unit) prog" where
  "syncOne repo proxies now discovered =
     (if toLowerCase (v_mac discovered) \<in> set proxies then skip
      else bnd (liftE (MacAddress_create (v_mac discovered))) (\<lambda>dmac.
        bnd (dr_findByMac repo dmac) (\<lambda>existing.
        let reconciled = reconcileIdentityObservation existing discovered in
        bnd (liftE (MacAddress_create (v_mac reconciled))) (\<lambda>mac.
        bnd (liftE (IpAddress_create (v_ip reconciled))) (\<lambda>ip.
        bnd (if truthy (v_proxyMac reconciled)
             then bnd (liftE (MacAddress_create (the (v_proxyMac reconciled)))) (\<lambda>p. ret (Some p))
             else ret None) (\<lambda>proxy.
        bnd (dr_upsert repo \<lparr>du_mac = mac, du_ip = ip, du_hostname = v_hostname reconciled,
               du_l2Visible = Some (v_l2Visible reconciled), du_proxyMac = proxy,
               du_identityValidated = Some (v_identityValidated reconciled),
               du_identitySource = Some (v_identitySource reconciled), du_seenAt = now\<rparr>) (\<lambda>_.
        whenP (truthy (v_proxyMac discovered))
          (bnd (liftE (MacAddress_create (the (v_proxyMac discovered)))) (\<lambda>pm.
           bnd (dr_findByMac repo pm) (\<lambda>proxyRecord.
           case proxyRecord of None \<Rightarrow> skip
           | Some r \<Rightarrow> bnd (dr_update repo (d_id r) (noDevicePatch
               \<lparr>dp_identityValidated := Some False, dp_l2Visible := Some False\<rparr>))
               (\<lambda>_. skip)))))))))))"

text \<open>
  \<open>running\<close> is the service's own flag; both \<open>catch\<close> blocks only log, so \<open>sync\<close> never
  throws and always resets the flag.
\<close>

definition sync :: "('s, ValidatedDeviceIdentity list) prog \<Rightarrow> 's DeviceRepository \<Rightarrow> int \<Rightarrow>
    (bool \<times> 's, unit) prog" where
  "sync discoverP repo now = (\<lambda>(running, s).
     if running then (Inr (), running, s)
     else let body = bnd discoverP (\<lambda>discoveredDevices.
            bnd (dr_findAll repo) (\<lambda>devices.
            let proxies = knownProxyMacs devices in
            forEach discoveredDevices (\<lambda>d. tryCatch (syncOne repo proxies now d) (\<lambda>_. skip))));
          (r, s') = tryCatch body (\<lambda>_. skip) s
     in (r, False, s'))"

section \<open>Lemmas\<close>

lemma defer_after_keep:
  "map (deferObservation counts) (filter (keepObservation counts) obs) = filter (keepObservation counts) obs"
  by (induction obs) (auto simp: deferObservation_def keepObservation_def)

subsection \<open>Streaks of observations\<close>

record DiscoveryRun =
  run_now :: int
  run_leases :: "DhcpLease list"
  run_neighbors :: "NeighborEntry list"
  run_captures :: "(CapturedIdentity list \<times> LastDhcpMetadata option \<times> string list) option"

definition runDeps :: "(DhcpLease list \<Rightarrow> NeighborEntry list \<Rightarrow> CapturedIdentity list \<Rightarrow> string list \<Rightarrow>
    ValidatedDeviceIdentity list) \<Rightarrow> DiscoveryRun \<Rightarrow> NeighborObservation list DiscoveryDeps" where
  "runDeps validate r = \<lparr>ds_readLeases = ret (run_leases r), ds_readNeighbors = ret (run_neighbors r),
     ds_validate = (\<lambda>l n c m. ret (validate l n c m)), ds_captures = run_captures r,
     ds_observations = Some prismaNeighborObservations\<rparr>"

definition discoverRun where
  "discoverRun validate r = discover (runDeps validate r) (run_now r)"

fun tableAfter :: "(DhcpLease list \<Rightarrow> NeighborEntry list \<Rightarrow> CapturedIdentity list \<Rightarrow> string list \<Rightarrow>
    ValidatedDeviceIdentity list) \<Rightarrow> DiscoveryRun list \<Rightarrow> NeighborObservation list \<Rightarrow> NeighborObservation list" where
  "tableAfter validate [] rows = rows"
| "tableAfter validate (r # rs) rows = tableAfter validate rs (snd (discoverRun validate r rows))"

definition trustedKeys :: "NeighborEntry list \<Rightarrow> string set" where
  "trustedKeys ns = {observationKey (normalizeText (n_mac n)) (trim (n_ip n)) | n. n \<in> set ns \<and>
     toUpperCase (trim (n_state n)) \<in> {''REACHABLE'', ''STALE'', ''PERMANENT''}}"

text \<open>In how many of the latest runs in a row a key was seen in a trusted state.\<close>

definition streak :: "DiscoveryRun list \<Rightarrow> string \<Rightarrow> nat" where
  "streak rs key = length (takeWhile (\<lambda>r. key \<in> trustedKeys (run_neighbors r)) (rev rs))"

definition rowBound :: "(string \<Rightarrow> nat) \<Rightarrow> int \<Rightarrow> NeighborObservation \<Rightarrow> bool" where
  "rowBound S now r \<longleftrightarrow>
     (let key = observationKey (o_mac r) (o_ip r)
      in o_consecutiveCount r \<le> S key \<or> (o_lastSeen r = now \<and> o_consecutiveCount r \<le> S key + 1))"

lemma prismaNeighborObservations_simps [simp]:
  "nr_observe prismaNeighborObservations = PrismaNeighborObservation_observe"
  "nr_resetMissing prismaNeighborObservations = PrismaNeighborObservation_resetMissing"
  by (simp_all add: prismaNeighborObservations_def)

lemma resetMissing_thn:
  "thn (PrismaNeighborObservation_resetMissing keys now) m rows =
     m (snd (PrismaNeighborObservation_resetMissing keys now rows))"
  by (simp add: thn_Inr [where x = "()"] PrismaNeighborObservation_resetMissing_def)

lemma observe_bound:
  assumes "\<forall>r \<in> set rows. rowBound S now r"
    and "PrismaNeighborObservation_observe mac ip state now rows = (res, rows')"
  obtains c where "res = Inr c" "c \<le> S (observationKey mac ip) + 1" "\<forall>r \<in> set rows'. rowBound S now r"
proof -
  let ?c = "observe_count (findObservation mac ip rows) state now"
  have "?c \<le> S (observationKey mac ip) + 1"
  proof (cases "findObservation mac ip rows")
    case (Some r)
    then have "r \<in> set rows" "o_mac r = mac" "o_ip r = ip"
      by (auto simp: findObservation_def find_Some_iff)
    with assms(1) have "rowBound S now r" by blast
    with \<open>o_mac r = mac\<close> \<open>o_ip r = ip\<close> show ?thesis
      by (auto simp: Some observe_count_def rowBound_def Let_def)
  qed (simp add: observe_count_def)
  moreover from this assms have "\<forall>r \<in> set rows'. rowBound S now r"
    by (auto simp: PrismaNeighborObservation_observe_def Let_def rowBound_def split: if_splits)
  moreover have "res = Inr ?c"
    using assms(2) by (simp add: PrismaNeighborObservation_observe_def Let_def split: if_splits)
  ultimately show ?thesis by (intro that)
qed

lemma trustedKeys_Cons:
  "trustedKeys (n # ns) = (if toUpperCase (trim (n_state n)) \<in> {''REACHABLE'', ''STALE'', ''PERMANENT''}
     then insert (observationKey (normalizeText (n_mac n)) (trim (n_ip n))) (trustedKeys ns)
     else trustedKeys ns)"
  by (auto simp: trustedKeys_def)

lemma trustedKeys_Nil [simp]: "trustedKeys [] = {}"
  by (simp add: trustedKeys_def)

lemma countNeighbors_bound:
  assumes "\<forall>r \<in> set rows. rowBound S now r"
    and "\<forall>k c. map_of counts k = Some c \<longrightarrow> c \<le> S k + 1 \<and> k \<in> set keys"
    and "countNeighbors prismaNeighborObservations now ns counts keys rows = (res, rows')"
  shows "\<exists>counts' keys'. res = Inr (counts', keys') \<and> set keys' = set keys \<union> trustedKeys ns \<and>
    (\<forall>k c. map_of counts' k = Some c \<longrightarrow> c \<le> S k + 1 \<and> k \<in> set keys') \<and>
    (\<forall>r \<in> set rows'. rowBound S now r)"
  using assms
proof (induction ns arbitrary: counts keys rows)
  case Nil
  then show ?case by auto
next
  case (Cons n ns)
  let ?state = "toUpperCase (trim (n_state n))"
  let ?mac = "normalizeText (n_mac n)" and ?ip = "trim (n_ip n)"
  let ?key = "observationKey ?mac ?ip"
  show ?case
  proof (cases "?state \<in> {''REACHABLE'', ''STALE'', ''PERMANENT''}")
    case False
    with Cons.prems Cons.IH show ?thesis by (simp add: Let_def trustedKeys_Cons)
  next
    case True
    obtain r1 rows1 where ob: "PrismaNeighborObservation_observe ?mac ?ip ?state now rows = (r1, rows1)"
      by (cases "PrismaNeighborObservation_observe ?mac ?ip ?state now rows")
    obtain c where c: "r1 = Inr c" "c \<le> S ?key + 1" "\<forall>r \<in> set rows1. rowBound S now r"
      using observe_bound [OF Cons.prems(1) ob] .
    have rest: "countNeighbors prismaNeighborObservations now ns (AList.update ?key c counts)
        (keys @ [?key]) rows1 = (res, rows')"
      using Cons.prems(3) True ob c(1)
      by (simp add: Let_def bnd_Inr [where x = c and t = rows1] split: if_splits)
    have "\<forall>k c'. map_of (AList.update ?key c counts) k = Some c' \<longrightarrow>
        c' \<le> S k + 1 \<and> k \<in> set (keys @ [?key])"
      using Cons.prems(2) c(2) by (auto simp: update_conv' split: if_splits)
    from Cons.IH [OF c(3) this rest] True show ?thesis by (simp add: trustedKeys_Cons)
  qed
qed

lemma countNeighbors_total:
  "\<exists>ck. fst (countNeighbors prismaNeighborObservations now ns counts keys rows) = Inr ck"
  by (induction ns arbitrary: counts keys rows)
    (auto simp: Let_def PrismaNeighborObservation_observe_def bnd_def)

lemma discoverRun_steps:
  obtains counts keys rows1 obs where
    "countNeighbors prismaNeighborObservations (run_now r) (run_neighbors r) [] [] rows
       = (Inr (counts, keys), rows1)"
    "discoverRun validate r rows = (Inr (filter (keepObservation counts) obs),
       snd (PrismaNeighborObservation_resetMissing keys (run_now r) rows1))"
proof -
  obtain counts keys rows1 where cn:
    "countNeighbors prismaNeighborObservations (run_now r) (run_neighbors r) [] [] rows
       = (Inr (counts, keys), rows1)"
    using countNeighbors_total [of "run_now r" "run_neighbors r" "[]" "[]" rows] by (metis prod.collapse)
  obtain captures lastDhcp rechecks where
    c: "(case run_captures r of None \<Rightarrow> ([], None, []) | Some c \<Rightarrow> c) = (captures, lastDhcp, rechecks)"
    by (metis prod_cases3)
  have step: "bnd (countNeighbors prismaNeighborObservations (run_now r) (run_neighbors r) [] []) f rows
      = f (counts, keys) rows1" for f :: "_ \<Rightarrow> (NeighborObservation list, ValidatedDeviceIdentity list) prog"
    by (rule bnd_Inr) (rule cn)
  show ?thesis
    by (rule that [OF cn])
      (simp add: discoverRun_def discover_def runDeps_def c step resetMissing_thn defer_after_keep)
qed

lemma streak_snoc:
  "streak (rs @ [r]) key = (if key \<in> trustedKeys (run_neighbors r) then streak rs key + 1 else 0)"
  by (simp add: streak_def)

lemma discoverRun_bound:
  assumes "\<forall>x \<in> set rows. o_consecutiveCount x \<le> streak rs (observationKey (o_mac x) (o_ip x))"
    and "countNeighbors prismaNeighborObservations (run_now r) (run_neighbors r) [] [] rows
       = (Inr (counts, keys), rows1)"
  shows "countOf counts mac ip \<le> streak (rs @ [r]) (observationKey mac ip)"
    and "\<forall>x \<in> set (snd (PrismaNeighborObservation_resetMissing keys (run_now r) rows1)).
       o_consecutiveCount x \<le> streak (rs @ [r]) (observationKey (o_mac x) (o_ip x))"
proof -
  have "\<forall>x \<in> set rows. rowBound (streak rs) (run_now r) x" using assms(1) by (simp add: rowBound_def Let_def)
  from countNeighbors_bound [OF this _ assms(2)]
  have b: "set keys = trustedKeys (run_neighbors r)"
    "\<And>k c. map_of counts k = Some c \<Longrightarrow> c \<le> streak rs k + 1 \<and> k \<in> set keys"
    "\<And>x. x \<in> set rows1 \<Longrightarrow> rowBound (streak rs) (run_now r) x"
    by auto
  show "countOf counts mac ip \<le> streak (rs @ [r]) (observationKey mac ip)"
    using b(2) [of "observationKey mac ip"] b(1) by (auto simp: countOf_def streak_snoc split: option.splits)
  show "\<forall>x \<in> set (snd (PrismaNeighborObservation_resetMissing keys (run_now r) rows1)).
       o_consecutiveCount x \<le> streak (rs @ [r]) (observationKey (o_mac x) (o_ip x))"
    using b(1,3) by (fastforce simp: PrismaNeighborObservation_resetMissing_def streak_snoc rowBound_def Let_def)
qed

lemma tableAfter_bound:
  assumes "\<forall>x \<in> set rows. o_consecutiveCount x \<le> streak rs (observationKey (o_mac x) (o_ip x))"
  shows "\<forall>x \<in> set (tableAfter validate rs' rows).
    o_consecutiveCount x \<le> streak (rs @ rs') (observationKey (o_mac x) (o_ip x))"
  using assms
proof (induction rs' arbitrary: rs rows)
  case Nil
  then show ?case by simp
next
  case (Cons r rs')
  obtain counts keys rows1 where st:
    "countNeighbors prismaNeighborObservations (run_now r) (run_neighbors r) [] [] rows
       = (Inr (counts, keys), rows1)"
    "snd (discoverRun validate r rows) =
       snd (PrismaNeighborObservation_resetMissing keys (run_now r) rows1)"
    by (rule discoverRun_steps [of r rows validate]) (metis snd_conv)
  from discoverRun_bound(2) [OF Cons.prems st(1)] st(2) Cons.IH [of _ "rs @ [r]"]
  show ?case by simp
qed

lemma streak_takeWhile:
  assumes "n \<le> streak rs key"
  shows "n \<le> length rs \<and> (\<forall>r \<in> set (take n (rev rs)). key \<in> trustedKeys (run_neighbors r))"
proof -
  let ?tw = "takeWhile (\<lambda>r. key \<in> trustedKeys (run_neighbors r)) (rev rs)"
  have "take n (rev rs) = take n ?tw"
    using assms by (metis streak_def takeWhile_eq_take take_take min.absorb1)
  moreover have "length ?tw \<le> length rs" using length_takeWhile_le [of _ "rev rs"] by simp
  ultimately show ?thesis using assms by (auto simp: streak_def dest: in_set_takeD set_takeWhileD)
qed

section \<open>Properties\<close>


definition exampleRun :: DiscoveryRun where
  "exampleRun = \<lparr>run_now = 0, run_leases = [], run_neighbors =
     [\<lparr>n_ip = ''10.0.0.7'', n_mac = ''AA:BB:CC:DD:EE:01'', n_state = ''reachable''\<rparr>],
     run_captures = None\<rparr>"



end
