(* ===== verification/Interfaces.thy ===== *)
theory Interfaces
  imports Discovery
begin

text \<open>
  The contracts of the interfaces the services are written against, as locales. Each fixes the
  operations the services call, a view of the state the interface owns (\<open>devices\<close>,
  \<open>policies\<close>, the two kernel sets, the active bindings) and \<open>rest\<close>, a view of everything
  else; the laws say what a successful call does to the view, what a failed one may have
  done, and that the rest is untouched. Every operation may fail at any time.
\<close>

section \<open>Devices\<close>

locale device_repository =
  fixes dr :: "'s DeviceRepository"
    and devices :: "'s \<Rightarrow> Device list"
    and rest :: "'s \<Rightarrow> 'r"
  assumes findAll_frame: "frame (\<lambda>s. (devices s, rest s)) (dr_findAll dr)"
    and findById_frame: "frame (\<lambda>s. (devices s, rest s)) (dr_findById dr i)"
    and findByMac_frame: "frame (\<lambda>s. (devices s, rest s)) (dr_findByMac dr m)"
    and update_frame: "frame rest (dr_update dr i patch)"
    and upsert_frame: "frame rest (dr_upsert dr data)"
    and findAll_ok: "dr_findAll dr s = (Inr ds, t) \<Longrightarrow> ds = devices s"
    and findById_ok: "dr_findById dr i s = (Inr (Some d), t) \<Longrightarrow> d \<in> set (devices s) \<and> d_id d = i"
    and findByMac_ok: "dr_findByMac dr m s = (Inr (Some d), t) \<Longrightarrow> d \<in> set (devices s) \<and>
      (MacAddress_create m = Inr m \<longrightarrow> d_mac d = m)"
    and device_mac: "d \<in> set (devices s) \<Longrightarrow> MacAddress_create (d_mac d) = Inr (d_mac d)"
    and device_ip: "d \<in> set (devices s) \<Longrightarrow> d_ip d = Some ip \<Longrightarrow> IpAddress_create ip = Inr ip"
begin

lemma liftE_frame: "frame v (liftE r)"
  by (auto simp: liftE_def intro: prog_rules split: sum.split)

lemma resolve_frame: "frame (\<lambda>s. (devices s, rest s)) (resolveDeviceIdentifier dr identifier)"
  unfolding resolveDeviceIdentifier_def
  by (intro prog_rules findById_frame findByMac_frame liftE_frame)

lemma resolve_ok:
  "resolveDeviceIdentifier dr identifier s = (Inr (Some d), t) \<Longrightarrow> d \<in> set (devices s) \<and> denotes identifier d"
  by (auto simp: resolveDeviceIdentifier_def denotes_def liftE_def bnd_def split: if_splits sum.splits
      dest: findById_ok findByMac_ok MacAddress_create_idem)

lemma device_mac_normal: "d \<in> set (devices s) \<Longrightarrow> normalizeText (d_mac d) = d_mac d"
  using device_mac [of d s] MacAddress_create_normal [of "d_mac d" "d_mac d"]
  by (simp add: normalizeText_def)

lemma device_ip_normal: "d \<in> set (devices s) \<Longrightarrow> d_ip d = Some ip \<Longrightarrow> trim ip = ip \<and> ip \<noteq> []"
  by (drule (1) device_ip) (rule IpAddress_create_normal)

end

section \<open>Policies\<close>

definition patchPolicy :: "PolicyPatch \<Rightarrow> DevicePolicy \<Rightarrow> DevicePolicy" where
  "patchPolicy data p =
     (let upd = (\<lambda>new old. case new of None \<Rightarrow> old | Some v \<Rightarrow> v)
      in p\<lparr>p_blocked := (case pp_blocked data of None \<Rightarrow> p_blocked p | Some v \<Rightarrow> v),
           p_downloadLimit := upd (pp_downloadLimit data) (p_downloadLimit p),
           p_uploadLimit := upd (pp_uploadLimit data) (p_uploadLimit p),
           p_quota := upd (pp_quota data) (p_quota p),
           p_quotaPeriod := (case pp_quotaPeriod data of None \<Rightarrow> p_quotaPeriod p | Some v \<Rightarrow> v),
           p_quotaAction := (case pp_quotaAction data of None \<Rightarrow> p_quotaAction p | Some v \<Rightarrow> v),
           p_quotaEnforcedAction :=
             (case pp_quotaEnforcedAction data of None \<Rightarrow> p_quotaEnforcedAction p | Some v \<Rightarrow> v),
           p_profileId := upd (pp_profileId data) (p_profileId p),
           p_scheduleId := upd (pp_scheduleId data) (p_scheduleId p)\<rparr>)"

definition blankPolicy :: "int \<Rightarrow> int \<Rightarrow> DevicePolicy" where
  "blankPolicy i deviceId = \<lparr>p_id = i, p_deviceId = deviceId, p_blocked = False,
     p_downloadLimit = None, p_uploadLimit = None, p_quota = None, p_quotaPeriod = None,
     p_quotaAction = None, p_quotaEnforcedAction = None, p_profileId = None, p_scheduleId = None\<rparr>"

lemma patchPolicy_fields [simp]:
  "p_deviceId (patchPolicy data p) = p_deviceId p"
  "p_blocked (patchPolicy data p) = (case pp_blocked data of None \<Rightarrow> p_blocked p | Some v \<Rightarrow> v)"
  "p_quota (patchPolicy data p) = (case pp_quota data of None \<Rightarrow> p_quota p | Some v \<Rightarrow> v)"
  "p_quotaEnforcedAction (patchPolicy data p) =
     (case pp_quotaEnforcedAction data of None \<Rightarrow> p_quotaEnforcedAction p | Some v \<Rightarrow> v)"
  "p_downloadLimit (patchPolicy data p) = (case pp_downloadLimit data of None \<Rightarrow> p_downloadLimit p | Some v \<Rightarrow> v)"
  "p_uploadLimit (patchPolicy data p) = (case pp_uploadLimit data of None \<Rightarrow> p_uploadLimit p | Some v \<Rightarrow> v)"
  by (simp_all add: patchPolicy_def Let_def)

lemma noPatch_fields [simp]:
  "pp_blocked noPatch = None" "pp_downloadLimit noPatch = None" "pp_uploadLimit noPatch = None"
  "pp_quota noPatch = None" "pp_quotaPeriod noPatch = None" "pp_quotaAction noPatch = None"
  "pp_quotaEnforcedAction noPatch = None" "pp_profileId noPatch = None" "pp_scheduleId noPatch = None"
  by (simp_all add: noPatch_def)

locale policy_repository =
  fixes pr :: "'s DevicePolicyRepository"
    and policies :: "'s \<Rightarrow> int \<Rightarrow> DevicePolicy option"
    and rest :: "'s \<Rightarrow> 'r"
  assumes find_frame: "frame (\<lambda>s. (policies s, rest s)) (pr_findByDeviceId pr i)"
    and find_ok: "pr_findByDeviceId pr i s = (Inr p, t) \<Longrightarrow> p = policies s i"
    and upsert_frame: "frame rest (pr_upsert pr i data)"
    and upsert_ok: "pr_upsert pr i data s = (Inr q, t) \<Longrightarrow>
      (\<exists>n. q = patchPolicy data (case policies s i of Some p \<Rightarrow> p | None \<Rightarrow> blankPolicy n i)) \<and>
      policies t = (policies s)(i \<mapsto> q)"
    and upsert_err: "pr_upsert pr i data s = (Inl e, t) \<Longrightarrow> policies t = policies s"

definition policyBlocks :: "DevicePolicy option \<Rightarrow> bool" where
  "policyBlocks p \<longleftrightarrow> (case p of None \<Rightarrow> False | Some q \<Rightarrow> p_blocked q)"

section \<open>The kernel block sets\<close>

locale device_blocker =
  fixes b :: "'s DeviceBlocker"
    and kmacs :: "'s \<Rightarrow> string set"
    and kips :: "'s \<Rightarrow> string set"
    and rest :: "'s \<Rightarrow> 'r"
  assumes block_frame: "frame (\<lambda>s. (kips s, rest s)) (b_block b m None)"
    and block_ok: "b_block b m None s = (Inr u, t) \<Longrightarrow> kmacs t = insert (normalizeText m) (kmacs s)"
    and block_err: "b_block b m None s = (Inl e, t) \<Longrightarrow>
      kmacs s \<subseteq> kmacs t \<and> kmacs t \<subseteq> insert (normalizeText m) (kmacs s)"
    and unblock_frame: "frame rest (b_unblock b m oip)"
    and unblock_ok: "b_unblock b m oip s = (Inr u, t) \<Longrightarrow> kmacs t = kmacs s - {normalizeText m} \<and>
      kips t = kips s - (if truthy oip then {trim (the oip)} else {})"
    and unblock_err: "b_unblock b m oip s = (Inl e, t) \<Longrightarrow>
      kmacs s - {normalizeText m} \<subseteq> kmacs t \<and> kmacs t \<subseteq> kmacs s \<and>
      kips s - (if truthy oip then {trim (the oip)} else {}) \<subseteq> kips t \<and> kips t \<subseteq> kips s"
    and blockIp_frame: "b_blockIp b = Some f \<Longrightarrow> frame (\<lambda>s. (kmacs s, rest s)) (f ip)"
    and blockIp_ok: "b_blockIp b = Some f \<Longrightarrow> f ip s = (Inr u, t) \<Longrightarrow> kips t = insert (trim ip) (kips s)"
    and blockIp_err: "b_blockIp b = Some f \<Longrightarrow> f ip s = (Inl e, t) \<Longrightarrow>
      kips s \<subseteq> kips t \<and> kips t \<subseteq> insert (trim ip) (kips s)"
    and unblockIp_frame: "b_unblockIp b = Some f \<Longrightarrow> frame (\<lambda>s. (kmacs s, rest s)) (f ip)"
    and unblockIp_ok: "b_unblockIp b = Some f \<Longrightarrow> f ip s = (Inr u, t) \<Longrightarrow> kips t = kips s - {trim ip}"
    and unblockIp_err: "b_unblockIp b = Some f \<Longrightarrow> f ip s = (Inl e, t) \<Longrightarrow>
      kips s - {trim ip} \<subseteq> kips t \<and> kips t \<subseteq> kips s"
    and getMacs_frame: "b_getBlockedMacs b = Some g \<Longrightarrow> frame (\<lambda>s. (kmacs s, kips s, rest s)) g"
    and getMacs_ok: "b_getBlockedMacs b = Some g \<Longrightarrow> g s = (Inr ms, t) \<Longrightarrow>
      set ms = kmacs s \<and> (\<forall>m \<in> set ms. MacAddress_create m = Inr m)"
    and getIps_frame: "b_getBlockedIps b = Some g \<Longrightarrow> frame (\<lambda>s. (kmacs s, kips s, rest s)) g"
    and getIps_ok: "b_getBlockedIps b = Some g \<Longrightarrow> g s = (Inr is, t) \<Longrightarrow>
      set is = kips s \<and> (\<forall>i \<in> set is. trim i = i)"

section \<open>The bindings of blocked devices\<close>

text \<open>
  \<open>bview\<close> is the state of the two tables, \<open>active\<close> the bindings (device id, address) that are
  in force, and \<open>wf\<close> the consistency the repository keeps between the tables.
\<close>

locale blocked_repository =
  fixes br :: "'s BlockedDeviceRepository"
    and bview :: "'s \<Rightarrow> 'b"
    and active :: "'b \<Rightarrow> (int \<times> string) set"
    and wf :: "'b \<Rightarrow> bool"
    and rest :: "'s \<Rightarrow> 'r"
  assumes record_frame: "frame rest (br_recordBlock br i mac oip why)"
    and record_any: "br_recordBlock br i mac oip why s = (r, t) \<Longrightarrow> wf (bview s) \<Longrightarrow>
      wf (bview t) \<and> active (bview s) \<subseteq> active (bview t) \<and>
      active (bview t) \<subseteq> active (bview s) \<union> ({i} \<times> set_option oip)"
    and release_frame: "frame rest (br_releaseBlock br i)"
    and release_ok: "br_releaseBlock br i s = (Inr u, t) \<Longrightarrow> wf (bview s) \<Longrightarrow>
      wf (bview t) \<and> active (bview t) = active (bview s) - ({i} \<times> UNIV)"
    and release_err: "br_releaseBlock br i s = (Inl e, t) \<Longrightarrow> bview t = bview s"
    and activeIps_frame: "frame (\<lambda>s. (bview s, rest s)) (br_activeIps br i)"
    and activeIps_ok: "br_activeIps br i s = (Inr ips, t) \<Longrightarrow> wf (bview s) \<Longrightarrow> set ips = {ip. (i, ip) \<in> active (bview s)}"
    and bindings_frame: "frame (\<lambda>s. (bview s, rest s)) (br_activeBindings br)"
    and bindings_ok: "br_activeBindings br s = (Inr bs, t) \<Longrightarrow> set bs = active (bview s)"
    and releaseIp_frame: "br_releaseIp br = Some f \<Longrightarrow> frame rest (f i ip reason)"
    and releaseIp_ok: "br_releaseIp br = Some f \<Longrightarrow> f i ip reason s = (Inr u, t) \<Longrightarrow> wf (bview s) \<Longrightarrow>
      wf (bview t) \<and> active (bview t) = active (bview s) - {(i, ip)}"
    and releaseIp_err: "br_releaseIp br = Some f \<Longrightarrow> f i ip reason s = (Inl e, t) \<Longrightarrow> bview t = bview s"

section \<open>Seeing less of the rest\<close>

text \<open>A contract holds for every coarser view of what the interface leaves alone.\<close>

lemma device_repository_weaken:
  assumes "device_repository dr devices rest"
  shows "device_repository dr devices (\<lambda>s. g (rest s))"
  using assms unfolding device_repository_def frame_def by simp

lemma policy_repository_weaken:
  assumes "policy_repository pr policies rest"
  shows "policy_repository pr policies (\<lambda>s. g (rest s))"
  using assms unfolding policy_repository_def frame_def by simp

lemma blocked_repository_weaken:
  assumes "blocked_repository br bview active ok rest"
  shows "blocked_repository br bview active ok (\<lambda>s. g (rest s))"
  using assms unfolding blocked_repository_def frame_def by simp

lemma device_blocker_weaken:
  assumes "device_blocker b kmacs kips rest"
  shows "device_blocker b kmacs kips (\<lambda>s. g (rest s))"
  using assms unfolding device_blocker_def frame_def by simp

end
