(* ===== verification/Firewall.thy ===== *)
theory Firewall
  imports Interfaces
begin

text \<open>
  \<open>application/enforcement/FirewallService.ts\<close>. The service is given the interfaces it is
  constructed with as a record; the audit trail and the table of blocked devices are optional
  there, so they are options here. Every operation is a program over the state the
  interfaces act on, and a failing interface makes it throw, as a rejected promise does.
\<close>

record 's FirewallDeps =
  f_blocker :: "'s DeviceBlocker"
  f_devices :: "'s DeviceRepository"
  f_policies :: "'s DevicePolicyRepository"
  f_audit :: "(AuditData \<Rightarrow> ('s, unit) prog) option"
  f_blocked :: "'s BlockedDeviceRepository option"
  f_admin :: string

definition audit :: "'s FirewallDeps \<Rightarrow> AuditData \<Rightarrow> ('s, unit) prog" where
  "audit deps data = optCall (f_audit deps) (\<lambda>a. a data)"

definition UNCONFIRMED_IDENTITY_ACKNOWLEDGMENT :: string where
  "UNCONFIRMED_IDENTITY_ACKNOWLEDGMENT = ''This device's identity is asserted by its DHCP lease only and has not been independently confirmed, because the access point it connects through does not expose its real hardware address. Enforcement will follow this device's current IP address only. If its IP changes unexpectedly before the system observes the change, enforcement may briefly lag behind.''"

definition acceptUnconfirmedIdentity :: "'s FirewallDeps \<Rightarrow> string \<Rightarrow> string \<Rightarrow> ('s, unit) prog" where
  "acceptUnconfirmedIdentity deps mac acknowledgment =
     bnd (resolveDeviceIdentifier (f_devices deps) mac) (\<lambda>found.
     case found of None \<Rightarrow> throw (Error (''Device not found: '' @ mac))
     | Some device \<Rightarrow>
       if d_identitySource device \<noteq> PROXY_UNCONFIRMED
         then throw (Error ''Only PROXY_UNCONFIRMED devices may be accepted'')
       else if acknowledgment \<noteq> UNCONFIRMED_IDENTITY_ACKNOWLEDGMENT
         then throw (Error ''The required identity-risk acknowledgment was not supplied'')
       else bnd (dr_update (f_devices deps) (d_id device) (noDevicePatch
              \<lparr>dp_identitySource := Some PROXY_ACCEPTED_BY_ADMIN, dp_identityValidated := Some True,
               dp_l2Visible := Some False\<rparr>)) (\<lambda>_.
            audit deps \<lparr>a_action = ''accept-unconfirmed-identity'', a_mac = Some (d_mac device),
              a_deviceId = Some (d_id device), a_actor = Some (f_admin deps),
              a_details = [(''acknowledgment'', acknowledgment)]\<rparr>))"

section \<open>reconcile\<close>

text \<open>The two desired sets, read from the persisted policies.\<close>

primrec desiredSets :: "'s DevicePolicyRepository \<Rightarrow> Device list \<Rightarrow> string list \<times> string list \<Rightarrow>
    ('s, string list \<times> string list) prog" where
  "desiredSets policies [] acc = ret acc"
| "desiredSets policies (device # rest) acc =
     bnd (pr_findByDeviceId policies (d_id device)) (\<lambda>policy.
       if \<not> (case policy of None \<Rightarrow> False | Some p \<Rightarrow> p_blocked p) \<or> \<not> d_identityValidated device
         then desiredSets policies rest acc
       else if d_l2Visible device
         then desiredSets policies rest (setAdd (d_mac device) (fst acc), snd acc)
       else (case d_ip device of
           Some ip \<Rightarrow> desiredSets policies rest (fst acc, setAdd ip (snd acc))
         | None \<Rightarrow> desiredSets policies rest acc))"

definition firewall_reconcile :: "'s FirewallDeps \<Rightarrow> ('s, unit) prog" where
  "firewall_reconcile deps =
     bnd (dr_findAll (f_devices deps)) (\<lambda>devices.
     bnd (desiredSets (f_policies deps) devices ([], [])) (\<lambda>(desiredMacs, desiredIps).
     let b = f_blocker deps in
     thn (forEach desiredMacs (\<lambda>mac. bnd (liftE (MacAddress_create mac)) (\<lambda>m. b_block b m None)))
    (thn (forEach desiredIps (\<lambda>ip. optCall (b_blockIp b) (\<lambda>f. f ip)))
    (bnd (case b_getBlockedMacs b of None \<Rightarrow> ret [] | Some g \<Rightarrow> g) (\<lambda>existingMacs.
     thn (forEach existingMacs (\<lambda>mac. whenP (mac \<notin> set desiredMacs)
           (bnd (liftE (MacAddress_create mac)) (\<lambda>m. b_unblock b m None))))
    (bnd (case b_getBlockedIps b of None \<Rightarrow> ret [] | Some g \<Rightarrow> g) (\<lambda>existingIps.
     forEach existingIps (\<lambda>ip. whenP (ip \<notin> set desiredIps)
           (optCall (b_unblockIp b) (\<lambda>f. f ip))))))))))"

section \<open>Blocking and unblocking\<close>

definition blockAudit :: "'s FirewallDeps \<Rightarrow> string \<Rightarrow> string \<Rightarrow> Device \<Rightarrow> (string \<times> string) list \<Rightarrow> AuditData" where
  "blockAudit deps action actor device details =
     \<lparr>a_action = action, a_mac = Some (d_mac device), a_deviceId = Some (d_id device),
      a_actor = Some actor, a_details = details\<rparr>"

text \<open>The enforcement step the two block operations share: by MAC, or by IP behind a proxy.\<close>

definition enforceBlock :: "'s FirewallDeps \<Rightarrow> Device \<Rightarrow> ('s, unit) prog" where
  "enforceBlock deps device =
     (if \<not> d_l2Visible device then
        (case (d_ip device, b_blockIp (f_blocker deps)) of
           (Some ip, Some blockIp) \<Rightarrow> blockIp ip
         | _ \<Rightarrow> throw (Error ''Proxy-backed device has no IP-only enforcement path''))
      else b_block (f_blocker deps) (d_mac device) None)"

definition blockDevice :: "'s FirewallDeps \<Rightarrow> string \<Rightarrow> string option \<Rightarrow> ('s, unit) prog" where
  "blockDevice deps mac requesterIp =
     bnd (resolveDeviceIdentifier (f_devices deps) mac) (\<lambda>found.
     case found of None \<Rightarrow> throw (Error (''Device not found: '' @ mac))
     | Some device \<Rightarrow>
       if \<not> d_identityValidated device then throw (Error (''Device identity is not validated: '' @ mac))
       else
       bnd (dr_findAll (f_devices deps)) (\<lambda>devices.
       let proxyMacs = knownProxyMacs devices;
           requestedMac = (if MAC_REGEX mac then Some (normalizeText mac) else None)
       in if truthy requestedMac \<and> the requestedMac \<in> set proxyMacs
            then throw (Error (''Refusing to enforce proxy MAC: '' @ mac))
          else if truthy requesterIp \<and> d_ip device = requesterIp
            then throw (Error ''Refusing to block the device making this request'')
          else
          bnd (pr_upsert (f_policies deps) (d_id device) (noPatch\<lparr>pp_blocked := Some True\<rparr>)) (\<lambda>_.
          tryCatch
            (thn (enforceBlock deps device)
            (thn (optCall (f_blocked deps) (\<lambda>r. br_recordBlock r (d_id device)
                   (if d_identitySource device = PROXY_ACCEPTED_BY_ADMIN then None else Some (d_mac device))
                   (d_ip device)
                   (Some (if d_l2Visible device then ''mac-enforced'' else ''ip-enforced-proxy''))))
            (audit deps (blockAudit deps ''block-device'' (f_admin deps) device [(''result'', ''success'')]))))
            (\<lambda>error.
              thn (audit deps (blockAudit deps ''block-device'' (f_admin deps) device
                    [(''result'', ''pending''), (''error'', errorMessage error),
                     (''desiredStatePersisted'', ''true'')]))
                (throw (PendingEnforcement (d_id device) True (errorMessage error)))))))"

definition unblockDevice :: "'s FirewallDeps \<Rightarrow> string \<Rightarrow> ('s, unit) prog" where
  "unblockDevice deps mac =
     bnd (resolveDeviceIdentifier (f_devices deps) mac) (\<lambda>found.
     case found of
       None \<Rightarrow> bnd (liftE (MacAddress_create mac)) (\<lambda>m. b_unblock (f_blocker deps) m None)
     | Some device \<Rightarrow>
       bnd (pr_upsert (f_policies deps) (d_id device) (noPatch\<lparr>pp_blocked := Some False\<rparr>)) (\<lambda>_.
       tryCatch
         (thn (if \<not> d_l2Visible device then
                 bnd (case f_blocked deps of None \<Rightarrow> ret [] | Some r \<Rightarrow> br_activeIps r (d_id device)) (\<lambda>activeIps.
                 optCall (b_unblockIp (f_blocker deps)) (\<lambda>unblockIp. forEach activeIps unblockIp))
               else b_unblock (f_blocker deps) (d_mac device) (d_ip device))
         (thn (optCall (f_blocked deps) (\<lambda>r. br_releaseBlock r (d_id device)))
         (audit deps (blockAudit deps ''unblock-device'' (f_admin deps) device [(''result'', ''success'')]))))
         (\<lambda>error.
           thn (audit deps (blockAudit deps ''unblock-device'' (f_admin deps) device
                 [(''result'', ''pending''), (''error'', errorMessage error),
                  (''desiredStatePersisted'', ''true'')]))
             (throw (PendingEnforcement (d_id device) False (errorMessage error))))))"

definition blockForQuota :: "'s FirewallDeps \<Rightarrow> string \<Rightarrow> ('s, unit) prog" where
  "blockForQuota deps mac =
     bnd (resolveDeviceIdentifier (f_devices deps) mac) (\<lambda>found.
     case found of None \<Rightarrow> throw (Error (''Device not found: '' @ mac))
     | Some device \<Rightarrow>
       if \<not> d_identityValidated device then throw (Error (''Device identity is not validated: '' @ mac))
       else tryCatch
         (thn (enforceBlock deps device)
         (thn (optCall (f_blocked deps) (\<lambda>r. br_recordBlock r (d_id device)
                (if d_l2Visible device then Some (d_mac device) else None)
                (d_ip device)
                (Some (if d_l2Visible device then ''quota-mac-enforced'' else ''quota-ip-enforced-proxy''))))
         (audit deps (blockAudit deps ''quota-block-device'' ''system'' device [(''result'', ''success'')]))))
         (\<lambda>error.
           thn (audit deps (blockAudit deps ''quota-block-device'' ''system'' device
                 [(''result'', ''pending''), (''error'', errorMessage error)]))
             (throw error)))"

definition unblockForQuota :: "'s FirewallDeps \<Rightarrow> string \<Rightarrow> ('s, unit) prog" where
  "unblockForQuota deps mac =
     bnd (resolveDeviceIdentifier (f_devices deps) mac) (\<lambda>found.
     case found of None \<Rightarrow> throw (Error (''Device not found: '' @ mac))
     | Some device \<Rightarrow>
       bnd (pr_findByDeviceId (f_policies deps) (d_id device)) (\<lambda>policy.
       if (case policy of None \<Rightarrow> False | Some p \<Rightarrow> p_blocked p) then skip
       else
       thn (if \<not> d_l2Visible device then
              bnd (case f_blocked deps of None \<Rightarrow> ret [] | Some r \<Rightarrow> br_activeIps r (d_id device)) (\<lambda>activeIps.
              thn (optCall (b_unblockIp (f_blocker deps)) (\<lambda>unblockIp. forEach activeIps unblockIp))
                (case (d_ip device, b_unblockIp (f_blocker deps)) of
                   (Some ip, Some unblockIp) \<Rightarrow> whenP (activeIps = []) (unblockIp ip)
                 | _ \<Rightarrow> skip))
            else b_unblock (f_blocker deps) (d_mac device) (d_ip device))
       (thn (optCall (f_blocked deps) (\<lambda>r. br_releaseBlock r (d_id device)))
       (audit deps (blockAudit deps ''quota-unblock-device'' ''system'' device [(''result'', ''success'')])))))"

section \<open>The service over the contracts of its interfaces\<close>

text \<open>What enforcing a block of one device may do to the two kernel sets, and when it is done.\<close>

definition blockEffect :: "Device \<Rightarrow> string set \<times> string set \<Rightarrow> string set \<times> string set \<Rightarrow> bool" where
  "blockEffect d k k' \<longleftrightarrow>
     (if d_l2Visible d
      then snd k' = snd k \<and> fst k \<subseteq> fst k' \<and> fst k' \<subseteq> insert (d_mac d) (fst k)
      else fst k' = fst k \<and> snd k \<subseteq> snd k' \<and> snd k' \<subseteq> snd k \<union> set_option (d_ip d))"

definition enforcedIn :: "Device \<Rightarrow> string set \<times> string set \<Rightarrow> bool" where
  "enforcedIn d k \<longleftrightarrow> (if d_l2Visible d then d_mac d \<in> fst k else \<exists>ip. d_ip d = Some ip \<and> ip \<in> snd k)"

text \<open>
  \<open>blockDevice\<close> either changes nothing, or it has persisted the block of a validated device,
  and only then touched the kernel sets, and only for that device.
\<close>

definition blockPost :: "Device list \<Rightarrow> string option \<Rightarrow> (int \<Rightarrow> DevicePolicy option) \<Rightarrow>
    string set \<times> string set \<Rightarrow> (int \<Rightarrow> DevicePolicy option) \<Rightarrow> string set \<times> string set \<Rightarrow> bool \<Rightarrow> bool" where
  "blockPost ds req pol k pol' k' ok \<longleftrightarrow>
     (pol' = pol \<and> k' = k \<and> \<not> ok) \<or>
     (\<exists>d q. d \<in> set ds \<and> d_identityValidated d \<and> \<not> (truthy req \<and> d_ip d = req) \<and>
        pol' = pol(d_id d \<mapsto> q) \<and> p_blocked q \<and> blockEffect d k k' \<and> (ok \<longrightarrow> enforcedIn d k'))"

text \<open>The devices a block request may hit: it names them, and not by the MAC address of a proxy.\<close>

definition blockTargets :: "string \<Rightarrow> Device list \<Rightarrow> Device list" where
  "blockTargets identifier ds = filter (\<lambda>d. denotes identifier d \<and>
     \<not> (MAC_REGEX identifier \<and> d_mac d \<in> set (knownProxyMacs ds))) ds"

lemma denotes_mac:
  assumes "denotes m d" "MAC_REGEX m"
  shows "normalizeText m = d_mac d" "normalizeText m \<noteq> []"
proof -
  have "CHR '':'' \<in> set m"
  proof (rule ccontr)
    assume "CHR '':'' \<notin> set m"
    with assms(2) show False by (simp add: MAC_REGEX_def splitOn_no_sep)
  qed
  moreover have "\<not> isDigit (CHR '':'')" by (simp add: isDigit_def)
  ultimately have "\<not> NUMERIC_ID_REGEX m" unfolding NUMERIC_ID_REGEX_def list_all_iff by blast
  with assms(1) show "normalizeText m = d_mac d" "normalizeText m \<noteq> []"
    by (auto simp: denotes_def MacAddress_create_def normalizeText_def Let_def dest: MAC_REGEX_nonempty split: if_splits)
qed

lemma blockTargets_iff:
  "d \<in> set (blockTargets m ds) \<longleftrightarrow> d \<in> set ds \<and> denotes m d \<and>
     \<not> (truthy (if MAC_REGEX m then Some (normalizeText m) else None) \<and>
        the (if MAC_REGEX m then Some (normalizeText m) else None) \<in> set (knownProxyMacs ds))"
proof (cases "denotes m d \<and> MAC_REGEX m")
  case True
  with denotes_mac [of m d] show ?thesis by (simp add: blockTargets_def truthy_def)
qed (auto simp: blockTargets_def truthy_def)

lemma blockEffect_refl [simp]: "blockEffect d k k"
  by (auto simp: blockEffect_def)

text \<open>What releasing one device may remove, and what is gone when it succeeded.\<close>

definition recordedIps :: "bool \<Rightarrow> (int \<times> string) set \<Rightarrow> Device \<Rightarrow> string set" where
  "recordedIps noTable bs d = (if noTable then {} else {ip. (d_id d, ip) \<in> bs})"

definition unblockEffect :: "Device \<Rightarrow> string set \<Rightarrow> string set \<times> string set \<Rightarrow> string set \<times> string set \<Rightarrow> bool" where
  "unblockEffect d R k k' \<longleftrightarrow> fst k' \<subseteq> fst k \<and> snd k' \<subseteq> snd k \<and>
     (if d_l2Visible d then fst k - {d_mac d} \<subseteq> fst k' \<and> snd k - set_option (d_ip d) \<subseteq> snd k'
      else fst k' = fst k \<and> snd k - trim ` R \<subseteq> snd k')"

definition releasedIn :: "Device \<Rightarrow> string set \<Rightarrow> string set \<times> string set \<Rightarrow> bool" where
  "releasedIn d R k \<longleftrightarrow>
     (if d_l2Visible d then d_mac d \<notin> fst k \<and> set_option (d_ip d) \<inter> snd k = {} else trim ` R \<inter> snd k = {})"

lemma unblockEffect_subset: "unblockEffect d R (m, i) (m', i') \<Longrightarrow> m' \<subseteq> m \<and> i' \<subseteq> i"
  by (simp add: unblockEffect_def)

lemma unblockEffect_refl [simp]: "unblockEffect d R k k"
  by (auto simp: unblockEffect_def)

definition unblockPost :: "Device list \<Rightarrow> (Device \<Rightarrow> string set) \<Rightarrow> (int \<Rightarrow> DevicePolicy option) \<Rightarrow>
    string set \<times> string set \<Rightarrow> (int \<Rightarrow> DevicePolicy option) \<Rightarrow> string set \<times> string set \<Rightarrow> bool \<Rightarrow> bool" where
  "unblockPost ds R pol k pol' k' ok \<longleftrightarrow> fst k' \<subseteq> fst k \<and> snd k' \<subseteq> snd k \<and>
     (pol' = pol \<or>
      (\<exists>d q. d \<in> set ds \<and> pol' = pol(d_id d \<mapsto> q) \<and> \<not> p_blocked q \<and>
         unblockEffect d (R d) k k' \<and> (ok \<longrightarrow> releasedIn d (R d) k')))"

text \<open>The kernel sets the persisted policies ask for.\<close>

definition wantsBlock :: "(int \<Rightarrow> DevicePolicy option) \<Rightarrow> Device \<Rightarrow> bool" where
  "wantsBlock pol d \<longleftrightarrow> policyBlocks (pol (d_id d)) \<and> d_identityValidated d"

definition desiredMacs :: "Device list \<Rightarrow> (int \<Rightarrow> DevicePolicy option) \<Rightarrow> string set" where
  "desiredMacs ds pol = {d_mac d | d. d \<in> set ds \<and> wantsBlock pol d \<and> d_l2Visible d}"

definition desiredIps :: "Device list \<Rightarrow> (int \<Rightarrow> DevicePolicy option) \<Rightarrow> string set" where
  "desiredIps ds pol = {ip. \<exists>d \<in> set ds. wantsBlock pol d \<and> \<not> d_l2Visible d \<and> d_ip d = Some ip}"

lemma desiredSets_unfold:
  "desiredMacs [] pol = {}" "desiredIps [] pol = {}"
  "desiredMacs (d # ds) pol =
     (if wantsBlock pol d \<and> d_l2Visible d then insert (d_mac d) (desiredMacs ds pol) else desiredMacs ds pol)"
  "desiredIps (d # ds) pol =
     (if wantsBlock pol d \<and> \<not> d_l2Visible d then set_option (d_ip d) \<union> desiredIps ds pol else desiredIps ds pol)"
  by (auto simp: desiredMacs_def desiredIps_def)

lemma bnd_liftE_Inr: "x = Inr y \<Longrightarrow> bnd (liftE x) f = f y"
  by (simp add: liftE_def)

locale firewall_env =
  devs: device_repository "f_devices deps" devices "\<lambda>s. (policies s, kmacs s, kips s, bview s)" +
  pols: policy_repository "f_policies deps" policies "\<lambda>s. (devices s, kmacs s, kips s, bview s)" +
  blk: device_blocker "f_blocker deps" kmacs kips "\<lambda>s. (devices s, policies s, bview s)"
  for deps :: "'s FirewallDeps"
    and devices :: "'s \<Rightarrow> Device list"
    and policies :: "'s \<Rightarrow> int \<Rightarrow> DevicePolicy option"
    and kmacs kips :: "'s \<Rightarrow> string set"
    and bview :: "'s \<Rightarrow> 'b"
    and active :: "'b \<Rightarrow> (int \<times> string) set"
    and wf :: "'b \<Rightarrow> bool" +
  assumes audit_frame: "f_audit deps = Some a \<Longrightarrow>
      frame (\<lambda>s. (devices s, policies s, kmacs s, kips s, bview s)) (a d)"
    and blocked: "f_blocked deps = Some r \<Longrightarrow>
      blocked_repository r bview active wf (\<lambda>s. (devices s, policies s, kmacs s, kips s))"
begin

lemma auditP_frame: "frame (\<lambda>s. (devices s, policies s, kmacs s, kips s, bview s)) (audit deps d)"
  unfolding audit_def by (intro prog_rules audit_frame)

lemma audit_spec: "spec (audit deps d) s (\<lambda>r t. devices t = devices s \<and> policies t = policies s \<and>
    kmacs t = kmacs s \<and> kips t = kips s \<and> bview t = bview s)"
  by (rule spec_mono [OF spec_frame [OF auditP_frame]]) simp

lemma resolve_spec: "spec (resolveDeviceIdentifier (f_devices deps) m) s (\<lambda>r t.
    devices t = devices s \<and> policies t = policies s \<and> kmacs t = kmacs s \<and> kips t = kips s \<and>
    bview t = bview s \<and> (\<forall>d. r = Inr (Some d) \<longrightarrow> d \<in> set (devices s) \<and> denotes m d))"
  by (rule specI) (use frameD [OF devs.resolve_frame] devs.resolve_ok in fastforce)

lemma findAll_spec: "spec (dr_findAll (f_devices deps)) s (\<lambda>r t. devices t = devices s \<and>
    policies t = policies s \<and> kmacs t = kmacs s \<and> kips t = kips s \<and> bview t = bview s \<and>
    (\<forall>ds. r = Inr ds \<longrightarrow> ds = devices s))"
  by (rule specI) (use frameD [OF devs.findAll_frame] devs.findAll_ok in fastforce)

lemma find_spec: "spec (pr_findByDeviceId (f_policies deps) i) s (\<lambda>r t. devices t = devices s \<and>
    policies t = policies s \<and> kmacs t = kmacs s \<and> kips t = kips s \<and> bview t = bview s \<and>
    (\<forall>p. r = Inr p \<longrightarrow> p = policies s i))"
  by (rule specI) (use frameD [OF pols.find_frame] pols.find_ok in fastforce)

lemma upsert_spec: "spec (pr_upsert (f_policies deps) i data) s (\<lambda>r t. devices t = devices s \<and>
    kmacs t = kmacs s \<and> kips t = kips s \<and> bview t = bview s \<and>
    (case r of Inl e \<Rightarrow> policies t = policies s
     | Inr q \<Rightarrow> policies t = (policies s)(i \<mapsto> q) \<and>
         (\<exists>n. q = patchPolicy data (case policies s i of Some p \<Rightarrow> p | None \<Rightarrow> blankPolicy n i))))"
  by (rule specI)
    (use frameD [OF pols.upsert_frame] in \<open>auto split: sum.split dest: pols.upsert_ok pols.upsert_err\<close>)

lemma record_spec: "spec (optCall (f_blocked deps) (\<lambda>r. br_recordBlock r i m ip why)) s (\<lambda>r t.
    devices t = devices s \<and> policies t = policies s \<and> kmacs t = kmacs s \<and> kips t = kips s)"
  by (rule spec_optCall)
    (auto intro!: specI dest: frameD [OF blocked_repository.record_frame [OF blocked]])

lemma block_spec:
  assumes "d \<in> set (devices s)"
  shows "spec (b_block (f_blocker deps) (d_mac d) None) s (\<lambda>r t. devices t = devices s \<and>
    policies t = policies s \<and> kips t = kips s \<and> bview t = bview s \<and> kmacs s \<subseteq> kmacs t \<and>
    kmacs t \<subseteq> insert (d_mac d) (kmacs s) \<and> (r = Inr () \<longrightarrow> d_mac d \<in> kmacs t))"
proof (rule specI)
  fix r t assume b: "b_block (f_blocker deps) (d_mac d) None s = (r, t)"
  from frameD [OF blk.block_frame b] devs.device_mac_normal [OF assms]
    blk.block_ok [of "d_mac d" s _ t] blk.block_err [of "d_mac d" s _ t] b
  show "devices t = devices s \<and> policies t = policies s \<and> kips t = kips s \<and> bview t = bview s \<and>
    kmacs s \<subseteq> kmacs t \<and> kmacs t \<subseteq> insert (d_mac d) (kmacs s) \<and> (r = Inr () \<longrightarrow> d_mac d \<in> kmacs t)"
    by (cases r) auto
qed

lemma blockIp_spec:
  assumes "b_blockIp (f_blocker deps) = Some f" "trim ip = ip"
  shows "spec (f ip) s (\<lambda>r t. devices t = devices s \<and>
    policies t = policies s \<and> kmacs t = kmacs s \<and> bview t = bview s \<and> kips s \<subseteq> kips t \<and>
    kips t \<subseteq> insert ip (kips s) \<and> (r = Inr () \<longrightarrow> ip \<in> kips t))"
proof (rule specI)
  fix r t assume b: "f ip s = (r, t)"
  from frameD [OF blk.blockIp_frame [OF assms(1)] b] assms(2)
    blk.blockIp_ok [OF assms(1), of ip s _ t] blk.blockIp_err [OF assms(1), of ip s _ t] b
  show "devices t = devices s \<and> policies t = policies s \<and> kmacs t = kmacs s \<and> bview t = bview s \<and>
    kips s \<subseteq> kips t \<and> kips t \<subseteq> insert ip (kips s) \<and> (r = Inr () \<longrightarrow> ip \<in> kips t)"
    by (cases r) auto
qed

lemma enforceBlock_spec:
  assumes d: "d \<in> set (devices s)"
  shows "spec (enforceBlock deps d) s (\<lambda>r t. devices t = devices s \<and> policies t = policies s \<and>
    bview t = bview s \<and> blockEffect d (kmacs s, kips s) (kmacs t, kips t) \<and>
    (r = Inr () \<longrightarrow> enforcedIn d (kmacs t, kips t)))"
proof (cases "d_l2Visible d")
  case True
  then show ?thesis
    unfolding enforceBlock_def
    by (auto simp: blockEffect_def enforcedIn_def intro!: spec_mono [OF block_spec [OF d]])
next
  case False
  then show ?thesis
    using devs.device_ip_normal [OF d]
    unfolding enforceBlock_def
    by (auto simp: blockEffect_def enforcedIn_def split: option.split
        intro!: spec_throw spec_mono [OF blockIp_spec])
qed

text \<open>The body both block operations run: enforce, record, audit.\<close>

lemma blockBody_spec:
  assumes d: "d \<in> set (devices s)"
  shows "spec (thn (enforceBlock deps d) (thn (optCall (f_blocked deps)
      (\<lambda>r. br_recordBlock r i m ip why)) (audit deps a))) s
    (\<lambda>r t. devices t = devices s \<and> policies t = policies s \<and>
       blockEffect d (kmacs s, kips s) (kmacs t, kips t) \<and>
       (r = Inr () \<longrightarrow> enforcedIn d (kmacs t, kips t)))"
  by (rule spec_thn, rule enforceBlock_spec [OF d], simp, rule spec_thn, rule record_spec, simp,
      rule spec_mono, rule audit_spec, simp)

lemma pending_spec: "spec (thn (audit deps a) (throw err)) s (\<lambda>r t. devices t = devices s \<and>
    policies t = policies s \<and> kmacs t = kmacs s \<and> kips t = kips s \<and> bview t = bview s \<and> r \<noteq> Inr x)"
  by (rule spec_thn, rule audit_spec, simp, rule spec_throw, simp)

text \<open>Persist the new desired state, then run a body and turn its failure into a pending error.\<close>

lemma persistThen_spec:
  assumes body: "\<And>u. devices u = devices s \<Longrightarrow> kmacs u = kmacs s \<Longrightarrow> kips u = kips s \<Longrightarrow>
      bview u = bview s \<Longrightarrow>
      spec body u (\<lambda>r t. devices t = devices u \<and> policies t = policies u \<and>
        E (kmacs t, kips t) \<and> (r = Inr () \<longrightarrow> F (kmacs t, kips t)))"
  shows "spec (bnd (pr_upsert (f_policies deps) i (noPatch\<lparr>pp_blocked := Some v\<rparr>)) (\<lambda>_.
      tryCatch body (\<lambda>e. thn (audit deps (a e)) (throw (err e))))) s
    (\<lambda>r t. devices t = devices s \<and>
      ((policies t = policies s \<and> kmacs t = kmacs s \<and> kips t = kips s \<and> r \<noteq> Inr ()) \<or>
       (\<exists>q. policies t = (policies s)(i \<mapsto> q) \<and> p_blocked q = v \<and> E (kmacs t, kips t) \<and>
         (r = Inr () \<longrightarrow> F (kmacs t, kips t)))))"
proof (rule spec_bnd, rule upsert_spec)
  fix q u
  assume u: "devices u = devices s \<and> kmacs u = kmacs s \<and> kips u = kips s \<and> bview u = bview s \<and>
    (case Inr q of Inl e \<Rightarrow> policies u = policies s
     | Inr q \<Rightarrow> policies u = (policies s)(i \<mapsto> q) \<and> (\<exists>n. q = patchPolicy (noPatch\<lparr>pp_blocked := Some v\<rparr>)
         (case policies s i of Some p \<Rightarrow> p | None \<Rightarrow> blankPolicy n i)))"
  then have q: "p_blocked q = v" "policies u = (policies s)(i \<mapsto> q)" by auto
  show "spec (tryCatch body (\<lambda>e. thn (audit deps (a e)) (throw (err e)))) u
    (\<lambda>r t. devices t = devices s \<and>
      ((policies t = policies s \<and> kmacs t = kmacs s \<and> kips t = kips s \<and> r \<noteq> Inr ()) \<or>
       (\<exists>q. policies t = (policies s)(i \<mapsto> q) \<and> p_blocked q = v \<and> E (kmacs t, kips t) \<and>
         (r = Inr () \<longrightarrow> F (kmacs t, kips t)))))"
    by (rule spec_tryCatch, rule body, use u in simp, use u in simp, use u in simp, use u in simp,
        rule spec_mono, rule pending_spec [where x = "()"]) (use u q in auto)
qed simp

lemma blockDevice_spec:
  "spec (blockDevice deps mac req) s (\<lambda>r t. devices t = devices s \<and>
    blockPost (blockTargets mac (devices s)) req (policies s) (kmacs s, kips s) (policies t) (kmacs t, kips t) (r = Inr ()))"
  unfolding blockDevice_def Let_def
  apply (rule spec_bnd, rule resolve_spec, simp add: blockPost_def)
  apply (rule spec_option, rule spec_throw, simp add: blockPost_def)
  apply (rule spec_if, rule spec_throw, simp add: blockPost_def)
  apply (rule spec_bnd, rule findAll_spec, simp add: blockPost_def)
  apply (rule spec_if, rule spec_throw, simp add: blockPost_def)
  apply (rule spec_if, rule spec_throw, simp add: blockPost_def)
  subgoal for x t d ds u
    by (rule spec_mono, rule persistThen_spec [where E = "blockEffect d (kmacs s, kips s)" and F = "enforcedIn d"],
        rule spec_mono, rule blockBody_spec) (auto simp: blockPost_def blockTargets_iff)
  done

subsection \<open>Convergence of reconcile\<close>

lemma desiredSets_spec:
  "spec (desiredSets (f_policies deps) ds acc) s (\<lambda>r t. devices t = devices s \<and> policies t = policies s \<and>
     kmacs t = kmacs s \<and> kips t = kips s \<and> bview t = bview s \<and>
     (\<forall>ms is. r = Inr (ms, is) \<longrightarrow> set ms = set (fst acc) \<union> desiredMacs ds (policies s) \<and>
        set is = set (snd acc) \<union> desiredIps ds (policies s)))"
proof (induction ds arbitrary: acc s)
  case Nil
  then show ?case by (auto simp: desiredSets_unfold intro!: spec_ret)
next
  case (Cons d ds)
  show ?case
    unfolding desiredSets.simps
    apply (rule spec_bnd, rule find_spec, simp)
    apply (rule spec_if, rule spec_mono, rule Cons.IH,
        fastforce simp: desiredSets_unfold wantsBlock_def policyBlocks_def split: option.splits)
    apply (rule spec_if, rule spec_mono, rule Cons.IH,
        fastforce simp: desiredSets_unfold wantsBlock_def policyBlocks_def split: option.splits)
    apply (rule spec_option)
     apply (rule spec_mono, rule Cons.IH,
        fastforce simp: desiredSets_unfold wantsBlock_def policyBlocks_def split: option.splits)
    apply (rule spec_mono, rule Cons.IH,
        fastforce simp: desiredSets_unfold wantsBlock_def policyBlocks_def split: option.splits)
    done
qed

lemma desiredMacs_create: "m \<in> desiredMacs (devices s) pol \<Longrightarrow> MacAddress_create m = Inr m"
  by (auto simp: desiredMacs_def dest: devs.device_mac)

lemma desiredIps_trim: "i \<in> desiredIps (devices s) pol \<Longrightarrow> trim i = i"
  by (auto simp: desiredIps_def dest: devs.device_ip_normal)

lemma blockMacs_spec:
  assumes "\<And>m. m \<in> set ms \<Longrightarrow> MacAddress_create m = Inr m"
  shows "spec (forEach ms (\<lambda>mac. bnd (liftE (MacAddress_create mac)) (\<lambda>m. b_block (f_blocker deps) m None))) s
    (\<lambda>r t. devices t = devices s \<and> policies t = policies s \<and> bview t = bview s \<and> kips t = kips s \<and>
       kmacs s \<subseteq> kmacs t \<and> kmacs t \<subseteq> kmacs s \<union> set ms \<and> (r = Inr () \<longrightarrow> kmacs t = kmacs s \<union> set ms))"
proof (rule spec_forEach [where I = "\<lambda>seen t. devices t = devices s \<and> policies t = policies s \<and>
      bview t = bview s \<and> kips t = kips s \<and> kmacs t = kmacs s \<union> set seen"])
  fix seen m rest t
  assume split: "ms = seen @ m # rest" and I: "devices t = devices s \<and> policies t = policies s \<and>
      bview t = bview s \<and> kips t = kips s \<and> kmacs t = kmacs s \<union> set seen"
  have m: "MacAddress_create m = Inr m" using assms split by simp
  then have n: "normalizeText m = m" using MacAddress_create_normal by (simp add: normalizeText_def)
  show "spec (bnd (liftE (MacAddress_create m)) (\<lambda>m. b_block (f_blocker deps) m None)) t
    (\<lambda>r u. case r of Inl e \<Rightarrow> devices u = devices s \<and> policies u = policies s \<and> bview u = bview s \<and>
         kips u = kips s \<and> kmacs s \<subseteq> kmacs u \<and> kmacs u \<subseteq> kmacs s \<union> set ms \<and>
         (Inl e = Inr () \<longrightarrow> kmacs u = kmacs s \<union> set ms)
       | Inr _ \<Rightarrow> devices u = devices s \<and> policies u = policies s \<and> bview u = bview s \<and>
         kips u = kips s \<and> kmacs u = kmacs s \<union> set (seen @ [m]))"
    unfolding bnd_liftE_Inr [OF m]
  proof (rule specI)
    fix r u assume b: "b_block (f_blocker deps) m None t = (r, u)"
    from frameD [OF blk.block_frame b] I
    have "devices u = devices s" "policies u = policies s" "bview u = bview s" "kips u = kips s" by simp_all
    with I n split blk.block_ok [of m t _ u] blk.block_err [of m t _ u] b
    show "case r of Inl e \<Rightarrow> devices u = devices s \<and> policies u = policies s \<and> bview u = bview s \<and>
         kips u = kips s \<and> kmacs s \<subseteq> kmacs u \<and> kmacs u \<subseteq> kmacs s \<union> set ms \<and>
         (Inl e = Inr () \<longrightarrow> kmacs u = kmacs s \<union> set ms)
       | Inr _ \<Rightarrow> devices u = devices s \<and> policies u = policies s \<and> bview u = bview s \<and>
         kips u = kips s \<and> kmacs u = kmacs s \<union> set (seen @ [m])"
      by (cases r) auto
  qed
qed auto

lemma blockIps_spec:
  assumes "b_blockIp (f_blocker deps) = Some f" "\<And>i. i \<in> set is \<Longrightarrow> trim i = i"
  shows "spec (forEach is f) s
    (\<lambda>r t. devices t = devices s \<and> policies t = policies s \<and> bview t = bview s \<and> kmacs t = kmacs s \<and>
       kips s \<subseteq> kips t \<and> kips t \<subseteq> kips s \<union> set is \<and> (r = Inr () \<longrightarrow> kips t = kips s \<union> set is))"
proof (rule spec_forEach [where I = "\<lambda>seen t. devices t = devices s \<and> policies t = policies s \<and>
      bview t = bview s \<and> kmacs t = kmacs s \<and> kips t = kips s \<union> set seen"])
  fix seen i rest t
  assume split: "is = seen @ i # rest" and I: "devices t = devices s \<and> policies t = policies s \<and>
      bview t = bview s \<and> kmacs t = kmacs s \<and> kips t = kips s \<union> set seen"
  have "trim i = i" using assms(2) split by simp
  with split I show "spec (f i) t (\<lambda>r u. case r of Inl e \<Rightarrow> devices u = devices s \<and> policies u = policies s \<and>
         bview u = bview s \<and> kmacs u = kmacs s \<and> kips s \<subseteq> kips u \<and> kips u \<subseteq> kips s \<union> set is \<and>
         (Inl e = Inr () \<longrightarrow> kips u = kips s \<union> set is)
       | Inr _ \<Rightarrow> devices u = devices s \<and> policies u = policies s \<and> bview u = bview s \<and>
         kmacs u = kmacs s \<and> kips u = kips s \<union> set (seen @ [i]))"
    by (intro spec_mono [OF blockIp_spec [OF assms(1)]]) (auto split: sum.splits)
qed auto

text \<open>Removing everything that is not wanted, from the list the kernel returned.\<close>

lemma unblockMacs_spec:
  assumes "\<And>m. m \<in> set ms \<Longrightarrow> MacAddress_create m = Inr m"
  shows "spec (forEach ms (\<lambda>mac. whenP (mac \<notin> D) (bnd (liftE (MacAddress_create mac))
      (\<lambda>m. b_unblock (f_blocker deps) m None)))) s
    (\<lambda>r t. devices t = devices s \<and> policies t = policies s \<and> bview t = bview s \<and> kips t = kips s \<and>
       kmacs t \<subseteq> kmacs s \<and> kmacs s \<inter> D \<subseteq> kmacs t \<and> (r = Inr () \<longrightarrow> kmacs t = kmacs s - (set ms - D)))"
proof (rule spec_forEach [where I = "\<lambda>seen t. devices t = devices s \<and> policies t = policies s \<and>
      bview t = bview s \<and> kips t = kips s \<and> kmacs t = kmacs s - (set seen - D)"])
  fix seen m rest t
  assume split: "ms = seen @ m # rest" and I: "devices t = devices s \<and> policies t = policies s \<and>
      bview t = bview s \<and> kips t = kips s \<and> kmacs t = kmacs s - (set seen - D)"
  have m: "MacAddress_create m = Inr m" using assms split by simp
  then have n: "normalizeText m = m" using MacAddress_create_normal by (simp add: normalizeText_def)
  let ?Q = "\<lambda>r u. case r of Inl e \<Rightarrow> devices u = devices s \<and> policies u = policies s \<and> bview u = bview s \<and>
         kips u = kips s \<and> kmacs u \<subseteq> kmacs s \<and> kmacs s \<inter> D \<subseteq> kmacs u \<and>
         (Inl e = Inr () \<longrightarrow> kmacs u = kmacs s - (set ms - D))
       | Inr (_ :: unit) \<Rightarrow> devices u = devices s \<and> policies u = policies s \<and> bview u = bview s \<and>
         kips u = kips s \<and> kmacs u = kmacs s - (set (seen @ [m]) - D)"
  have "spec (b_unblock (f_blocker deps) m None) t ?Q" if "m \<notin> D"
  proof (rule specI)
    fix r u assume b: "b_unblock (f_blocker deps) m None t = (r, u)"
    from frameD [OF blk.unblock_frame b] I
    have "devices u = devices s" "policies u = policies s" "bview u = bview s" by simp_all
    with I n that split blk.unblock_ok [of m None t _ u] blk.unblock_err [of m None t _ u] b
    show "?Q r u" by (cases r) (auto simp: truthy_def)
  qed
  with I show "spec (whenP (m \<notin> D) (bnd (liftE (MacAddress_create m))
      (\<lambda>m. b_unblock (f_blocker deps) m None))) t ?Q"
    unfolding bnd_liftE_Inr [OF m] by (intro spec_whenP) auto
qed auto

lemma unblockIps_spec:
  assumes "b_unblockIp (f_blocker deps) = Some f"
  shows "spec (forEach is (\<lambda>i. whenP (i \<notin> D) (f i))) s
    (\<lambda>r t. devices t = devices s \<and> policies t = policies s \<and> bview t = bview s \<and> kmacs t = kmacs s \<and>
       kips t \<subseteq> kips s \<and> kips s - trim ` (set is - D) \<subseteq> kips t \<and>
       (r = Inr () \<longrightarrow> kips t = kips s - trim ` (set is - D)))"
proof (rule spec_forEach [where I = "\<lambda>seen t. devices t = devices s \<and> policies t = policies s \<and>
      bview t = bview s \<and> kmacs t = kmacs s \<and> kips t = kips s - trim ` (set seen - D)"])
  fix seen i rest t
  assume split: "is = seen @ i # rest" and I: "devices t = devices s \<and> policies t = policies s \<and>
      bview t = bview s \<and> kmacs t = kmacs s \<and> kips t = kips s - trim ` (set seen - D)"
  let ?Q = "\<lambda>r u. case r of Inl e \<Rightarrow> devices u = devices s \<and> policies u = policies s \<and> bview u = bview s \<and>
         kmacs u = kmacs s \<and> kips u \<subseteq> kips s \<and> kips s - trim ` (set is - D) \<subseteq> kips u \<and>
         (Inl e = Inr () \<longrightarrow> kips u = kips s - trim ` (set is - D))
       | Inr (_ :: unit) \<Rightarrow> devices u = devices s \<and> policies u = policies s \<and> bview u = bview s \<and>
         kmacs u = kmacs s \<and> kips u = kips s - trim ` (set (seen @ [i]) - D)"
  have "spec (f i) t ?Q" if "i \<notin> D"
  proof (rule specI)
    fix r u assume b: "f i t = (r, u)"
    from frameD [OF blk.unblockIp_frame [OF assms] b] I
    have "devices u = devices s" "policies u = policies s" "bview u = bview s" "kmacs u = kmacs s" by simp_all
    with I that split blk.unblockIp_ok [OF assms, of i t _ u] blk.unblockIp_err [OF assms, of i t _ u] b
    show "?Q r u" by (cases r) auto
  qed
  with I show "spec (whenP (i \<notin> D) (f i)) t ?Q" by (intro spec_whenP) auto
qed auto

lemma getMacs_spec:
  assumes "b_getBlockedMacs (f_blocker deps) = Some g"
  shows "spec g s (\<lambda>r t. devices t = devices s \<and> policies t = policies s \<and> bview t = bview s \<and>
    kmacs t = kmacs s \<and> kips t = kips s \<and>
    (\<forall>ms. r = Inr ms \<longrightarrow> set ms = kmacs s \<and> (\<forall>m \<in> set ms. MacAddress_create m = Inr m)))"
  by (rule specI) (use frameD [OF blk.getMacs_frame [OF assms]] blk.getMacs_ok [OF assms] in fastforce)

lemma getIps_spec:
  assumes "b_getBlockedIps (f_blocker deps) = Some g"
  shows "spec g s (\<lambda>r t. devices t = devices s \<and> policies t = policies s \<and> bview t = bview s \<and>
    kmacs t = kmacs s \<and> kips t = kips s \<and>
    (\<forall>is. r = Inr is \<longrightarrow> set is = kips s \<and> (\<forall>i \<in> set is. trim i = i)))"
  by (rule specI) (use frameD [OF blk.getIps_frame [OF assms]] blk.getIps_ok [OF assms] in fastforce)

lemma keep_wanted: "A \<union> D - (A \<union> D - D) = D"
  by auto

lemma trim_image: "\<forall>i \<in> A. trim i = i \<Longrightarrow> trim ` (A - D) = A - D"
  by (auto simp: image_iff)

text \<open>
  A run of \<open>reconcile\<close> never removes a wanted entry nor adds an unwanted one; one that succeeds
  leaves exactly the wanted sets.
\<close>

lemma reconcile_spec:
  assumes b: "b_blockIp (f_blocker deps) = Some bi" "b_unblockIp (f_blocker deps) = Some ui"
      "b_getBlockedMacs (f_blocker deps) = Some gm" "b_getBlockedIps (f_blocker deps) = Some gi"
  defines "M s \<equiv> desiredMacs (devices s) (policies s)" and "P s \<equiv> desiredIps (devices s) (policies s)"
  shows "spec (firewall_reconcile deps) s (\<lambda>r t. devices t = devices s \<and> policies t = policies s \<and>
     bview t = bview s \<and>
     kmacs s \<inter> M s \<subseteq> kmacs t \<and> kmacs t \<subseteq> kmacs s \<union> M s \<and>
     kips s \<inter> P s \<subseteq> kips t \<and> kips t \<subseteq> kips s \<union> P s \<and>
     (r = Inr () \<longrightarrow> kmacs t = M s \<and> kips t = P s))"
  unfolding firewall_reconcile_def Let_def b optCall_simps option.case case_prod_beta
  apply (rule spec_bnd, rule findAll_spec, simp)
  apply (rule spec_bnd, rule desiredSets_spec, simp)
  apply (rule spec_thn, rule blockMacs_spec)
    apply (auto simp: desiredMacs_create) [1]
   apply (fastforce simp: M_def)
  apply (rule spec_thn, rule blockIps_spec [OF b(1)])
    apply (auto simp: desiredIps_trim) [1]
   apply (fastforce simp: M_def P_def)
  apply (rule spec_bnd, rule getMacs_spec [OF b(3)])
   apply (fastforce simp: M_def P_def)
  apply (rule spec_thn, rule unblockMacs_spec)
    apply simp
   apply (fastforce simp: M_def P_def)
  apply (rule spec_bnd, rule getIps_spec [OF b(4)])
   apply (fastforce simp: M_def P_def)
  apply (rule spec_mono, rule unblockIps_spec [OF b(2)])
  apply (clarsimp simp: M_def P_def trim_image keep_wanted)
  apply (erule subsetD, assumption)
  done

subsection \<open>Unblocking\<close>

lemma activeIps_spec:
  assumes "wf (bview s)"
  shows "spec (case f_blocked deps of None \<Rightarrow> ret [] | Some r \<Rightarrow> br_activeIps r i) s (\<lambda>r t.
     devices t = devices s \<and> policies t = policies s \<and> bview t = bview s \<and>
     kmacs t = kmacs s \<and> kips t = kips s \<and>
     (\<forall>is. r = Inr is \<longrightarrow> set is = (if f_blocked deps = None then {} else {ip. (i, ip) \<in> active (bview s)})))"
proof (cases "f_blocked deps")
  case (Some br)
  note l = blocked [OF Some]
  show ?thesis
    unfolding Some option.case
    by (rule specI)
      (use frameD [OF blocked_repository.activeIps_frame [OF l]]
        blocked_repository.activeIps_ok [OF l _ assms] in fastforce)
qed (auto intro!: spec_ret)

lemma releaseBlock_spec:
  "spec (optCall (f_blocked deps) (\<lambda>r. br_releaseBlock r i)) s (\<lambda>r t.
     devices t = devices s \<and> policies t = policies s \<and> kmacs t = kmacs s \<and> kips t = kips s)"
  by (rule spec_optCall)
    (auto intro!: specI dest: frameD [OF blocked_repository.release_frame [OF blocked]])

lemma unblock_spec:
  assumes "d \<in> set (devices s)"
  shows "spec (b_unblock (f_blocker deps) (d_mac d) (d_ip d)) s (\<lambda>r t. devices t = devices s \<and>
    policies t = policies s \<and> bview t = bview s \<and>
    kmacs s - {d_mac d} \<subseteq> kmacs t \<and> kmacs t \<subseteq> kmacs s \<and>
    kips s - set_option (d_ip d) \<subseteq> kips t \<and> kips t \<subseteq> kips s \<and>
    (r = Inr () \<longrightarrow> d_mac d \<notin> kmacs t \<and> set_option (d_ip d) \<inter> kips t = {}))"
proof (rule specI)
  fix r t assume b: "b_unblock (f_blocker deps) (d_mac d) (d_ip d) s = (r, t)"
  have i: "(if truthy (d_ip d) then {trim (the (d_ip d))} else {}) = set_option (d_ip d)"
    using devs.device_ip_normal [OF assms] by (cases "d_ip d") (auto simp: truthy_def)
  from frameD [OF blk.unblock_frame b] devs.device_mac_normal [OF assms] b
    blk.unblock_ok [of "d_mac d" "d_ip d" s _ t] blk.unblock_err [of "d_mac d" "d_ip d" s _ t]
  show "devices t = devices s \<and> policies t = policies s \<and> bview t = bview s \<and>
    kmacs s - {d_mac d} \<subseteq> kmacs t \<and> kmacs t \<subseteq> kmacs s \<and>
    kips s - set_option (d_ip d) \<subseteq> kips t \<and> kips t \<subseteq> kips s \<and>
    (r = Inr () \<longrightarrow> d_mac d \<notin> kmacs t \<and> set_option (d_ip d) \<inter> kips t = {})"
    unfolding i by (cases r) auto
qed

lemma unblockIpList_spec:
  assumes "b_unblockIp (f_blocker deps) = Some f"
  shows "spec (forEach is f) s
    (\<lambda>r t. devices t = devices s \<and> policies t = policies s \<and> bview t = bview s \<and> kmacs t = kmacs s \<and>
       kips t \<subseteq> kips s \<and> kips s - trim ` set is \<subseteq> kips t \<and>
       (r = Inr () \<longrightarrow> kips t = kips s - trim ` set is))"
  using unblockIps_spec [OF assms, of "is" "{}" s] by simp

lemma unblockIpOne_spec:
  assumes "b_unblockIp (f_blocker deps) = Some f"
  shows "spec (f i) s (\<lambda>r t. devices t = devices s \<and> policies t = policies s \<and> bview t = bview s \<and>
    kmacs t = kmacs s \<and> kips t \<subseteq> kips s \<and> kips s - {trim i} \<subseteq> kips t)"
proof (rule specI)
  fix r t assume b: "f i s = (r, t)"
  from frameD [OF blk.unblockIp_frame [OF assms] b] blk.unblockIp_ok [OF assms, of i s _ t]
    blk.unblockIp_err [OF assms, of i s _ t] b
  show "devices t = devices s \<and> policies t = policies s \<and> bview t = bview s \<and>
    kmacs t = kmacs s \<and> kips t \<subseteq> kips s \<and> kips s - {trim i} \<subseteq> kips t"
    by (cases r) auto
qed

lemma unblockStep_spec:
  assumes d: "d \<in> set (devices s)" and u: "b_unblockIp (f_blocker deps) = Some f" and w: "wf (bview s)"
  defines "R \<equiv> recordedIps (f_blocked deps = None) (active (bview s)) d"
  shows "spec (if \<not> d_l2Visible d then
        bnd (case f_blocked deps of None \<Rightarrow> ret [] | Some r \<Rightarrow> br_activeIps r (d_id d)) (\<lambda>activeIps.
        optCall (b_unblockIp (f_blocker deps)) (\<lambda>unblockIp. forEach activeIps unblockIp))
      else b_unblock (f_blocker deps) (d_mac d) (d_ip d)) s
    (\<lambda>r t. devices t = devices s \<and> policies t = policies s \<and> bview t = bview s \<and>
      unblockEffect d R (kmacs s, kips s) (kmacs t, kips t) \<and>
      (r = Inr () \<longrightarrow> releasedIn d R (kmacs t, kips t)))"
  unfolding u optCall_simps
  apply (rule spec_if)
   apply (rule spec_bnd, rule activeIps_spec [OF w], simp)
   apply (rule spec_mono, rule unblockIpList_spec [OF u])
   apply (auto simp: unblockEffect_def releasedIn_def R_def recordedIps_def) [1]
  apply (rule spec_mono, rule unblock_spec [OF d])
  apply (auto simp: unblockEffect_def releasedIn_def) [1]
  done

lemma unblockBody_spec:
  assumes d: "d \<in> set (devices s)" and u: "b_unblockIp (f_blocker deps) = Some f" and w: "wf (bview s)"
  defines "R \<equiv> recordedIps (f_blocked deps = None) (active (bview s)) d"
  shows "spec (thn (if \<not> d_l2Visible d then
        bnd (case f_blocked deps of None \<Rightarrow> ret [] | Some r \<Rightarrow> br_activeIps r (d_id d)) (\<lambda>activeIps.
        optCall (b_unblockIp (f_blocker deps)) (\<lambda>unblockIp. forEach activeIps unblockIp))
      else b_unblock (f_blocker deps) (d_mac d) (d_ip d))
     (thn (optCall (f_blocked deps) (\<lambda>r. br_releaseBlock r (d_id d))) (audit deps a))) s
    (\<lambda>r t. devices t = devices s \<and> policies t = policies s \<and>
      unblockEffect d R (kmacs s, kips s) (kmacs t, kips t) \<and>
      (r = Inr () \<longrightarrow> releasedIn d R (kmacs t, kips t)))"
  unfolding R_def
  by (rule spec_thn, rule unblockStep_spec [OF d u w], simp, rule spec_thn, rule releaseBlock_spec, simp,
      rule spec_mono, rule audit_spec, simp)

lemma unblockUnknown_spec: "spec (b_unblock (f_blocker deps) m None) s (\<lambda>r t. devices t = devices s \<and>
    policies t = policies s \<and> kmacs t \<subseteq> kmacs s \<and> kips t \<subseteq> kips s)"
proof (rule specI)
  fix r t assume b: "b_unblock (f_blocker deps) m None s = (r, t)"
  from frameD [OF blk.unblock_frame b] blk.unblock_ok [of m None s _ t] blk.unblock_err [of m None s _ t] b
  show "devices t = devices s \<and> policies t = policies s \<and> kmacs t \<subseteq> kmacs s \<and> kips t \<subseteq> kips s"
    by (cases r) (auto simp: truthy_def)
qed

lemma unblockDevice_spec:
  assumes u: "b_unblockIp (f_blocker deps) = Some f" and w: "wf (bview s)"
  shows "spec (unblockDevice deps mac) s (\<lambda>r t. devices t = devices s \<and>
    unblockPost (filter (denotes mac) (devices s)) (recordedIps (f_blocked deps = None) (active (bview s)))
      (policies s) (kmacs s, kips s) (policies t) (kmacs t, kips t) (r = Inr ()))"
  unfolding unblockDevice_def
  apply (rule spec_bnd, rule resolve_spec, simp add: unblockPost_def)
  apply (rule spec_option)
   apply (cases "MacAddress_create mac"; simp add: liftE_def unblockPost_def)
   apply (rule spec_mono, rule unblockUnknown_spec, simp add: unblockPost_def)
  subgoal for x t d
    by (rule spec_mono, rule persistThen_spec [where
          E = "unblockEffect d (recordedIps (f_blocked deps = None) (active (bview s)) d) (kmacs s, kips s)" and
          F = "releasedIn d (recordedIps (f_blocked deps = None) (active (bview s)) d)"],
        rule spec_mono, rule unblockBody_spec [OF _ u])
      (use w in \<open>auto simp: unblockPost_def dest: unblockEffect_subset\<close>)
  done

subsection \<open>Quota blocks\<close>

lemma blockForQuota_spec:
  "spec (blockForQuota deps mac) s (\<lambda>r t. devices t = devices s \<and> policies t = policies s \<and>
    ((kmacs t = kmacs s \<and> kips t = kips s \<and> r \<noteq> Inr ()) \<or>
     (\<exists>d \<in> set (devices s). denotes mac d \<and> d_identityValidated d \<and> blockEffect d (kmacs s, kips s) (kmacs t, kips t) \<and>
       (r = Inr () \<longrightarrow> enforcedIn d (kmacs t, kips t)))))"
  unfolding blockForQuota_def
  apply (rule spec_bnd, rule resolve_spec, simp)
  apply (rule spec_option, rule spec_throw, simp)
  apply (rule spec_if, rule spec_throw, simp)
  subgoal for x t d
    by (rule spec_tryCatch, rule blockBody_spec, simp,
        rule spec_mono, rule pending_spec [where x = "()"]) auto
  done

text \<open>A quota release never touches a device whose policy is blocked.\<close>

lemma unblockForQuota_spec:
  assumes u: "b_unblockIp (f_blocker deps) = Some f" and w: "wf (bview s)"
  shows "spec (unblockForQuota deps mac) s (\<lambda>r t. devices t = devices s \<and> policies t = policies s \<and>
    ((kmacs t = kmacs s \<and> kips t = kips s) \<or>
     (\<exists>d \<in> set (devices s). denotes mac d \<and> \<not> policyBlocks (policies s (d_id d)) \<and>
        unblockEffect d (recordedIps (f_blocked deps = None) (active (bview s)) d \<union> set_option (d_ip d))
          (kmacs s, kips s) (kmacs t, kips t))))"
  unfolding unblockForQuota_def u optCall_simps
  apply (rule spec_bnd, rule resolve_spec, simp)
  apply (rule spec_option, rule spec_throw, simp)
  apply (rule spec_bnd, rule find_spec, simp)
  apply (rule spec_if, rule spec_skip, simp)
  subgoal for x t d p v
    apply (rule spec_thn [where R = "\<lambda>r w. devices w = devices s \<and> policies w = policies s \<and>
        unblockEffect d (recordedIps (f_blocked deps = None) (active (bview s)) d \<union> set_option (d_ip d))
          (kmacs s, kips s) (kmacs w, kips w)"])
      apply (rule spec_if)
       apply (rule spec_bnd, rule activeIps_spec, simp add: w, simp)
       apply (rule spec_thn, rule unblockIpList_spec [OF u])
        apply (auto simp: unblockEffect_def recordedIps_def) [1]
       apply (cases "d_ip d"; simp)
        apply (auto simp: unblockEffect_def recordedIps_def intro!: spec_skip) [1]
       apply (rule spec_whenP, rule spec_mono, rule unblockIpOne_spec [OF u])
        apply (auto simp: unblockEffect_def recordedIps_def) [2]
      apply (rule spec_mono, rule unblock_spec, simp)
      apply (auto simp: unblockEffect_def) [1]
     apply (auto simp: policyBlocks_def) [1]
    apply (rule spec_thn, rule releaseBlock_spec, (auto simp: policyBlocks_def) [1])
    apply (rule spec_mono, rule audit_spec, (auto simp: policyBlocks_def) [1])
    done
  done

end

end
