(* ===== verification/Bindings.thy ===== *)
theory Bindings
  imports Firewall
begin

text \<open>
  The two services that keep IP-only blocks attached to the right device:
  \<open>application/enforcement/IpBindingLifecycleService.ts\<close> and
  \<open>application/enforcement/BlockedIpReconciliationService.ts\<close>. Both run under the lock of
  \<open>IpBindingMutationLock.ts\<close>, so one cycle is one program; the timers that start them are not
  modelled. \<open>now\<close> is the clock in milliseconds.
\<close>

section \<open>IpBindingLifecycleService\<close>

record 's BindingDeps =
  il_devices :: "'s DeviceRepository"
  il_policies :: "'s DevicePolicyRepository"
  il_leases :: "('s, DhcpLease list) prog"
  il_blocked :: "'s BlockedDeviceRepository"
  il_blocker :: "'s DeviceBlocker"

definition activeLeasesAt :: "int \<Rightarrow> DhcpLease list \<Rightarrow> DhcpLease list" where
  "activeLeasesAt now leases =
     filter (\<lambda>l. l_expiry l = 0 \<or> l_expiry l > of_int (now div 1000)) leases"

definition lifecycleStep :: "'s BindingDeps \<Rightarrow> (int \<times> Device) list \<Rightarrow> (string \<times> string) list \<Rightarrow>
    (string \<times> string) list \<Rightarrow> int \<times> string \<Rightarrow> ('s, unit) prog" where
  "lifecycleStep deps deviceById leaseIpByMac leaseMacByIp binding =
     (case map_of deviceById (fst binding) of None \<Rightarrow> skip
      | Some device \<Rightarrow>
        bnd (pr_findByDeviceId (il_policies deps) (d_id device)) (\<lambda>policy.
        if \<not> policyBlocks policy \<or> \<not> d_identityValidated device \<or> d_l2Visible device then skip
        else
        let deviceMac = toLowerCase (d_mac device); bindingIp = snd binding;
            claimantMac = map_of leaseMacByIp bindingIp
        in if truthy claimantMac \<and> the claimantMac \<noteq> deviceMac then
             thn (optCall (br_releaseIp (il_blocked deps)) (\<lambda>f. f (d_id device) bindingIp
                   (''ip_reassigned_to_other_mac:'' @ the claimantMac)))
             (bnd (br_activeBindings (il_blocked deps)) (\<lambda>remaining.
                optCall (b_unblockIp (il_blocker deps)) (\<lambda>unblockIp.
                  whenP (\<not> list_ex (\<lambda>c. snd c = bindingIp) remaining) (unblockIp bindingIp))))
           else
           let currentIp = map_of leaseIpByMac deviceMac
           in if \<not> truthy currentIp \<or> the currentIp = bindingIp then skip
              else case b_blockIp (il_blocker deps) of
                None \<Rightarrow> throw (Error ''IP blocking is not available'')
              | Some blockIp \<Rightarrow> (case b_unblockIp (il_blocker deps) of
                  None \<Rightarrow> throw (Error ''IP unblocking is not available'')
                | Some unblockIp \<Rightarrow>
                  thn (blockIp (the currentIp))
                 (thn (br_recordBlock (il_blocked deps) (d_id device) None currentIp
                        (Some ''ip-enforced-proxy''))
                 (thn (optCall (br_releaseIp (il_blocked deps)) (\<lambda>f. f (d_id device) bindingIp
                        (''device '' @ showInt (d_id device) @ '' moved to '' @ the currentIp)))
                 (bnd (br_activeBindings (il_blocked deps)) (\<lambda>remaining.
                    whenP (\<not> list_ex (\<lambda>c. snd c = bindingIp) remaining) (unblockIp bindingIp))))))))"

definition lifecycleBody :: "'s BindingDeps \<Rightarrow> int \<Rightarrow> ('s, unit) prog" where
  "lifecycleBody deps now =
     bnd (dr_findAll (il_devices deps)) (\<lambda>devices.
     bnd (il_leases deps) (\<lambda>leases.
     bnd (br_activeBindings (il_blocked deps)) (\<lambda>bindings.
     let deviceById = mapOfList (map (\<lambda>d. (d_id d, d)) devices);
         active = activeLeasesAt now leases;
         leaseIpByMac = mapOfList (map (\<lambda>l. (normalizeText (l_mac l), trim (l_ip l))) active);
         leaseMacByIp = mapOfList (map (\<lambda>l. (trim (l_ip l), normalizeText (l_mac l))) active)
     in forEach bindings (lifecycleStep deps deviceById leaseIpByMac leaseMacByIp))))"

text \<open>The service's own flag wraps the cycle; its \<open>catch\<close> logs and its \<open>finally\<close> lowers the flag.\<close>

definition guardedCycle :: "('s, unit) prog \<Rightarrow> (bool \<times> 's, unit) prog" where
  "guardedCycle body = (\<lambda>(running, s). if running then (Inr (), running, s)
     else (case tryCatch body (\<lambda>_. skip) s of (r, s') \<Rightarrow> (r, False, s')))"

definition lifecycle_reconcile :: "'s BindingDeps \<Rightarrow> int \<Rightarrow> (bool \<times> 's, unit) prog" where
  "lifecycle_reconcile deps now = guardedCycle (lifecycleBody deps now)"

section \<open>BlockedIpReconciliationService\<close>

record 's BlockedIpDeps =
  bi_devices :: "'s DeviceRepository"
  bi_policies :: "'s DevicePolicyRepository"
  bi_leases :: "('s, DhcpLease list) prog"
  bi_neighbors :: "('s, NeighborEntry list) prog"
  bi_captures :: "('s \<Rightarrow> CapturedIdentity list) option"
  bi_blocked :: "'s BlockedDeviceRepository option"
  bi_blocker :: "'s DeviceBlocker option"

definition isLeaseActive :: "rat \<Rightarrow> int \<Rightarrow> bool" where
  "isLeaseActive expiry nowSeconds \<longleftrightarrow> expiry = 0 \<or> expiry > of_int nowSeconds"

text \<open>The pairs (MAC, IP) of the active leases and of the usable neighbours, in order.\<close>

definition activeLeasePairs :: "int \<Rightarrow> DhcpLease list \<Rightarrow> (string \<times> string) list" where
  "activeLeasePairs nowSeconds leases =
     filter (\<lambda>(mac, ip). mac \<noteq> [] \<and> ip \<noteq> [])
       (map (\<lambda>l. (normalizeText (l_mac l), trim (l_ip l)))
         (filter (\<lambda>l. isLeaseActive (l_expiry l) nowSeconds) leases))"

definition neighborPairs :: "NeighborEntry list \<Rightarrow> (string \<times> string) list" where
  "neighborPairs neighbors =
     filter (\<lambda>(mac, ip). mac \<noteq> [] \<and> ip \<noteq> [])
       (map (\<lambda>n. (normalizeText (n_mac n), trim (n_ip n)))
         (filter (\<lambda>n. isUsableNeighborState (n_state n)) neighbors))"

definition swapPairs :: "('a \<times> 'b) list \<Rightarrow> ('b \<times> 'a) list" where
  "swapPairs ps = map (\<lambda>(a, b). (b, a)) ps"

text \<open>Which address of a proxied device must be blocked: its lease, when something confirms it.\<close>

definition leaseConfirmed :: "CapturedIdentity list option \<Rightarrow> (string \<times> string) list \<Rightarrow> Device \<Rightarrow> string \<Rightarrow> bool" where
  "leaseConfirmed captures neighborMacByIp device dhcpIp \<longleftrightarrow>
     (let mac = normalizeText (d_mac device);
          neighborOwner = map_of neighborMacByIp dhcpIp;
          captureConfirms = (case captures of None \<Rightarrow> False | Some cs \<Rightarrow>
            list_ex (\<lambda>c. normalizeText (c_mac c) = mac \<and>
              (c_sourceIp c = None \<or> map_option trim (c_sourceIp c) = Some dhcpIp)) cs);
          persistedProxyConfirms = (case d_proxyMac device of None \<Rightarrow> False
            | Some p \<Rightarrow> normalizeText p = normalizeText (case neighborOwner of None \<Rightarrow> [] | Some m \<Rightarrow> m))
      in neighborOwner = Some mac \<or> captureConfirms \<or> persistedProxyConfirms)"

primrec expectedBlocked :: "'s DevicePolicyRepository \<Rightarrow> ('s \<Rightarrow> CapturedIdentity list) option \<Rightarrow>
    (string \<times> string) list \<Rightarrow> (string \<times> string) list \<Rightarrow> Device list \<Rightarrow>
    string list \<times> (string \<times> Device) list \<Rightarrow> ('s, string list \<times> (string \<times> Device) list) prog" where
  "expectedBlocked policies captures leaseByMac neighborMacByIp [] acc = ret acc"
| "expectedBlocked policies captures leaseByMac neighborMacByIp (device # rest) acc =
     bnd (pr_findByDeviceId policies (d_id device)) (\<lambda>policy.
     bnd (gets (\<lambda>s. map_option (\<lambda>c. c s) captures)) (\<lambda>cs.
     expectedBlocked policies captures leaseByMac neighborMacByIp rest
       (if \<not> policyBlocks policy \<or> \<not> d_identityValidated device \<or>
           d_identitySource device = PROXY_UNCONFIRMED \<or> d_l2Visible device then acc
        else (case map_of leaseByMac (normalizeText (d_mac device)) of
            None \<Rightarrow> acc
          | Some dhcpIp \<Rightarrow> if leaseConfirmed cs neighborMacByIp device dhcpIp
              then (setAdd dhcpIp (fst acc), AList.update dhcpIp device (snd acc)) else acc))))"

definition releaseBlockedIp :: "'s BlockedIpDeps \<Rightarrow> 's DeviceBlocker \<Rightarrow> string \<Rightarrow> string \<Rightarrow> int option \<Rightarrow> ('s, unit) prog" where
  "releaseBlockedIp deps blocker ip reason deviceId =
     thn (case b_unblockIp blocker of None \<Rightarrow> throw (Error ''this.deviceBlocker.unblockIp is not a function'') | Some f \<Rightarrow> f ip)
       (case deviceId of None \<Rightarrow> skip
        | Some i \<Rightarrow> optCall (bi_blocked deps) (\<lambda>r. optCall (br_releaseIp r) (\<lambda>f. f i ip reason)))"

text \<open>One blocked address of the kernel that is not expected: released only on DHCP evidence.\<close>

definition checkBlockedIp :: "'s BlockedIpDeps \<Rightarrow> 's DeviceBlocker \<Rightarrow> (int \<times> Device) list \<Rightarrow>
    (string \<times> string) list \<Rightarrow> (string \<times> string) list \<Rightarrow> (string \<times> int) list \<Rightarrow> string list \<Rightarrow>
    string \<Rightarrow> ('s, unit) prog" where
  "checkBlockedIp deps blocker deviceById leaseByMac dhcpMacByIp bindingByIp expected blockedIp =
     (if blockedIp \<in> set expected then skip
      else
      let binding = map_of bindingByIp blockedIp;
          boundDevice = Option.bind binding (map_of deviceById);
          currentIp = Option.bind boundDevice (\<lambda>d. map_of leaseByMac (normalizeText (d_mac d)))
      in if truthy currentIp \<and> the currentIp \<noteq> blockedIp then
           releaseBlockedIp deps blocker blockedIp (''device '' @ showInt (d_id (the boundDevice)) @
             '' moved to '' @ the currentIp) (Some (d_id (the boundDevice)))
         else
         let dhcpOwner = map_of dhcpMacByIp blockedIp
         in whenP (truthy dhcpOwner \<and>
               (boundDevice = None \<or> the dhcpOwner \<noteq> normalizeText (d_mac (the boundDevice))))
             (releaseBlockedIp deps blocker blockedIp (''DHCP reassigned to '' @ the dhcpOwner) binding))"

definition installExpected :: "'s BlockedIpDeps \<Rightarrow> 's DeviceBlocker \<Rightarrow> (string \<times> Device) list \<Rightarrow>
    string list \<Rightarrow> string \<Rightarrow> ('s, unit) prog" where
  "installExpected deps blocker expectedDevices current expectedIp =
     whenP (expectedIp \<notin> set current)
       (case b_blockIp blocker of
          None \<Rightarrow> throw (Error ''IP blocking is not available'')
        | Some blockIp \<Rightarrow>
          thn (blockIp expectedIp)
            (case map_of expectedDevices expectedIp of None \<Rightarrow> skip
             | Some device \<Rightarrow> optCall (bi_blocked deps) (\<lambda>r. br_recordBlock r (d_id device)
                 (if d_identitySource device = PROXY_ACCEPTED_BY_ADMIN then None else Some (d_mac device))
                 (Some expectedIp) (Some ''ip-enforced-proxy''))))"

definition blockedIpBody :: "'s BlockedIpDeps \<Rightarrow> int \<Rightarrow> ('s, unit) prog" where
  "blockedIpBody deps now =
     (case bi_blocker deps of
        None \<Rightarrow> throw (Error ''Blocked IP reconciliation requires an enforcement adapter'')
      | Some blocker \<Rightarrow>
     bnd (dr_findAll (bi_devices deps)) (\<lambda>devices.
     bnd (bi_leases deps) (\<lambda>leases.
     bnd (bi_neighbors deps) (\<lambda>neighbors.
     bnd (case b_getBlockedIps blocker of None \<Rightarrow> ret [] | Some g \<Rightarrow> g) (\<lambda>blockedIps.
     bnd (case bi_blocked deps of None \<Rightarrow> ret [] | Some r \<Rightarrow> br_activeBindings r) (\<lambda>bindings.
     let deviceById = mapOfList (map (\<lambda>d. (d_id d, d)) devices);
         leasePairs = activeLeasePairs (now div 1000) leases;
         leaseByMac = mapOfList leasePairs;
         dhcpMacByIp = mapOfList (swapPairs leasePairs);
         neighborMacByIp = mapOfList (swapPairs (neighborPairs neighbors))
     in bnd (expectedBlocked (bi_policies deps) (bi_captures deps) leaseByMac neighborMacByIp devices ([], []))
       (\<lambda>(expected, expectedDevices).
     let bindingByIp = mapOfList (map (\<lambda>(i, ip). (ip, i)) bindings)
     in thn (forEach blockedIps (checkBlockedIp deps blocker deviceById leaseByMac dhcpMacByIp bindingByIp expected))
       (bnd (case b_getBlockedIps blocker of None \<Rightarrow> ret [] | Some g \<Rightarrow> g) (\<lambda>current.
        forEach expected (installExpected deps blocker expectedDevices current))))))))))"

definition blockedIp_reconcile :: "'s BlockedIpDeps \<Rightarrow> int \<Rightarrow> (bool \<times> 's, unit) prog" where
  "blockedIp_reconcile deps now = guardedCycle (blockedIpBody deps now)"

section \<open>The lifecycle cycle over its contracts\<close>

text \<open>
  Every active binding is enforced: its address is in the kernel set of blocked addresses.
\<close>

definition covered :: "(int \<times> string) set \<Rightarrow> string set \<Rightarrow> bool" where
  "covered bs ips \<longleftrightarrow> (\<forall>(i, ip) \<in> bs. trim ip = ip \<and> ip \<in> ips)"

text \<open>DHCP evidence that a device no longer holds an address: another client has it, or the device has another.\<close>

definition lostEvidence :: "(string \<times> string) list \<Rightarrow> (string \<times> string) list \<Rightarrow> string \<Rightarrow> string \<Rightarrow> bool" where
  "lostEvidence leaseIpByMac leaseMacByIp mac ip \<longleftrightarrow>
     (\<exists>other. map_of leaseMacByIp ip = Some other \<and> other \<noteq> mac) \<or>
     (\<exists>new. map_of leaseIpByMac mac = Some new \<and> new \<noteq> ip)"

definition lostBinding :: "Device list \<Rightarrow> (string \<times> string) list \<Rightarrow> (string \<times> string) list \<Rightarrow>
    int \<times> string \<Rightarrow> bool" where
  "lostBinding ds leaseIpByMac leaseMacByIp b \<longleftrightarrow>
     (\<exists>d \<in> set ds. d_id d = fst b \<and> lostEvidence leaseIpByMac leaseMacByIp (toLowerCase (d_mac d)) (snd b))"

lemma coveredD: "covered bs ips \<Longrightarrow> (i, ip) \<in> bs \<Longrightarrow> trim ip = ip \<and> ip \<in> ips"
  by (auto simp: covered_def)

lemma covered_mono: "covered bs ips \<Longrightarrow> bs' \<subseteq> bs \<Longrightarrow> ips \<subseteq> ips' \<Longrightarrow> covered bs' ips'"
  by (fastforce simp: covered_def)

text \<open>The two lease maps of a cycle.\<close>

definition leaseIps :: "int \<Rightarrow> DhcpLease list \<Rightarrow> (string \<times> string) list" where
  "leaseIps now ls = mapOfList (map (\<lambda>l. (normalizeText (l_mac l), trim (l_ip l))) (activeLeasesAt now ls))"

definition leaseMacs :: "int \<Rightarrow> DhcpLease list \<Rightarrow> (string \<times> string) list" where
  "leaseMacs now ls = mapOfList (map (\<lambda>l. (trim (l_ip l), normalizeText (l_mac l))) (activeLeasesAt now ls))"

lemma leaseIps_trim: "map_of (leaseIps now ls) m = Some ip \<Longrightarrow> trim ip = ip"
  by (auto simp: leaseIps_def map_of_mapOfList dest!: map_of_SomeD)

lemma deviceById_ok:
  "map_of (mapOfList (map (\<lambda>d. (d_id d, d)) ds)) i = Some d \<Longrightarrow> d \<in> set ds \<and> d_id d = i"
  by (auto simp: map_of_mapOfList dest!: map_of_SomeD)

text \<open>What holds between the operations that handle the binding \<open>c\<close>.\<close>

definition bindingInv :: "bool \<Rightarrow> (int \<times> string) set \<Rightarrow> string set \<Rightarrow> (int \<times> string) set \<Rightarrow>
    int \<times> string \<Rightarrow> bool" where
  "bindingInv w bs ips bs0 c \<longleftrightarrow> w \<and> covered bs ips \<and> bs0 - {c} \<subseteq> bs"

lemma bindingInv_ips: "bindingInv w bs ips bs0 c \<Longrightarrow> ips \<subseteq> ips' \<Longrightarrow> bindingInv w bs ips' bs0 c"
  by (auto simp: bindingInv_def intro: covered_mono)

lemma bindingInv_record:
  "bindingInv w bs ips bs0 c \<Longrightarrow> w' \<Longrightarrow> bs \<subseteq> bs' \<Longrightarrow> bs' \<subseteq> bs \<union> ({i} \<times> {new}) \<Longrightarrow> new \<in> ips \<Longrightarrow>
   trim new = new \<Longrightarrow> bindingInv w' bs' ips bs0 c"
  unfolding bindingInv_def covered_def by fastforce

lemma bindingInv_release:
  "bindingInv w bs ips bs0 c \<Longrightarrow> w' \<Longrightarrow> bs' \<subseteq> bs \<Longrightarrow> bs - {c} \<subseteq> bs' \<Longrightarrow> bindingInv w' bs' ips bs0 c"
  unfolding bindingInv_def by (blast intro: covered_mono)

lemma bindingInv_unblock:
  assumes "bindingInv w bs ips bs0 c" "\<forall>b \<in> bs. snd b \<noteq> ip" "trim ip = ip" "ips - {trim ip} \<subseteq> ips'"
  shows "bindingInv w bs ips' bs0 c"
proof -
  have "ip' \<in> ips'" if "(i, ip') \<in> bs" for i ip'
    using that assms coveredD [of bs ips i ip'] by (force simp: bindingInv_def)
  with assms(1) show ?thesis by (auto simp: bindingInv_def covered_def)
qed

locale binding_env =
  devs: device_repository "il_devices deps" devices "\<lambda>s. (policies s, kips s, bview s, leases s)" +
  pols: policy_repository "il_policies deps" policies "\<lambda>s. (devices s, kips s, bview s)" +
  blk: device_blocker "il_blocker deps" kmacs kips "\<lambda>s. (devices s, policies s, bview s)" +
  tab: blocked_repository "il_blocked deps" bview active wf "\<lambda>s. (devices s, policies s, kips s)"
  for deps :: "'s BindingDeps"
    and devices :: "'s \<Rightarrow> Device list"
    and policies :: "'s \<Rightarrow> int \<Rightarrow> DevicePolicy option"
    and kmacs kips :: "'s \<Rightarrow> string set"
    and bview :: "'s \<Rightarrow> 'b"
    and active :: "'b \<Rightarrow> (int \<times> string) set"
    and wf :: "'b \<Rightarrow> bool"
    and leases :: "'s \<Rightarrow> DhcpLease list" +
  assumes leases_frame: "frame (\<lambda>s. (devices s, policies s, kips s, bview s)) (il_leases deps)"
    and leases_ok: "il_leases deps s = (Inr ls, t) \<Longrightarrow> ls = leases s"
begin

lemma findP_spec: "spec (pr_findByDeviceId (il_policies deps) i) s (\<lambda>r t.
    devices t = devices s \<and> kips t = kips s \<and> bview t = bview s)"
  by (rule spec_mono [OF spec_frame [OF pols.find_frame]]) simp

lemma remaining_spec: "spec (br_activeBindings (il_blocked deps)) s (\<lambda>r t.
    devices t = devices s \<and> kips t = kips s \<and> bview t = bview s \<and>
    (\<forall>bs. r = Inr bs \<longrightarrow> set bs = active (bview s)))"
  by (rule specI) (use frameD [OF tab.bindings_frame] tab.bindings_ok in fastforce)

lemma block_step:
  assumes "b_blockIp (il_blocker deps) = Some f" "trim ip = ip"
  shows "spec (f ip) s (\<lambda>r t. devices t = devices s \<and> bview t = bview s \<and> kips s \<subseteq> kips t \<and>
    (r = Inr () \<longrightarrow> ip \<in> kips t))"
proof (rule specI)
  fix r t assume b: "f ip s = (r, t)"
  from frameD [OF blk.blockIp_frame [OF assms(1)] b] assms(2)
    blk.blockIp_ok [OF assms(1), of ip s _ t] blk.blockIp_err [OF assms(1), of ip s _ t] b
  show "devices t = devices s \<and> bview t = bview s \<and> kips s \<subseteq> kips t \<and> (r = Inr () \<longrightarrow> ip \<in> kips t)"
    by (cases r) auto
qed

lemma unblock_step:
  assumes "b_unblockIp (il_blocker deps) = Some f"
  shows "spec (f ip) s (\<lambda>r t. devices t = devices s \<and> bview t = bview s \<and> kips s - {trim ip} \<subseteq> kips t)"
proof (rule specI)
  fix r t assume b: "f ip s = (r, t)"
  from frameD [OF blk.unblockIp_frame [OF assms] b]
    blk.unblockIp_ok [OF assms, of ip s _ t] blk.unblockIp_err [OF assms, of ip s _ t] b
  show "devices t = devices s \<and> bview t = bview s \<and> kips s - {trim ip} \<subseteq> kips t"
    by (cases r) auto
qed

lemma record_step: "wf (bview s) \<Longrightarrow> spec (br_recordBlock (il_blocked deps) i m oip why) s (\<lambda>r t.
    devices t = devices s \<and> kips t = kips s \<and> wf (bview t) \<and>
    active (bview s) \<subseteq> active (bview t) \<and> active (bview t) \<subseteq> active (bview s) \<union> ({i} \<times> set_option oip))"
  by (rule specI) (use frameD [OF tab.record_frame] tab.record_any in fastforce)

lemma releaseIp_step:
  assumes "wf (bview s)"
  shows "spec (optCall (br_releaseIp (il_blocked deps)) (\<lambda>f. f i ip why)) s (\<lambda>r t.
    devices t = devices s \<and> kips t = kips s \<and> wf (bview t) \<and>
    active (bview s) - {(i, ip)} \<subseteq> active (bview t) \<and> active (bview t) \<subseteq> active (bview s))"
proof (rule spec_optCall)
  fix f assume f: "br_releaseIp (il_blocked deps) = Some f"
  show "spec (f i ip why) s (\<lambda>r t. devices t = devices s \<and> kips t = kips s \<and> wf (bview t) \<and>
    active (bview s) - {(i, ip)} \<subseteq> active (bview t) \<and> active (bview t) \<subseteq> active (bview s))"
  proof (rule specI)
    fix r t assume r: "f i ip why s = (r, t)"
    from frameD [OF tab.releaseIp_frame [OF f] r] r assms
      tab.releaseIp_ok [OF f, of i ip why s _ t] tab.releaseIp_err [OF f, of i ip why s _ t]
    show "devices t = devices s \<and> kips t = kips s \<and> wf (bview t) \<and>
      active (bview s) - {(i, ip)} \<subseteq> active (bview t) \<and> active (bview t) \<subseteq> active (bview s)"
      by (cases r) auto
  qed
qed (use assms in simp)

text \<open>Every operation of a step keeps the invariant; unblocking does when no binding is left.\<close>

lemma guardedUnblock_step:
  assumes f: "b_unblockIp (il_blocker deps) = Some f" and ip: "trim ip = ip"
    and inv: "devices s = ds" "bindingInv (wf (bview s)) (active (bview s)) (kips s) bs0 c"
  shows "spec (bnd (br_activeBindings (il_blocked deps)) (\<lambda>remaining.
      whenP (\<not> list_ex (\<lambda>c. snd c = ip) remaining) (f ip))) s
    (\<lambda>r t. devices t = ds \<and> bindingInv (wf (bview t)) (active (bview t)) (kips t) bs0 c)"
proof (rule spec_bnd, rule remaining_spec)
  fix remaining t
  assume t: "devices t = devices s \<and> kips t = kips s \<and> bview t = bview s \<and>
    (\<forall>bs. Inr remaining = Inr bs \<longrightarrow> set bs = active (bview s))"
  show "spec (whenP (\<not> list_ex (\<lambda>c. snd c = ip) remaining) (f ip)) t
    (\<lambda>r t. devices t = ds \<and> bindingInv (wf (bview t)) (active (bview t)) (kips t) bs0 c)"
  proof (rule spec_whenP, rule spec_mono, rule unblock_step [OF f])
    fix r u
    assume "\<not> list_ex (\<lambda>c. snd c = ip) remaining"
      and "devices u = devices t \<and> bview u = bview t \<and> kips t - {trim ip} \<subseteq> kips u"
    then show "devices u = ds \<and> bindingInv (wf (bview u)) (active (bview u)) (kips u) bs0 c"
      using t inv ip bindingInv_unblock [of _ _ "kips s" bs0 c ip "kips u"]
      by (auto simp: list_ex_iff)
  qed (use t inv in simp)
qed (use inv in simp)

lemma releaseIp_inv:
  assumes inv: "devices s = ds" "bindingInv (wf (bview s)) (active (bview s)) (kips s) bs0 (i, ip)"
  shows "spec (optCall (br_releaseIp (il_blocked deps)) (\<lambda>f. f i ip why)) s
    (\<lambda>r t. devices t = ds \<and> bindingInv (wf (bview t)) (active (bview t)) (kips t) bs0 (i, ip))"
  by (rule spec_mono, rule releaseIp_step)
    (use inv in \<open>auto simp: bindingInv_def intro: bindingInv_release [unfolded bindingInv_def]\<close>,
     use inv in \<open>auto simp: bindingInv_def intro: covered_mono\<close>)

lemma reassigned_spec:
  assumes inv: "devices s = ds" "bindingInv (wf (bview s)) (active (bview s)) (kips s) bs0 (i, ip)"
    and ip: "trim ip = ip"
  shows "spec (thn (optCall (br_releaseIp (il_blocked deps)) (\<lambda>f. f i ip why))
     (bnd (br_activeBindings (il_blocked deps)) (\<lambda>remaining.
        optCall (b_unblockIp (il_blocker deps)) (\<lambda>unblockIp.
          whenP (\<not> list_ex (\<lambda>c. snd c = ip) remaining) (unblockIp ip))))) s
    (\<lambda>r t. devices t = ds \<and> bindingInv (wf (bview t)) (active (bview t)) (kips t) bs0 (i, ip))"
proof (rule spec_thn, rule releaseIp_inv [OF inv])
  fix x t
  assume t: "devices t = ds \<and> bindingInv (wf (bview t)) (active (bview t)) (kips t) bs0 (i, ip)"
  show "spec (bnd (br_activeBindings (il_blocked deps)) (\<lambda>remaining.
        optCall (b_unblockIp (il_blocker deps)) (\<lambda>unblockIp.
          whenP (\<not> list_ex (\<lambda>c. snd c = ip) remaining) (unblockIp ip)))) t
    (\<lambda>r t. devices t = ds \<and> bindingInv (wf (bview t)) (active (bview t)) (kips t) bs0 (i, ip))"
  proof (cases "b_unblockIp (il_blocker deps)")
    case None
    have "spec (bnd (br_activeBindings (il_blocked deps)) (\<lambda>remaining. skip)) t
      (\<lambda>r t. devices t = ds \<and> bindingInv (wf (bview t)) (active (bview t)) (kips t) bs0 (i, ip))"
      by (rule spec_bnd, rule remaining_spec) (use t in \<open>auto intro!: spec_skip\<close>)
    with None show ?thesis by simp
  next
    case (Some f)
    with guardedUnblock_step [OF Some ip] t show ?thesis by simp
  qed
qed simp

lemma follow_spec:
  assumes f: "b_blockIp (il_blocker deps) = Some bi" "b_unblockIp (il_blocker deps) = Some ui"
    and inv: "devices s = ds" "bindingInv (wf (bview s)) (active (bview s)) (kips s) bs0 (i, ip)"
    and ips: "trim ip = ip" "trim new = new"
  shows "spec (thn (bi new) (thn (br_recordBlock (il_blocked deps) i None (Some new) w1)
     (thn (optCall (br_releaseIp (il_blocked deps)) (\<lambda>f. f i ip w2))
     (bnd (br_activeBindings (il_blocked deps)) (\<lambda>remaining.
        whenP (\<not> list_ex (\<lambda>c. snd c = ip) remaining) (ui ip)))))) s
    (\<lambda>r t. devices t = ds \<and> bindingInv (wf (bview t)) (active (bview t)) (kips t) bs0 (i, ip))"
proof (rule spec_thn, rule block_step [OF f(1) ips(2)])
  fix x :: unit and u
  assume "devices u = devices s \<and> bview u = bview s \<and> kips s \<subseteq> kips u \<and> (Inr x = Inr () \<longrightarrow> new \<in> kips u)"
  then have u: "devices u = ds" "bindingInv (wf (bview u)) (active (bview u)) (kips u) bs0 (i, ip)"
    "new \<in> kips u" using inv by (auto intro: bindingInv_ips)
  let ?I = "\<lambda>t. devices t = ds \<and> bindingInv (wf (bview t)) (active (bview t)) (kips t) bs0 (i, ip)"
  have rec: "spec (br_recordBlock (il_blocked deps) i None (Some new) w1) u (\<lambda>r t. ?I t)"
    by (rule spec_mono, rule record_step)
      (use u ips in \<open>auto simp: bindingInv_def intro: bindingInv_record [unfolded bindingInv_def]\<close>,
       use u ips in \<open>fastforce simp: bindingInv_def covered_def\<close>)
  have rel: "spec (optCall (br_releaseIp (il_blocked deps)) (\<lambda>f. f i ip w2)) t (\<lambda>r t. ?I t)" if "?I t" for t
    using releaseIp_inv that by blast
  have unb: "spec (bnd (br_activeBindings (il_blocked deps)) (\<lambda>remaining.
      whenP (\<not> list_ex (\<lambda>c. snd c = ip) remaining) (ui ip))) t (\<lambda>r t. ?I t)" if "?I t" for t
    using guardedUnblock_step [OF f(2) ips(1)] that by blast
  show "spec (thn (br_recordBlock (il_blocked deps) i None (Some new) w1)
     (thn (optCall (br_releaseIp (il_blocked deps)) (\<lambda>f. f i ip w2))
     (bnd (br_activeBindings (il_blocked deps)) (\<lambda>remaining.
        whenP (\<not> list_ex (\<lambda>c. snd c = ip) remaining) (ui ip))))) u (\<lambda>r t. ?I t)"
    by (rule spec_thn [OF rec], simp, rule spec_thn [OF rel], simp, simp, rule unb, simp)
qed (use inv in \<open>auto intro: bindingInv_ips\<close>)

text \<open>One step: only a binding with DHCP evidence against it is dropped.\<close>

lemma lifecycleStep_spec:
  assumes inv: "devices s = ds" "wf (bview s)" "covered (active (bview s)) (kips s)" "trim (snd b) = snd b"
    and byId: "\<And>i d. map_of deviceById i = Some d \<Longrightarrow> d \<in> set ds \<and> d_id d = i"
    and ips: "\<And>m ip. map_of leaseIpByMac m = Some ip \<Longrightarrow> trim ip = ip"
  shows "spec (lifecycleStep deps deviceById leaseIpByMac leaseMacByIp b) s (\<lambda>r t. devices t = ds \<and>
    bindingInv (wf (bview t)) (active (bview t)) (kips t) (active (bview s)) b \<and>
    (\<not> lostBinding ds leaseIpByMac leaseMacByIp b \<longrightarrow> active (bview s) \<subseteq> active (bview t)))"
proof -
  let ?bs0 = "active (bview s)"
  let ?Q = "\<lambda>r t. devices t = ds \<and> bindingInv (wf (bview t)) (active (bview t)) (kips t) ?bs0 b \<and>
    (\<not> lostBinding ds leaseIpByMac leaseMacByIp b \<longrightarrow> active (bview s) \<subseteq> active (bview t))"
  show ?thesis
  proof (cases "map_of deviceById (fst b)")
    case None
    with inv show ?thesis by (auto simp: lifecycleStep_def bindingInv_def)
  next
    case (Some d)
    with byId have d: "d \<in> set ds" "d_id d = fst b" by auto
    have lost: "lostBinding ds leaseIpByMac leaseMacByIp b"
      if "lostEvidence leaseIpByMac leaseMacByIp (toLowerCase (d_mac d)) (snd b)"
      using d that by (auto simp: lostBinding_def)
    have start: "devices t = ds" "bindingInv (wf (bview t)) (active (bview t)) (kips t) ?bs0 (d_id d, snd b)"
      if "devices t = devices s \<and> kips t = kips s \<and> bview t = bview s" for t
      using that inv by (auto simp: bindingInv_def)
    have b: "(d_id d, snd b) = b" using d by simp
    show ?thesis
      unfolding lifecycleStep_def Some option.case Let_def
      apply (rule spec_bnd, rule findP_spec)
       apply (use inv in \<open>auto simp: bindingInv_def\<close>) [1]
      subgoal premises prem for p t
        using start [OF prem] prem
        apply -
        apply (intro spec_if)
           apply (use inv in \<open>auto simp: bindingInv_def\<close>) [1]
          apply (rule spec_mono, rule reassigned_spec [OF start(1,2) [OF prem] inv(4)])
          apply (use lost b in \<open>auto simp: lostEvidence_def truthy_def\<close>) [1]
         apply (use inv in \<open>auto simp: bindingInv_def\<close>) [1]
        apply (intro spec_option)
          apply (use inv in \<open>auto simp: bindingInv_def\<close>) [2]
        apply (clarsimp simp: truthy_def)
        apply (rule spec_mono, rule follow_spec [OF _ _ start(1,2) [OF prem] inv(4) ips], assumption+)
        apply (use lost b in \<open>auto simp: lostEvidence_def\<close>) [1]
        done
      done
  qed
qed

lemma findAllD_spec: "spec (dr_findAll (il_devices deps)) s (\<lambda>r t. devices t = devices s \<and>
    kips t = kips s \<and> bview t = bview s \<and> leases t = leases s \<and> (\<forall>ds. r = Inr ds \<longrightarrow> ds = devices s))"
  by (rule specI) (use frameD [OF devs.findAll_frame] devs.findAll_ok in fastforce)

lemma leases_spec: "spec (il_leases deps) s (\<lambda>r t. devices t = devices s \<and> kips t = kips s \<and>
    bview t = bview s \<and> (\<forall>ls. r = Inr ls \<longrightarrow> ls = leases s))"
  by (rule specI) (use frameD [OF leases_frame] leases_ok in fastforce)

text \<open>
  A cycle, however it ends, keeps every active binding enforced and drops a binding only on
  DHCP evidence.
\<close>

lemma lifecycleBody_spec:
  assumes wf: "wf (bview s)" and cov: "covered (active (bview s)) (kips s)"
  shows "spec (lifecycleBody deps now) s (\<lambda>r t. wf (bview t) \<and> covered (active (bview t)) (kips t) \<and>
    (\<forall>c \<in> active (bview s) - active (bview t).
       lostBinding (devices s) (leaseIps now (leases s)) (leaseMacs now (leases s)) c))"
  unfolding lifecycleBody_def Let_def leaseIps_def [symmetric] leaseMacs_def [symmetric]
  apply (rule spec_bnd, rule findAllD_spec, use wf cov in simp)
  apply (rule spec_bnd, rule leases_spec, use wf cov in simp)
  apply (rule spec_bnd, rule remaining_spec, use wf cov in simp)
  subgoal premises prem for ds t1 ls t2 bs t3
  proof -
    let ?lost = "lostBinding (devices s) (leaseIps now (leases s)) (leaseMacs now (leases s))"
    let ?I = "\<lambda>u. devices u = devices s \<and> wf (bview u) \<and> covered (active (bview u)) (kips u) \<and>
      (\<forall>c \<in> active (bview s) - active (bview u). ?lost c)"
    have at: "ds = devices s" "ls = leases s" "set bs = active (bview s)" "?I t3"
      using prem wf cov by auto
    show ?thesis
    proof (rule spec_forEach [where I = "\<lambda>_. ?I"])
      fix seen b rest u
      assume split: "bs = seen @ b # rest" and u: "?I u"
      have "b \<in> active (bview s)" using split at(3) by (metis in_set_conv_decomp)
      then have trim: "trim (snd b) = snd b" using cov coveredD by (metis prod.collapse)
      show "spec (lifecycleStep deps (mapOfList (map (\<lambda>d. (d_id d, d)) ds)) (leaseIps now ls)
          (leaseMacs now ls) b) u (\<lambda>r v. case r of
            Inl e \<Rightarrow> wf (bview v) \<and> covered (active (bview v)) (kips v) \<and>
              (\<forall>c \<in> active (bview s) - active (bview v). ?lost c)
          | Inr _ \<Rightarrow> ?I v)"
        by (rule spec_mono, rule lifecycleStep_spec [of u "devices s" b])
          (use u trim at in
            \<open>auto simp: bindingInv_def split: sum.split dest: deviceById_ok intro: leaseIps_trim\<close>)
    qed (use at in auto)
  qed
  done

end

end
