(* ===== verification/Database.thy ===== *)
theory Database
  imports Bindings
begin

text \<open>
  The Prisma repositories of \<open>infrastructure/database\<close> over the tables of
  \<open>prisma/schema.prisma\<close>. A table is a list of rows; an autoincrement column takes the
  next value of the table's counter. A query may fail before it has any effect: \<open>w_fault\<close>
  tells for each query, by its number \<open>w_tick\<close>, whether it does, so a theorem that holds for
  every state holds for every pattern of failures. A \<open>$transaction\<close> is one query. The last
  four fields belong to the enforcement adapters: the module variable of \<open>NftEnforcer\<close>, the
  fate \<open>w_link\<close> of each request to the agent by its number \<open>w_attempt\<close>, and the state
  \<open>w_kernel\<close> of the machine, which this theory does not touch.
\<close>

record BlockedRow =
  bd_id :: int
  bd_deviceId :: int
  bd_mac :: "string option"
  bd_active :: bool
  bd_reason :: "string option"

record BindingRow =
  ib_id :: int
  ib_blockedDeviceId :: int
  ib_ip :: string
  ib_active :: bool
  ib_releasedAt :: "int option"
  ib_releaseReason :: "string option"

record BlockTables =
  bt_nextRecord :: int
  bt_records :: "BlockedRow list"
  bt_nextBinding :: int
  bt_bindings :: "BindingRow list"

text \<open>
  What happens to one request over the socket of the enforcement agent: it is answered, turned
  away because the agent's background queue is full, not delivered, executed without the
  reply arriving, or not answered in time.
\<close>

datatype socket_code = ENOENT | ECONNREFUSED | ECONNRESET | EPIPE | EACCES

datatype link = Delivered | Busy | Refused socket_code | Lost socket_code | Closed | TimedOut

record 'k world =
  w_tick :: nat
  w_fault :: "nat \<Rightarrow> bool"
  w_now :: int
  w_nextDevice :: int
  w_devices :: "Device list"
  w_nextPolicy :: int
  w_policies :: "DevicePolicy list"
  w_blocked :: BlockTables
  w_nextQuota :: int
  w_quota :: "QuotaPeriodData list"
  w_notifications :: "(int option \<times> string \<times> string) list"
  w_audit :: "AuditData list"
  w_vpnGuard :: bool
  w_attempt :: nat
  w_link :: "nat \<Rightarrow> link"
  w_kernel :: 'k

definition query :: "('k world \<Rightarrow> (js_error + 'a) \<times> 'k world) \<Rightarrow> ('k world, 'a) prog" where
  "query f = (\<lambda>w. let w1 = w\<lparr>w_tick := Suc (w_tick w)\<rparr>
     in if w_fault w (w_tick w) then (Inl (Error ''Can't reach database server''), w1) else f w1)"

definition select :: "('k world \<Rightarrow> 'a) \<Rightarrow> ('k world, 'a) prog" where
  "select f = query (\<lambda>w. (Inr (f w), w))"

section \<open>PrismaDeviceRepository\<close>

definition toDomainDevice :: "Device \<Rightarrow> js_error + Device" where
  "toDomainDevice row =
     (case MacAddress_create (d_mac row) of Inl e \<Rightarrow> Inl e
      | Inr mac \<Rightarrow>
        (case (if truthy (d_ip row) then map_sum id Some (IpAddress_create (the (d_ip row))) else Inr None) of
           Inl e \<Rightarrow> Inl e
         | Inr ip \<Rightarrow>
           (case (if truthy (d_proxyMac row) then map_sum id Some (MacAddress_create (the (d_proxyMac row)))
                  else Inr None) of
              Inl e \<Rightarrow> Inl e
            | Inr proxy \<Rightarrow> Inr (row\<lparr>d_mac := mac, d_ip := ip, d_proxyMac := proxy\<rparr>))))"

definition toDomainOption :: "Device option \<Rightarrow> ('s, Device option) prog" where
  "toDomainOption row = (case row of None \<Rightarrow> ret None
     | Some r \<Rightarrow> bnd (liftE (toDomainDevice r)) (\<lambda>d. ret (Some d)))"

definition PrismaDevice_findByMac :: "string \<Rightarrow> ('k world, Device option) prog" where
  "PrismaDevice_findByMac mac =
     bnd (select (\<lambda>w. find (\<lambda>r. d_mac r = mac) (w_devices w))) toDomainOption"

definition PrismaDevice_findById :: "int \<Rightarrow> ('k world, Device option) prog" where
  "PrismaDevice_findById i =
     bnd (select (\<lambda>w. find (\<lambda>r. d_id r = i) (w_devices w))) toDomainOption"

definition PrismaDevice_findAll :: "('k world, Device list) prog" where
  "PrismaDevice_findAll =
     bnd (select (\<lambda>w. sort_key d_id (w_devices w))) (mapProg (\<lambda>r. liftE (toDomainDevice r)))"

definition assertNotProxyMac :: "string \<Rightarrow> int option \<Rightarrow> ('k world, unit) prog" where
  "assertNotProxyMac mac excludingDeviceId =
     bnd (select (\<lambda>w. find (\<lambda>r. d_proxyMac r = Some mac \<and> Some (d_id r) \<noteq> excludingDeviceId) (w_devices w)))
       (\<lambda>owner. if owner \<noteq> None
         then throw (Error (''Refusing to create or persist proxy MAC as a device identity: '' @ mac))
         else skip)"

text \<open>Insert a row; \<open>mac\<close> is unique in the table.\<close>

definition insertDevice :: "Device \<Rightarrow> 'k world \<Rightarrow> (js_error + Device) \<times> 'k world" where
  "insertDevice row w =
     (if list_ex (\<lambda>r. d_mac r = d_mac row) (w_devices w) then (Inl (Error ''Unique constraint failed''), w)
      else let row' = row\<lparr>d_id := w_nextDevice w\<rparr>
           in (Inr row', w\<lparr>w_devices := w_devices w @ [row'], w_nextDevice := w_nextDevice w + 1\<rparr>))"

definition updateDevice :: "(Device \<Rightarrow> bool) \<Rightarrow> (Device \<Rightarrow> Device) \<Rightarrow> 'k world \<Rightarrow> (js_error + Device) \<times> 'k world" where
  "updateDevice P f w =
     (case find P (w_devices w) of None \<Rightarrow> (Inl (Error ''Record to update not found''), w)
      | Some r \<Rightarrow> (Inr (f r), w\<lparr>w_devices := map (\<lambda>x. if P x then f x else x) (w_devices w)\<rparr>))"

definition PrismaDevice_upsert :: "DeviceUpsert \<Rightarrow> ('k world, Device) prog" where
  "PrismaDevice_upsert data =
     (let mac = du_mac data; proxyMac = du_proxyMac data in
      thn (assertNotProxyMac mac None)
      (if proxyMac = Some mac then throw (Error (''Device MAC cannot also be its proxy MAC: '' @ mac))
       else
       bnd (PrismaDevice_findByMac mac) (\<lambda>existing.
       let observed = \<lparr>v_mac = mac, v_ip = du_ip data, v_hostname = du_hostname data, v_clientId = None,
             v_neighborState = ''UNKNOWN'',
             v_l2Visible = (case du_l2Visible data of None \<Rightarrow> True | Some x \<Rightarrow> x),
             v_proxyMac = proxyMac,
             v_identityValidated = (case du_identityValidated data of None \<Rightarrow> True | Some x \<Rightarrow> x),
             v_identitySource = (case du_identitySource data of None \<Rightarrow> DHCP | Some x \<Rightarrow> x),
             v_deferred = None\<rparr>;
           r = reconcileIdentityObservation existing observed
       in thn (assertNotProxyMac (v_mac r) (map_option d_id existing))
          (if v_proxyMac r = Some (v_mac r)
             then throw (Error (''Device MAC cannot also be its proxy MAC: '' @ v_mac r))
           else
           bnd (query (\<lambda>w.
             if list_ex (\<lambda>x. d_mac x = mac) (w_devices w) then
               updateDevice (\<lambda>x. d_mac x = mac) (\<lambda>x. x\<lparr>d_ip := Some (v_ip r), d_hostname := v_hostname r,
                 d_l2Visible := v_l2Visible r, d_proxyMac := v_proxyMac r,
                 d_identityValidated := v_identityValidated r, d_identitySource := v_identitySource r,
                 d_lastSeen := du_seenAt data\<rparr>) w
             else insertDevice \<lparr>d_id = 0, d_mac = v_mac r, d_ip = Some (v_ip r), d_hostname = v_hostname r,
                 d_l2Visible = v_l2Visible r, d_proxyMac = v_proxyMac r,
                 d_identityValidated = v_identityValidated r, d_identitySource = v_identitySource r,
                 d_firstSeen = du_seenAt data, d_lastSeen = du_seenAt data\<rparr> w))
             (\<lambda>row. liftE (toDomainDevice row))))))"

definition PrismaDevice_create :: "string \<Rightarrow> string \<Rightarrow> string option \<Rightarrow> ('k world, Device) prog" where
  "PrismaDevice_create mac ip hostname =
     thn (assertNotProxyMac mac None)
       (bnd (query (\<lambda>w. insertDevice \<lparr>d_id = 0, d_mac = mac, d_ip = Some ip, d_hostname = hostname,
            d_l2Visible = True, d_proxyMac = None, d_identityValidated = True, d_identitySource = DHCP,
            d_firstSeen = w_now w, d_lastSeen = w_now w\<rparr> w))
         (\<lambda>row. liftE (toDomainDevice row)))"

definition PrismaDevice_update :: "int \<Rightarrow> DevicePatch \<Rightarrow> ('k world, Device) prog" where
  "PrismaDevice_update i data =
     bnd (PrismaDevice_findById i) (\<lambda>existing0.
     case existing0 of None \<Rightarrow> throw (Error (''Device not found: '' @ showInt i))
     | Some existing \<Rightarrow>
       let nextProxyMac = (case dp_proxyMac data of None \<Rightarrow> d_proxyMac existing | Some p \<Rightarrow> p)
       in if nextProxyMac = Some (d_mac existing)
            then throw (Error (''Device MAC cannot also be its proxy MAC: '' @ d_mac existing))
          else
          bnd (query (updateDevice (\<lambda>x. d_id x = i) (\<lambda>x. x\<lparr>
              d_ip := (case dp_ip data of None \<Rightarrow> d_ip x | Some p \<Rightarrow> Some p),
              d_hostname := (case dp_hostname data of None \<Rightarrow> d_hostname x | Some h \<Rightarrow> h),
              d_l2Visible := (case dp_l2Visible data of None \<Rightarrow> d_l2Visible x | Some v \<Rightarrow> v),
              d_proxyMac := (if dp_proxyMac data = None then d_proxyMac x else nextProxyMac),
              d_identityValidated := (case dp_identityValidated data of None \<Rightarrow> d_identityValidated x | Some v \<Rightarrow> v),
              d_identitySource := (case dp_identitySource data of None \<Rightarrow> d_identitySource x | Some v \<Rightarrow> v),
              d_lastSeen := (case dp_lastSeen data of None \<Rightarrow> d_lastSeen x | Some v \<Rightarrow> v)\<rparr>)))
            (\<lambda>row. liftE (toDomainDevice row)))"

definition prismaDevices :: "'k world DeviceRepository" where
  "prismaDevices = \<lparr>dr_findByMac = PrismaDevice_findByMac, dr_findById = PrismaDevice_findById,
     dr_findAll = PrismaDevice_findAll, dr_upsert = PrismaDevice_upsert, dr_create = PrismaDevice_create,
     dr_update = PrismaDevice_update\<rparr>"

section \<open>PrismaDevicePolicyRepository\<close>

definition findPolicy :: "'k world \<Rightarrow> int \<Rightarrow> DevicePolicy option" where
  "findPolicy w deviceId = find (\<lambda>p. p_deviceId p = deviceId) (w_policies w)"

definition PrismaPolicy_findByDeviceId :: "int \<Rightarrow> ('k world, DevicePolicy option) prog" where
  "PrismaPolicy_findByDeviceId deviceId = select (\<lambda>w. findPolicy w deviceId)"

text \<open>\<open>create\<close> fills absent fields with their defaults; the device must exist.\<close>

definition PrismaPolicy_upsert :: "int \<Rightarrow> PolicyPatch \<Rightarrow> ('k world, DevicePolicy) prog" where
  "PrismaPolicy_upsert deviceId data = query (\<lambda>w.
     case findPolicy w deviceId of
       Some p \<Rightarrow> (Inr (patchPolicy data p), w\<lparr>w_policies :=
         map (\<lambda>x. if p_deviceId x = deviceId then patchPolicy data x else x) (w_policies w)\<rparr>)
     | None \<Rightarrow>
         if \<not> list_ex (\<lambda>d. d_id d = deviceId) (w_devices w)
           then (Inl (Error ''Foreign key constraint violated''), w)
         else let p = patchPolicy data (blankPolicy (w_nextPolicy w) deviceId)
              in (Inr p, w\<lparr>w_policies := w_policies w @ [p], w_nextPolicy := w_nextPolicy w + 1\<rparr>))"

definition prismaPolicies :: "'k world DevicePolicyRepository" where
  "prismaPolicies = \<lparr>pr_findByDeviceId = PrismaPolicy_findByDeviceId, pr_upsert = PrismaPolicy_upsert\<rparr>"

section \<open>PrismaBlockedDeviceRepository\<close>

definition updBlocked :: "(BlockTables \<Rightarrow> BlockTables) \<Rightarrow> 'k world \<Rightarrow> 'k world" where
  "updBlocked f w = w\<lparr>w_blocked := f (w_blocked w)\<rparr>"

definition findRecord :: "int \<Rightarrow> BlockTables \<Rightarrow> BlockedRow option" where
  "findRecord deviceId t = find (\<lambda>r. bd_deviceId r = deviceId) (bt_records t)"

text \<open>\<open>blockedDevice.upsert\<close>; \<open>mac\<close> is unique among the records that have one.\<close>

definition upsertRecord :: "int \<Rightarrow> string option \<Rightarrow> string option \<Rightarrow> BlockTables \<Rightarrow> js_error + BlockedRow \<times> BlockTables" where
  "upsertRecord deviceId mac reason t =
     (if mac \<noteq> None \<and> list_ex (\<lambda>r. bd_deviceId r \<noteq> deviceId \<and> bd_mac r = mac) (bt_records t)
      then Inl (Error ''Unique constraint failed'')
      else case findRecord deviceId t of
        Some r \<Rightarrow>
          let r' = r\<lparr>bd_mac := mac, bd_active := True, bd_reason := reason\<rparr>
          in Inr (r', t\<lparr>bt_records := map (\<lambda>x. if bd_deviceId x = deviceId then r' else x) (bt_records t)\<rparr>)
      | None \<Rightarrow>
          let r' = \<lparr>bd_id = bt_nextRecord t, bd_deviceId = deviceId, bd_mac = mac, bd_active = True,
                    bd_reason = reason\<rparr>
          in Inr (r', t\<lparr>bt_records := bt_records t @ [r'], bt_nextRecord := bt_nextRecord t + 1\<rparr>))"

text \<open>\<open>ipBinding.upsert\<close> on the unique \<open>(blockedDeviceId, ip, active = true)\<close>.\<close>

definition upsertBinding :: "int \<Rightarrow> string \<Rightarrow> BlockTables \<Rightarrow> BlockTables" where
  "upsertBinding rid ip t =
     (if list_ex (\<lambda>b. ib_blockedDeviceId b = rid \<and> ib_ip b = ip \<and> ib_active b) (bt_bindings t)
      then t\<lparr>bt_bindings := map (\<lambda>b. if ib_blockedDeviceId b = rid \<and> ib_ip b = ip \<and> ib_active b
             then b\<lparr>ib_active := True, ib_releasedAt := None, ib_releaseReason := None\<rparr> else b) (bt_bindings t)\<rparr>
      else t\<lparr>bt_bindings := bt_bindings t @ [\<lparr>ib_id = bt_nextBinding t, ib_blockedDeviceId = rid, ib_ip = ip,
             ib_active = True, ib_releasedAt = None, ib_releaseReason = None\<rparr>],
             bt_nextBinding := bt_nextBinding t + 1\<rparr>)"

definition PrismaBlocked_recordBlock ::
  "int \<Rightarrow> string option \<Rightarrow> string option \<Rightarrow> string option \<Rightarrow> ('k world, unit) prog" where
  "PrismaBlocked_recordBlock deviceId mac ip reason =
     bnd (query (\<lambda>w. if \<not> list_ex (\<lambda>d. d_id d = deviceId) (w_devices w)
           then (Inl (Error ''Foreign key constraint violated''), w)
         else case upsertRecord deviceId mac reason (w_blocked w) of
           Inl e \<Rightarrow> (Inl e, w)
         | Inr (r, t) \<Rightarrow> (Inr r, w\<lparr>w_blocked := t\<rparr>))) (\<lambda>record.
     whenP (truthy ip) (query (\<lambda>w. (Inr (), updBlocked (upsertBinding (bd_id record) (the ip)) w))))"

definition PrismaBlocked_activeIps :: "int \<Rightarrow> ('k world, string list) prog" where
  "PrismaBlocked_activeIps deviceId =
     bnd (select (\<lambda>w. findRecord deviceId (w_blocked w))) (\<lambda>record.
     case record of None \<Rightarrow> ret []
     | Some r \<Rightarrow> if \<not> bd_active r then ret []
         else select (\<lambda>w. map ib_ip (filter (\<lambda>b. ib_blockedDeviceId b = bd_id r \<and> ib_active b)
                (bt_bindings (w_blocked w)))))"

definition bindingsInForce :: "BlockTables \<Rightarrow> (int \<times> string) list" where
  "bindingsInForce t = concat (map (\<lambda>b.
     map (\<lambda>r. (bd_deviceId r, ib_ip b))
       (filter (\<lambda>r. bd_id r = ib_blockedDeviceId b \<and> bd_active r \<and> ib_active b) (bt_records t)))
     (bt_bindings t))"

definition PrismaBlocked_activeBindings :: "('k world, (int \<times> string) list) prog" where
  "PrismaBlocked_activeBindings = select (\<lambda>w. bindingsInForce (w_blocked w))"

text \<open>
  Release one active binding. The table has one released row per record and address, so a row
  that was released before takes over and the active one is deleted.
\<close>

definition releaseBinding :: "int \<Rightarrow> string \<Rightarrow> int \<Rightarrow> BindingRow \<Rightarrow> BindingRow list \<Rightarrow> BindingRow list" where
  "releaseBinding now reason rid binding rows =
     (case find (\<lambda>b. ib_blockedDeviceId b = rid \<and> ib_ip b = ib_ip binding \<and> \<not> ib_active b) rows of
        Some released \<Rightarrow>
          filter (\<lambda>b. ib_id b \<noteq> ib_id binding)
            (map (\<lambda>b. if ib_id b = ib_id released
               then b\<lparr>ib_releasedAt := Some now, ib_releaseReason := Some reason\<rparr> else b) rows)
      | None \<Rightarrow>
          map (\<lambda>b. if ib_id b = ib_id binding
             then b\<lparr>ib_active := False, ib_releasedAt := Some now, ib_releaseReason := Some reason\<rparr> else b) rows)"

definition releaseWhere :: "int \<Rightarrow> string \<Rightarrow> int \<Rightarrow> (BindingRow \<Rightarrow> bool) \<Rightarrow> BindingRow list \<Rightarrow> BindingRow list" where
  "releaseWhere now reason rid P rows =
     fold (releaseBinding now reason rid)
       (filter (\<lambda>b. ib_blockedDeviceId b = rid \<and> P b \<and> ib_active b) rows) rows"

definition PrismaBlocked_releaseBlock :: "int \<Rightarrow> ('k world, unit) prog" where
  "PrismaBlocked_releaseBlock deviceId =
     bnd (select (\<lambda>w. findRecord deviceId (w_blocked w))) (\<lambda>record.
     case record of None \<Rightarrow> skip
     | Some r \<Rightarrow> query (\<lambda>w. (Inr (), updBlocked (\<lambda>t. t\<lparr>
         bt_records := map (\<lambda>x. if bd_id x = bd_id r then x\<lparr>bd_active := False\<rparr> else x) (bt_records t),
         bt_bindings := releaseWhere (w_now w) ''explicit_unblock'' (bd_id r) (\<lambda>_. True) (bt_bindings t)\<rparr>) w)))"

definition PrismaBlocked_releaseIp :: "int \<Rightarrow> string \<Rightarrow> string \<Rightarrow> ('k world, unit) prog" where
  "PrismaBlocked_releaseIp deviceId ip reason = query (\<lambda>w.
     case findRecord deviceId (w_blocked w) of None \<Rightarrow> (Inr (), w)
     | Some r \<Rightarrow> (Inr (), updBlocked (\<lambda>t. t\<lparr>bt_bindings :=
         releaseWhere (w_now w) reason (bd_id r) (\<lambda>b. ib_ip b = ip) (bt_bindings t)\<rparr>) w))"

definition prismaBlocked :: "'k world BlockedDeviceRepository" where
  "prismaBlocked = \<lparr>br_recordBlock = PrismaBlocked_recordBlock, br_releaseBlock = PrismaBlocked_releaseBlock,
     br_activeIps = PrismaBlocked_activeIps, br_activeBindings = PrismaBlocked_activeBindings,
     br_releaseIp = Some PrismaBlocked_releaseIp\<rparr>"

section \<open>PrismaQuotaPeriodRepository, notifications and audit\<close>

definition PrismaQuota_findCurrent :: "int \<Rightarrow> string \<Rightarrow> int \<Rightarrow> ('k world, QuotaPeriodData option) prog" where
  "PrismaQuota_findCurrent deviceId periodType now = select (\<lambda>w.
     find (\<lambda>q. q_deviceId q = deviceId \<and> q_periodType q = periodType \<and> q_periodStart q \<le> now \<and> now < q_periodEnd q)
       (sort_key (\<lambda>q. - q_periodStart q) (w_quota w)))"

definition quotaKeyTaken :: "int \<Rightarrow> int \<Rightarrow> string \<Rightarrow> int \<Rightarrow> QuotaPeriodData list \<Rightarrow> bool" where
  "quotaKeyTaken i deviceId periodType start rows \<longleftrightarrow>
     list_ex (\<lambda>q. q_id q \<noteq> i \<and> q_deviceId q = deviceId \<and> q_periodType q = periodType \<and> q_periodStart q = start) rows"

definition PrismaQuota_create :: "int \<Rightarrow> string \<Rightarrow> int \<Rightarrow> int \<Rightarrow> ('k world, QuotaPeriodData) prog" where
  "PrismaQuota_create deviceId periodType start finish = query (\<lambda>w.
     if quotaKeyTaken (w_nextQuota w) deviceId periodType start (w_quota w)
       then (Inl (Error ''Unique constraint failed''), w)
     else let q = \<lparr>q_id = w_nextQuota w, q_deviceId = deviceId, q_periodType = periodType,
                  q_periodStart = start, q_periodEnd = finish, q_usedDownloadBytes = 0, q_usedUploadBytes = 0\<rparr>
          in (Inr q, w\<lparr>w_quota := w_quota w @ [q], w_nextQuota := w_nextQuota w + 1\<rparr>))"

definition updateQuota :: "int \<Rightarrow> (QuotaPeriodData \<Rightarrow> QuotaPeriodData) \<Rightarrow> 'k world \<Rightarrow> (js_error + QuotaPeriodData) \<times> 'k world" where
  "updateQuota i f w =
     (case find (\<lambda>q. q_id q = i) (w_quota w) of
        None \<Rightarrow> (Inl (Error ''Record to update not found''), w)
      | Some q \<Rightarrow>
          if quotaKeyTaken i (q_deviceId (f q)) (q_periodType (f q)) (q_periodStart (f q)) (w_quota w)
            then (Inl (Error ''Unique constraint failed''), w)
          else (Inr (f q), w\<lparr>w_quota := map (\<lambda>x. if q_id x = i then f x else x) (w_quota w)\<rparr>))"

definition PrismaQuota_reset :: "int \<Rightarrow> int \<Rightarrow> int \<Rightarrow> ('k world, QuotaPeriodData) prog" where
  "PrismaQuota_reset periodId start finish = query (updateQuota periodId (\<lambda>q. q\<lparr>q_periodStart := start,
     q_periodEnd := finish, q_usedDownloadBytes := 0, q_usedUploadBytes := 0\<rparr>))"

definition PrismaQuota_updateUsage :: "int \<Rightarrow> int \<Rightarrow> int \<Rightarrow> ('k world, QuotaPeriodData) prog" where
  "PrismaQuota_updateUsage periodId down up = query (updateQuota periodId
     (\<lambda>q. q\<lparr>q_usedDownloadBytes := down, q_usedUploadBytes := up\<rparr>))"

definition PrismaQuota_incrementUsage :: "int \<Rightarrow> int \<Rightarrow> int \<Rightarrow> ('k world, QuotaPeriodData) prog" where
  "PrismaQuota_incrementUsage periodId down up = query (updateQuota periodId
     (\<lambda>q. q\<lparr>q_usedDownloadBytes := q_usedDownloadBytes q + down, q_usedUploadBytes := q_usedUploadBytes q + up\<rparr>))"

definition prismaQuota :: "'k world QuotaPeriodRepository" where
  "prismaQuota = \<lparr>qr_findCurrent = PrismaQuota_findCurrent, qr_create = PrismaQuota_create,
     qr_reset = PrismaQuota_reset, qr_updateUsage = PrismaQuota_updateUsage,
     qr_incrementUsage = PrismaQuota_incrementUsage\<rparr>"

definition PrismaNotification_create :: "int option \<Rightarrow> string \<Rightarrow> string \<Rightarrow> ('k world, unit) prog" where
  "PrismaNotification_create deviceId ty message =
     query (\<lambda>w. (Inr (), w\<lparr>w_notifications := w_notifications w @ [(deviceId, ty, message)]\<rparr>))"

text \<open>The audit row connects to the device when one is named; that device must exist.\<close>

definition PrismaOperations_audit :: "AuditData \<Rightarrow> ('k world, unit) prog" where
  "PrismaOperations_audit data = query (\<lambda>w.
     case a_deviceId data of
       Some i \<Rightarrow> if list_ex (\<lambda>d. d_id d = i) (w_devices w)
         then (Inr (), w\<lparr>w_audit := w_audit w @ [data]\<rparr>)
         else (Inl (Error ''Record to connect not found''), w)
     | None \<Rightarrow> (Inr (), w\<lparr>w_audit := w_audit w @ [data]\<rparr>))"

section \<open>The laws of the interfaces hold for the repositories\<close>

subsection \<open>Queries\<close>

definition otherTables where
  "otherTables w = (w_policies w, w_blocked w, w_quota w, w_notifications w, w_kernel w)"

lemma query_frame:
  assumes "\<And>w. v (snd (f w)) = v w" "\<And>w n. v (w\<lparr>w_tick := n\<rparr>) = v w"
  shows "frame v (query f)"
  using assms by (auto simp: frame_def query_def Let_def split: if_splits)

lemma select_frame: "(\<And>w n. v (w\<lparr>w_tick := n\<rparr>) = v w) \<Longrightarrow> frame v (select f)"
  unfolding select_def by (rule query_frame) simp_all

lemma select_ok: "select f w = (Inr x, w') \<Longrightarrow>
    x = f (w\<lparr>w_tick := Suc (w_tick w)\<rparr>) \<and> w' = w\<lparr>w_tick := Suc (w_tick w)\<rparr>"
  by (auto simp: select_def query_def Let_def split: if_splits)

lemma query_ok: "query f w = (Inr x, w') \<Longrightarrow> f (w\<lparr>w_tick := Suc (w_tick w)\<rparr>) = (Inr x, w')"
  by (auto simp: query_def Let_def split: if_splits)

lemma query_err: "query f w = (Inl e, w') \<Longrightarrow>
    w' = w\<lparr>w_tick := Suc (w_tick w)\<rparr> \<or> f (w\<lparr>w_tick := Suc (w_tick w)\<rparr>) = (Inl e, w')"
  by (auto simp: query_def Let_def split: if_splits)

lemma frame_liftE [prog_rules]: "frame v (liftE r)"
  by (auto simp: liftE_def intro: prog_rules split: sum.split)

subsection \<open>Devices\<close>

text \<open>The devices the repository can return: the rows that are valid, in the order of their ids.\<close>

definition domainDevices :: "'k world \<Rightarrow> Device list" where
  "domainDevices w = List.map_filter (\<lambda>r. case toDomainDevice r of Inl _ \<Rightarrow> None | Inr d \<Rightarrow> Some d)
     (sort_key d_id (w_devices w))"

lemma set_map_filter: "set (List.map_filter f xs) = {y. \<exists>x \<in> set xs. f x = Some y}"
  by (induction xs) (auto simp: List.map_filter_simps split: option.splits)

lemma case_sum_Some: "(case x of Inl _ \<Rightarrow> None | Inr d \<Rightarrow> Some d) = Some y \<longleftrightarrow> x = Inr y"
  by (cases x) auto

lemma domainDevices_iff:
  "d \<in> set (domainDevices w) \<longleftrightarrow> (\<exists>r \<in> set (w_devices w). toDomainDevice r = Inr d)"
  by (auto simp: domainDevices_def set_map_filter case_sum_Some)

lemma map_sum_Inr: "map_sum f g x = Inr y \<longleftrightarrow> (\<exists>z. x = Inr z \<and> y = g z)"
  by (cases x) auto

lemma toDomainDevice_ok:
  assumes "toDomainDevice r = Inr d"
  shows "d_id d = d_id r \<and> MacAddress_create (d_mac r) = Inr (d_mac d) \<and>
    MacAddress_create (d_mac d) = Inr (d_mac d) \<and>
    (\<forall>ip. d_ip d = Some ip \<longrightarrow> IpAddress_create ip = Inr ip)"
  using assms
  by (auto simp: toDomainDevice_def map_sum_Inr split: sum.splits if_splits
      dest: MacAddress_create_idem IpAddress_create_idem)

lemma mapProg_liftE:
  "mapProg (\<lambda>r. liftE (f r)) rs s = (Inr ds, t) \<Longrightarrow>
     ds = List.map_filter (\<lambda>r. case f r of Inl _ \<Rightarrow> None | Inr d \<Rightarrow> Some d) rs \<and> t = s"
  by (induction rs arbitrary: ds)
    (auto simp: liftE_def List.map_filter_simps split: sum.splits elim!: bnd_InrE)

lemma domainDevices_tick [simp]: "domainDevices (w\<lparr>w_tick := n\<rparr>) = domainDevices w"
  by (simp add: domainDevices_def)

lemma otherTables_tick [simp]: "otherTables (w\<lparr>w_tick := n\<rparr>) = otherTables w"
  by (simp add: otherTables_def)

lemma toDomainOption_frame: "frame v (toDomainOption r)"
  unfolding toDomainOption_def by (intro prog_rules frame_liftE)

lemma toDomainOption_ok:
  "toDomainOption r s = (Inr (Some d), t) \<Longrightarrow> \<exists>x. r = Some x \<and> toDomainDevice x = Inr d"
  by (auto simp: toDomainOption_def liftE_def split: option.splits sum.splits)

lemma assertNotProxyMac_frame:
  "(\<And>w n. v (w\<lparr>w_tick := n\<rparr>) = v w) \<Longrightarrow> frame v (assertNotProxyMac m i)"
  unfolding assertNotProxyMac_def by (intro prog_rules select_frame)

lemma updateDevice_other: "otherTables (snd (updateDevice P f w)) = otherTables w"
  by (simp add: updateDevice_def otherTables_def split: option.split)

lemma insertDevice_other: "otherTables (snd (insertDevice r w)) = otherTables w"
  by (simp add: insertDevice_def otherTables_def Let_def)

lemma prismaDevice_reads:
  assumes "\<And>w n. v (w\<lparr>w_tick := n\<rparr>) = v w"
  shows "frame v (PrismaDevice_findByMac m)" "frame v (PrismaDevice_findById i)" "frame v PrismaDevice_findAll"
  unfolding PrismaDevice_findByMac_def PrismaDevice_findById_def PrismaDevice_findAll_def
  by (intro prog_rules select_frame toDomainOption_frame assms)+

lemma prismaDevice_writes:
  "frame otherTables (PrismaDevice_upsert data)" "frame otherTables (PrismaDevice_update i patch)"
  unfolding PrismaDevice_upsert_def PrismaDevice_update_def Let_def
  by (intro prog_rules query_frame assertNotProxyMac_frame prismaDevice_reads;
      simp add: updateDevice_other insertDevice_other)+

interpretation prismaDev: device_repository prismaDevices domainDevices otherTables
proof
  show "frame (\<lambda>s. (domainDevices s, otherTables s)) (dr_findAll prismaDevices)"
    "frame (\<lambda>s. (domainDevices s, otherTables s)) (dr_findById prismaDevices i)"
    "frame (\<lambda>s. (domainDevices s, otherTables s)) (dr_findByMac prismaDevices m)" for i m
    by (simp_all add: prismaDevices_def prismaDevice_reads)
  show "frame otherTables (dr_update prismaDevices i patch)"
    "frame otherTables (dr_upsert prismaDevices data)" for i patch data
    by (simp_all add: prismaDevices_def prismaDevice_writes)
  show "ds = domainDevices s" if "dr_findAll prismaDevices s = (Inr ds, t)" for ds s t
    using that by (auto simp: prismaDevices_def PrismaDevice_findAll_def domainDevices_def
        elim!: bnd_InrE dest!: select_ok mapProg_liftE)
  show "d \<in> set (domainDevices s) \<and> d_id d = i"
    if "dr_findById prismaDevices i s = (Inr (Some d), t)" for d i s t
    using that
    by (fastforce simp: prismaDevices_def PrismaDevice_findById_def domainDevices_iff find_Some_iff
        elim!: bnd_InrE dest!: select_ok toDomainOption_ok dest: toDomainDevice_ok)
  show "d \<in> set (domainDevices s) \<and> (MacAddress_create m = Inr m \<longrightarrow> d_mac d = m)"
    if "dr_findByMac prismaDevices m s = (Inr (Some d), t)" for d m s t
    using that
    by (fastforce simp: prismaDevices_def PrismaDevice_findByMac_def domainDevices_iff find_Some_iff
        elim!: bnd_InrE dest!: select_ok toDomainOption_ok dest: toDomainDevice_ok)
  show "MacAddress_create (d_mac d) = Inr (d_mac d)" if "d \<in> set (domainDevices s)" for d s
    using that toDomainDevice_ok by (auto simp: domainDevices_iff)
  show "IpAddress_create ip = Inr ip" if "d \<in> set (domainDevices s)" "d_ip d = Some ip" for d s ip
    using that toDomainDevice_ok by (auto simp: domainDevices_iff)
qed

subsection \<open>Policies\<close>

definition besidePolicies where
  "besidePolicies w = (domainDevices w, w_blocked w, w_quota w, w_notifications w, w_kernel w)"

lemma findPolicy_tick [simp]: "findPolicy (w\<lparr>w_tick := n\<rparr>) = findPolicy w"
  by (simp add: findPolicy_def fun_eq_iff)

lemma find_map_patch:
  "find (\<lambda>p. p_deviceId p = i) (map (\<lambda>x. if p_deviceId x = j then patchPolicy data x else x) ps) =
     (if i = j then map_option (patchPolicy data) (find (\<lambda>p. p_deviceId p = i) ps)
      else find (\<lambda>p. p_deviceId p = i) ps)"
  by (induction ps) auto

lemma find_append: "find P (xs @ ys) = (case find P xs of None \<Rightarrow> find P ys | Some x \<Rightarrow> Some x)"
  by (induction xs) auto

lemma blankPolicy_deviceId [simp]: "p_deviceId (blankPolicy n i) = i"
  by (simp add: blankPolicy_def)

interpretation prismaPol: policy_repository prismaPolicies findPolicy besidePolicies
proof
  show "frame (\<lambda>s. (findPolicy s, besidePolicies s)) (pr_findByDeviceId prismaPolicies i)" for i
    by (simp add: prismaPolicies_def PrismaPolicy_findByDeviceId_def select_frame besidePolicies_def)
  show "p = findPolicy s i" if "pr_findByDeviceId prismaPolicies i s = (Inr p, t)" for i s p t
    using that by (auto simp: prismaPolicies_def PrismaPolicy_findByDeviceId_def dest!: select_ok)
  show "frame besidePolicies (pr_upsert prismaPolicies i data)" for i data
    by (simp add: prismaPolicies_def PrismaPolicy_upsert_def)
      (rule query_frame; simp add: besidePolicies_def domainDevices_def Let_def split: option.split)
  show "(\<exists>n. q = patchPolicy data (case findPolicy s i of Some p \<Rightarrow> p | None \<Rightarrow> blankPolicy n i)) \<and>
      findPolicy t = (findPolicy s)(i \<mapsto> q)" if "pr_upsert prismaPolicies i data s = (Inr q, t)" for i data s q t
    using that
    by (auto simp: prismaPolicies_def PrismaPolicy_upsert_def findPolicy_def fun_eq_iff find_map_patch
        find_append Let_def dest!: query_ok split: option.splits if_splits)
  show "findPolicy t = findPolicy s" if "pr_upsert prismaPolicies i data s = (Inl e, t)" for i data s e t
    using that
    by (auto simp: prismaPolicies_def PrismaPolicy_upsert_def Let_def dest!: query_err
        split: option.splits if_splits)
qed

subsection \<open>Blocked devices and bindings\<close>

definition besideBlocked where
  "besideBlocked w = (domainDevices w, findPolicy w, w_quota w, w_notifications w, w_kernel w)"

definition activeSet :: "BlockTables \<Rightarrow> (int \<times> string) set" where
  "activeSet t = set (bindingsInForce t)"

text \<open>Ids are fresh and unique, a device has one record, and an inactive record no active binding.\<close>

definition wfTables :: "BlockTables \<Rightarrow> bool" where
  "wfTables t \<longleftrightarrow>
     distinct (map bd_id (bt_records t)) \<and> distinct (map bd_deviceId (bt_records t)) \<and>
     distinct (map ib_id (bt_bindings t)) \<and>
     (\<forall>r \<in> set (bt_records t). bd_id r < bt_nextRecord t) \<and>
     (\<forall>b \<in> set (bt_bindings t). ib_id b < bt_nextBinding t \<and> ib_blockedDeviceId b < bt_nextRecord t) \<and>
     (\<forall>r \<in> set (bt_records t). \<not> bd_active r \<longrightarrow>
        (\<forall>b \<in> set (bt_bindings t). ib_blockedDeviceId b = bd_id r \<longrightarrow> \<not> ib_active b))"

lemma activeSet_iff:
  "(i, ip) \<in> activeSet t \<longleftrightarrow> (\<exists>r \<in> set (bt_records t). \<exists>b \<in> set (bt_bindings t).
     bd_deviceId r = i \<and> bd_active r \<and> ib_blockedDeviceId b = bd_id r \<and> ib_active b \<and> ib_ip b = ip)"
  by (auto simp: activeSet_def bindingsInForce_def image_iff; metis)

lemma findRecord_Some: "findRecord i t = Some r \<Longrightarrow> r \<in> set (bt_records t) \<and> bd_deviceId r = i"
  by (auto simp: findRecord_def find_Some_iff)

lemma findRecord_None: "findRecord i t = None \<Longrightarrow> r \<in> set (bt_records t) \<Longrightarrow> bd_deviceId r \<noteq> i"
  by (auto simp: findRecord_def find_None_iff)

lemma record_unique:
  "wfTables t \<Longrightarrow> r \<in> set (bt_records t) \<Longrightarrow> r' \<in> set (bt_records t) \<Longrightarrow>
     bd_deviceId r = bd_deviceId r' \<or> bd_id r = bd_id r' \<Longrightarrow> r = r'"
  unfolding wfTables_def by (metis distinct_map inj_onD)

lemma upsertRecord_ok:
  assumes "upsertRecord i mac reason t = Inr (r, t')" "wfTables t"
  shows "wfTables t' \<and> activeSet t' = activeSet t \<and> r \<in> set (bt_records t') \<and> bd_deviceId r = i \<and> bd_active r"
proof (cases "findRecord i t")
  case None
  then have new: "\<And>x. x \<in> set (bt_records t) \<Longrightarrow> bd_deviceId x \<noteq> i" by (rule findRecord_None)
  from assms None have t': "r = \<lparr>bd_id = bt_nextRecord t, bd_deviceId = i, bd_mac = mac, bd_active = True,
      bd_reason = reason\<rparr>" "t' = t\<lparr>bt_records := bt_records t @ [r], bt_nextRecord := bt_nextRecord t + 1\<rparr>"
    by (auto simp: upsertRecord_def Let_def split: if_splits)
  with assms(2) new show ?thesis
    by (fastforce simp: wfTables_def activeSet_iff image_iff)
next
  case (Some r0)
  note r0 = findRecord_Some [OF Some]
  let ?r = "r0\<lparr>bd_mac := mac, bd_active := True, bd_reason := reason\<rparr>"
  have t': "r = ?r" "t' = t\<lparr>bt_records := map (\<lambda>x. if bd_deviceId x = i then ?r else x) (bt_records t)\<rparr>"
    using assms Some by (auto simp: upsertRecord_def Let_def split: if_splits)
  have upd: "(if bd_deviceId x = i then ?r else x) = (if x = r0 then ?r else x)" if "x \<in> set (bt_records t)" for x
    using record_unique [OF assms(2) that conjunct1 [OF r0]] r0 by auto
  have recs: "bt_records t' = map (\<lambda>x. if x = r0 then ?r else x) (bt_records t)"
    using t'(2) upd by simp
  have ids: "map bd_id (bt_records t') = map bd_id (bt_records t)"
    "map bd_deviceId (bt_records t') = map bd_deviceId (bt_records t)" unfolding recs by auto
  have other: "bt_bindings t' = bt_bindings t" "bt_nextRecord t' = bt_nextRecord t"
    "bt_nextBinding t' = bt_nextBinding t" using t'(2) by simp_all
  have act: "bd_active r0" if "b \<in> set (bt_bindings t)" "ib_blockedDeviceId b = bd_id r0" "ib_active b" for b
    using assms(2) r0 that unfolding wfTables_def by blast
  have recset: "x \<in> set (bt_records t') \<longleftrightarrow> x = ?r \<or> (x \<in> set (bt_records t) \<and> x \<noteq> r0)" for x
    unfolding recs using r0 by auto
  have "(j, ip) \<in> activeSet t' \<longleftrightarrow> (j, ip) \<in> activeSet t" for j ip
  proof
    assume "(j, ip) \<in> activeSet t'"
    then obtain x b where x: "x \<in> set (bt_records t')" "bd_deviceId x = j" "ib_blockedDeviceId b = bd_id x"
      "b \<in> set (bt_bindings t)" "bd_active x" "ib_active b" "ib_ip b = ip"
      unfolding activeSet_iff other by blast
    show "(j, ip) \<in> activeSet t"
    proof (cases "x = ?r")
      case True
      then have "bd_deviceId r0 = j" "ib_blockedDeviceId b = bd_id r0" using x by simp_all
      with x act [of b] r0 show ?thesis unfolding activeSet_iff by blast
    next
      case False
      with x recset have "x \<in> set (bt_records t)" by blast
      with x show ?thesis unfolding activeSet_iff by blast
    qed
  next
    assume "(j, ip) \<in> activeSet t"
    then obtain x b where x: "x \<in> set (bt_records t)" "bd_deviceId x = j" "ib_blockedDeviceId b = bd_id x"
      "b \<in> set (bt_bindings t)" "bd_active x" "ib_active b" "ib_ip b = ip"
      unfolding activeSet_iff by blast
    define y where "y = (if x = r0 then ?r else x)"
    have "y \<in> set (bt_records t')" "bd_deviceId y = j" "bd_id y = bd_id x" "bd_active y"
      using x recset by (auto simp: y_def)
    with x show "(j, ip) \<in> activeSet t'" unfolding activeSet_iff other by metis
  qed
  then have "activeSet t' = activeSet t" by auto
  moreover have "wfTables t'"
    using assms(2) r0 act unfolding wfTables_def ids other by (auto simp: recset)
  ultimately show ?thesis using t'(1) r0 recset by auto
qed

lemma upsertBinding_ok:
  assumes wf: "wfTables t" and r: "r \<in> set (bt_records t)" "bd_active r"
  shows "wfTables (upsertBinding (bd_id r) ip t) \<and>
    activeSet (upsertBinding (bd_id r) ip t) = insert (bd_deviceId r, ip) (activeSet t)"
proof (cases "list_ex (\<lambda>b. ib_blockedDeviceId b = bd_id r \<and> ib_ip b = ip \<and> ib_active b) (bt_bindings t)")
  case True
  define f :: "BindingRow \<Rightarrow> BindingRow" where "f = (\<lambda>b. if ib_blockedDeviceId b = bd_id r \<and> ib_ip b = ip \<and> ib_active b
             then b\<lparr>ib_active := True, ib_releasedAt := None, ib_releaseReason := None\<rparr> else b)"
  have f [simp]: "ib_id (f b) = ib_id b" "ib_blockedDeviceId (f b) = ib_blockedDeviceId b"
    "ib_active (f b) = ib_active b" "ib_ip (f b) = ib_ip b" for b by (auto simp: f_def)
  have u: "upsertBinding (bd_id r) ip t = t\<lparr>bt_bindings := map f (bt_bindings t)\<rparr>"
    using True by (simp add: upsertBinding_def f_def)
  have "(bd_deviceId r, ip) \<in> activeSet t"
    using True r by (auto simp: activeSet_iff list_ex_iff)
  moreover have "activeSet (t\<lparr>bt_bindings := map f (bt_bindings t)\<rparr>) = activeSet t"
    by (simp add: set_eq_iff activeSet_iff)
  moreover have "wfTables (t\<lparr>bt_bindings := map f (bt_bindings t)\<rparr>)"
    using wf by (simp add: wfTables_def comp_def)
  ultimately show ?thesis unfolding u by auto
next
  case False
  let ?b = "\<lparr>ib_id = bt_nextBinding t, ib_blockedDeviceId = bd_id r, ib_ip = ip,
             ib_active = True, ib_releasedAt = None, ib_releaseReason = None\<rparr>"
  have u: "upsertBinding (bd_id r) ip t = t\<lparr>bt_bindings := bt_bindings t @ [?b],
      bt_nextBinding := bt_nextBinding t + 1\<rparr>" using False by (simp add: upsertBinding_def)
  have one: "x = r" if "x \<in> set (bt_records t)" "bd_id x = bd_id r" for x
    using record_unique [OF wf that(1) r(1)] that(2) by blast
  have "p \<in> activeSet (t\<lparr>bt_bindings := bt_bindings t @ [?b], bt_nextBinding := bt_nextBinding t + 1\<rparr>)
      \<longleftrightarrow> p \<in> insert (bd_deviceId r, ip) (activeSet t)" for p
    using r by (cases p) (auto simp: activeSet_iff dest: one)
  then have "activeSet (t\<lparr>bt_bindings := bt_bindings t @ [?b], bt_nextBinding := bt_nextBinding t + 1\<rparr>)
      = insert (bd_deviceId r, ip) (activeSet t)" by blast
  moreover have "wfTables (t\<lparr>bt_bindings := bt_bindings t @ [?b], bt_nextBinding := bt_nextBinding t + 1\<rparr>)"
    using wf r unfolding wfTables_def by (auto dest: one)
  ultimately show ?thesis unfolding u by simp
qed

text \<open>Releasing keeps the rows consistent and takes exactly the chosen bindings out of force.\<close>

definition activeRows :: "BindingRow list \<Rightarrow> BindingRow set" where
  "activeRows rows = {b \<in> set rows. ib_active b}"

definition rowKeys :: "BindingRow list \<Rightarrow> (int \<times> int) set" where
  "rowKeys rows = (\<lambda>b. (ib_id b, ib_blockedDeviceId b)) ` set rows"

lemma row_unique:
  "distinct (map ib_id rows) \<Longrightarrow> x \<in> set rows \<Longrightarrow> y \<in> set rows \<Longrightarrow> ib_id x = ib_id y \<Longrightarrow> x = y"
  by (metis distinct_map inj_onD)

lemma releaseBinding_ok:
  assumes "distinct (map ib_id rows)" "b \<in> activeRows rows"
  shows "distinct (map ib_id (releaseBinding now reason rid b rows)) \<and>
    rowKeys (releaseBinding now reason rid b rows) \<subseteq> rowKeys rows \<and>
    activeRows (releaseBinding now reason rid b rows) = activeRows rows - {b}"
proof (cases "find (\<lambda>x. ib_blockedDeviceId x = rid \<and> ib_ip x = ib_ip b \<and> \<not> ib_active x) rows")
  case None
  define f :: "BindingRow \<Rightarrow> BindingRow" where "f = (\<lambda>x. if ib_id x = ib_id b
     then x\<lparr>ib_active := False, ib_releasedAt := Some now, ib_releaseReason := Some reason\<rparr> else x)"
  have f: "ib_id (f x) = ib_id x" "ib_blockedDeviceId (f x) = ib_blockedDeviceId x"
    "ib_active (f x) \<longleftrightarrow> ib_active x \<and> ib_id x \<noteq> ib_id b" "ib_id x \<noteq> ib_id b \<Longrightarrow> f x = x" for x
    by (auto simp: f_def)
  have r: "releaseBinding now reason rid b rows = map f rows"
    using None by (simp add: releaseBinding_def f_def)
  have "activeRows (map f rows) = activeRows rows - {b}"
    using row_unique [OF assms(1)] assms(2) f unfolding activeRows_def by (auto simp: image_iff) metis+
  with assms(1) f show ?thesis unfolding r by (simp add: comp_def rowKeys_def image_image)
next
  case (Some z)
  then have z: "z \<in> set rows" "\<not> ib_active z" by (auto simp: find_Some_iff)
  define f :: "BindingRow \<Rightarrow> BindingRow" where "f = (\<lambda>x. if ib_id x = ib_id z
     then x\<lparr>ib_releasedAt := Some now, ib_releaseReason := Some reason\<rparr> else x)"
  have f: "ib_id (f x) = ib_id x" "ib_blockedDeviceId (f x) = ib_blockedDeviceId x"
    "ib_active (f x) \<longleftrightarrow> ib_active x" "ib_id x \<noteq> ib_id z \<Longrightarrow> f x = x" for x
    by (auto simp: f_def)
  have r: "releaseBinding now reason rid b rows = filter (\<lambda>x. ib_id x \<noteq> ib_id b) (map f rows)"
    using Some by (simp add: releaseBinding_def f_def)
  have act: "f x = x" if "x \<in> set rows" "ib_active x" for x
    using that z row_unique [OF assms(1) that(1) z(1)] by (intro f(4)) auto
  have "x \<in> activeRows (filter (\<lambda>x. ib_id x \<noteq> ib_id b) (map f rows)) \<longleftrightarrow> x \<in> activeRows rows - {b}" for x
    using row_unique [OF assms(1), of x b] assms(2) f act [of x] act unfolding activeRows_def
    by (auto simp: image_iff) metis
  moreover have "distinct (map ib_id (filter (\<lambda>x. ib_id x \<noteq> ib_id b) (map f rows)))"
    using assms(1) f by (intro distinct_map_filter) (simp add: comp_def)
  moreover have "rowKeys (filter (\<lambda>x. ib_id x \<noteq> ib_id b) (map f rows)) \<subseteq> rowKeys rows"
    using f by (auto simp: rowKeys_def image_iff)
  ultimately show ?thesis unfolding r by blast
qed

lemma releaseFold_ok:
  assumes "distinct (map ib_id rows)" "set bs \<subseteq> activeRows rows" "distinct bs"
  shows "distinct (map ib_id (fold (releaseBinding now reason rid) bs rows)) \<and>
    rowKeys (fold (releaseBinding now reason rid) bs rows) \<subseteq> rowKeys rows \<and>
    activeRows (fold (releaseBinding now reason rid) bs rows) = activeRows rows - set bs"
  using assms
proof (induction bs arbitrary: rows)
  case Nil
  then show ?case by simp
next
  case (Cons b bs)
  let ?rows = "releaseBinding now reason rid b rows"
  from Cons.prems have step: "distinct (map ib_id ?rows)" "rowKeys ?rows \<subseteq> rowKeys rows"
    "activeRows ?rows = activeRows rows - {b}"
    using releaseBinding_ok [of rows b now reason rid] by simp_all
  from Cons.prems have "set bs \<subseteq> activeRows ?rows" "distinct bs" using step(3) by auto
  from Cons.IH [OF step(1) this] step show ?case by auto
qed

lemma releaseWhere_ok:
  assumes "distinct (map ib_id rows)"
  shows "distinct (map ib_id (releaseWhere now reason rid P rows)) \<and>
    rowKeys (releaseWhere now reason rid P rows) \<subseteq> rowKeys rows \<and>
    activeRows (releaseWhere now reason rid P rows) =
      {b \<in> activeRows rows. \<not> (ib_blockedDeviceId b = rid \<and> P b)}"
proof -
  have "distinct rows" using assms by (simp add: distinct_map)
  then have "distinct (filter (\<lambda>b. ib_blockedDeviceId b = rid \<and> P b \<and> ib_active b) rows)" by simp
  from releaseFold_ok [OF assms _ this, of now reason rid] show ?thesis
    unfolding releaseWhere_def by (auto simp: activeRows_def)
qed

lemma activeSet_rows:
  "(i, ip) \<in> activeSet t \<longleftrightarrow> (\<exists>r \<in> set (bt_records t). \<exists>b \<in> activeRows (bt_bindings t).
     bd_deviceId r = i \<and> bd_active r \<and> ib_blockedDeviceId b = bd_id r \<and> ib_ip b = ip)"
  unfolding activeSet_iff activeRows_def by blast

lemma wfTables_rows:
  "wfTables t \<longleftrightarrow>
     distinct (map bd_id (bt_records t)) \<and> distinct (map bd_deviceId (bt_records t)) \<and>
     distinct (map ib_id (bt_bindings t)) \<and>
     (\<forall>r \<in> set (bt_records t). bd_id r < bt_nextRecord t) \<and>
     (\<forall>(x, y) \<in> rowKeys (bt_bindings t). x < bt_nextBinding t \<and> y < bt_nextRecord t) \<and>
     (\<forall>r \<in> set (bt_records t). \<not> bd_active r \<longrightarrow>
        (\<forall>b \<in> activeRows (bt_bindings t). ib_blockedDeviceId b \<noteq> bd_id r))"
  unfolding wfTables_def activeRows_def rowKeys_def by (auto 4 3)

lemma releaseIp_ok:
  assumes "wfTables t" "r \<in> set (bt_records t)"
    and t'_def: "t' = t\<lparr>bt_bindings := releaseWhere now reason (bd_id r) (\<lambda>b. ib_ip b = ip) (bt_bindings t)\<rparr>"
  shows "wfTables t' \<and> activeSet t' = activeSet t - {(bd_deviceId r, ip)}"
proof -
  have d: "distinct (map ib_id (bt_bindings t))" using assms(1) by (simp add: wfTables_def)
  note rel = releaseWhere_ok [OF d, of now reason "bd_id r" "\<lambda>b. ib_ip b = ip"]
  have same: "bd_deviceId x = bd_deviceId r \<longleftrightarrow> bd_id x = bd_id r" if "x \<in> set (bt_records t)" for x
    using record_unique [OF assms(1) that assms(2)] by auto
  have "wfTables t'" using assms(1) rel unfolding wfTables_rows t'_def by auto
  moreover have "p \<in> activeSet t' \<longleftrightarrow> p \<in> activeSet t - {(bd_deviceId r, ip)}" for p
    using same by (cases p) (auto simp: activeSet_rows t'_def rel; metis)
  ultimately show ?thesis by blast
qed

lemma releaseBlock_ok:
  assumes "wfTables t" "r \<in> set (bt_records t)"
    and t'_def: "t' = t\<lparr>bt_records := map (\<lambda>x. if bd_id x = bd_id r then x\<lparr>bd_active := False\<rparr> else x) (bt_records t),
    bt_bindings := releaseWhere now reason (bd_id r) (\<lambda>_. True) (bt_bindings t)\<rparr>"
  shows "wfTables t' \<and> activeSet t' = activeSet t - ({bd_deviceId r} \<times> UNIV)"
proof -
  have d: "distinct (map ib_id (bt_bindings t))" using assms(1) by (simp add: wfTables_def)
  note rel = releaseWhere_ok [OF d, of now reason "bd_id r" "\<lambda>_. True"]
  define f :: "BlockedRow \<Rightarrow> BlockedRow" where "f = (\<lambda>x. if bd_id x = bd_id r then x\<lparr>bd_active := False\<rparr> else x)"
  have f: "bd_id (f x) = bd_id x" "bd_deviceId (f x) = bd_deviceId x"
    "bd_active (f x) \<longleftrightarrow> bd_active x \<and> bd_id x \<noteq> bd_id r" for x by (auto simp: f_def)
  have t': "bt_records t' = map f (bt_records t)" "bt_nextRecord t' = bt_nextRecord t"
    "bt_nextBinding t' = bt_nextBinding t"
    "bt_bindings t' = releaseWhere now reason (bd_id r) (\<lambda>_. True) (bt_bindings t)"
    by (simp_all add: t'_def f_def)
  have same: "bd_deviceId x = bd_deviceId r \<longleftrightarrow> bd_id x = bd_id r" if "x \<in> set (bt_records t)" for x
    using record_unique [OF assms(1) that assms(2)] by auto
  have "wfTables t'" using assms(1) rel unfolding wfTables_rows t' by (auto simp: f comp_def)
  moreover have "p \<in> activeSet t' \<longleftrightarrow> p \<in> activeSet t - ({bd_deviceId r} \<times> UNIV)" for p
    using same by (cases p) (auto simp: activeSet_rows t' f rel; metis)
  ultimately show ?thesis by blast
qed

lemma noRecord:
  assumes "findRecord i t = None"
  shows "(i, ip) \<notin> activeSet t" "activeSet t - {(i, ip)} = activeSet t"
  using findRecord_None [OF assms] by (auto simp: activeSet_iff)

lemma release_simps:
  assumes "findRecord i t = Some r" "wfTables t"
  shows "wfTables (t\<lparr>bt_bindings := releaseWhere now reason (bd_id r) (\<lambda>b. ib_ip b = ip) (bt_bindings t)\<rparr>)"
    "activeSet (t\<lparr>bt_bindings := releaseWhere now reason (bd_id r) (\<lambda>b. ib_ip b = ip) (bt_bindings t)\<rparr>) =
       activeSet t - {(i, ip)}"
    "wfTables (t\<lparr>bt_records := map (\<lambda>x. if bd_id x = bd_id r then x\<lparr>bd_active := False\<rparr> else x) (bt_records t),
       bt_bindings := releaseWhere now reason (bd_id r) (\<lambda>_. True) (bt_bindings t)\<rparr>)"
    "activeSet (t\<lparr>bt_records := map (\<lambda>x. if bd_id x = bd_id r then x\<lparr>bd_active := False\<rparr> else x) (bt_records t),
       bt_bindings := releaseWhere now reason (bd_id r) (\<lambda>_. True) (bt_bindings t)\<rparr>) =
       activeSet t - ({i} \<times> UNIV)"
  using releaseIp_ok [OF assms(2) conjunct1 [OF findRecord_Some [OF assms(1)]] refl]
    releaseBlock_ok [OF assms(2) conjunct1 [OF findRecord_Some [OF assms(1)]] refl]
    findRecord_Some [OF assms(1)] by simp_all

lemma activeIps_found:
  assumes "findRecord i t = Some r" "wfTables t"
  shows "(i, ip) \<in> activeSet t \<longleftrightarrow> bd_active r \<and>
    ip \<in> ib_ip ` {b \<in> set (bt_bindings t). ib_blockedDeviceId b = bd_id r \<and> ib_active b}"
proof -
  note r = findRecord_Some [OF assms(1)]
  have one: "x = r" if "x \<in> set (bt_records t)" "bd_deviceId x = i" for x
    using record_unique [OF assms(2) that(1) conjunct1 [OF r]] r that(2) by blast
  show ?thesis unfolding activeSet_iff image_iff using r one by blast
qed

lemma recordBlock_spec:
  "spec (PrismaBlocked_recordBlock i mac oip why) s (\<lambda>r t. wfTables (w_blocked s) \<longrightarrow>
     wfTables (w_blocked t) \<and> activeSet (w_blocked s) \<subseteq> activeSet (w_blocked t) \<and>
     activeSet (w_blocked t) \<subseteq> activeSet (w_blocked s) \<union> ({i} \<times> set_option oip))"
  unfolding PrismaBlocked_recordBlock_def
proof (rule spec_bnd [where R = "\<lambda>r t. case r of Inl e \<Rightarrow> w_blocked t = w_blocked s
    | Inr x \<Rightarrow> wfTables (w_blocked s) \<longrightarrow> wfTables (w_blocked t) \<and>
        activeSet (w_blocked t) = activeSet (w_blocked s) \<and>
        x \<in> set (bt_records (w_blocked t)) \<and> bd_deviceId x = i \<and> bd_active x"], goal_cases)
  case 1
  show ?case
    by (rule specI)
      (auto dest!: query_err query_ok upsertRecord_ok split: sum.splits if_splits prod.splits)
next
  case (3 x t)
  show ?case
    by (rule spec_whenP; (rule specI)?)
      (use 3 in \<open>auto simp: query_def Let_def updBlocked_def truthy_def upsertBinding_ok
          split: if_splits\<close>)
qed simp

lemma besideBlocked_simps [simp]:
  "besideBlocked (w\<lparr>w_tick := n\<rparr>) = besideBlocked w" "besideBlocked (updBlocked f w) = besideBlocked w"
  "besideBlocked (w\<lparr>w_blocked := t\<rparr>) = besideBlocked w"
  by (simp_all add: besideBlocked_def updBlocked_def domainDevices_def findPolicy_def fun_eq_iff)

interpretation prismaBlk: blocked_repository prismaBlocked w_blocked activeSet wfTables besideBlocked
proof
  show "frame besideBlocked (br_recordBlock prismaBlocked i mac oip why)" for i mac oip why
    by (auto simp: prismaBlocked_def PrismaBlocked_recordBlock_def intro!: prog_rules query_frame
        split: sum.split)
  show "wfTables (w_blocked t) \<and> activeSet (w_blocked s) \<subseteq> activeSet (w_blocked t) \<and>
      activeSet (w_blocked t) \<subseteq> activeSet (w_blocked s) \<union> ({i} \<times> set_option oip)"
    if "br_recordBlock prismaBlocked i mac oip why s = (r, t)" "wfTables (w_blocked s)" for i mac oip why s r t
    using that specD [OF recordBlock_spec, of i mac oip why s r t] by (simp add: prismaBlocked_def)
  show "frame besideBlocked (br_releaseBlock prismaBlocked i)" for i
    by (auto simp: prismaBlocked_def PrismaBlocked_releaseBlock_def intro!: prog_rules query_frame select_frame)
  show "wfTables (w_blocked t) \<and> activeSet (w_blocked t) = activeSet (w_blocked s) - ({i} \<times> UNIV)"
    if "br_releaseBlock prismaBlocked i s = (Inr u, t)" "wfTables (w_blocked s)" for i s u t
    using that
    by (auto simp: prismaBlocked_def PrismaBlocked_releaseBlock_def updBlocked_def noRecord release_simps
        elim!: bnd_InrE dest!: select_ok query_ok split: option.splits)
  show "w_blocked t = w_blocked s" if "br_releaseBlock prismaBlocked i s = (Inl e, t)" for i s e t
    using that
    by (auto simp: prismaBlocked_def PrismaBlocked_releaseBlock_def bnd_def select_def
        dest!: query_err query_ok split: option.splits sum.splits prod.splits)
  show "frame (\<lambda>s. (w_blocked s, besideBlocked s)) (br_activeIps prismaBlocked i)" for i
    by (auto simp: prismaBlocked_def PrismaBlocked_activeIps_def intro!: prog_rules select_frame)
  show "frame (\<lambda>s. (w_blocked s, besideBlocked s)) (br_activeBindings prismaBlocked)"
    by (auto simp: prismaBlocked_def PrismaBlocked_activeBindings_def intro!: select_frame)
  show "set bs = activeSet (w_blocked s)" if "br_activeBindings prismaBlocked s = (Inr bs, t)" for s bs t
    using that by (auto simp: prismaBlocked_def PrismaBlocked_activeBindings_def activeSet_def dest!: select_ok)
  show "frame besideBlocked (f i ip reason)" if "br_releaseIp prismaBlocked = Some f" for f i ip reason
    using that by (auto simp: prismaBlocked_def PrismaBlocked_releaseIp_def intro!: query_frame split: option.split)
  show "w_blocked t = w_blocked s"
    if "br_releaseIp prismaBlocked = Some f" "f i ip reason s = (Inl e, t)" for f i ip reason s e t
    using that by (auto simp: prismaBlocked_def PrismaBlocked_releaseIp_def dest!: query_err split: option.splits)
  show "wfTables (w_blocked t) \<and> activeSet (w_blocked t) = activeSet (w_blocked s) - {(i, ip)}"
    if "br_releaseIp prismaBlocked = Some f" "f i ip reason s = (Inr u, t)" "wfTables (w_blocked s)"
    for f i ip reason s u t
    using that
    by (auto simp: prismaBlocked_def PrismaBlocked_releaseIp_def updBlocked_def noRecord release_simps
        dest!: query_ok split: option.splits)
  show "set ips = {ip. (i, ip) \<in> activeSet (w_blocked s)}"
    if "br_activeIps prismaBlocked i s = (Inr ips, t)" "wfTables (w_blocked s)" for i s ips t
    using that
    by (auto simp: prismaBlocked_def PrismaBlocked_activeIps_def noRecord activeIps_found
        elim!: bnd_InrE dest!: select_ok split: option.splits if_splits)
qed

end
