(* ===== verification/Json.thy ===== *)
theory Json
  imports Ipv4
begin

text \<open>
  \<open>JSON.parse\<close> as the code uses it: on the output of the system commands and on
  configuration text. Every second call of the parser consumes a character, so a fuel of
  \<open>2 * length s + 4\<close> is enough for the text \<open>s\<close>. Object members keep their order, the last
  of two members with one name wins, as in JavaScript.
\<close>

datatype json = JNull | JBool bool | JNum rat | JStr string | JArr "json list" | JObj "(string \<times> json) list"

definition jsonSpace :: "char \<Rightarrow> bool" where
  "jsonSpace c \<longleftrightarrow> of_char c \<in> {9, 10, 13, 32 :: nat}"

definition skipWs :: "string \<Rightarrow> string" where
  "skipWs s = dropWhile jsonSpace s"

definition escapeChar :: "char \<Rightarrow> char option" where
  "escapeChar c = map_of [(CHR 0x22, CHR 0x22), (CHR 0x5C, CHR 0x5C), (CHR ''/'', CHR ''/''),
     (CHR ''b'', CHR 0x08), (CHR ''f'', CHR 0x0C), (CHR ''n'', CHR 0x0A), (CHR ''r'', CHR 0x0D),
     (CHR ''t'', CHR 0x09)] c"

text \<open>The characters of a string literal after its opening quote; \<open>\u\<close> escapes are read modulo 256.\<close>

fun parseChars :: "string \<Rightarrow> (string \<times> string) option" where
  "parseChars [] = None"
| "parseChars (c # cs) =
     (if c = CHR 0x22 then Some ([], cs)
      else if (of_char c :: nat) < 32 then None
      else if c \<noteq> CHR 0x5C then map_option (apfst ((#) c)) (parseChars cs)
      else (case cs of [] \<Rightarrow> None
        | e # cs' \<Rightarrow>
          if e = CHR ''u'' then
            (case cs' of h1 # h2 # h3 # h4 # rest \<Rightarrow>
               if list_all isHex [h1, h2, h3, h4]
               then map_option (apfst ((#) (char_of (readHex [h1, h2, h3, h4] mod 256)))) (parseChars rest)
               else None
             | _ \<Rightarrow> None)
          else (case escapeChar e of None \<Rightarrow> None
                | Some x \<Rightarrow> map_option (apfst ((#) x)) (parseChars cs'))))"

definition numberChar :: "char \<Rightarrow> bool" where
  "numberChar c \<longleftrightarrow> isDigit c \<or> c \<in> set ''+-.eE''"

text \<open>\<open>-?(0|[1-9]\d*)(\.\d+)?([eE][+-]?\d+)?\<close>\<close>

definition jsonNumber :: "string \<Rightarrow> rat option" where
  "jsonNumber t =
     (let neg = (t \<noteq> [] \<and> hd t = CHR ''-''); u = (if neg then tl t else t);
          i = takeWhile isDigit u; r = dropWhile isDigit u
      in if i = [] \<or> (hd i = CHR ''0'' \<and> 1 < length i) \<or> (r \<noteq> [] \<and> hd r = CHR ''.'' \<and> takeWhile isDigit (tl r) = [])
         then None
         else map_option (\<lambda>v. if neg then - v else v) (decimalLiteral u))"

fun parseValue :: "nat \<Rightarrow> string \<Rightarrow> (json \<times> string) option"
  and parseElements :: "nat \<Rightarrow> string \<Rightarrow> (json list \<times> string) option"
  and parseMembers :: "nat \<Rightarrow> string \<Rightarrow> ((string \<times> json) list \<times> string) option" where
  "parseValue 0 s = None"
| "parseValue (Suc n) s0 =
     (let s = skipWs s0 in
      if startsWith ''null'' s then Some (JNull, drop 4 s)
      else if startsWith ''true'' s then Some (JBool True, drop 4 s)
      else if startsWith ''false'' s then Some (JBool False, drop 5 s)
      else case s of [] \<Rightarrow> None
        | c # cs \<Rightarrow>
          if c = CHR 0x22 then map_option (apfst JStr) (parseChars cs)
          else if c = CHR ''['' then
            (if startsWith '']'' (skipWs cs) then Some (JArr [], tl (skipWs cs))
             else map_option (apfst JArr) (parseElements n cs))
          else if c = CHR ''{'' then
            (if startsWith ''}'' (skipWs cs) then Some (JObj [], tl (skipWs cs))
             else map_option (apfst JObj) (parseMembers n cs))
          else map_option (\<lambda>v. (JNum v, dropWhile numberChar s)) (jsonNumber (takeWhile numberChar s)))"
| "parseElements 0 s = None"
| "parseElements (Suc n) s =
     (case parseValue n s of None \<Rightarrow> None
      | Some (v, r) \<Rightarrow>
        (case skipWs r of [] \<Rightarrow> None
         | c # cs \<Rightarrow> if c = CHR '','' then map_option (apfst ((#) v)) (parseElements n cs)
             else if c = CHR '']'' then Some ([v], cs) else None))"
| "parseMembers 0 s = None"
| "parseMembers (Suc n) s =
     (case skipWs s of [] \<Rightarrow> None
      | q # cs \<Rightarrow> if q \<noteq> CHR 0x22 then None
        else (case parseChars cs of None \<Rightarrow> None
          | Some (k, r) \<Rightarrow>
            (case skipWs r of [] \<Rightarrow> None
             | colon # r' \<Rightarrow> if colon \<noteq> CHR '':'' then None
               else (case parseValue n r' of None \<Rightarrow> None
                 | Some (v, r'') \<Rightarrow>
                   (case skipWs r'' of [] \<Rightarrow> None
                    | c # cs' \<Rightarrow> if c = CHR '','' then map_option (apfst ((#) (k, v))) (parseMembers n cs')
                        else if c = CHR ''}'' then Some ([(k, v)], cs') else None)))))"

definition parseJson :: "string \<Rightarrow> json option" where
  "parseJson s = (case parseValue (2 * length s + 4) s of
     Some (v, r) \<Rightarrow> if skipWs r = [] then Some v else None
   | None \<Rightarrow> None)"

text \<open>\<open>value.name\<close> on an object; undefined is \<open>None\<close>.\<close>

definition member :: "string \<Rightarrow> json \<Rightarrow> json option" where
  "member name v = (case v of JObj ms \<Rightarrow> map_of (rev ms) name | _ \<Rightarrow> None)"

definition jsonArray :: "json option \<Rightarrow> json list" where
  "jsonArray v = (case v of Some (JArr xs) \<Rightarrow> xs | _ \<Rightarrow> [])"

definition jsonString :: "json option \<Rightarrow> string option" where
  "jsonString v = (case v of Some (JStr s) \<Rightarrow> Some s | _ \<Rightarrow> None)"

definition jsonNum :: "json option \<Rightarrow> rat option" where
  "jsonNum v = (case v of Some (JNum r) \<Rightarrow> Some r | _ \<Rightarrow> None)"

definition isObject :: "json option \<Rightarrow> bool" where
  "isObject v \<longleftrightarrow> (case v of Some (JObj _) \<Rightarrow> True | Some (JArr _) \<Rightarrow> True | _ \<Rightarrow> False)"

text \<open>
  The items of \<open>for (const item of document.nftables ?? [])\<close>: a property of null and the iteration
  of a value that is not iterable throw.
\<close>

definition nftItems :: "json \<Rightarrow> js_error + json list" where
  "nftItems document =
     (if document = JNull then Inl (Error ''Cannot read properties of null (reading 'nftables')'')
      else case member ''nftables'' document of
          None \<Rightarrow> Inr []
        | Some JNull \<Rightarrow> Inr []
        | Some (JArr xs) \<Rightarrow> Inr xs
        | Some (JStr s) \<Rightarrow> Inr (map (\<lambda>c. JStr [c]) s)
        | Some _ \<Rightarrow> Inl (Error ''document.nftables is not iterable''))"

text \<open>\<open>JSON.stringify\<close> of a list of strings, with the escapes it writes.\<close>

definition quoteChar :: "char \<Rightarrow> string" where
  "quoteChar c = (if c = CHR 0x22 \<or> c = CHR 0x5C then [CHR 0x5C, c]
     else if c = CHR 0x0A then [CHR 0x5C, CHR ''n''] else [c])"

definition jsonQuote :: "string \<Rightarrow> string" where
  "jsonQuote s = [CHR 0x22] @ concat (map quoteChar s) @ [CHR 0x22]"

definition jsonStrings :: "string list \<Rightarrow> string" where
  "jsonStrings xs = ''['' @ joinWith '','' (map jsonQuote xs) @ '']''"

end
