(* ===== verification/Nft.thy ===== *)
theory Nft
  imports Database Json
begin

text \<open>
  \<open>infrastructure/enforcement/NftEnforcer.ts\<close> and \<open>NftDeviceBlocker.ts\<close>: the block sets of the
  kernel, driven through the \<open>nft\<close> command. \<open>n_execute\<close> is \<open>commandExecutor.execute("nft", _)\<close>;
  the operations are serialised by \<open>withMutationLock\<close>, so each is one uninterrupted program.
\<close>

record 'k NftEnv =
  n_execute :: "string list \<Rightarrow> ('k world, string \<times> string) prog"
  n_audit :: "(AuditData \<Rightarrow> ('k world, unit) prog) option"
  n_sshPort :: nat
  n_dashboardPort :: nat
  n_uplink :: string

definition nftAuditData :: "string \<Rightarrow> string list \<Rightarrow> (string \<times> string) list \<Rightarrow> AuditData" where
  "nftAuditData action args details = \<lparr>a_action = action, a_mac = None, a_deviceId = None,
     a_actor = Some ''system'', a_details = [(''command'', ''nft''), (''args'', jsonStrings args)] @ details\<rparr>"

definition execNft :: "'k NftEnv \<Rightarrow> string list \<Rightarrow> ('k world, string) prog" where
  "execNft env args =
     (let mutating = (args \<noteq> [] \<and> hd args \<in> set [''add'', ''insert'', ''delete'', ''replace'', ''flush'', ''reset'']);
          auditNft = (\<lambda>data. optCall (n_audit env) (\<lambda>a. a data))
      in thn (if mutating then bnd (n_execute env (''-c'' # args)) (\<lambda>_. skip) else skip)
        (thn (auditNft (nftAuditData ''enforcement-command-before'' args []))
        (tryCatch
          (bnd (n_execute env args) (\<lambda>(stdout, stderr).
           thn (auditNft (nftAuditData ''enforcement-command-after'' args [(''result'', ''success''),
                  (''stdout'', take 2000 stdout), (''stderr'', take 2000 stderr)]))
             (ret stdout)))
          (\<lambda>error.
           thn (auditNft (nftAuditData ''enforcement-command-after'' args
                  [(''result'', ''failure''), (''error'', errorMessage error)]))
             (throw error)))))"

section \<open>Validation and the classification of errors\<close>

definition nft_validateMac :: "string \<Rightarrow> js_error + string" where
  "nft_validateMac mac = (let normalized = toLowerCase (trim mac)
     in if \<not> MAC_REGEX normalized then Inl (Error (''Invalid MAC address: '' @ mac)) else Inr normalized)"

definition nft_validateIp :: "string \<Rightarrow> js_error + string" where
  "nft_validateIp ip =
     (let normalized = trim ip
      in if \<not> IPV4_RE normalized then Inl (Error (''Invalid IPv4 address: '' @ ip))
         else let parts = map jsNumber (splitOn (CHR ''.'') normalized)
         in if length parts \<noteq> 4 \<or> \<not> list_all jsOctet parts then Inl (Error (''Invalid IPv4 address: '' @ ip))
            else Inr normalized)"

definition validSubnet :: "string \<Rightarrow> bool" where
  "validSubnet subnet \<longleftrightarrow>
     (case CIDR_RE subnet of None \<Rightarrow> False
      | Some (a, p) \<Rightarrow> let octets = map jsNumber (splitOn (CHR ''.'') a)
          in length octets = 4 \<and> list_all jsOctet octets \<and> readNat p \<le> 32)"

definition isAlreadyExists :: "js_error \<Rightarrow> bool" where
  "isAlreadyExists error \<longleftrightarrow> (let message = errorMessage error
     in hasSubstr ''already exists'' message \<or> hasSubstr ''File exists'' message)"

definition isMissingElement :: "js_error \<Rightarrow> bool" where
  "isMissingElement error \<longleftrightarrow> (let message = errorMessage error
     in hasSubstr ''No such file or directory'' message \<or> hasSubstr ''element does not exist'' message)"

text \<open>A command whose failure counts as done when the error says so.\<close>

definition execUnless :: "(js_error \<Rightarrow> bool) \<Rightarrow> 'k NftEnv \<Rightarrow> string list \<Rightarrow> ('k world, unit) prog" where
  "execUnless harmless env args = tryCatch (bnd (execNft env args) (\<lambda>_. skip))
     (\<lambda>error. if harmless error then skip else throw error)"

section \<open>Sets and chains\<close>

definition setArgs :: "string \<Rightarrow> string \<Rightarrow> string \<Rightarrow> string list" where
  "setArgs table name type = [''add'', ''set'', ''ip'', table, name, ''{'', ''type'', type, '';'', ''}'']"

definition chainArgs :: "string \<Rightarrow> string \<Rightarrow> string \<Rightarrow> string \<Rightarrow> string list" where
  "chainArgs table chain hook priority = [''add'', ''chain'', ''ip'', table, chain, ''{'', ''type'',
     ''filter'', ''hook'', hook, ''priority'', priority, '';'', ''policy'', ''accept'', '';'', ''}'']"

definition elementArgs :: "string \<Rightarrow> string \<Rightarrow> string \<Rightarrow> string \<Rightarrow> string list" where
  "elementArgs op table name value = [op, ''element'', ''ip'', table, name, ''{'', value, ''}'']"

definition listSetArgs :: "string \<Rightarrow> string \<Rightarrow> string list" where
  "listSetArgs table name = [''list'', ''set'', ''ip'', table, name]"

definition ensureSet :: "'k NftEnv \<Rightarrow> string \<Rightarrow> string \<Rightarrow> ('k world, unit) prog" where
  "ensureSet env name type = execUnless isAlreadyExists env (setArgs ''filter'' name type)"

definition ensureControlChain :: "'k NftEnv \<Rightarrow> ('k world, unit) prog" where
  "ensureControlChain env =
     execUnless isAlreadyExists env (chainArgs ''filter'' ''ayad_nm_forward'' ''forward'' ''-300'')"

definition ensureManagementChain :: "'k NftEnv \<Rightarrow> ('k world, unit) prog" where
  "ensureManagementChain env =
     execUnless isAlreadyExists env (chainArgs ''filter'' ''ayad_nm_input'' ''input'' ''-300'')"

definition runNft :: "'k NftEnv \<Rightarrow> string list \<Rightarrow> ('k world, unit) prog" where
  "runNft env args = bnd (execNft env args) (\<lambda>_. skip)"

definition flushArgs :: "string \<Rightarrow> string list" where
  "flushArgs chain = [''flush'', ''chain'', ''ip'', ''filter'', chain]"

definition dropArgs :: "string \<Rightarrow> string \<Rightarrow> string \<Rightarrow> string list" where
  "dropArgs key name comment = [''add'', ''rule'', ''ip'', ''filter'', ''ayad_nm_forward'', key, ''saddr'',
     ''@'' @ name, ''drop'', ''comment'', comment]"

definition acceptArgs :: "nat \<Rightarrow> string \<Rightarrow> string list" where
  "acceptArgs port comment = [''add'', ''rule'', ''ip'', ''filter'', ''ayad_nm_input'', ''tcp'', ''dport'',
     showNat port, ''accept'', ''comment'', comment]"

definition rebuildControlChain :: "'k NftEnv \<Rightarrow> ('k world, unit) prog" where
  "rebuildControlChain env =
     thn (ensureControlChain env)
    (thn (runNft env (flushArgs ''ayad_nm_forward''))
    (thn (runNft env (dropArgs ''ip'' ''blocked_ips'' ''ayad_nm_blocked_ips''))
         (runNft env (dropArgs ''ether'' ''blocked_macs'' ''ayad_nm_blocked_macs''))))"

definition rebuildManagementChain :: "'k NftEnv \<Rightarrow> ('k world, unit) prog" where
  "rebuildManagementChain env =
     thn (ensureManagementChain env)
    (thn (runNft env (flushArgs ''ayad_nm_input''))
    (thn (runNft env (acceptArgs (n_sshPort env) ''ayad_nm_allow_ssh_management''))
         (runNft env (acceptArgs (n_dashboardPort env) ''ayad_nm_allow_dashboard_management''))))"

section \<open>Elements\<close>

definition addElement :: "'k NftEnv \<Rightarrow> string \<Rightarrow> string \<Rightarrow> string \<Rightarrow> ('k world, unit) prog" where
  "addElement env table name value = execUnless isAlreadyExists env (elementArgs ''add'' table name value)"

definition deleteElement :: "'k NftEnv \<Rightarrow> string \<Rightarrow> string \<Rightarrow> string \<Rightarrow> ('k world, unit) prog" where
  "deleteElement env table name value = execUnless isMissingElement env (elementArgs ''delete'' table name value)"

text \<open>\<open>/elements\s*=\s*\{([^}]*)\}/\<close>, leftmost, with its group.\<close>

definition elementsAt :: "string \<Rightarrow> string option" where
  "elementsAt s =
     (if \<not> startsWith ''elements'' s then None
      else case dropWhile isSpace (drop 8 s) of [] \<Rightarrow> None
        | e # r \<Rightarrow> if e \<noteq> CHR ''='' then None
            else (case dropWhile isSpace r of [] \<Rightarrow> None
              | b # body \<Rightarrow> if b = CHR ''{'' \<and> CHR ''}'' \<in> set body
                  then Some (takeWhile (\<lambda>c. c \<noteq> CHR ''}'') body) else None))"

fun matchElements :: "string \<Rightarrow> string option" where
  "matchElements [] = None"
| "matchElements (c # cs) = (case elementsAt (c # cs) of Some body \<Rightarrow> Some body | None \<Rightarrow> matchElements cs)"

text \<open>The listed values that are of the wanted form, normalised.\<close>

definition listedValues :: "(string \<Rightarrow> string) \<Rightarrow> (string \<Rightarrow> bool) \<Rightarrow> string \<Rightarrow> string list" where
  "listedValues clean wanted stdout =
     (case matchElements stdout of None \<Rightarrow> []
      | Some body \<Rightarrow> if body = [] then []
          else filter wanted (map clean (splitOn (CHR '','') body)))"

definition nft_getBlockedMacs :: "'k NftEnv \<Rightarrow> ('k world, string list) prog" where
  "nft_getBlockedMacs env = bnd (execNft env (listSetArgs ''filter'' ''blocked_macs''))
     (\<lambda>stdout. ret (setOfList (listedValues normalizeText MAC_REGEX stdout)))"

definition nft_getBlockedIps :: "'k NftEnv \<Rightarrow> ('k world, string list) prog" where
  "nft_getBlockedIps env = bnd (execNft env (listSetArgs ''filter'' ''blocked_ips''))
     (\<lambda>stdout. ret (setOfList (listedValues trim IPV4_RE stdout)))"

section \<open>The VPN guard\<close>

definition vpnRuleArgs :: "string list" where
  "vpnRuleArgs = [''add'', ''rule'', ''ip'', ''ayad_nm'', ''blocked_devices_prerouting'', ''ip'', ''saddr'',
     ''@vpn_blocked_ips'', ''counter'', ''drop'', ''comment'', ''ayad_nm_vpn_blocked_ips'']"

definition ensureVpnEnforcementState :: "'k NftEnv \<Rightarrow> ('k world, unit) prog" where
  "ensureVpnEnforcementState env =
     thn (execUnless isAlreadyExists env [''add'', ''table'', ''ip'', ''ayad_nm''])
    (thn (execUnless isAlreadyExists env (setArgs ''ayad_nm'' ''vpn_blocked_ips'' ''ipv4_addr''))
    (thn (execUnless isAlreadyExists env
           (chainArgs ''ayad_nm'' ''blocked_devices_prerouting'' ''prerouting'' ''-301''))
    (bnd (execNft env [''-a'', ''list'', ''chain'', ''ip'', ''ayad_nm'', ''blocked_devices_prerouting'']) (\<lambda>stdout.
     if \<not> hasSubstr ''ayad_nm_vpn_blocked_ips'' stdout then runNft env vpnRuleArgs else skip))))"

definition syncVpnBlockedIp :: "'k NftEnv \<Rightarrow> string \<Rightarrow> ('k world, unit) prog" where
  "syncVpnBlockedIp env ip = thn (ensureVpnEnforcementState env) (addElement env ''ayad_nm'' ''vpn_blocked_ips'' ip)"

definition removeVpnBlockedIp :: "'k NftEnv \<Rightarrow> string \<Rightarrow> ('k world, unit) prog" where
  "removeVpnBlockedIp env ip =
     thn (ensureVpnEnforcementState env) (deleteElement env ''ayad_nm'' ''vpn_blocked_ips'' ip)"

definition clearVpnBlockedIps :: "'k NftEnv \<Rightarrow> ('k world, unit) prog" where
  "clearVpnBlockedIps env =
     thn (ensureVpnEnforcementState env)
    (bnd (execNft env (listSetArgs ''ayad_nm'' ''vpn_blocked_ips'')) (\<lambda>stdout.
     forEach (listedValues trim IPV4_RE stdout) (deleteElement env ''ayad_nm'' ''vpn_blocked_ips'')))"

definition setVpnBlockedIpGuardEnabled :: "'k NftEnv \<Rightarrow> bool \<Rightarrow> ('k world, unit) prog" where
  "setVpnBlockedIpGuardEnabled env enabled =
     thn (ensureVpnEnforcementState env)
       (if \<not> enabled then thn (clearVpnBlockedIps env) (modify (\<lambda>w. w\<lparr>w_vpnGuard := False\<rparr>))
        else bnd (nft_getBlockedIps env) (\<lambda>blockedIps.
          thn (forEach blockedIps (syncVpnBlockedIp env)) (modify (\<lambda>w. w\<lparr>w_vpnGuard := True\<rparr>))))"

definition ensureFirewallState :: "'k NftEnv \<Rightarrow> ('k world, unit) prog" where
  "ensureFirewallState env =
     thn (ensureSet env ''blocked_macs'' ''ether_addr'')
    (thn (ensureSet env ''blocked_ips'' ''ipv4_addr'')
    (thn (rebuildControlChain env)
    (thn (rebuildManagementChain env)
    (thn (ensureVpnEnforcementState env)
    (thn (clearVpnBlockedIps env)
         (modify (\<lambda>w. w\<lparr>w_vpnGuard := False\<rparr>)))))))"

section \<open>NAT\<close>

record NftRule =
  nr_handle :: rat
  nr_comment :: "string option"
  nr_index :: nat

fun ruleItems :: "nat \<Rightarrow> json list \<Rightarrow> NftRule list" where
  "ruleItems index [] = []"
| "ruleItems index (item # rest) =
     (case member ''rule'' item of None \<Rightarrow> ruleItems index rest
      | Some rule \<Rightarrow>
        (case (isObject (Some rule), jsonNum (member ''handle'' rule)) of
           (True, Some h) \<Rightarrow>
             \<lparr>nr_handle = h, nr_comment = jsonString (member ''comment'' rule), nr_index = index\<rparr> #
             ruleItems (Suc index) rest
         | _ \<Rightarrow> ruleItems index rest))"

definition getRulesInChain :: "'k NftEnv \<Rightarrow> string \<Rightarrow> string \<Rightarrow> ('k world, NftRule list) prog" where
  "getRulesInChain env table chain =
     bnd (execNft env [''-j'', ''list'', ''chain'', ''ip'', table, chain]) (\<lambda>stdout.
     case parseJson stdout of
       None \<Rightarrow> throw (Error (''Failed to parse nft JSON for '' @ table @ ''/'' @ chain))
     | Some document \<Rightarrow> bnd (liftE (nftItems document)) (\<lambda>items. ret (ruleItems 0 items)))"

definition showHandle :: "rat \<Rightarrow> string" where
  "showHandle h = showInt \<lfloor>h\<rfloor>"

definition natArgs :: "'k NftEnv \<Rightarrow> string \<Rightarrow> string list" where
  "natArgs env clientSubnet = [''add'', ''rule'', ''ip'', ''nat'', ''POSTROUTING'', ''ip'', ''saddr'', clientSubnet,
     ''oifname'', n_uplink env, ''masquerade'', ''comment'', ''ayad_nm_single_interface_nat'']"

definition deleteRuleArgs :: "string \<Rightarrow> string \<Rightarrow> string \<Rightarrow> string list" where
  "deleteRuleArgs table chain handle = [''delete'', ''rule'', ''ip'', table, chain, ''handle'', handle]"

definition ensureSingleInterfaceNat :: "'k NftEnv \<Rightarrow> string \<Rightarrow> ('k world, unit) prog" where
  "ensureSingleInterfaceNat env clientSubnet =
     (if \<not> validSubnet clientSubnet then throw (Error (''Invalid client subnet: '' @ clientSubnet))
      else bnd (getRulesInChain env ''nat'' ''POSTROUTING'') (\<lambda>rules.
        thn (case find (\<lambda>r. nr_comment r = Some ''ayad_nm_single_interface_nat'') rules of
               None \<Rightarrow> skip
             | Some existing \<Rightarrow> runNft env (deleteRuleArgs ''nat'' ''POSTROUTING'' (showHandle (nr_handle existing))))
          (runNft env (natArgs env clientSubnet))))"

section \<open>Blocking\<close>

definition nft_blockIp :: "'k NftEnv \<Rightarrow> string \<Rightarrow> ('k world, unit) prog" where
  "nft_blockIp env ip =
     bnd (liftE (nft_validateIp ip)) (\<lambda>validatedIp.
     thn (ensureControlChain env)
    (thn (ensureVpnEnforcementState env)
    (thn (addElement env ''filter'' ''blocked_ips'' validatedIp)
    (bnd (gets w_vpnGuard) (\<lambda>guard. whenP guard (syncVpnBlockedIp env validatedIp))))))"

definition nft_unblockIp :: "'k NftEnv \<Rightarrow> string \<Rightarrow> ('k world, unit) prog" where
  "nft_unblockIp env ip =
     bnd (liftE (nft_validateIp ip)) (\<lambda>validatedIp.
     thn (deleteElement env ''filter'' ''blocked_ips'' validatedIp) (removeVpnBlockedIp env validatedIp))"

definition nft_blockDevice :: "'k NftEnv \<Rightarrow> string \<Rightarrow> string option \<Rightarrow> ('k world, unit) prog" where
  "nft_blockDevice env mac ip =
     bnd (liftE (nft_validateMac mac)) (\<lambda>validatedMac.
     thn (ensureControlChain env)
    (thn (addElement env ''filter'' ''blocked_macs'' validatedMac)
         (whenP (truthy ip) (nft_blockIp env (the ip)))))"

definition nft_unblockDevice :: "'k NftEnv \<Rightarrow> string \<Rightarrow> string option \<Rightarrow> ('k world, unit) prog" where
  "nft_unblockDevice env mac ip =
     bnd (liftE (nft_validateMac mac)) (\<lambda>validatedMac.
     thn (deleteElement env ''filter'' ''blocked_macs'' validatedMac)
         (whenP (truthy ip) (bnd (liftE (nft_validateIp (the ip))) (\<lambda>validatedIp.
            thn (deleteElement env ''filter'' ''blocked_ips'' validatedIp) (removeVpnBlockedIp env validatedIp)))))"

definition nftDeviceBlocker :: "'k NftEnv \<Rightarrow> 'k world DeviceBlocker" where
  "nftDeviceBlocker env = \<lparr>b_block = nft_blockDevice env, b_unblock = nft_unblockDevice env,
     b_blockIp = Some (nft_blockIp env), b_unblockIp = Some (nft_unblockIp env),
     b_getBlockedMacs = Some (nft_getBlockedMacs env), b_getBlockedIps = Some (nft_getBlockedIps env)\<rparr>"

section \<open>Reading a listing\<close>

lemma startsWith_append_cases:
  "startsWith p (t @ s) \<Longrightarrow> startsWith p t \<or> (t \<noteq> [] \<longrightarrow> last t \<in> set p)"
proof (induction p t rule: startsWith.induct)
  case (3 p ps c cs)
  then show ?case by (cases cs) auto
qed auto

lemma matchElements_skip:
  assumes "\<not> hasSubstr ''elements'' pre" "pre \<noteq> []" "isSpace (last pre)"
  shows "matchElements (pre @ s) = matchElements s"
  using assms
proof (induction pre)
  case (Cons c cs)
  have "\<not> startsWith ''elements'' ((c # cs) @ s)"
  proof
    assume "startsWith ''elements'' ((c # cs) @ s)"
    then have "startsWith ''elements'' (c # cs) \<or> last (c # cs) \<in> set ''elements''"
      using startsWith_append_cases by blast
    then show False
    proof
      assume "last (c # cs) \<in> set ''elements''"
      then have "last (c # cs) \<in> {CHR ''e'', CHR ''l'', CHR ''m'', CHR ''n'', CHR ''t'', CHR ''s''}" by auto
      with Cons.prems(3) show False by (auto simp: isSpace_def)
    qed (metis Cons.prems(1) hasSubstr.simps(2))
  qed
  then have "elementsAt ((c # cs) @ s) = None" by (simp add: elementsAt_def)
  moreover have "cs \<noteq> [] \<Longrightarrow> matchElements (cs @ s) = matchElements s"
    using Cons by simp
  ultimately show ?case by (cases cs) auto
qed simp

lemma matchElements_None: "\<not> hasSubstr ''elements'' s \<Longrightarrow> matchElements s = None"
  by (induction s) (simp_all add: elementsAt_def)

lemma isSpace_chars [simp]: "isSpace (CHR '' '')" "\<not> isSpace (CHR ''='')" "\<not> isSpace (CHR ''{'')"
  by (simp_all add: isSpace_def)

lemma matchElements_clause:
  assumes "CHR ''}'' \<notin> set body"
  shows "matchElements (''elements = {'' @ body @ ''}'' @ post) = Some body"
proof -
  have "takeWhile (\<lambda>c. c \<noteq> CHR ''}'') (body @ CHR ''}'' # post) = body"
    using assms by (subst takeWhile_append2) auto
  then show ?thesis by (simp add: elementsAt_def)
qed

lemma dropWhile_spaces: "list_all isSpace b \<Longrightarrow> dropWhile isSpace (b @ s) = dropWhile isSpace s"
  by (induction b) auto

lemma trim_pad:
  assumes "list_all isSpace b" "list_all isSpace a" "trim x = x" "x \<noteq> []"
  shows "trim (b @ x @ a) = x"
proof -
  have x: "\<not> isSpace (hd x)" "\<not> isSpace (last x)" using trim_ends [of x] assms(3,4) by simp_all
  have "trimStart (b @ x @ a) = x @ a"
    using assms(1,4) x(1) by (cases x) (simp_all add: trimStart_def dropWhile_spaces)
  moreover have "trimEnd (x @ a) = x"
  proof -
    have "list_all isSpace (rev a)" using assms(2) by simp
    then have "dropWhile isSpace (rev a @ rev x) = dropWhile isSpace (rev x)" by (rule dropWhile_spaces)
    also have "\<dots> = rev x" using x(2) assms(4) by (cases "rev x") (auto simp: last_rev [symmetric] hd_rev)
    finally show ?thesis by (simp add: trimEnd_def)
  qed
  ultimately show ?thesis by (simp add: trim_def)
qed

section \<open>The enforcer over the documented behaviour of nft\<close>

text \<open>The commands that leave the elements of the two block sets alone.\<close>

definition blockSets :: "string set" where
  "blockSets = {''blocked_macs'', ''blocked_ips''}"

definition neutral :: "string list \<Rightarrow> bool" where
  "neutral args \<longleftrightarrow> (case args of a # b # rest \<Rightarrow>
       a = ''-c'' \<or> a = ''list'' \<or> ((a = ''-a'' \<or> a = ''-j'') \<and> b = ''list'') \<or>
       (a = ''add'' \<and> b \<in> {''set'', ''chain'', ''table'', ''rule''}) \<or> (a = ''flush'' \<and> b = ''chain'') \<or>
       (a = ''delete'' \<and> b = ''rule'') \<or> (b = ''element'' \<and> take 2 rest = [''ip'', ''ayad_nm''])
     | _ \<Rightarrow> False)"

text \<open>The texts nft prints for the elements of a set.\<close>

definition canonicalElement :: "string \<Rightarrow> string \<Rightarrow> bool" where
  "canonicalElement name v \<longleftrightarrow>
     (if name = ''blocked_macs'' then MAC_REGEX v \<and> toLowerCase v = v else nft_validateIp v = Inr v)"

text \<open>
  The listing of a set: without elements there is no \<open>elements\<close> clause; otherwise the clause
  stands on its own line and separates the values by commas and white space.
\<close>

definition setListing :: "string \<Rightarrow> string list \<Rightarrow> bool" where
  "setListing out xs \<longleftrightarrow>
     (if xs = [] then \<not> hasSubstr ''elements'' out
      else \<exists>pre gaps post. out = pre @ ''elements = {'' @
             joinWith '','' (map (\<lambda>((b, a), x). b @ x @ a) (zip gaps xs)) @ ''}'' @ post \<and>
           length gaps = length xs \<and> (\<forall>(b, a) \<in> set gaps. list_all isSpace (b @ a)) \<and>
           \<not> hasSubstr ''elements'' pre \<and> pre \<noteq> [] \<and> isSpace (last pre))"

lemma canonical_chars:
  assumes "canonicalElement n x"
  shows "x \<noteq> [] \<and> trim x = x \<and> (\<forall>c \<in> set x. isHex c \<or> c = CHR '':'' \<or> c = CHR ''.'')"
proof (cases "n = ''blocked_macs''")
  case True
  with assms show ?thesis
    by (auto simp: canonicalElement_def MAC_REGEX_trim dest: MAC_REGEX_chars MAC_REGEX_nonempty)
next
  case False
  with assms have r: "IPV4_RE x" "trim x = x"
    by (auto simp: canonicalElement_def nft_validateIp_def Let_def split: if_splits)
  let ?ps = "splitOn (CHR ''.'') x"
  have "\<forall>p \<in> set ?ps. \<forall>c \<in> set p. isDigit c"
    using r(1) by (auto simp: IPV4_RE_def shortDigits_def Let_def list_all_iff)
  moreover have "set x \<subseteq> set ''.'' \<union> \<Union> (set (map set ?ps))"
    using set_joinWith [of "''.''" ?ps] by (simp only: joinWith_splitOn)
  moreover have "x \<noteq> []" using r(1) by (auto simp: IPV4_RE_def Let_def)
  ultimately show ?thesis using r(2) by (auto simp: isHex_def isHexLower_def)
qed

lemma canonical_text:
  assumes "canonicalElement n x"
  shows "trim x = x" "x \<noteq> []" "CHR '','' \<notin> set x" "CHR ''}'' \<notin> set x"
  using canonical_chars [OF assms] by (auto simp: isHex_def isHexLower_def isDigit_def)

lemma listedValues_listing:
  assumes "setListing out xs" "\<forall>x \<in> set xs. canonicalElement n x"
    and clean: "\<And>s. clean s = f (trim s)" "\<And>x. canonicalElement n x \<Longrightarrow> f x = x \<and> wanted x"
  shows "listedValues clean wanted out = xs"
proof (cases "xs = []")
  case True
  with assms(1) show ?thesis by (simp add: setListing_def listedValues_def matchElements_None)
next
  case False
  with assms(1) obtain pre gaps post where out: "out = pre @ ''elements = {'' @
       joinWith '','' (map (\<lambda>((b, a), x). b @ x @ a) (zip gaps xs)) @ ''}'' @ post"
    and gaps: "length gaps = length xs" "\<forall>(b, a) \<in> set gaps. list_all isSpace (b @ a)"
    and pre: "\<not> hasSubstr ''elements'' pre" "pre \<noteq> []" "isSpace (last pre)"
    unfolding setListing_def by auto
  define parts where "parts = map (\<lambda>((b, a), x). b @ x @ a) (zip gaps xs)"
  have each: "\<exists>b a x. p = b @ x @ a \<and> list_all isSpace b \<and> list_all isSpace a \<and> canonicalElement n x"
    if "p \<in> set parts" for p
  proof -
    from that obtain b a x where "p = b @ x @ a" "((b, a), x) \<in> set (zip gaps xs)"
      unfolding parts_def by auto
    with gaps(2) assms(2) show ?thesis
      by (intro exI [of _ b] exI [of _ a] exI [of _ x]) (auto dest: set_zip_leftD set_zip_rightD)
  qed
  have sp: "list_all isSpace b \<Longrightarrow> CHR '','' \<notin> set b \<and> CHR ''}'' \<notin> set b" for b
    by (auto simp: list_all_iff isSpace_def)
  have noc: "\<forall>p \<in> set parts. CHR '','' \<notin> set p \<and> CHR ''}'' \<notin> set p"
  proof
    fix p assume "p \<in> set parts"
    from each [OF this] obtain b a x where "p = b @ x @ a" "list_all isSpace b" "list_all isSpace a"
      "canonicalElement n x" by blast
    with canonical_text(3,4) [of n x] sp [of b] sp [of a]
    show "CHR '','' \<notin> set p \<and> CHR ''}'' \<notin> set p" by simp
  qed
  have ne: "parts \<noteq> []" using False gaps(1) by (simp add: parts_def) (metis length_0_conv)
  have nb: "CHR ''}'' \<notin> set (joinWith '','' parts)"
    using set_joinWith [of "'',''" parts] noc by auto
  have body: "matchElements out = Some (joinWith '','' parts)"
    unfolding out parts_def [symmetric] using matchElements_skip [OF pre] matchElements_clause [OF nb] by simp
  have split: "splitOn (CHR '','') (joinWith '','' parts) = parts"
    using ne noc by (intro splitOn_joinWith) auto
  have bne: "joinWith '','' parts \<noteq> []"
  proof
    assume "joinWith '','' parts = []"
    with split have "parts = [[]]" by simp
    with each [of "[]"] canonical_text(2) show False by auto
  qed
  have "map clean parts = xs"
    using gaps assms(2) clean canonical_text(1,2) unfolding parts_def
  proof (induction xs arbitrary: gaps)
    case (Cons x xs)
    then obtain b a gaps' where g: "gaps = (b, a) # gaps'" by (cases gaps) auto
    have "trim (b @ x @ a) = x"
      using Cons.prems g canonical_text [of n x] by (intro trim_pad) auto
    then have "clean (b @ x @ a) = x" using Cons.prems(3) clean by simp
    moreover have "map clean (map (\<lambda>((b, a), x). b @ x @ a) (zip gaps' xs)) = xs"
      using Cons.prems g by (intro Cons.IH) auto
    ultimately show ?case using g by simp
  qed simp
  moreover have "filter wanted xs = xs" using assms(2) clean(2) by (simp add: filter_id_conv)
  ultimately show ?thesis using bne by (simp add: listedValues_def body split)
qed

definition succeeded :: "(js_error \<Rightarrow> bool) \<Rightarrow> js_error + 'a \<Rightarrow> bool" where
  "succeeded harmless r \<longleftrightarrow> (case r of Inl e \<Rightarrow> harmless e | Inr _ \<Rightarrow> True)"

definition outside where
  "outside w = (domainDevices w, findPolicy w, w_blocked w, w_quota w, w_notifications w)"

locale nft_enforcer =
  fixes env :: "'k NftEnv"
    and elems :: "string \<Rightarrow> 'k \<Rightarrow> string set"
  assumes exec_frame: "frame outside (n_execute env args)"
    and exec_neutral: "neutral args \<Longrightarrow> n \<in> blockSets \<Longrightarrow>
      frame (\<lambda>w. elems n (w_kernel w)) (n_execute env args)"
    and exec_other: "n \<in> blockSets \<Longrightarrow> n' \<in> blockSets \<Longrightarrow> n' \<noteq> n \<Longrightarrow> op = ''add'' \<or> op = ''delete'' \<Longrightarrow>
      frame (\<lambda>w. elems n' (w_kernel w)) (n_execute env (elementArgs op ''filter'' n v))"
    and exec_add: "n \<in> blockSets \<Longrightarrow> canonicalElement n v \<Longrightarrow>
      n_execute env (elementArgs ''add'' ''filter'' n v) w = (r, w') \<Longrightarrow>
      elems n (w_kernel w) \<subseteq> elems n (w_kernel w') \<and> elems n (w_kernel w') \<subseteq> insert v (elems n (w_kernel w)) \<and>
      (succeeded isAlreadyExists r \<longrightarrow> v \<in> elems n (w_kernel w'))"
    and exec_delete: "n \<in> blockSets \<Longrightarrow> canonicalElement n v \<Longrightarrow>
      n_execute env (elementArgs ''delete'' ''filter'' n v) w = (r, w') \<Longrightarrow>
      elems n (w_kernel w) - {v} \<subseteq> elems n (w_kernel w') \<and> elems n (w_kernel w') \<subseteq> elems n (w_kernel w) \<and>
      (succeeded isMissingElement r \<longrightarrow> v \<notin> elems n (w_kernel w'))"
    and check_add: "n \<in> blockSets \<Longrightarrow> canonicalElement n v \<Longrightarrow>
      n_execute env (''-c'' # elementArgs ''add'' ''filter'' n v) w = (Inl e, w') \<Longrightarrow>
      isAlreadyExists e \<Longrightarrow> v \<in> elems n (w_kernel w)"
    and check_delete: "n \<in> blockSets \<Longrightarrow> canonicalElement n v \<Longrightarrow>
      n_execute env (''-c'' # elementArgs ''delete'' ''filter'' n v) w = (Inl e, w') \<Longrightarrow>
      isMissingElement e \<Longrightarrow> v \<notin> elems n (w_kernel w)"
    and exec_list: "n \<in> blockSets \<Longrightarrow> n_execute env (listSetArgs ''filter'' n) w = (Inr (out, err), w') \<Longrightarrow>
      \<exists>xs. setListing out xs \<and> set xs = elems n (w_kernel w) \<and> (\<forall>x \<in> set xs. canonicalElement n x)"
    and audit_frame: "n_audit env = Some a \<Longrightarrow> frame (\<lambda>w. (outside w, w_vpnGuard w, w_kernel w)) (a d)"
    and audit_error: "n_audit env = Some a \<Longrightarrow> a d w = (Inl e, w') \<Longrightarrow>
      \<not> isAlreadyExists e \<and> \<not> isMissingElement e"
begin

lemma auditStep_spec: "spec (optCall (n_audit env) (\<lambda>a. a d)) w (\<lambda>r w'. outside w' = outside w \<and>
    w_kernel w' = w_kernel w \<and> (\<forall>e. r = Inl e \<longrightarrow> \<not> isAlreadyExists e \<and> \<not> isMissingElement e))"
  by (rule spec_optCall; (rule specI)?) (auto dest: frameD [OF audit_frame] audit_error)

lemma execNft_frame: "frame outside (execNft env args)"
proof -
  have "frame outside (a d)" if "n_audit env = Some a" for a d
    using frame_comp [OF audit_frame [OF that], where g = fst] by simp
  then show ?thesis unfolding execNft_def Let_def case_prod_beta
    by (intro prog_rules exec_frame) simp_all
qed

text \<open>
  What holds of the plain command, and of its dry run when that fails, holds of \<open>execNft\<close>: the
  records of the audit trail neither touch the kernel nor fail with a harmless message.
\<close>

lemma execNft_spec:
  assumes plain: "\<And>w. spec (n_execute env args) w (\<lambda>r w'. K (w_kernel w) (w_kernel w') \<and>
        (succeeded h r \<longrightarrow> G (w_kernel w')) \<and> (\<forall>o_e. r = Inr o_e \<longrightarrow> L (w_kernel w) (fst o_e)))"
    and check: "\<And>w. spec (n_execute env (''-c'' # args)) w (\<lambda>r w'. S (w_kernel w') = S (w_kernel w) \<and>
        (\<forall>e. r = Inl e \<longrightarrow> h e \<longrightarrow> G (w_kernel w)))"
    and S: "\<And>k l m. S k = S l \<Longrightarrow> K k m = K l m \<and> G k = G l \<and> K m k = K m l \<and> (\<forall>x. L k x = L l x)" "\<And>k. K k k"
    and h: "h = isAlreadyExists \<or> h = isMissingElement"
  shows "spec (execNft env args) w (\<lambda>r w'. K (w_kernel w) (w_kernel w') \<and>
        (succeeded h r \<longrightarrow> G (w_kernel w')) \<and> (\<forall>x. r = Inr x \<longrightarrow> L (w_kernel w) x))"
proof -
  have quiet: "spec (optCall (n_audit env) (\<lambda>a. a d)) w (\<lambda>r w'. w_kernel w' = w_kernel w \<and> (\<forall>e. r = Inl e \<longrightarrow> \<not> h e))"
    for d w using h by (intro spec_mono [OF auditStep_spec]) auto
  have main: "spec (thn (optCall (n_audit env) (\<lambda>a. a d1))
        (tryCatch
          (bnd (n_execute env args) (\<lambda>(stdout, stderr).
           thn (optCall (n_audit env) (\<lambda>a. a (d2 stdout stderr))) (ret stdout)))
          (\<lambda>error. thn (optCall (n_audit env) (\<lambda>a. a (d3 error))) (throw error)))) w
      (\<lambda>r w'. K (w_kernel w) (w_kernel w') \<and>
        (succeeded h r \<longrightarrow> G (w_kernel w')) \<and> (\<forall>x. r = Inr x \<longrightarrow> L (w_kernel w) x))" for d1 d2 d3 w
    apply (rule spec_thn, rule quiet, simp add: S(2) succeeded_def)
    apply (rule spec_tryCatch [where R = "\<lambda>r w'. K (w_kernel w) (w_kernel w') \<and>
        (succeeded h r \<longrightarrow> G (w_kernel w')) \<and> (\<forall>x. r = Inr x \<longrightarrow> L (w_kernel w) x)"])
      apply (rule spec_bnd, rule plain, simp add: succeeded_def)
      apply (clarsimp simp: succeeded_def)
      apply ((rule spec_thn, rule quiet); simp)
     apply ((rule spec_thn, rule quiet); auto simp: succeeded_def)
    apply simp
    done
  show ?thesis
    unfolding execNft_def Let_def
    apply (rule spec_thn [where R = "\<lambda>r w'. S (w_kernel w') = S (w_kernel w) \<and> (\<forall>e. r = Inl e \<longrightarrow> h e \<longrightarrow> G (w_kernel w))"])
      apply (rule spec_if)
       apply (rule spec_bnd, rule check, simp, simp)
      apply simp
     apply (simp add: succeeded_def, metis S)
    apply (rule spec_mono, rule main)
    apply (elim conjE, frule S(1) [THEN conjunct1], metis S(1))
    done
qed

subsection \<open>What leaves the block sets alone\<close>

lemma neutral_check: "neutral args \<Longrightarrow> neutral (''-c'' # args)"
  by (auto simp: neutral_def split: list.splits)

lemma neutral_args [simp]:
  "neutral (setArgs t n ty)" "neutral (chainArgs t c h p)" "neutral (flushArgs c)" "neutral (dropArgs k n c)"
  "neutral (acceptArgs port c)" "neutral (elementArgs op ''ayad_nm'' n v)" "neutral (listSetArgs t n)"
  "neutral vpnRuleArgs" "neutral [''add'', ''table'', ''ip'', t]"
  "neutral [''-a'', ''list'', ''chain'', ''ip'', t, c]" "neutral [''-j'', ''list'', ''chain'', ''ip'', t, c]"
  by (simp_all add: neutral_def setArgs_def chainArgs_def flushArgs_def dropArgs_def acceptArgs_def
      elementArgs_def listSetArgs_def vpnRuleArgs_def)

lemma execNft_frame_of:
  assumes "frame v (n_execute env args)" "frame v (n_execute env (''-c'' # args))"
    "\<And>a d. n_audit env = Some a \<Longrightarrow> frame v (a d)"
  shows "frame v (execNft env args)"
  unfolding execNft_def Let_def case_prod_beta using assms by (intro prog_rules) auto

lemma audit_frame_elems: "n_audit env = Some a \<Longrightarrow> frame (\<lambda>w. elems n (w_kernel w)) (a d)"
  using frame_comp [OF audit_frame, where g = "\<lambda>(x, y, k). elems n k"] by simp

lemma execNft_neutral:
  "neutral args \<Longrightarrow> n \<in> blockSets \<Longrightarrow> frame (\<lambda>w. elems n (w_kernel w)) (execNft env args)"
  by (intro execNft_frame_of exec_neutral neutral_check audit_frame_elems)

lemma execUnless_frame: "frame v (execNft env args) \<Longrightarrow> frame v (execUnless h env args)"
  unfolding execUnless_def by (intro prog_rules)

lemma runNft_frame: "frame v (execNft env args) \<Longrightarrow> frame v (runNft env args)"
  unfolding runNft_def by (intro prog_rules)

lemma vpn_frame:
  assumes "\<And>args. neutral args \<Longrightarrow> frame v (execNft env args)"
  shows "frame v (ensureVpnEnforcementState env)" "frame v (syncVpnBlockedIp env ip)"
    "frame v (removeVpnBlockedIp env ip)" "frame v (ensureControlChain env)"
proof -
  show e: "frame v (ensureVpnEnforcementState env)"
    unfolding ensureVpnEnforcementState_def
    by (intro prog_rules execUnless_frame runNft_frame assms) simp_all
  show "frame v (syncVpnBlockedIp env ip)" "frame v (removeVpnBlockedIp env ip)"
    unfolding syncVpnBlockedIp_def removeVpnBlockedIp_def addElement_def deleteElement_def
    by (intro prog_rules e execUnless_frame assms; simp)+
  show "frame v (ensureControlChain env)"
    unfolding ensureControlChain_def by (intro execUnless_frame assms) simp
qed

lemmas vpn_neutral = vpn_frame [where v = "\<lambda>w. elems n (w_kernel w)" for n, OF execNft_neutral]
lemmas vpn_outside = vpn_frame [OF execNft_frame]

subsection \<open>Elements of the block sets\<close>

lemma element_frame:
  "frame outside (addElement env t n v)" "frame outside (deleteElement env t n v)"
  unfolding addElement_def deleteElement_def by (intro execUnless_frame execNft_frame)+

lemma element_other:
  assumes "n \<in> blockSets" "n' \<in> blockSets" "n' \<noteq> n"
  shows "frame (\<lambda>w. elems n' (w_kernel w)) (addElement env ''filter'' n v)"
    "frame (\<lambda>w. elems n' (w_kernel w)) (deleteElement env ''filter'' n v)"
proof -
  have "frame (\<lambda>w. elems n' (w_kernel w)) (execNft env (elementArgs op ''filter'' n v))"
    if "op = ''add'' \<or> op = ''delete''" for op
    by (intro execNft_frame_of exec_other assms that exec_neutral audit_frame_elems)
      (simp_all add: neutral_def elementArgs_def)
  then show "frame (\<lambda>w. elems n' (w_kernel w)) (addElement env ''filter'' n v)"
    "frame (\<lambda>w. elems n' (w_kernel w)) (deleteElement env ''filter'' n v)"
    unfolding addElement_def deleteElement_def by (intro execUnless_frame; simp)+
qed

lemma execUnless_spec:
  assumes "spec (execNft env args) w (\<lambda>r w'. K w w' \<and> (succeeded h r \<longrightarrow> G w'))"
  shows "spec (execUnless h env args) w (\<lambda>r w'. K w w' \<and> (r = Inr () \<longrightarrow> G w'))"
  unfolding execUnless_def
  apply (rule spec_tryCatch [where R = "\<lambda>r w'. K w w' \<and> (succeeded h r \<longrightarrow> G w')"])
    apply (rule spec_bnd, rule assms)
     apply (auto simp: succeeded_def)
  done

lemma check_spec:
  assumes "n \<in> blockSets" "\<And>w e w'. n_execute env (''-c'' # a # args) w = (Inl e, w') \<Longrightarrow> h e \<Longrightarrow> G (elems n (w_kernel w))"
  shows "spec (n_execute env (''-c'' # a # args)) w (\<lambda>r w'. elems n (w_kernel w') = elems n (w_kernel w) \<and>
     (\<forall>e. r = Inl e \<longrightarrow> h e \<longrightarrow> G (elems n (w_kernel w))))"
  using frameD [OF exec_neutral [OF _ assms(1)], of "''-c'' # a # args"] assms(2)
  by (auto intro!: specI simp: neutral_def)

lemma addElement_spec:
  assumes "n \<in> blockSets" "canonicalElement n v"
  shows "spec (addElement env ''filter'' n v) w (\<lambda>r w'. elems n (w_kernel w) \<subseteq> elems n (w_kernel w') \<and>
    elems n (w_kernel w') \<subseteq> insert v (elems n (w_kernel w)) \<and> (r = Inr () \<longrightarrow> v \<in> elems n (w_kernel w')))"
  unfolding addElement_def
  apply (rule spec_mono, rule execUnless_spec [where K = "\<lambda>w w'. elems n (w_kernel w) \<subseteq> elems n (w_kernel w') \<and>
        elems n (w_kernel w') \<subseteq> insert v (elems n (w_kernel w))" and G = "\<lambda>w'. v \<in> elems n (w_kernel w')"])
   apply (rule spec_mono, rule execNft_spec [where h = isAlreadyExists and S = "elems n" and
        K = "\<lambda>k k'. elems n k \<subseteq> elems n k' \<and> elems n k' \<subseteq> insert v (elems n k)" and
        G = "\<lambda>k'. v \<in> elems n k'" and L = "\<lambda>_ _. True"])
        apply (rule specI, drule exec_add [OF assms], simp)
       apply (unfold elementArgs_def, rule check_spec [OF assms(1), where G = "\<lambda>s. v \<in> s"], fold elementArgs_def)
       apply (erule (1) check_add [OF assms])
      apply auto
  done

lemma deleteElement_spec:
  assumes "n \<in> blockSets" "canonicalElement n v"
  shows "spec (deleteElement env ''filter'' n v) w (\<lambda>r w'. elems n (w_kernel w) - {v} \<subseteq> elems n (w_kernel w') \<and>
    elems n (w_kernel w') \<subseteq> elems n (w_kernel w) \<and> (r = Inr () \<longrightarrow> v \<notin> elems n (w_kernel w')))"
  unfolding deleteElement_def
  apply (rule spec_mono, rule execUnless_spec [where K = "\<lambda>w w'. elems n (w_kernel w) - {v} \<subseteq> elems n (w_kernel w') \<and>
        elems n (w_kernel w') \<subseteq> elems n (w_kernel w)" and G = "\<lambda>w'. v \<notin> elems n (w_kernel w')"])
   apply (rule spec_mono, rule execNft_spec [where h = isMissingElement and S = "elems n" and
        K = "\<lambda>k k'. elems n k - {v} \<subseteq> elems n k' \<and> elems n k' \<subseteq> elems n k" and
        G = "\<lambda>k'. v \<notin> elems n k'" and L = "\<lambda>_ _. True"])
        apply (rule specI, drule exec_delete [OF assms], simp)
       apply (unfold elementArgs_def, rule check_spec [OF assms(1), where G = "\<lambda>s. v \<notin> s"], fold elementArgs_def)
       apply (erule (1) check_delete [OF assms])
      apply auto
  done

subsection \<open>The interface of the blocker\<close>

lemma getBlocked_spec:
  assumes n: "n \<in> blockSets" and f: "\<And>s. clean s = f (trim s)" "\<And>x. canonicalElement n x \<Longrightarrow> f x = x \<and> wanted x"
  shows "spec (bnd (execNft env (listSetArgs ''filter'' n)) (\<lambda>stdout. ret (setOfList (listedValues clean wanted stdout)))) w
    (\<lambda>r w'. \<forall>xs. r = Inr xs \<longrightarrow> set xs = elems n (w_kernel w) \<and> (\<forall>x \<in> set xs. canonicalElement n x))"
proof -
  have "spec (execNft env (listSetArgs ''filter'' n)) w (\<lambda>r w'. True \<and> (succeeded isAlreadyExists r \<longrightarrow> True) \<and>
      (\<forall>out. r = Inr out \<longrightarrow> (\<exists>xs. setListing out xs \<and> set xs = elems n (w_kernel w) \<and> (\<forall>x \<in> set xs. canonicalElement n x))))"
    apply (rule execNft_spec [where S = "elems n" and K = "\<lambda>_ _. True" and G = "\<lambda>_. True" and
        L = "\<lambda>k out. \<exists>xs. setListing out xs \<and> set xs = elems n k \<and> (\<forall>x \<in> set xs. canonicalElement n x)"])
        apply (rule specI, clarsimp, erule exec_list [OF n])
       apply (rule specI, simp add: frameD [OF exec_neutral [OF neutral_check [OF neutral_args(7)] n]])
      apply auto
    done
  then show ?thesis
    by (rule spec_bnd) (auto dest: listedValues_listing [OF _ _ f])
qed

lemma blockSets_simps [simp]: "''blocked_macs'' \<in> blockSets" "''blocked_ips'' \<in> blockSets"
  by (simp_all add: blockSets_def)

abbreviation (input) macs where "macs w \<equiv> elems ''blocked_macs'' (w_kernel w)"
abbreviation (input) ips where "ips w \<equiv> elems ''blocked_ips'' (w_kernel w)"

lemma frame_of_spec: "(\<And>s. spec m s (\<lambda>r t. v t = v s)) \<Longrightarrow> frame v m"
  by (simp add: frame_def spec_def case_prod_beta)

lemma liftE_Inr: "liftE (Inr v) = ret v"
  by (simp add: liftE_def)

lemma validateMac_Inr: "nft_validateMac m = Inr v \<Longrightarrow> v = normalizeText m \<and> canonicalElement ''blocked_macs'' v"
  by (auto simp: nft_validateMac_def normalizeText_def canonicalElement_def Let_def split: if_splits)

lemma validateIp_Inr: "nft_validateIp i = Inr v \<Longrightarrow> v = trim i \<and> canonicalElement ''blocked_ips'' v"
  by (auto simp: nft_validateIp_def canonicalElement_def Let_def split: if_splits)

lemma vpn_both:
  "frame (\<lambda>w. (macs w, ips w)) (ensureVpnEnforcementState env)"
  "frame (\<lambda>w. (macs w, ips w)) (syncVpnBlockedIp env ip)"
  "frame (\<lambda>w. (macs w, ips w)) (removeVpnBlockedIp env ip)"
  "frame (\<lambda>w. (macs w, ips w)) (ensureControlChain env)"
  by (intro frame_pair vpn_neutral; simp)+

lemma addMac_spec:
  assumes "canonicalElement ''blocked_macs'' v"
  shows "spec (addElement env ''filter'' ''blocked_macs'' v) w (\<lambda>r w'. (macs w \<subseteq> macs w' \<and>
    macs w' \<subseteq> insert v (macs w) \<and> (r = Inr () \<longrightarrow> v \<in> macs w')) \<and> ips w' = ips w)"
  by (rule spec_conj [OF addElement_spec spec_frame [OF element_other(1)]]) (use assms in simp_all)

lemma addIpElement_spec:
  assumes "canonicalElement ''blocked_ips'' v"
  shows "spec (addElement env ''filter'' ''blocked_ips'' v) w (\<lambda>r w'. (ips w \<subseteq> ips w' \<and>
    ips w' \<subseteq> insert v (ips w) \<and> (r = Inr () \<longrightarrow> v \<in> ips w')) \<and> macs w' = macs w)"
  by (rule spec_conj [OF addElement_spec spec_frame [OF element_other(1)]]) (use assms in simp_all)

lemma deleteMac_spec:
  assumes "canonicalElement ''blocked_macs'' v"
  shows "spec (deleteElement env ''filter'' ''blocked_macs'' v) w (\<lambda>r w'. (macs w - {v} \<subseteq> macs w' \<and>
    macs w' \<subseteq> macs w \<and> (r = Inr () \<longrightarrow> v \<notin> macs w')) \<and> ips w' = ips w)"
  by (rule spec_conj [OF deleteElement_spec spec_frame [OF element_other(2)]]) (use assms in simp_all)

lemma deleteIpElement_spec:
  assumes "canonicalElement ''blocked_ips'' v"
  shows "spec (deleteElement env ''filter'' ''blocked_ips'' v) w (\<lambda>r w'. (ips w - {v} \<subseteq> ips w' \<and>
    ips w' \<subseteq> ips w \<and> (r = Inr () \<longrightarrow> v \<notin> ips w')) \<and> macs w' = macs w)"
  by (rule spec_conj [OF deleteElement_spec spec_frame [OF element_other(2)]]) (use assms in simp_all)

lemma deleteBoth_spec:
  assumes "canonicalElement ''blocked_ips'' v"
  shows "spec (thn (deleteElement env ''filter'' ''blocked_ips'' v) (removeVpnBlockedIp env v)) w (\<lambda>r w'.
    macs w' = macs w \<and> ips w - {v} \<subseteq> ips w' \<and> ips w' \<subseteq> ips w \<and> (r = Inr () \<longrightarrow> v \<notin> ips w'))"
  apply (rule spec_thn, rule deleteIpElement_spec [OF assms], simp)
  apply (rule spec_mono, rule spec_frame, rule vpn_both)
  apply auto
  done

lemma addIp_spec:
  assumes "canonicalElement ''blocked_ips'' v"
  shows "spec (thn (addElement env ''filter'' ''blocked_ips'' v)
      (bnd (gets w_vpnGuard) (\<lambda>guard. whenP guard (syncVpnBlockedIp env v)))) w (\<lambda>r w'.
    macs w' = macs w \<and> ips w \<subseteq> ips w' \<and> ips w' \<subseteq> insert v (ips w) \<and> (r = Inr () \<longrightarrow> v \<in> ips w'))"
  apply (rule spec_thn, rule addIpElement_spec [OF assms], simp)
  apply (rule spec_mono, rule spec_frame [where v = "\<lambda>w. (macs w, ips w)"], intro prog_rules vpn_both)
  apply auto
  done

lemma blockIp_spec:
  "spec (nft_blockIp env ip) w (\<lambda>r w'. macs w' = macs w \<and> ips w \<subseteq> ips w' \<and>
    ips w' \<subseteq> insert (trim ip) (ips w) \<and> (r = Inr () \<longrightarrow> trim ip \<in> ips w'))"
proof (cases "nft_validateIp ip")
  case (Inr v)
  note v = validateIp_Inr [OF Inr]
  show ?thesis
    unfolding nft_blockIp_def Inr liftE_def sum.case bnd_ret
    apply (rule spec_thn, rule spec_frame, rule vpn_both, fastforce)
    apply (rule spec_thn, rule spec_frame, rule vpn_both, fastforce)
    apply (rule spec_mono, rule addIp_spec, use v in auto)
    done
qed (auto simp: nft_blockIp_def liftE_def)

lemma unblockIp_spec:
  "spec (nft_unblockIp env ip) w (\<lambda>r w'. macs w' = macs w \<and> ips w - {trim ip} \<subseteq> ips w' \<and>
    ips w' \<subseteq> ips w \<and> (r = Inr () \<longrightarrow> trim ip \<notin> ips w'))"
proof (cases "nft_validateIp ip")
  case (Inr v)
  note v = validateIp_Inr [OF Inr]
  show ?thesis
    unfolding nft_unblockIp_def Inr liftE_def sum.case bnd_ret
    by (rule spec_mono, rule deleteBoth_spec, use v in auto)
qed (auto simp: nft_unblockIp_def liftE_def)

lemma blockDevice_spec:
  "spec (nft_blockDevice env m None) w (\<lambda>r w'. ips w' = ips w \<and> macs w \<subseteq> macs w' \<and>
    macs w' \<subseteq> insert (normalizeText m) (macs w) \<and> (r = Inr () \<longrightarrow> normalizeText m \<in> macs w'))"
proof (cases "nft_validateMac m")
  case (Inr v)
  note v = validateMac_Inr [OF Inr]
  show ?thesis
    unfolding nft_blockDevice_def Inr liftE_def sum.case bnd_ret
    apply (rule spec_thn, rule spec_frame, rule vpn_both, fastforce)
    apply (rule spec_thn, rule addMac_spec [OF conjunct2 [OF v]])
     apply (use v in \<open>auto simp: truthy_def\<close>)
    done
qed (auto simp: nft_blockDevice_def liftE_def)

lemma unblockDevice_spec:
  "spec (nft_unblockDevice env m oip) w (\<lambda>r w'.
    macs w - {normalizeText m} \<subseteq> macs w' \<and> macs w' \<subseteq> macs w \<and> (r = Inr () \<longrightarrow> normalizeText m \<notin> macs w') \<and>
    ips w - (if truthy oip then {trim (the oip)} else {}) \<subseteq> ips w' \<and> ips w' \<subseteq> ips w \<and>
    (r = Inr () \<longrightarrow> (if truthy oip then {trim (the oip)} else {}) \<inter> ips w' = {}))"
proof (cases "nft_validateMac m")
  case (Inr v)
  note v = validateMac_Inr [OF Inr]
  show ?thesis
    unfolding nft_unblockDevice_def Inr liftE_Inr bnd_ret
    apply (rule spec_thn, rule deleteMac_spec [OF conjunct2 [OF v]])
     apply (use v in \<open>auto simp: truthy_def\<close>) [1]
    apply (rule spec_whenP)
     apply (cases "nft_validateIp (the oip)")
      apply (use v in \<open>auto simp: liftE_def\<close>) [1]
     apply (simp add: liftE_def, rule spec_mono, rule deleteBoth_spec, blast dest: validateIp_Inr)
     apply (frule validateIp_Inr, use v in auto) [1]
    apply (use v in auto)
    done
qed (auto simp: nft_unblockDevice_def liftE_def)

lemma blocker_outside:
  "frame outside (nft_blockDevice env m oip)" "frame outside (nft_unblockDevice env m oip)"
  "frame outside (nft_blockIp env ip)" "frame outside (nft_unblockIp env ip)"
  "frame outside (nft_getBlockedMacs env)" "frame outside (nft_getBlockedIps env)"
  unfolding nft_blockDevice_def nft_unblockDevice_def nft_blockIp_def nft_unblockIp_def
    nft_getBlockedMacs_def nft_getBlockedIps_def
  by (intro prog_rules vpn_outside element_frame execNft_frame frame_liftE)+

lemma getBlocked_frame:
  "frame (\<lambda>w. (macs w, ips w)) (nft_getBlockedMacs env)" "frame (\<lambda>w. (macs w, ips w)) (nft_getBlockedIps env)"
  unfolding nft_getBlockedMacs_def nft_getBlockedIps_def
  by (intro prog_rules frame_pair execNft_neutral; simp)+

lemma blocker_frames:
  "frame (\<lambda>w. (ips w, outside w)) (nft_blockDevice env m None)"
  "frame (\<lambda>w. (macs w, outside w)) (nft_blockIp env ip)"
  "frame (\<lambda>w. (macs w, outside w)) (nft_unblockIp env ip)"
  by (rule frame_pair [OF frame_of_spec blocker_outside(1)], rule spec_mono, rule blockDevice_spec, simp)
    (rule frame_pair [OF frame_of_spec blocker_outside(3)], rule spec_mono, rule blockIp_spec, simp,
     rule frame_pair [OF frame_of_spec blocker_outside(4)], rule spec_mono, rule unblockIp_spec, simp)

lemma device_blocker_nft:
  "device_blocker (nftDeviceBlocker env) (\<lambda>w. macs w) (\<lambda>w. ips w) outside"
proof
  let ?b = "nftDeviceBlocker env"
  note d [simp] = nftDeviceBlocker_def
  show "frame (\<lambda>s. (ips s, outside s)) (b_block ?b m None)" for m
    by (simp add: blocker_frames)
  show "macs t = insert (normalizeText m) (macs s)" if "b_block ?b m None s = (Inr u, t)" for m s u t
    using specD [OF blockDevice_spec, of m s "Inr u" t] that by auto
  show "macs s \<subseteq> macs t \<and> macs t \<subseteq> insert (normalizeText m) (macs s)"
    if "b_block ?b m None s = (Inl e, t)" for m s e t
    using specD [OF blockDevice_spec, of m s "Inl e" t] that by auto
  show "frame outside (b_unblock ?b m oip)" for m oip by (simp add: blocker_outside)
  show "macs t = macs s - {normalizeText m} \<and> ips t = ips s - (if truthy oip then {trim (the oip)} else {})"
    if "b_unblock ?b m oip s = (Inr u, t)" for m oip s u t
    using specD [OF unblockDevice_spec, of m oip s "Inr u" t] that by auto
  show "macs s - {normalizeText m} \<subseteq> macs t \<and> macs t \<subseteq> macs s \<and>
      ips s - (if truthy oip then {trim (the oip)} else {}) \<subseteq> ips t \<and> ips t \<subseteq> ips s"
    if "b_unblock ?b m oip s = (Inl e, t)" for m oip s e t
    using specD [OF unblockDevice_spec, of m oip s "Inl e" t] that by auto
  show "frame (\<lambda>s. (macs s, outside s)) (f ip)" if "b_blockIp ?b = Some f" for f ip
    using that blocker_frames by auto
  show "ips t = insert (trim ip) (ips s)" if "b_blockIp ?b = Some f" "f ip s = (Inr u, t)" for f ip s u t
    using specD [OF blockIp_spec, of ip s "Inr u" t] that by auto
  show "ips s \<subseteq> ips t \<and> ips t \<subseteq> insert (trim ip) (ips s)"
    if "b_blockIp ?b = Some f" "f ip s = (Inl e, t)" for f ip s e t
    using specD [OF blockIp_spec, of ip s "Inl e" t] that by auto
  show "frame (\<lambda>s. (macs s, outside s)) (f ip)" if "b_unblockIp ?b = Some f" for f ip
    using that blocker_frames by auto
  show "ips t = ips s - {trim ip}" if "b_unblockIp ?b = Some f" "f ip s = (Inr u, t)" for f ip s u t
    using specD [OF unblockIp_spec, of ip s "Inr u" t] that by auto
  show "ips s - {trim ip} \<subseteq> ips t \<and> ips t \<subseteq> ips s"
    if "b_unblockIp ?b = Some f" "f ip s = (Inl e, t)" for f ip s e t
    using specD [OF unblockIp_spec, of ip s "Inl e" t] that by auto
  show "frame (\<lambda>s. (macs s, ips s, outside s)) g" if "b_getBlockedMacs ?b = Some g" for g
    using that frame_pair [OF getBlocked_frame(1) blocker_outside(5)] by (simp add: frame_def)
  show "frame (\<lambda>s. (macs s, ips s, outside s)) g" if "b_getBlockedIps ?b = Some g" for g
    using that frame_pair [OF getBlocked_frame(2) blocker_outside(6)] by (simp add: frame_def)
  show "set ms = macs s \<and> (\<forall>m \<in> set ms. MacAddress_create m = Inr m)"
    if "b_getBlockedMacs ?b = Some g" "g s = (Inr ms, t)" for g s ms t
  proof -
    have "spec g s (\<lambda>r w'. \<forall>xs. r = Inr xs \<longrightarrow> set xs = macs s \<and> (\<forall>x \<in> set xs. canonicalElement ''blocked_macs'' x))"
    proof -
      have "g = nft_getBlockedMacs env" using that(1) by simp
      then show ?thesis unfolding nft_getBlockedMacs_def
        by (simp only:) (rule getBlocked_spec [where f = toLowerCase]; simp add: normalizeText_def canonicalElement_def)
    qed
    from specD [OF this that(2)] show ?thesis
      by (auto simp: canonicalElement_def MacAddress_create_def Let_def MAC_REGEX_trim)
  qed
  show "set is = ips s \<and> (\<forall>i \<in> set is. trim i = i)"
    if "b_getBlockedIps ?b = Some g" "g s = (Inr is, t)" for g s "is" t
  proof -
    have "spec g s (\<lambda>r w'. \<forall>xs. r = Inr xs \<longrightarrow> set xs = ips s \<and> (\<forall>x \<in> set xs. canonicalElement ''blocked_ips'' x))"
    proof -
      have "g = nft_getBlockedIps env" using that(1) by simp
      then show ?thesis unfolding nft_getBlockedIps_def
        by (simp only:) (rule getBlocked_spec [where f = id];
          auto simp: canonicalElement_def nft_validateIp_def Let_def split: if_splits)
    qed
    from specD [OF this that(2)] canonical_text(1) show ?thesis by auto
  qed
qed

end

end
