(* ===== verification/Agent.thy ===== *)
theory Agent
  imports Ipv4 Values
begin

text \<open>
  The privileged agent of \<open>infrastructure/enforcement/EnforcementAgent.ts\<close>: the whitelist
  \<open>valid\<close> that decides which commands it runs, and the classification of a command as a
  background read. Its environment variables are the fields of \<open>AgentConfig\<close>; \<open>g_cwd\<close> is the
  directory \<open>path.resolve\<close> starts from.
\<close>

record AgentConfig =
  g_cwd :: string
  g_client :: string
  g_uplink :: string
  g_tun :: string
  g_snapshotDir :: string
  g_nftablesPath :: string
  g_vpnConfig :: string
  g_vpnStage :: string
  g_vpnInstallUnit :: string

section \<open>Reading an argument list\<close>

text \<open>\<open>args[i]\<close> is undefined past the end.\<close>

definition arg :: "string list \<Rightarrow> nat \<Rightarrow> string option" where
  "arg args i = (if i < length args then Some (args ! i) else None)"

definition argIn :: "string list \<Rightarrow> nat \<Rightarrow> string list \<Rightarrow> bool" where
  "argIn args i xs \<longleftrightarrow> (case arg args i of None \<Rightarrow> False | Some a \<Rightarrow> a \<in> set xs)"

definition argIs :: "string list \<Rightarrow> nat \<Rightarrow> string \<Rightarrow> bool" where
  "argIs args i x \<longleftrightarrow> arg args i = Some x"

definition argSat :: "(string \<Rightarrow> bool) \<Rightarrow> string list \<Rightarrow> nat \<Rightarrow> bool" where
  "argSat P args i \<longleftrightarrow> (case arg args i of None \<Rightarrow> False | Some a \<Rightarrow> P a)"

definition indexOf :: "string \<Rightarrow> string list \<Rightarrow> nat option" where
  "indexOf x args = (let n = length (takeWhile (\<lambda>a. a \<noteq> x) args)
     in if n < length args then Some n else None)"

text \<open>The arguments from position \<open>i\<close> on are exactly \<open>xs\<close>.\<close>

definition argsFrom :: "string list \<Rightarrow> nat \<Rightarrow> string list \<Rightarrow> bool" where
  "argsFrom args i xs \<longleftrightarrow> list_all (\<lambda>(k, x). argIs args (i + k) x) (enumerate 0 xs)"

section \<open>The predicates on one argument\<close>

definition interfaceChar :: "char \<Rightarrow> bool" where
  "interfaceChar c \<longleftrightarrow> isDigit c \<or> (97 \<le> (of_char c :: nat) \<and> of_char c \<le> (122 :: nat)) \<or>
     (65 \<le> (of_char c :: nat) \<and> of_char c \<le> (90 :: nat)) \<or> c \<in> set ''_.:-''"

text \<open>\<open>/^[a-zA-Z0-9_.:-]{1,32}$/\<close>\<close>

definition interfaceName :: "string \<Rightarrow> bool" where
  "interfaceName s \<longleftrightarrow> s \<noteq> [] \<and> length s \<le> 32 \<and> list_all interfaceChar s"

definition ifaceAllowed :: "AgentConfig \<Rightarrow> string \<Rightarrow> bool" where
  "ifaceAllowed cfg value \<longleftrightarrow>
     value = ''ifb0'' \<or> value = g_client cfg \<or> value = g_uplink cfg \<or> value = g_tun cfg"

definition validInterface :: "AgentConfig \<Rightarrow> string \<Rightarrow> bool" where
  "validInterface cfg value \<longleftrightarrow> interfaceName value \<and> ifaceAllowed cfg value"

text \<open>\<open>path.resolve\<close>: empty and \<open>.\<close> segments go, \<open>..\<close> removes the segment before it.\<close>

fun resolveSegments :: "string list \<Rightarrow> string list \<Rightarrow> string list" where
  "resolveSegments acc [] = rev acc"
| "resolveSegments acc (p # ps) =
     (if p = [] \<or> p = ''.'' then resolveSegments acc ps
      else if p = ''..'' then resolveSegments (drop 1 acc) ps
      else resolveSegments (p # acc) ps)"

definition resolvePath :: "AgentConfig \<Rightarrow> string \<Rightarrow> string" where
  "resolvePath cfg value =
     (let absolute = (if startsWith ''/'' value then value else g_cwd cfg @ ''/'' @ value)
      in ''/'' @ joinWith ''/'' (resolveSegments [] (splitOn (CHR ''/'') absolute)))"

definition endsWith :: "string \<Rightarrow> string \<Rightarrow> bool" where
  "endsWith s t \<longleftrightarrow> startsWith (rev s) (rev t)"

definition validSnapshotPath :: "AgentConfig \<Rightarrow> string \<Rightarrow> bool" where
  "validSnapshotPath cfg value \<longleftrightarrow> (let path = resolvePath cfg value
     in startsWith (resolvePath cfg (g_snapshotDir cfg) @ ''/'') path \<and> endsWith ''/nftables.bak'' path)"

definition validNftablesConfigPath :: "AgentConfig \<Rightarrow> string \<Rightarrow> bool" where
  "validNftablesConfigPath cfg value \<longleftrightarrow> resolvePath cfg value = resolvePath cfg (g_nftablesPath cfg)"

text \<open>\<open>/^(0|[1-9][0-9]{0,2})$/\<close>\<close>

definition canonicalNumber :: "nat \<Rightarrow> string \<Rightarrow> bool" where
  "canonicalNumber n p \<longleftrightarrow> p \<noteq> [] \<and> length p \<le> n \<and> list_all isDigit p \<and> hd p \<noteq> CHR ''0''"

definition validIpv4 :: "string \<Rightarrow> bool" where
  "validIpv4 value \<longleftrightarrow> (let parts = splitOn (CHR ''.'') value
     in length parts = 4 \<and>
        list_all (\<lambda>part. (part = ''0'' \<or> canonicalNumber 3 part) \<and> readNat part \<le> 255) parts)"

definition validSubnetCidr :: "string \<Rightarrow> bool" where
  "validSubnetCidr value \<longleftrightarrow>
     (case CIDR_RE value of None \<Rightarrow> False | Some (ip, bits) \<Rightarrow> validIpv4 ip \<and> readNat bits \<le> 32)"

definition validPort :: "string \<Rightarrow> bool" where
  "validPort value \<longleftrightarrow> canonicalNumber 5 value \<and> readNat value \<le> 65535"

definition validRuleHandle :: "string \<Rightarrow> bool" where
  "validRuleHandle value \<longleftrightarrow> value \<noteq> [] \<and> list_all isDigit value \<and> hd value \<noteq> CHR ''0''"

definition validRulePosition :: "string \<Rightarrow> bool" where
  "validRulePosition value \<longleftrightarrow> value \<noteq> [] \<and> list_all isDigit value"

definition validComment :: "string \<Rightarrow> bool" where
  "validComment value \<longleftrightarrow> value \<in> set [''ayad_nm_allow_ssh_management'',
     ''ayad_nm_allow_dashboard_management'', ''ayad_nm_blocked_macs'', ''ayad_nm_blocked_ips'',
     ''ayad_nm_single_interface_nat'', ''ayad_nm_vpn_nat'', ''ayad_nm_vpn_fail_closed'']"

text \<open>\<open>/^dev_(download|upload)_[0-9a-f]{12}$/\<close>, with its direction and its digits.\<close>

definition accountingCounter :: "string \<Rightarrow> (string \<times> string) option" where
  "accountingCounter value =
     (let hex = (\<lambda>h. length h = 12 \<and> list_all isHexLower h)
      in if startsWith ''dev_download_'' value \<and> hex (drop 13 value) then Some (''download'', drop 13 value)
         else if startsWith ''dev_upload_'' value \<and> hex (drop 11 value) then Some (''upload'', drop 11 value)
         else None)"

definition validAccountingCounterName :: "string \<Rightarrow> bool" where
  "validAccountingCounterName value \<longleftrightarrow> accountingCounter value \<noteq> None"

text \<open>\<open>/^ayad_nm_port_[0-9]+(?:_return)?$/\<close>\<close>

definition validPortRuleComment :: "string \<Rightarrow> bool" where
  "validPortRuleComment value \<longleftrightarrow> startsWith ''ayad_nm_port_'' value \<and>
     (let rest = drop 13 value; digits = takeWhile isDigit rest; tail = dropWhile isDigit rest
      in digits \<noteq> [] \<and> (tail = [] \<or> tail = ''_return''))"

definition elementMac :: "string \<Rightarrow> bool" where
  "elementMac value \<longleftrightarrow> MAC_REGEX value"

section \<open>Rules\<close>

definition validManagedPortRule :: "AgentConfig \<Rightarrow> string list \<Rightarrow> nat \<Rightarrow> bool" where
  "validManagedPortRule cfg args start \<longleftrightarrow>
     \<not> (\<not> argIs args 0 ''insert'' \<or> start \<noteq> 7 \<or> \<not> argIs args 5 ''position'' \<or> \<not> argIs args 6 ''4'' \<or>
        length args \<noteq> start + 13) \<and>
     (let upload = argIs args start ''iifname'' \<and> argIs args (start + 2) ''ip'' \<and>
            argIs args (start + 3) ''saddr'' \<and> argIs args (start + 6) ''dport'' \<and> argIs args (start + 8) ''oifname'';
          download = argIs args start ''iifname'' \<and> argIs args (start + 2) ''ip'' \<and>
            argIs args (start + 3) ''daddr'' \<and> argIs args (start + 6) ''sport'' \<and> argIs args (start + 8) ''oifname''
      in (upload \<or> download) \<and>
         argSat (validInterface cfg) args (start + 1) \<and> argSat validIpv4 args (start + 4) \<and>
         argIn args (start + 5) [''tcp'', ''udp''] \<and> argSat validPort args (start + 7) \<and>
         argSat (validInterface cfg) args (start + 9) \<and>
         argIn args (start + 10) [''accept'', ''drop''] \<and>
         argIs args (start + 11) ''comment'' \<and> argSat validPortRuleComment args (start + 12) \<and>
         (if upload then argIs args (start + 1) (g_client cfg) \<and> argIs args (start + 9) (g_uplink cfg)
          else argIs args (start + 1) (g_uplink cfg) \<and> argIs args (start + 9) (g_client cfg)))"

definition validAccountingRule :: "AgentConfig \<Rightarrow> string list \<Rightarrow> bool" where
  "validAccountingRule cfg args \<longleftrightarrow>
     argIs args 2 ''inet'' \<and> argIs args 3 ''ayad_nm'' \<and> argIs args 4 ''accounting'' \<and>
     (if argIs args 0 ''delete'' then length args = 7 \<and> argIs args 1 ''rule'' \<and> argIs args 5 ''handle'' \<and>
        argSat validRuleHandle args 6
      else if \<not> argIs args 0 ''add'' \<and> \<not> argIs args 0 ''replace'' then False
      else let offset = (if argIs args 0 ''replace'' then 7 else 5)
        in argIs args 1 ''rule'' \<and>
           \<not> (argIs args 0 ''replace'' \<and>
              (length args < 8 \<or> \<not> argIs args 5 ''handle'' \<or> \<not> argSat validRuleHandle args 6)) \<and>
           (let expression = drop offset args
            in case indexOf ''counter'' expression of None \<Rightarrow> False
               | Some counterIndex \<Rightarrow>
                   length expression = counterIndex + 5 \<and>
                   argIs expression (counterIndex + 1) ''name'' \<and>
                   argIs expression (counterIndex + 3) ''comment'' \<and>
                   (case arg expression (counterIndex + 2) of None \<Rightarrow> False
                    | Some counterName \<Rightarrow>
                        (case accountingCounter counterName of None \<Rightarrow> False
                         | Some (direction, macHex) \<Rightarrow>
                             argIs expression (counterIndex + 4) (''ayad_nm_'' @ direction @ ''_'' @ macHex) \<and>
                             (if direction = ''download''
                              then argIs expression 0 ''oifname'' \<and> argIs expression 2 ''ip'' \<and> argIs expression 3 ''daddr''
                              else argIs expression 0 ''iifname'' \<and> argIs expression 2 ''ip'' \<and> argIs expression 3 ''saddr'') \<and>
                             argSat (validInterface cfg) expression 1 \<and> argSat validIpv4 expression 4))))"

text \<open>The three rules a forward chain may hold: the two block sets and the VPN kill switch.\<close>

definition forwardRule :: "AgentConfig \<Rightarrow> string list \<Rightarrow> nat \<Rightarrow> bool" where
  "forwardRule cfg args start \<longleftrightarrow>
     (if argsFrom args start [''ether'', ''saddr'', ''@blocked_macs'', ''drop'']
        then length args = start + 6 \<and> argsFrom args (start + 4) [''comment'', ''ayad_nm_blocked_macs'']
      else if argsFrom args start [''ip'', ''saddr'', ''@blocked_ips'', ''drop'']
        then length args = start + 6 \<and> argsFrom args (start + 4) [''comment'', ''ayad_nm_blocked_ips'']
      else if argsFrom args start [''ip'', ''saddr''] \<and> argSat validSubnetCidr args (start + 2) \<and>
          argsFrom args (start + 3) [''oifname'', g_uplink cfg, ''drop'', ''comment'', ''ayad_nm_vpn_fail_closed'']
        then length args = start + 8 \<and> g_uplink cfg \<noteq> []
      else False)"

definition deleteByHandle :: "string list \<Rightarrow> bool" where
  "deleteByHandle args \<longleftrightarrow> length args = 7 \<and> argIs args 5 ''handle'' \<and> argSat validRuleHandle args 6"

definition validManagedNftRule :: "AgentConfig \<Rightarrow> string list \<Rightarrow> bool" where
  "validManagedNftRule cfg args \<longleftrightarrow>
     (if \<not> argIn args 0 [''add'', ''insert'', ''delete'', ''replace''] \<or> \<not> argIs args 1 ''rule'' \<or> \<not> argIs args 2 ''ip''
        then False
      else let adds = argIn args 0 [''add'', ''insert''];
               positionIndex = indexOf ''position'' args;
               badPosition = (positionIndex \<noteq> None \<and> (positionIndex \<noteq> Some 5 \<or> \<not> argSat validRulePosition args 6));
               start = (if positionIndex \<noteq> None then 7 else 5 :: nat)
      in if argIs args 3 ''filter'' \<and> argIn args 4 [''INPUT'', ''FORWARD'', ''ayad_nm_forward'', ''ayad_nm_input''] then
           if argIs args 0 ''delete'' then deleteByHandle args
           else if argIs args 0 ''replace'' then
             8 \<le> length args \<and> argIs args 5 ''handle'' \<and> argSat validRuleHandle args 6 \<and>
             (validComment (last args) \<or> validPortRuleComment (last args))
           else if badPosition then False
           else if argIn args 4 [''INPUT'', ''ayad_nm_input''] then
             adds \<and> length args = start + 6 \<and> argsFrom args start [''tcp'', ''dport''] \<and>
             argSat validPort args (start + 2) \<and> argsFrom args (start + 3) [''accept'', ''comment''] \<and>
             argIn args (start + 5) [''ayad_nm_allow_ssh_management'', ''ayad_nm_allow_dashboard_management'']
           else if argIs args 4 ''ayad_nm_forward'' then
             validManagedPortRule cfg args start \<or> (adds \<and> forwardRule cfg args start)
           else adds \<and> forwardRule cfg args start
         else if argIs args 3 ''nat'' \<and> argIs args 4 ''POSTROUTING'' then
           if argIs args 0 ''delete'' then deleteByHandle args
           else if \<not> adds \<or> badPosition then False
           else if length args \<noteq> start + 8 \<or> \<not> argsFrom args start [''ip'', ''saddr''] \<or>
               \<not> argSat validSubnetCidr args (start + 2) \<or> \<not> argIs args (start + 3) ''oifname'' \<or>
               \<not> argsFrom args (start + 5) [''masquerade'', ''comment''] then False
           else if argIs args (start + 7) ''ayad_nm_single_interface_nat''
             then argIs args (start + 4) (g_uplink cfg) \<and> g_uplink cfg \<noteq> []
           else if argIs args (start + 7) ''ayad_nm_vpn_nat''
             then argIs args (start + 4) (g_tun cfg) \<and> g_tun cfg \<noteq> []
           else False
         else False)"

section \<open>The whitelist\<close>

definition chainBody :: "string \<Rightarrow> string \<Rightarrow> string list" where
  "chainBody hook priority = [''{'', ''type'', ''filter'', ''hook'', hook, ''priority'', priority, '';'',
     ''policy'', ''accept'', '';'', ''}'']"

definition noneOf :: "string \<Rightarrow> string \<Rightarrow> bool" where
  "noneOf bad a \<longleftrightarrow> \<not> list_ex (\<lambda>c. c \<in> set bad) a"

definition allowedSystemctlUnits :: "AgentConfig \<Rightarrow> string list" where
  "allowedSystemctlUnits cfg = [''sing-box'', ''dnsmasq'', ''network-control-enforcement.service'',
     ''network-control-backend.service'', g_vpnInstallUnit cfg]"

definition validSystemctl :: "AgentConfig \<Rightarrow> string list \<Rightarrow> bool" where
  "validSystemctl cfg args \<longleftrightarrow>
     (if argIs args 0 ''daemon-reload'' then length args = 1
      else if \<not> argIn args 0 [''start'', ''stop'', ''restart'', ''enable'', ''is-active''] then False
      else if argIs args 0 ''is-active'' then
        length args = 3 \<and> argIs args 1 ''--quiet'' \<and> argIn args 2 (allowedSystemctlUnits cfg)
      else 2 \<le> length args \<and> list_all (\<lambda>a. a \<in> set (allowedSystemctlUnits cfg)) (drop 1 args))"

definition validIpCommand :: "AgentConfig \<Rightarrow> string list \<Rightarrow> bool" where
  "validIpCommand cfg args \<longleftrightarrow>
     (if argIs args 0 ''neigh'' \<or> (argIs args 0 ''-j'' \<and> argIs args 1 ''neigh'') then
        let k = (if argIs args 0 ''-j'' then 1 else 0)
        in argsFrom args k [''neigh'', ''show'', ''dev''] \<and> argSat (\<lambda>a. a \<noteq> [] \<and> validInterface cfg a) args (k + 3)
      else if argsFrom args 0 [''-j'', ''link'', ''show''] then length args = 3
      else if argsFrom args 0 [''-j'', ''-4'', ''addr'', ''show''] then
        length args = 4 \<or> (length args = 6 \<and> argIs args 4 ''dev'' \<and> argSat interfaceName args 5)
      else if argsFrom args 0 [''-j'', ''route'', ''show'', ''default''] then length args = 4
      else if argsFrom args 0 [''route'', ''get''] then length args = 3 \<and> argSat validIpv4 args 2
      else if argIs args 0 ''addr'' \<and> argIn args 1 [''add'', ''del''] then
        length args = 5 \<and> argSat validSubnetCidr args 2 \<and> argIs args 3 ''dev'' \<and> argSat (validInterface cfg) args 4
      else if argsFrom args 0 [''link'', ''show'', ''dev''] then length args = 4 \<and> argSat interfaceName args 3
      else if argsFrom args 0 [''link'', ''add''] then
        length args = 5 \<and> argsFrom args 2 [''ifb0'', ''type'', ''ifb'']
      else if argsFrom args 0 [''link'', ''set''] then
        length args = 5 \<and> argsFrom args 2 [''dev'', ''ifb0'', ''up'']
      else if argsFrom args 0 [''link'', ''delete''] then
        length args = 5 \<and> argsFrom args 2 [''ifb0'', ''type'', ''ifb'']
      else False)"

definition validTc :: "AgentConfig \<Rightarrow> string list \<Rightarrow> bool" where
  "validTc cfg args \<longleftrightarrow>
     (if \<not> argIn args 0 [''qdisc'', ''class'', ''filter''] then False
      else let devIndex = indexOf ''dev'' args
      in if (case devIndex of None \<Rightarrow> False
             | Some i \<Rightarrow> \<not> argSat (\<lambda>a. a \<noteq> [] \<and> validInterface cfg a) args (i + 1)) then False
         else if argsFrom args 0 [''qdisc'', ''show''] then devIndex \<noteq> None \<and> length args \<le> 5
         else if argsFrom args 0 [''class'', ''show''] then devIndex \<noteq> None
         else if argsFrom args 0 [''filter'', ''show''] then devIndex \<noteq> None
         else if \<not> argIn args 1 [''add'', ''change'', ''del''] \<or> devIndex = None then False
         else list_all (noneOf '';{}'') args)"

definition validElement :: "string list \<Rightarrow> bool" where
  "validElement args \<longleftrightarrow>
     (if length args \<noteq> 8 \<or> (\<not> argIs args 0 ''add'' \<and> \<not> argIs args 0 ''delete'') then False
      else if argIs args 2 ''ip'' \<and> argIs args 3 ''filter'' \<and> argIn args 4 [''blocked_macs'', ''blocked_ips''] then
        if \<not> argIs args 5 ''{'' \<or> \<not> argIs args 7 ''}'' then False
        else if argIs args 4 ''blocked_macs'' then argSat elementMac args 6 else argSat validIpv4 args 6
      else if argsFrom args 2 [''ip'', ''ayad_nm'', ''vpn_blocked_ips''] then
        argIs args 5 ''{'' \<and> argIs args 7 ''}'' \<and> argSat validIpv4 args 6
      else False)"

definition validSet :: "string list \<Rightarrow> bool" where
  "validSet args \<longleftrightarrow>
     (if \<not> argIs args 0 ''add'' \<or> length args \<noteq> 10 then False
      else if argsFrom args 2 [''ip'', ''filter''] \<and> argIn args 4 [''blocked_macs'', ''blocked_ips''] then
        argsFrom args 5 [''{'', ''type''] \<and> argIn args 7 [''ether_addr'', ''ipv4_addr''] \<and> argsFrom args 8 ['';'', ''}'']
      else if argsFrom args 2 [''ip'', ''ayad_nm'', ''vpn_blocked_ips''] then
        argsFrom args 5 [''{'', ''type'', ''ipv4_addr'', '';'', ''}'']
      else False)"

definition validChain :: "string list \<Rightarrow> bool" where
  "validChain args \<longleftrightarrow>
     (if \<not> argIs args 0 ''add'' \<or> length args \<noteq> 17 then False
      else if argsFrom args 2 [''ip'', ''ayad_nm'', ''blocked_devices_prerouting''] then
        argsFrom args 5 (chainBody ''prerouting'' ''-301'')
      else if argsFrom args 2 [''inet'', ''ayad_nm'', ''accounting''] then
        argsFrom args 5 (chainBody ''forward'' ''filter'')
      else if argsFrom args 2 [''ip'', ''filter''] \<and> argIn args 4 [''ayad_nm_forward'', ''ayad_nm_input''] then
        argsFrom args 5 (chainBody (if argIs args 4 ''ayad_nm_forward'' then ''forward'' else ''input'') ''-300'')
      else False)"

definition validNft :: "AgentConfig \<Rightarrow> string list \<Rightarrow> bool" where
  "validNft cfg args \<longleftrightarrow>
     (if argIs args 0 ''-f'' then
        length args = 2 \<and> argSat (\<lambda>a. validSnapshotPath cfg a \<or> validNftablesConfigPath cfg a) args 1
      else let readPrefix = filter (\<lambda>a. a = ''-j'' \<or> a = ''-a'') args;
               readArgs = filter (\<lambda>a. a \<noteq> ''-j'' \<and> a \<noteq> ''-a'') args
      in if length readPrefix \<le> 2 \<and> argIs readArgs 0 ''list'' then list_all (noneOf '';{}'') args
         else if argIs args 0 ''flush'' \<and> length args = 5 \<and> argsFrom args 1 [''chain'', ''inet'', ''ayad_nm'', ''accounting'']
           then True
         else if argIs args 0 ''flush'' \<and> length args = 5 \<and> argsFrom args 1 [''chain'', ''ip'', ''filter''] \<and>
             argIn args 4 [''ayad_nm_forward'', ''ayad_nm_input''] then True
         else if \<not> argIn args 0 [''add'', ''insert'', ''delete'', ''replace''] then False
         else if argIs args 1 ''counter'' then
           argIs args 0 ''add'' \<and> length args = 5 \<and> argIs args 2 ''inet'' \<and> argIs args 3 ''ayad_nm'' \<and>
           argSat validAccountingCounterName args 4
         else if argIs args 1 ''table'' then
           argIs args 0 ''add'' \<and> length args = 4 \<and>
           (argsFrom args 2 [''ip'', ''ayad_nm''] \<or> argsFrom args 2 [''inet'', ''ayad_nm''])
         else if argIs args 1 ''chain'' then validChain args
         else if \<not> argIn args 1 [''set'', ''element'', ''rule''] then False
         else if argIs args 1 ''rule'' \<and> argIs args 2 ''ip'' \<and> argIn args 3 [''filter'', ''nat''] then
           validManagedNftRule cfg args
         else if argIs args 1 ''rule'' \<and> argIs args 3 ''ayad_nm'' \<and> argIs args 4 ''blocked_devices_prerouting'' then
           argIs args 0 ''add'' \<and> length args = 12 \<and> argIs args 2 ''ip'' \<and>
           argsFrom args 5 [''ip'', ''saddr'', ''@vpn_blocked_ips'', ''counter'', ''drop'', ''comment'', ''ayad_nm_vpn_blocked_ips'']
         else if argIs args 1 ''rule'' \<and> argsFrom args 2 [''inet'', ''ayad_nm'', ''accounting''] then
           validAccountingRule cfg args
         else if argIs args 1 ''set'' then validSet args
         else if argIs args 1 ''element'' then validElement args
         else False)"

text \<open>The checks every request passes first.\<close>

definition wellFormedRequest :: "string \<Rightarrow> string list \<Rightarrow> bool" where
  "wellFormedRequest command args \<longleftrightarrow>
     command \<in> set [''nft'', ''tc'', ''ip'', ''systemctl'', ''sing-box'', ''write-sing-box-config''] \<and>
     length args \<le> 64 \<and> list_all (\<lambda>a. length a \<le> 512 \<and> noneOf [CHR 0x00] a) args \<and>
     (command \<noteq> ''write-sing-box-config'' \<longrightarrow> list_all (noneOf [CHR 0x0D, CHR 0x0A]) args)"

fun stripChecks :: "string list \<Rightarrow> string list" where
  "stripChecks [] = []"
| "stripChecks (a # args) = (if a = ''-c'' then stripChecks args else a # args)"

text \<open>
  \<open>valid\<close>. An nft request that starts with \<open>-c\<close> is the request without it, checked again from
  the start; what remains of a request that passed the first checks passes them too.
\<close>

definition agent_valid :: "AgentConfig \<Rightarrow> string \<Rightarrow> string list \<Rightarrow> bool" where
  "agent_valid cfg command args \<longleftrightarrow> wellFormedRequest command args \<and>
     (if command = ''systemctl'' then validSystemctl cfg args
      else if command = ''sing-box'' then args = [''check'', ''-c'', g_vpnStage cfg]
      else if command = ''write-sing-box-config'' then
        2 \<le> length args \<and> argIs args 0 (g_vpnConfig cfg) \<and>
        list_all (\<lambda>a. length a \<le> 512 \<and> noneOf [CHR 0x0D, CHR 0x0A] a) (drop 1 args)
      else if command = ''ip'' then validIpCommand cfg args
      else if command = ''tc'' then validTc cfg args
      else validNft cfg (stripChecks args))"

definition isNftMutation :: "string list \<Rightarrow> bool" where
  "isNftMutation args \<longleftrightarrow> argIn args 0 [''add'', ''insert'', ''delete'', ''replace'', ''flush'', ''reset'', ''-f'']"

definition isBackgroundRead :: "string \<Rightarrow> string list \<Rightarrow> bool" where
  "isBackgroundRead command args \<longleftrightarrow>
     (if command = ''tc'' then argIs args 1 ''show''
      else if command = ''ip'' then argIs args 0 ''-j'' \<or> argIs args 0 ''neigh'' \<or> argsFrom args 0 [''route'', ''get'']
      else if command = ''nft'' then ''list'' \<in> set args \<and> \<not> isNftMutation args
      else False)"

end
