(* ===== verification/Executor.thy ===== *)
theory Executor
  imports Nft Agent
begin

text \<open>
  How a system command reaches the machine: \<open>LinuxSystemCommandExecutor.ts\<close> sends it to the
  agent over a socket and retries transient failures, \<open>EnforcementAgent.ts\<close> checks it and runs
  it, and \<open>AuditedSystemCommandExecutor.ts\<close> records it. The machine itself is the record
  \<open>Machine\<close> of external operations over a state \<open>'k\<close>; the fate of each request on the socket is
  \<open>w_link\<close> of the state.
\<close>

record ExecFailure =
  xf_message :: string
  xf_stderr :: "string option"

record 'k Machine =
  m_exec :: "string \<Rightarrow> string list \<Rightarrow> nat \<Rightarrow> 'k \<Rightarrow> (ExecFailure + string \<times> string) \<times> 'k"
  m_writeFile :: "string \<Rightarrow> string \<Rightarrow> 'k \<Rightarrow> (string + unit) \<times> 'k"
  m_unlink :: "string \<Rightarrow> 'k \<Rightarrow> (string + unit) \<times> 'k"
  m_agent :: AgentConfig
  m_socketPath :: "string option"

section \<open>Running a command on the machine\<close>

definition describeCommand :: "string \<Rightarrow> string list \<Rightarrow> string" where
  "describeCommand command args =
     (if command = ''write-sing-box-config'' then command else joinWith '' '' (command # args))"

definition boundedErrorOutput :: "string option \<Rightarrow> string" where
  "boundedErrorOutput value = (case value of None \<Rightarrow> [] | Some v \<Rightarrow>
     let normalized = trim v
     in if 4096 < length normalized then take 4096 normalized @ [CHR 0xE2, CHR 0x80, CHR 0xA6] else normalized)"

definition localFailureDetail :: "ExecFailure \<Rightarrow> string" where
  "localFailureDetail failure = (let stderr = boundedErrorOutput (xf_stderr failure)
     in if stderr = [] then xf_message failure else xf_message failure @ ''; stderr: '' @ stderr)"

text \<open>\<open>execute\<close> of a local executor, with its timeout in milliseconds.\<close>

definition executeLocal :: "'k Machine \<Rightarrow> nat \<Rightarrow> string \<Rightarrow> string list \<Rightarrow> ('k, string \<times> string) prog" where
  "executeLocal m timeoutMs command args = (\<lambda>k.
     let executable = (if command = ''tc'' then ''/usr/sbin/tc'' else if command = ''nft'' then ''/usr/sbin/nft'' else command);
         timeout = (if command = ''systemctl'' then max timeoutMs 20000 else timeoutMs)
     in case m_exec m executable args timeout k of
          (Inl failure, k') \<Rightarrow>
            (Inl (Error (describeCommand command args @ '' failed: '' @ localFailureDetail failure)), k')
        | (Inr out, k') \<Rightarrow> (Inr out, k'))"

definition liftFile :: "('k \<Rightarrow> (string + unit) \<times> 'k) \<Rightarrow> ('k, unit) prog" where
  "liftFile f = (\<lambda>k. case f k of (Inl e, k') \<Rightarrow> (Inl (Error e), k') | (Inr u, k') \<Rightarrow> (Inr u, k'))"

text \<open>\<open>JSON.parse\<close> must give an object; an array is one too.\<close>

definition executeVpnConfigWrite :: "'k Machine \<Rightarrow> string list \<Rightarrow> ('k, string \<times> string) prog" where
  "executeVpnConfigWrite m args =
     (let content = concat (drop 1 args); stage = g_vpnStage (m_agent m)
      in if content = [] \<or> 32000 < length content then throw (Error ''sing-box config payload is invalid'')
         else case parseJson content of
           None \<Rightarrow> throw (Error ''sing-box config payload is not valid JSON'')
         | Some parsed \<Rightarrow>
             if \<not> isObject (Some parsed) then throw (Error ''sing-box config payload must be a JSON object'')
             else
             thn (liftFile (m_writeFile m stage content))
            (thn (tryCatch
                   (bnd (executeLocal m 30000 ''sing-box'' [''check'', ''-c'', stage]) (\<lambda>_.
                    bnd (executeLocal m 30000 ''systemctl'' [''start'', g_vpnInstallUnit (m_agent m)]) (\<lambda>_. skip)))
                   (\<lambda>error. thn (tryCatch (liftFile (m_unlink m stage)) (\<lambda>_. skip)) (throw error)))
                 (ret ([], []))))"

text \<open>
  One request line at the agent: rejected, or executed. Both executors of the agent have the
  same timeout, so a background read differs only in the queue it waits in.
\<close>

definition executeRequest :: "'k Machine \<Rightarrow> string \<Rightarrow> string list \<Rightarrow> ('k, string \<times> string) prog" where
  "executeRequest m command args =
     (if \<not> agent_valid (m_agent m) command args then throw (Error ''command rejected by enforcement agent'')
      else if command = ''write-sing-box-config'' then executeVpnConfigWrite m args
      else executeLocal m 30000 command args)"

section \<open>The socket\<close>

datatype RemoteFailure = RemoteFailure (rf_code: "socket_code option") (rf_message: string)

definition codeText :: "socket_code \<Rightarrow> string" where
  "codeText c = (case c of ENOENT \<Rightarrow> ''ENOENT'' | ECONNREFUSED \<Rightarrow> ''ECONNREFUSED'' | ECONNRESET \<Rightarrow> ''ECONNRESET''
     | EPIPE \<Rightarrow> ''EPIPE'' | EACCES \<Rightarrow> ''EACCES'')"

text \<open>
  One attempt. The command runs when the request is delivered, also when its reply is lost.
\<close>

definition executeRemoteOnce ::
  "'k Machine \<Rightarrow> string \<Rightarrow> string list \<Rightarrow> 'k world \<Rightarrow> (RemoteFailure + string \<times> string) \<times> 'k world" where
  "executeRemoteOnce m command args w =
     (let fate = w_link w (w_attempt w);
          w1 = w\<lparr>w_attempt := Suc (w_attempt w)\<rparr>;
          run = executeRequest m command args (w_kernel w);
          done = w1\<lparr>w_kernel := snd run\<rparr>;
          failed = (\<lambda>reason. RemoteFailure None (describeCommand command args @ '' failed: '' @ reason))
      in case fate of
           Delivered \<Rightarrow> (case fst run of Inl e \<Rightarrow> (Inl (failed (errorMessage e)), done) | Inr out \<Rightarrow> (Inr out, done))
         | Busy \<Rightarrow> (Inl (failed ''background enforcement queue overloaded''), w1)
         | Refused c \<Rightarrow> (Inl (RemoteFailure (Some c) (''connect '' @ codeText c)), w1)
         | Lost c \<Rightarrow> (Inl (RemoteFailure (Some c) (''read '' @ codeText c)), done)
         | Closed \<Rightarrow> (Inl (RemoteFailure None ''enforcement socket closed before a response was received''), done)
         | TimedOut \<Rightarrow> (Inl (RemoteFailure None ''enforcement command timed out after 30000ms''), done))"

definition isTransientSocketError :: "RemoteFailure \<Rightarrow> bool" where
  "isTransientSocketError f \<longleftrightarrow>
     rf_code f \<in> {Some ENOENT, Some ECONNREFUSED, Some ECONNRESET, Some EPIPE} \<or>
     hasSubstr ''enforcement socket closed before a response'' (toLowerCase (rf_message f))"

fun remoteAttempts :: "'k Machine \<Rightarrow> string \<Rightarrow> string list \<Rightarrow> nat \<Rightarrow> ('k world, string \<times> string) prog" where
  "remoteAttempts m command args 0 = throw (Error ''failed to execute enforcement command'')"
| "remoteAttempts m command args (Suc left) = (\<lambda>w.
     case executeRemoteOnce m command args w of
       (Inr out, w') \<Rightarrow> (Inr out, w')
     | (Inl f, w') \<Rightarrow>
         if \<not> isTransientSocketError f \<or> left = 0 then (Inl (Error (rf_message f)), w')
         else remoteAttempts m command args left w')"

definition REMOTE_CONNECT_RETRIES :: nat where
  "REMOTE_CONNECT_RETRIES = 20"

definition LinuxExecutor_execute :: "'k Machine \<Rightarrow> string \<Rightarrow> string list \<Rightarrow> ('k world, string \<times> string) prog" where
  "LinuxExecutor_execute m command args =
     (if \<not> truthy (m_socketPath m)
        then throw (Error ''ENFORCEMENT_SOCKET_PATH is required outside the enforcement agent'')
      else remoteAttempts m command args REMOTE_CONNECT_RETRIES)"

section \<open>The audited executor\<close>

definition isNftMutationCommand :: "string list \<Rightarrow> bool" where
  "isNftMutationCommand args \<longleftrightarrow> argIn args 0 [''add'', ''insert'', ''delete'', ''replace'', ''flush'', ''reset'']"

definition AuditedExecutor_execute ::
  "(string \<Rightarrow> string list \<Rightarrow> ('s, string \<times> string) prog) \<Rightarrow> (AuditData \<Rightarrow> ('s, unit) prog) \<Rightarrow> string \<Rightarrow>
   string \<Rightarrow> string list \<Rightarrow> ('s, string \<times> string) prog" where
  "AuditedExecutor_execute inner auditTo actor command args =
     (let details = [(''command'', command), (''args'', jsonStrings args), (''actor'', actor)];
          entry = (\<lambda>action extra. \<lparr>a_action = action, a_mac = None, a_deviceId = None, a_actor = Some actor,
                     a_details = details @ extra\<rparr>)
      in thn (auditTo (entry ''enforcement-command-before'' []))
        (tryCatch
          (thn (whenP (command = ''nft'' \<and> \<not> argIs args 0 ''-c'' \<and> isNftMutationCommand args)
                 (bnd (inner ''nft'' (''-c'' # args)) (\<lambda>_. skip)))
          (bnd (inner command args) (\<lambda>(stdout, stderr).
           thn (auditTo (entry ''enforcement-command-after'' [(''result'', ''success''),
                  (''stdout'', take 2000 stdout), (''stderr'', take 2000 stderr)]))
             (ret (stdout, stderr)))))
          (\<lambda>error.
           thn (auditTo (entry ''enforcement-command-after''
                  [(''result'', ''failure''), (''error'', errorMessage error)]))
             (throw error))))"

definition nftEnvOf :: "'k Machine \<Rightarrow> nat \<Rightarrow> nat \<Rightarrow> string \<Rightarrow> 'k NftEnv" where
  "nftEnvOf m sshPort dashboardPort uplink = \<lparr>n_execute = LinuxExecutor_execute m ''nft'',
     n_audit = Some PrismaOperations_audit, n_sshPort = sshPort, n_dashboardPort = dashboardPort, n_uplink = uplink\<rparr>"

section \<open>Error texts\<close>

lemma startsWith_sep: "startsWith p (a @ c # b) \<Longrightarrow> c \<notin> set p \<Longrightarrow> startsWith p a"
  by (induction p a rule: startsWith.induct) auto

lemma hasSubstr_sep:
  "hasSubstr p (a @ c # b) \<Longrightarrow> c \<notin> set p \<Longrightarrow> p \<noteq> [] \<Longrightarrow> hasSubstr p a \<or> hasSubstr p b"
proof (induction a)
  case Nil
  then show ?case by (cases p) auto
next
  case (Cons x a)
  then show ?case using startsWith_sep [of p "x # a" c b] by auto
qed

lemma startsWith_set: "startsWith p s \<Longrightarrow> set p \<subseteq> set s"
  by (induction p s rule: startsWith.induct) auto

lemma hasSubstr_set: "hasSubstr p s \<Longrightarrow> set p \<subseteq> set s"
proof (induction s)
  case (Cons c s)
  then show ?case using startsWith_set [of p "c # s"] by auto
qed simp

text \<open>The failed command is named before the reason; only the reason can be a harmless one.\<close>

definition harmless :: "(js_error \<Rightarrow> bool) \<Rightarrow> bool" where
  "harmless h \<longleftrightarrow> h = isAlreadyExists \<or> h = isMissingElement"

lemma wrapped_pattern:
  assumes "hasSubstr p (d @ '' failed: '' @ x)" "c \<in> set p" "c \<notin> set (d @ '' failed'')"
    "CHR '':'' \<notin> set p" "p \<noteq> []" "hd p \<noteq> CHR '' ''"
  shows "hasSubstr p x"
proof -
  have "hasSubstr p ((d @ '' failed'') @ CHR '':'' # ('' '' @ x))" using assms(1) by simp
  then have "hasSubstr p (d @ '' failed'') \<or> hasSubstr p ('' '' @ x)"
    using assms(4,5) by (rule hasSubstr_sep)
  moreover have "\<not> hasSubstr p (d @ '' failed'')" using hasSubstr_set assms(2,3) by blast
  ultimately show ?thesis using assms(5,6) by (cases p) auto
qed

lemma wrapped_harmless:
  assumes "harmless h" "CHR ''x'' \<notin> set d" "CHR ''u'' \<notin> set d" "h (Error (d @ '' failed: '' @ x))"
  shows "h (Error x)"
proof -
  have x: "CHR ''x'' \<notin> set (d @ '' failed'')" and u: "CHR ''u'' \<notin> set (d @ '' failed'')"
    using assms(2,3) by simp_all
  have a: "hasSubstr ''already exists'' (d @ '' failed: '' @ x) \<Longrightarrow> hasSubstr ''already exists'' x"
    by (erule wrapped_pattern [OF _ _ x]; simp)
  have b: "hasSubstr ''File exists'' (d @ '' failed: '' @ x) \<Longrightarrow> hasSubstr ''File exists'' x"
    by (erule wrapped_pattern [OF _ _ x]; simp)
  have c: "hasSubstr ''element does not exist'' (d @ '' failed: '' @ x) \<Longrightarrow> hasSubstr ''element does not exist'' x"
    by (erule wrapped_pattern [OF _ _ x]; simp)
  have e: "hasSubstr ''No such file or directory'' (d @ '' failed: '' @ x) \<Longrightarrow>
      hasSubstr ''No such file or directory'' x"
    by (erule wrapped_pattern [OF _ _ u]; simp)
  from assms(1) consider "h = isAlreadyExists" | "h = isMissingElement" unfolding harmless_def by blast
  then show ?thesis
  proof cases
    case 1
    show ?thesis using assms(4) a b unfolding 1 isAlreadyExists_def Let_def errorMessage.simps by blast
  next
    case 2
    show ?thesis using assms(4) c e unfolding 2 isMissingElement_def Let_def errorMessage.simps by blast
  qed
qed

lemma harmless_message: "harmless h \<Longrightarrow> h (Error (errorMessage e)) = h e"
  by (auto simp: harmless_def isAlreadyExists_def isMissingElement_def)

lemma socket_messages:
  assumes "harmless h"
  shows "\<not> h (Error (''connect '' @ codeText c))" "\<not> h (Error (''read '' @ codeText c))"
    "\<not> h (Error ''enforcement socket closed before a response was received'')"
    "\<not> h (Error ''enforcement command timed out after 30000ms'')"
    "\<not> h (Error ''background enforcement queue overloaded'')"
    "\<not> h (Error ''command rejected by enforcement agent'')"
    "\<not> h (Error ''failed to execute enforcement command'')"
    "\<not> h (Error ''ENFORCEMENT_SOCKET_PATH is required outside the enforcement agent'')"
    "\<not> h (Error ''Can't reach database server'')"
  using assms by (cases c; auto simp: harmless_def isAlreadyExists_def isMissingElement_def codeText_def Let_def)+

section \<open>What one command achieves over the socket\<close>

text \<open>
  \<open>R\<close> relates the machine before and after any number of runs of the command; \<open>G\<close> holds after a
  run that succeeded, \<open>H\<close> after one that failed harmlessly; \<open>L\<close> says what the output tells of
  the machine.
\<close>

definition outcome :: "(js_error \<Rightarrow> bool) \<Rightarrow> ('k \<Rightarrow> bool) \<Rightarrow> ('k \<Rightarrow> bool) \<Rightarrow> js_error + 'a \<Rightarrow> 'k \<Rightarrow> bool" where
  "outcome h G H r k \<longleftrightarrow> (case r of Inl e \<Rightarrow> h e \<longrightarrow> H k | Inr _ \<Rightarrow> G k)"

lemma outcome_same [simp]: "outcome h G G r k \<longleftrightarrow> (succeeded h r \<longrightarrow> G k)"
  by (cases r) (simp_all add: outcome_def succeeded_def)

lemma remoteAttempts_spec:
  assumes d: "harmless h" "CHR ''x'' \<notin> set (describeCommand c args)" "CHR ''u'' \<notin> set (describeCommand c args)"
    and run: "\<And>k. spec (executeRequest m c args) k (\<lambda>r k'. R k k' \<and> outcome h G H r k' \<and>
        (\<forall>out. r = Inr out \<longrightarrow> L k out))"
    and R: "\<And>k. R k k" "\<And>k k' k''. R k k' \<Longrightarrow> R k' k'' \<Longrightarrow> R k k''"
  shows "spec (remoteAttempts m c args n) w (\<lambda>r w'. R (w_kernel w) (w_kernel w') \<and>
     outcome h G H r (w_kernel w') \<and> (\<forall>out. r = Inr out \<longrightarrow> (\<exists>k. R (w_kernel w) k \<and> L k out)))"
proof (induction n arbitrary: w)
  case 0
  show ?case by (simp add: R outcome_def socket_messages [OF d(1)])
next
  case (Suc n)
  have once: "R (w_kernel w) (w_kernel w') \<and>
      (case r of Inl f \<Rightarrow> h (Error (rf_message f)) \<longrightarrow> H (w_kernel w') | Inr out \<Rightarrow> G (w_kernel w') \<and> L (w_kernel w) out)"
    if "executeRemoteOnce m c args w = (r, w')" for r w'
  proof -
    obtain r1 k1 where run1: "executeRequest m c args (w_kernel w) = (r1, k1)" by fastforce
    note k1 = specD [OF run run1]
    have failed: "h (Error (describeCommand c args @ '' failed: '' @ errorMessage e)) \<Longrightarrow> h e" for e
      using wrapped_harmless [OF d] harmless_message [OF d(1)] by blast
    have busy: "\<not> h (Error (describeCommand c args @ '' failed: '' @ ''background enforcement queue overloaded''))"
      using wrapped_harmless [OF d] socket_messages(5) [OF d(1)] by blast
    show ?thesis
    proof (cases "w_link w (w_attempt w)")
      case Delivered
      with that run1 k1 failed show ?thesis
        by (cases r1) (auto simp: executeRemoteOnce_def Let_def outcome_def)
    qed (use that run1 k1 busy R(1) socket_messages [OF d(1)] in
        \<open>auto simp: executeRemoteOnce_def Let_def simp del: append_Cons append.simps\<close>)
  qed
  show ?case
  proof (cases "executeRemoteOnce m c args w")
    case (Pair r1 w1)
    note one = once [OF Pair]
    show ?thesis
    proof (cases r1)
      case (Inr out)
      with one Pair R(1) show ?thesis by (auto simp: spec_def outcome_def)
    next
      case (Inl f)
      show ?thesis
      proof (cases "\<not> isTransientSocketError f \<or> n = 0")
        case True
        with one Pair Inl R(1) show ?thesis by (auto simp: spec_def outcome_def)
      next
        case False
        with Pair Inl have step: "remoteAttempts m c args (Suc n) w = remoteAttempts m c args n w1" by simp
        obtain r2 w2 where run2: "remoteAttempts m c args n w1 = (r2, w2)" by fastforce
        note two = specD [OF Suc.IH [of w1] run2]
        from one have one': "R (w_kernel w) (w_kernel w1)" ..
        have "R (w_kernel w) (w_kernel w2)" using R(2) [OF one'] two by blast
        moreover have "\<exists>k. R (w_kernel w) k \<and> L k out" if "r2 = Inr out" for out
          using two that R(2) [OF one'] by blast
        ultimately show ?thesis using two unfolding spec_def step run2 by simp
      qed
    qed
  qed
qed

section \<open>The documented behaviour of nft\<close>

text \<open>
  What the model relies on of the \<open>nft\<close> tool: a dry run (\<open>-c\<close>) and the commands on other
  objects leave the elements of the block sets alone; adding and deleting an element is atomic,
  and an error that names an existing or a missing element is true; a set is listed as text.
\<close>

definition nftTool :: "'k Machine \<Rightarrow> string list \<Rightarrow> 'k \<Rightarrow> (ExecFailure + string \<times> string) \<times> 'k" where
  "nftTool m args = m_exec m ''/usr/sbin/nft'' args 30000"

definition says :: "(js_error \<Rightarrow> bool) \<Rightarrow> ExecFailure + 'a \<Rightarrow> bool" where
  "says h r \<longleftrightarrow> (case r of Inl f \<Rightarrow> h (Error (localFailureDetail f)) | Inr _ \<Rightarrow> True)"

definition elementText :: "string \<Rightarrow> string \<Rightarrow> bool" where
  "elementText n v \<longleftrightarrow> (if n = ''blocked_macs'' then MAC_REGEX v \<and> toLowerCase v = v else validIpv4 v)"

lemma executeRequest_nft:
  "executeRequest m ''nft'' args k =
     (if agent_valid (m_agent m) ''nft'' args
      then apfst (map_sum (\<lambda>f. Error (describeCommand ''nft'' args @ '' failed: '' @ localFailureDetail f)) id) (nftTool m args k)
      else (Inl (Error ''command rejected by enforcement agent''), k))"
  by (simp add: executeRequest_def executeLocal_def nftTool_def Let_def split: prod.split sum.split)

lemma describe_chars:
  assumes "canonicalElement n v" "n \<in> blockSets" "op = ''add'' \<or> op = ''delete''"
  shows "CHR ''x'' \<notin> set (describeCommand ''nft'' (elementArgs op ''filter'' n v))"
    "CHR ''u'' \<notin> set (describeCommand ''nft'' (elementArgs op ''filter'' n v))"
    "CHR ''x'' \<notin> set (describeCommand ''nft'' (''-c'' # elementArgs op ''filter'' n v))"
    "CHR ''u'' \<notin> set (describeCommand ''nft'' (''-c'' # elementArgs op ''filter'' n v))"
  using assms canonical_chars [OF assms(1)]
  by (auto simp: describeCommand_def elementArgs_def blockSets_def isHex_def isHexLower_def isDigit_def)

lemma rejected_element:
  assumes "canonicalElement n v" "n \<in> blockSets" "\<not> elementText n v" "op = ''add'' \<or> op = ''delete''"
  shows "\<not> agent_valid cfg ''nft'' (elementArgs op ''filter'' n v)"
    "\<not> agent_valid cfg ''nft'' (''-c'' # elementArgs op ''filter'' n v)"
proof -
  have "n = ''blocked_ips''" "\<not> validIpv4 v"
    using assms by (auto simp: elementText_def canonicalElement_def blockSets_def split: if_splits)
  then show "\<not> agent_valid cfg ''nft'' (elementArgs op ''filter'' n v)"
    "\<not> agent_valid cfg ''nft'' (''-c'' # elementArgs op ''filter'' n v)"
    using assms(4)
    by (auto simp: agent_valid_def elementArgs_def validNft_def argIs_def argIn_def arg_def argSat_def
        validElement_def argsFrom_def)
qed

lemma remoteAttempts_rel:
  assumes "\<And>k. R k (snd (executeRequest m c args k))" "\<And>k. R k k" "\<And>k k' k''. R k k' \<Longrightarrow> R k' k'' \<Longrightarrow> R k k''"
  shows "R (w_kernel w) (w_kernel (snd (remoteAttempts m c args n w)))"
proof (induction n arbitrary: w)
  case 0
  show ?case by (simp add: assms(2))
next
  case (Suc n)
  have one: "R (w_kernel w) (w_kernel (snd (executeRemoteOnce m c args w)))"
    using assms(1,2) by (auto simp: executeRemoteOnce_def Let_def split: link.split sum.split)
  obtain r w1 where once: "executeRemoteOnce m c args w = (r, w1)" by fastforce
  from one once have "R (w_kernel w) (w_kernel w1)" by simp
  with Suc.IH [of w1] assms(3) show ?case by (auto simp: once split: sum.split)
qed

lemma remoteAttempts_outside: "outside (snd (remoteAttempts m c args n w)) = outside w"
proof (induction n arbitrary: w)
  case (Suc n)
  obtain r w1 where once: "executeRemoteOnce m c args w = (r, w1)" by fastforce
  then have "outside w1 = outside w"
    by (auto simp: executeRemoteOnce_def outside_def domainDevices_def findPolicy_def Let_def fun_eq_iff
        split: link.splits sum.splits)
  then show ?case using Suc.IH [of w1] by (auto simp: once split: sum.split)
qed simp

lemma execute_frame: "frame outside (LinuxExecutor_execute m c args)"
  unfolding LinuxExecutor_execute_def by (intro prog_rules) (simp add: frame_def remoteAttempts_outside)

lemma execute_rel:
  assumes "\<And>k. R k (snd (executeRequest m c args k))" "\<And>k. R k k" "\<And>k k' k''. R k k' \<Longrightarrow> R k' k'' \<Longrightarrow> R k k''"
  shows "R (w_kernel w) (w_kernel (snd (LinuxExecutor_execute m c args w)))"
  unfolding LinuxExecutor_execute_def using remoteAttempts_rel [of R, OF assms] assms(2) by simp

lemma execute_spec:
  assumes "harmless h" "CHR ''x'' \<notin> set (describeCommand c args)" "CHR ''u'' \<notin> set (describeCommand c args)"
    and "\<And>k. spec (executeRequest m c args) k (\<lambda>r k'. R k k' \<and> outcome h G H r k' \<and>
        (\<forall>out. r = Inr out \<longrightarrow> L k out))"
    and "\<And>k. R k k" "\<And>k k' k''. R k k' \<Longrightarrow> R k' k'' \<Longrightarrow> R k k''"
  shows "spec (LinuxExecutor_execute m c args) w (\<lambda>r w'. R (w_kernel w) (w_kernel w') \<and>
     outcome h G H r (w_kernel w') \<and> (\<forall>out. r = Inr out \<longrightarrow> (\<exists>k. R (w_kernel w) k \<and> L k out)))"
  unfolding LinuxExecutor_execute_def
  by (rule spec_if) (simp add: assms(5) outcome_def socket_messages [OF assms(1)],
      rule remoteAttempts_spec [OF assms])

lemma request_spec:
  assumes h: "harmless h" "CHR ''x'' \<notin> set (describeCommand ''nft'' args)" "CHR ''u'' \<notin> set (describeCommand ''nft'' args)"
    and run: "agent_valid (m_agent m) ''nft'' args \<Longrightarrow> (\<And>r k'. nftTool m args k = (r, k') \<Longrightarrow> R k k' \<and>
        (case r of Inl f \<Rightarrow> h (Error (localFailureDetail f)) \<longrightarrow> H k' | Inr _ \<Rightarrow> G k') \<and> (\<forall>out. r = Inr out \<longrightarrow> L k out))"
    and R: "R k k"
  shows "spec (executeRequest m ''nft'' args) k (\<lambda>r k'. R k k' \<and> outcome h G H r k' \<and>
        (\<forall>out. r = Inr out \<longrightarrow> L k out))"
proof (cases "agent_valid (m_agent m) ''nft'' args")
  case True
  obtain r0 k' where t: "nftTool m args k = (r0, k')" by fastforce
  have "h (Error (describeCommand ''nft'' args @ '' failed: '' @ localFailureDetail f)) \<Longrightarrow>
      h (Error (localFailureDetail f))" for f
    by (rule wrapped_harmless [OF h])
  with run [OF True t] show ?thesis
    by (cases r0) (auto simp: spec_def executeRequest_nft True t outcome_def outcome_def)
next
  case False
  then show ?thesis by (simp add: spec_def executeRequest_nft outcome_def socket_messages [OF h(1)] R)
qed

locale nft_tool =
  fixes m :: "'k Machine"
    and elems :: "string \<Rightarrow> 'k \<Rightarrow> string set"
  assumes tool_neutral: "neutral args \<Longrightarrow> n \<in> blockSets \<Longrightarrow> elems n (snd (nftTool m args k)) = elems n k"
    and tool_other: "op = ''add'' \<or> op = ''delete'' \<Longrightarrow> n \<in> blockSets \<Longrightarrow> n' \<in> blockSets \<Longrightarrow> n' \<noteq> n \<Longrightarrow>
      elems n' (snd (nftTool m (elementArgs op ''filter'' n v) k)) = elems n' k"
    and tool_add: "n \<in> blockSets \<Longrightarrow> elementText n v \<Longrightarrow>
      nftTool m (elementArgs ''add'' ''filter'' n v) k = (r, k') \<Longrightarrow>
      elems n k \<subseteq> elems n k' \<and> elems n k' \<subseteq> insert v (elems n k) \<and> (says isAlreadyExists r \<longrightarrow> v \<in> elems n k')"
    and tool_delete: "n \<in> blockSets \<Longrightarrow> elementText n v \<Longrightarrow>
      nftTool m (elementArgs ''delete'' ''filter'' n v) k = (r, k') \<Longrightarrow>
      elems n k - {v} \<subseteq> elems n k' \<and> elems n k' \<subseteq> elems n k \<and> (says isMissingElement r \<longrightarrow> v \<notin> elems n k')"
    and tool_check_add: "n \<in> blockSets \<Longrightarrow> elementText n v \<Longrightarrow>
      nftTool m (''-c'' # elementArgs ''add'' ''filter'' n v) k = (Inl f, k') \<Longrightarrow>
      isAlreadyExists (Error (localFailureDetail f)) \<Longrightarrow> v \<in> elems n k"
    and tool_check_delete: "n \<in> blockSets \<Longrightarrow> elementText n v \<Longrightarrow>
      nftTool m (''-c'' # elementArgs ''delete'' ''filter'' n v) k = (Inl f, k') \<Longrightarrow>
      isMissingElement (Error (localFailureDetail f)) \<Longrightarrow> v \<notin> elems n k"
    and tool_list: "n \<in> blockSets \<Longrightarrow> nftTool m (listSetArgs ''filter'' n) k = (Inr (out, err), k') \<Longrightarrow>
      \<exists>xs. setListing out xs \<and> set xs = elems n k \<and> (\<forall>x \<in> set xs. elementText n x)"

begin

lemma request_neutral:
  assumes "neutral args" "n \<in> blockSets"
  shows "elems n (snd (executeRequest m ''nft'' args k)) = elems n k"
  using tool_neutral [OF assms] by (simp add: executeRequest_nft)

lemma execute_neutral:
  assumes "neutral args" "n \<in> blockSets"
  shows "frame (\<lambda>w. elems n (w_kernel w)) (LinuxExecutor_execute m ''nft'' args)"
  unfolding frame_def
  by (intro allI, rule execute_rel [where R = "\<lambda>k k'. elems n k' = elems n k"])
    (simp_all only: request_neutral [OF assms])

lemma execute_other:
  assumes "op = ''add'' \<or> op = ''delete''" "n \<in> blockSets" "n' \<in> blockSets" "n' \<noteq> n"
  shows "frame (\<lambda>w. elems n' (w_kernel w)) (LinuxExecutor_execute m ''nft'' (elementArgs op ''filter'' n v))"
  unfolding frame_def
  by (intro allI, rule execute_rel [where R = "\<lambda>k k'. elems n' k' = elems n' k"])
    (simp_all add: executeRequest_nft tool_other [OF assms])

lemma valid_elementText:
  assumes "canonicalElement n v" "n \<in> blockSets" "op = ''add'' \<or> op = ''delete''"
    and "agent_valid cfg ''nft'' (elementArgs op ''filter'' n v) \<or> agent_valid cfg ''nft'' (''-c'' # elementArgs op ''filter'' n v)"
  shows "elementText n v"
  using rejected_element [OF assms(1,2) _ assms(3)] assms(4) by blast

lemma harmless_both [simp]: "harmless isAlreadyExists" "harmless isMissingElement"
  by (simp_all add: harmless_def)

lemma execute_add:
  assumes "canonicalElement n v" "n \<in> blockSets"
  shows "spec (LinuxExecutor_execute m ''nft'' (elementArgs ''add'' ''filter'' n v)) w (\<lambda>r w'.
     (elems n (w_kernel w) \<subseteq> elems n (w_kernel w') \<and> elems n (w_kernel w') \<subseteq> insert v (elems n (w_kernel w))) \<and>
     (succeeded isAlreadyExists r \<longrightarrow> v \<in> elems n (w_kernel w')))"
proof -
  note chars = describe_chars [OF assms, where op = "''add''"]
  show ?thesis
    apply (rule spec_mono, rule execute_spec [where h = isAlreadyExists and L = "\<lambda>_ _. True" and
          R = "\<lambda>k k'. elems n k \<subseteq> elems n k' \<and> elems n k' \<subseteq> insert v (elems n k)" and G = "\<lambda>k. v \<in> elems n k" and H = "\<lambda>k. v \<in> elems n k"])
          apply (simp_all add: chars)
      apply (rule spec_mono, rule request_spec [where h = isAlreadyExists and L = "\<lambda>_ _. True" and
          R = "\<lambda>k k'. elems n k \<subseteq> elems n k' \<and> elems n k' \<subseteq> insert v (elems n k)" and G = "\<lambda>k. v \<in> elems n k" and H = "\<lambda>k. v \<in> elems n k"])
           apply (simp_all add: chars)
      apply (use tool_add [OF assms(2) valid_elementText [OF assms]] in \<open>fastforce simp: says_def split: sum.split\<close>)
     apply blast+
    done
qed

lemma execute_delete:
  assumes "canonicalElement n v" "n \<in> blockSets"
  shows "spec (LinuxExecutor_execute m ''nft'' (elementArgs ''delete'' ''filter'' n v)) w (\<lambda>r w'.
     (elems n (w_kernel w) - {v} \<subseteq> elems n (w_kernel w') \<and> elems n (w_kernel w') \<subseteq> elems n (w_kernel w)) \<and>
     (succeeded isMissingElement r \<longrightarrow> v \<notin> elems n (w_kernel w')))"
proof -
  note chars = describe_chars [OF assms, where op = "''delete''"]
  show ?thesis
    apply (rule spec_mono, rule execute_spec [where h = isMissingElement and L = "\<lambda>_ _. True" and
          R = "\<lambda>k k'. elems n k - {v} \<subseteq> elems n k' \<and> elems n k' \<subseteq> elems n k" and G = "\<lambda>k. v \<notin> elems n k" and H = "\<lambda>k. v \<notin> elems n k"])
          apply (simp_all add: chars)
      apply (rule spec_mono, rule request_spec [where h = isMissingElement and L = "\<lambda>_ _. True" and
          R = "\<lambda>k k'. elems n k - {v} \<subseteq> elems n k' \<and> elems n k' \<subseteq> elems n k" and G = "\<lambda>k. v \<notin> elems n k" and H = "\<lambda>k. v \<notin> elems n k"])
           apply (simp_all add: chars)
      apply (use tool_delete [OF assms(2) valid_elementText [OF assms]] in \<open>fastforce simp: says_def split: sum.split\<close>)
     apply blast+
    done
qed

lemma check_neutral: "neutral (''-c'' # elementArgs op t n v)"
  by (simp add: neutral_def elementArgs_def)

lemma execute_check:
  assumes "canonicalElement n v" "n \<in> blockSets" "op = ''add'' \<or> op = ''delete''" "harmless h"
    and tool: "\<And>k f k'. elementText n v \<Longrightarrow> nftTool m (''-c'' # elementArgs op ''filter'' n v) k = (Inl f, k') \<Longrightarrow>
      h (Error (localFailureDetail f)) \<Longrightarrow> P (elems n k)"
    and run: "LinuxExecutor_execute m ''nft'' (''-c'' # elementArgs op ''filter'' n v) w = (Inl e, w')" and h: "h e"
  shows "P (elems n (w_kernel w))"
proof -
  let ?args = "''-c'' # elementArgs op ''filter'' n v"
  note chars = describe_chars [OF assms(1-3)]
  have req: "spec (executeRequest m ''nft'' ?args) k (\<lambda>r k'. elems n k' = elems n k \<and>
      outcome h (\<lambda>_. True) (\<lambda>k. P (elems n k)) r k' \<and> (\<forall>out. r = Inr out \<longrightarrow> True))" for k
  proof (rule request_spec [where R = "\<lambda>k k'. elems n k' = elems n k" and L = "\<lambda>_ _. True"])
    fix r k' assume v: "agent_valid (m_agent m) ''nft'' ?args" and t: "nftTool m ?args k = (r, k')"
    have "elementText n v" using valid_elementText [OF assms(1-3)] v by blast
    moreover have "elems n k' = elems n k" using tool_neutral [OF check_neutral assms(2), of op "''filter''" n v k] t by simp
    ultimately show "elems n k' = elems n k \<and> (case r of Inl f \<Rightarrow> h (Error (localFailureDetail f)) \<longrightarrow> P (elems n k')
        | Inr _ \<Rightarrow> True) \<and> (\<forall>out. r = Inr out \<longrightarrow> True)"
      using tool t by (auto split: sum.split)
  qed (simp_all add: assms(4) chars)
  have "spec (LinuxExecutor_execute m ''nft'' ?args) w (\<lambda>r w'. elems n (w_kernel w') = elems n (w_kernel w) \<and>
      outcome h (\<lambda>_. True) (\<lambda>k. P (elems n k)) r (w_kernel w') \<and>
      (\<forall>out. r = Inr out \<longrightarrow> (\<exists>k. elems n k = elems n (w_kernel w) \<and> True)))"
    by (rule execute_spec [OF assms(4) chars(3,4) req]) simp_all
  from specD [OF this run] h show ?thesis unfolding outcome_def sum.case by metis
qed

lemma execute_list:
  assumes "n \<in> blockSets" "LinuxExecutor_execute m ''nft'' (listSetArgs ''filter'' n) w = (Inr (out, err), w')"
  shows "\<exists>xs. setListing out xs \<and> set xs = elems n (w_kernel w) \<and> (\<forall>x \<in> set xs. elementText n x)"
proof -
  let ?args = "listSetArgs ''filter'' n"
  let ?L = "\<lambda>k out. \<exists>xs. setListing (fst out) xs \<and> set xs = elems n k \<and> (\<forall>x \<in> set xs. elementText n x)"
  have chars: "CHR ''x'' \<notin> set (describeCommand ''nft'' ?args)" "CHR ''u'' \<notin> set (describeCommand ''nft'' ?args)"
    using assms(1) by (auto simp: describeCommand_def listSetArgs_def blockSets_def)
  have req: "spec (executeRequest m ''nft'' ?args) k (\<lambda>r k'. elems n k' = elems n k \<and>
      outcome isAlreadyExists (\<lambda>_. True) (\<lambda>_. True) r k' \<and> (\<forall>out. r = Inr out \<longrightarrow> ?L k out))" for k
  proof (rule request_spec [where R = "\<lambda>k k'. elems n k' = elems n k" and L = ?L])
    fix r k' assume t: "nftTool m ?args k = (r, k')"
    have "elems n k' = elems n k" using tool_neutral [OF _ assms(1), of ?args k] t by (simp add: neutral_def listSetArgs_def)
    moreover have "?L k out" if "r = Inr out" for out
      using tool_list [OF assms(1), of k "fst out" "snd out" k'] t that by simp
    ultimately show "elems n k' = elems n k \<and> (case r of Inl f \<Rightarrow> isAlreadyExists (Error (localFailureDetail f)) \<longrightarrow> True
        | Inr _ \<Rightarrow> True) \<and> (\<forall>out. r = Inr out \<longrightarrow> ?L k out)" by (auto split: sum.split)
  qed (simp_all add: chars)
  have "spec (LinuxExecutor_execute m ''nft'' ?args) w (\<lambda>r w'. elems n (w_kernel w') = elems n (w_kernel w) \<and>
      outcome isAlreadyExists (\<lambda>_. True) (\<lambda>_. True) r (w_kernel w') \<and>
      (\<forall>out. r = Inr out \<longrightarrow> (\<exists>k. elems n k = elems n (w_kernel w) \<and> ?L k out)))"
    by (rule execute_spec [OF harmless_both(1) chars req]) simp_all
  from specD [OF this assms(2)] show ?thesis by auto
qed

end

lemma digit_trim_id: "list_all isDigit s \<Longrightarrow> trim s = s"
proof (rule trim_id, cases "s = []")
  case False
  assume "list_all isDigit s"
  with False have "isDigit (hd s)" "isDigit (last s)" by (auto simp: list_all_iff)
  then show "s = [] \<or> \<not> isSpace (hd s) \<and> \<not> isSpace (last s)"
    by (auto simp: isDigit_def isSpace_def)
qed simp

lemma digit_facts: "isDigit c \<Longrightarrow> lowerChar c = c \<and> c \<noteq> CHR ''x'' \<and> c \<noteq> CHR ''o'' \<and> c \<noteq> CHR ''b'' \<and>
    c \<noteq> CHR ''+'' \<and> c \<noteq> CHR ''-''"
  by (auto simp: isDigit_def lowerChar_def)

lemma jsNumber_digits:
  assumes "s \<noteq> []" "list_all isDigit s"
  shows "jsNumber s = Some (of_nat (readNat s))"
proof -
  have t: "trim s = s" by (rule digit_trim_id [OF assms(2)])
  obtain c cs where s: "s = c # cs" using assms(1) by (cases s) auto
  have lit: "decimalLiteral s = Some (of_nat (readNat s))"
  proof -
    have tw: "takeWhile isDigit s = s" and dw: "dropWhile isDigit s = []"
      using assms(2) by (auto simp: list_all_iff)
    show ?thesis using assms(1) unfolding decimalLiteral_def Let_def tw dw by simp
  qed
  have sign: "takeSign s = (1, s)" using assms(2) digit_facts [of c] by (simp add: s)
  have pre: "toLowerCase (take 2 s) \<notin> {''0x'', ''0o'', ''0b''}"
    using assms(2) digit_facts by (cases cs) (auto simp: s toLowerCase_def numeral_2_eq_2)
  show ?thesis using assms(1) pre by (simp add: jsNumber_def t sign lit Let_def)
qed

lemma validIpv4_canonical:
  assumes "validIpv4 x"
  shows "nft_validateIp x = Inr x"
proof -
  let ?ps = "splitOn (CHR ''.'') x"
  have parts: "length ?ps = 4" "\<forall>p \<in> set ?ps. p \<noteq> [] \<and> length p \<le> 3 \<and> list_all isDigit p \<and> readNat p \<le> 255"
    using assms by (auto simp: validIpv4_def canonicalNumber_def Let_def list_all_iff isDigit_def)
  have re: "IPV4_RE x" using parts by (auto simp: IPV4_RE_def shortDigits_def Let_def list_all_iff)
  have "\<forall>c \<in> set x. isDigit c \<or> c = CHR ''.''"
    using set_joinWith [of "''.''" ?ps] parts(2) unfolding joinWith_splitOn by (auto simp: list_all_iff)
  then have "\<forall>c \<in> set x. \<not> isSpace c" by (auto simp: isDigit_def isSpace_def)
  then have t: "trim x = x" by (intro trim_id) auto
  have "list_all jsOctet (map jsNumber ?ps)"
    using parts(2) by (auto simp: list_all_iff jsNumber_digits jsOctet_def isInteger_def)
  with parts(1) re t show ?thesis by (simp add: nft_validateIp_def Let_def)
qed

lemma elementText_canonical: "n \<in> blockSets \<Longrightarrow> elementText n x \<Longrightarrow> canonicalElement n x"
  by (simp add: elementText_def canonicalElement_def validIpv4_canonical)

lemma audit_quiet:
  assumes "PrismaOperations_audit d w = (Inl e, w')"
  shows "\<not> isAlreadyExists e \<and> \<not> isMissingElement e"
proof -
  have "e \<in> {Error ''Can't reach database server'', Error ''Record to connect not found''}"
    using assms by (auto simp: PrismaOperations_audit_def query_def Let_def split: option.splits if_splits)
  then show ?thesis by (auto simp: isAlreadyExists_def isMissingElement_def Let_def)
qed

lemma audit_kernel: "frame (\<lambda>w. (outside w, w_vpnGuard w, w_kernel w)) (PrismaOperations_audit d)"
  unfolding PrismaOperations_audit_def
  by (rule query_frame)
    (auto simp: outside_def domainDevices_def findPolicy_def fun_eq_iff split: option.split)

sublocale nft_tool \<subseteq> enforcer: nft_enforcer "nftEnvOf m sshPort dashboardPort uplink" elems
  for sshPort dashboardPort uplink
proof
  let ?e = "nftEnvOf m sshPort dashboardPort uplink"
  note e [simp] = nftEnvOf_def
  show "frame outside (n_execute ?e args)" for args by (simp add: execute_frame)
  show "frame (\<lambda>w. elems n (w_kernel w)) (n_execute ?e args)" if "neutral args" "n \<in> blockSets" for args n
    using execute_neutral [OF that] by simp
  show "frame (\<lambda>w. elems n' (w_kernel w)) (n_execute ?e (elementArgs op ''filter'' n v))"
    if "n \<in> blockSets" "n' \<in> blockSets" "n' \<noteq> n" "op = ''add'' \<or> op = ''delete''" for n n' op v
    using execute_other [OF that(4,1,2,3)] by simp
  show "elems n (w_kernel w) \<subseteq> elems n (w_kernel w') \<and> elems n (w_kernel w') \<subseteq> insert v (elems n (w_kernel w)) \<and>
      (succeeded isAlreadyExists r \<longrightarrow> v \<in> elems n (w_kernel w'))"
    if "n \<in> blockSets" "canonicalElement n v" "n_execute ?e (elementArgs ''add'' ''filter'' n v) w = (r, w')"
    for n v w r w' using specD [OF execute_add [OF that(2,1)], of w r w'] that(3) by simp
  show "elems n (w_kernel w) - {v} \<subseteq> elems n (w_kernel w') \<and> elems n (w_kernel w') \<subseteq> elems n (w_kernel w) \<and>
      (succeeded isMissingElement r \<longrightarrow> v \<notin> elems n (w_kernel w'))"
    if "n \<in> blockSets" "canonicalElement n v" "n_execute ?e (elementArgs ''delete'' ''filter'' n v) w = (r, w')"
    for n v w r w' using specD [OF execute_delete [OF that(2,1)], of w r w'] that(3) by simp
  show "v \<in> elems n (w_kernel w)"
    if "n \<in> blockSets" "canonicalElement n v"
      "n_execute ?e (''-c'' # elementArgs ''add'' ''filter'' n v) w = (Inl e, w')" "isAlreadyExists e" for n v w e w'
    using execute_check [OF that(2,1) _ harmless_both(1), of "''add''" "\<lambda>s. v \<in> s" w e w']
      tool_check_add [OF that(1)] that(3,4) by simp
  show "v \<notin> elems n (w_kernel w)"
    if "n \<in> blockSets" "canonicalElement n v"
      "n_execute ?e (''-c'' # elementArgs ''delete'' ''filter'' n v) w = (Inl e, w')" "isMissingElement e" for n v w e w'
    using execute_check [OF that(2,1) _ harmless_both(2), of "''delete''" "\<lambda>s. v \<notin> s" w e w']
      tool_check_delete [OF that(1)] that(3,4) by simp
  show "\<exists>xs. setListing out xs \<and> set xs = elems n (w_kernel w) \<and> (\<forall>x \<in> set xs. canonicalElement n x)"
    if "n \<in> blockSets" "n_execute ?e (listSetArgs ''filter'' n) w = (Inr (out, err), w')" for n w out err w'
    using execute_list [OF that(1), of w out err w'] that(2) elementText_canonical [OF that(1)] by auto
  show "frame (\<lambda>w. (outside w, w_vpnGuard w, w_kernel w)) (a d)" if "n_audit ?e = Some a" for a d
    using that audit_kernel by auto
  show "\<not> isAlreadyExists e \<and> \<not> isMissingElement e" if "n_audit ?e = Some a" "a d w = (Inl e, w')" for a d w e w'
    using that audit_quiet by auto
qed

end
