(* ===== verification/Regex.thy ===== *)
theory Regex
  imports Prelude
begin

text \<open>
  The regular expressions the program searches in the output of \<open>tc\<close>, \<open>ip\<close> and \<open>nft\<close>, with the
  backtracking semantics of JavaScript: a pattern is a list of items, quantified classes are
  greedy, \<open>String.match\<close> returns the capture groups of the leftmost match. A pattern with an
  alternation is the list of its alternatives in the order they are tried.
\<close>

section \<open>Patterns\<close>

datatype item =
    Cls "char \<Rightarrow> bool"
  | Rep "char \<Rightarrow> bool" nat "nat option"
  | Lazy "char \<Rightarrow> bool"
  | Bound
  | Start
  | End
  | Open
  | Close

definition wordChar :: "char \<Rightarrow> bool" where
  "wordChar c \<longleftrightarrow> isDigit c \<or> c = CHR ''_'' \<or>
     97 \<le> (of_char (lowerChar c) :: nat) \<and> of_char (lowerChar c) \<le> (122 :: nat)"

definition wordHd :: "string \<Rightarrow> bool" where
  "wordHd s = (case s of [] \<Rightarrow> False | c # _ \<Rightarrow> wordChar c)"

definition wordPrev :: "char option \<Rightarrow> bool" where
  "wordPrev p = (case p of None \<Rightarrow> False | Some c \<Rightarrow> wordChar c)"

definition lit :: "string \<Rightarrow> item list" where
  "lit w = map (\<lambda>c. Cls (\<lambda>x. x = c)) w"

text \<open>A literal of a pattern with the flag \<open>i\<close>; \<open>w\<close> is in lower case.\<close>

definition liti :: "string \<Rightarrow> item list" where
  "liti w = map (\<lambda>c. Cls (\<lambda>x. lowerChar x = c)) w"

definition spaces1 :: item where
  "spaces1 = Rep isSpace 1 None"

section \<open>Matching\<close>

text \<open>What a match yields: the groups, the last character it consumed and the text behind it.\<close>

type_synonym matched = "string list \<times> char option \<times> string"

text \<open>
  \<open>rxAt is p s a cs\<close> matches \<open>is\<close> at \<open>s\<close>: \<open>p\<close> is the character before \<open>s\<close>, \<open>a\<close> the text of the
  open group, \<open>cs\<close> the groups closed so far.
\<close>

definition grow :: "char \<Rightarrow> string option \<Rightarrow> string option" where
  "grow c a = map_option (\<lambda>w. w @ [c]) a"

function rxAt :: "item list \<Rightarrow> char option \<Rightarrow> string \<Rightarrow> string option \<Rightarrow> string list \<Rightarrow> matched option" where
  "rxAt [] p s a cs = Some (cs, p, s)"
| "rxAt (Cls f # is) p [] a cs = None"
| "rxAt (Cls f # is) p (c # s) a cs = (if f c then rxAt is (Some c) s (grow c a) cs else None)"
| "rxAt (Rep f m n # is) p [] a cs = (if m = 0 then rxAt is p [] a cs else None)"
| "rxAt (Rep f m n # is) p (c # s) a cs =
    (if f c \<and> n \<noteq> Some 0
     then (case rxAt (Rep f (m - 1) (map_option (\<lambda>k. k - 1) n) # is) (Some c) s (grow c a) cs of
             Some r \<Rightarrow> Some r
           | None \<Rightarrow> if m = 0 then rxAt is p (c # s) a cs else None)
     else if m = 0 then rxAt is p (c # s) a cs else None)"
| "rxAt (Lazy f # is) p [] a cs = rxAt is p [] a cs"
| "rxAt (Lazy f # is) p (c # s) a cs =
    (case rxAt is p (c # s) a cs of
       Some r \<Rightarrow> Some r
     | None \<Rightarrow> if f c then rxAt (Lazy f # is) (Some c) s (grow c a) cs else None)"
| "rxAt (Bound # is) p s a cs = (if wordPrev p \<noteq> wordHd s then rxAt is p s a cs else None)"
| "rxAt (Start # is) p s a cs = (if p = None then rxAt is p s a cs else None)"
| "rxAt (End # is) p s a cs = (if s = [] then rxAt is p s a cs else None)"
| "rxAt (Open # is) p s a cs = rxAt is p s (Some []) cs"
| "rxAt (Close # is) p s a cs = rxAt is p s None (cs @ (case a of None \<Rightarrow> [] | Some w \<Rightarrow> [w]))"
  by pat_completeness auto
termination
  by (relation "measures [\<lambda>(is, p, s, a, cs). length s, \<lambda>(is, p, s, a, cs). length is]") auto

fun firstSome :: "('a \<Rightarrow> 'b option) \<Rightarrow> 'a list \<Rightarrow> 'b option" where
  "firstSome f [] = None"
| "firstSome f (x # xs) = (case f x of Some y \<Rightarrow> Some y | None \<Rightarrow> firstSome f xs)"

fun rxSearch :: "item list list \<Rightarrow> char option \<Rightarrow> string \<Rightarrow> matched option" where
  "rxSearch alts p s = (case firstSome (\<lambda>is. rxAt is p s None []) alts of
      Some r \<Rightarrow> Some r
    | None \<Rightarrow> (case s of [] \<Rightarrow> None | c # t \<Rightarrow> rxSearch alts (Some c) t))"

declare rxSearch.simps [simp del]

definition rxMatch :: "item list list \<Rightarrow> string \<Rightarrow> string list option" where
  "rxMatch alts s = map_option fst (rxSearch alts None s)"

text \<open>\<open>s.match(pattern)?.[1]\<close>\<close>

definition rxGroup :: "item list list \<Rightarrow> string \<Rightarrow> string option" where
  "rxGroup alts s = (case rxMatch alts s of Some (w # _) \<Rightarrow> Some w | _ \<Rightarrow> None)"

definition rxTest :: "item list list \<Rightarrow> string \<Rightarrow> bool" where
  "rxTest alts s \<longleftrightarrow> rxMatch alts s \<noteq> None"

text \<open>
  \<open>s.matchAll(pattern)\<close>: the groups of the matches from left to right. Every match of the patterns
  it is used with consumes text, so one step per character is enough.
\<close>

fun rxAll :: "nat \<Rightarrow> item list list \<Rightarrow> char option \<Rightarrow> string \<Rightarrow> string list list" where
  "rxAll 0 alts p s = []"
| "rxAll (Suc n) alts p s = (case rxSearch alts p s of
      None \<Rightarrow> []
    | Some (cs, q, t) \<Rightarrow> cs # rxAll n alts q t)"

definition rxMatchAll :: "item list list \<Rightarrow> string \<Rightarrow> string list list" where
  "rxMatchAll alts s = rxAll (Suc (length s)) alts None s"

section \<open>Patterns shared by the readers\<close>

definition octet :: item where
  "octet = Rep isDigit 1 (Some 3)"

definition dot :: item where
  "dot = Cls (\<lambda>c. c = CHR ''.'')"

text \<open>\<open>[0-9]{1,3}(?:\.[0-9]{1,3}){3}\<close>\<close>

definition dottedQuad :: "item list" where
  "dottedQuad = [octet, dot, octet, dot, octet, dot, octet]"

text \<open>\<open>\b<word>\s+(\d+)\b\<close>\<close>

definition wordNumber :: "string \<Rightarrow> item list list" where
  "wordNumber w = [[Bound] @ lit w @ [spaces1, Open, Rep isDigit 1 None, Close, Bound]]"

text \<open>\<open>\b<word>\s+([^\s]+)\<close>\<close>

definition wordToken :: "string \<Rightarrow> item list list" where
  "wordToken w = [[Bound] @ lit w @ [spaces1, Open, Rep (\<lambda>c. \<not> isSpace c) 1 None, Close]]"

section \<open>Facts about searches\<close>

lemma rxAt_lit:
  "rxAt (lit w @ is) p (w @ s) None cs = rxAt is (if w = [] then p else Some (last w)) s None cs"
  by (induction w arbitrary: p) (auto simp: lit_def grow_def)

lemma firstSome_None: "firstSome f xs = None \<longleftrightarrow> (\<forall>x\<in>set xs. f x = None)"
  by (induction xs) (auto split: option.splits)

text \<open>A greedy run of a class takes the longest prefix when the rest of the pattern accepts there.\<close>

lemma rxAt_run:
  assumes "\<forall>c\<in>set w. f c" and "s = [] \<or> \<not> f (hd s)" and "length w \<ge> m"
    and "rxAt is (if w = [] then p else Some (last w)) s (map_option (\<lambda>v. v @ w) a) cs = Some r"
  shows "rxAt (Rep f m None # is) p (w @ s) a cs = Some r"
  using assms
proof (induction w arbitrary: m p a)
  case Nil
  have a: "map_option (\<lambda>v. v) a = a" by (cases a) simp_all
  from Nil show ?case by (cases s) (simp_all add: a)
next
  case (Cons c w)
  have "rxAt (Rep f (m - 1) None # is) (Some c) (w @ s) (grow c a) cs = Some r"
  proof (rule Cons.IH)
    show "rxAt is (if w = [] then Some c else Some (last w)) s (map_option (\<lambda>v. v @ w) (grow c a)) cs = Some r"
      using Cons.prems(4) by (cases a; cases "w = []") (simp_all add: grow_def)
  qed (use Cons.prems in auto)
  with Cons.prems(1) show ?case by simp
qed

end
