(* ===== verification/Readers.thy ===== *)
theory Readers
  imports Executor Regex Discovery
begin

text \<open>
  The readers of the network's own evidence, \<open>infrastructure/network/\<close>: the lease file of the DHCP
  server (\<open>LinuxDhcpLeaseReader.ts\<close>), the neighbour table of the kernel
  (\<open>LinuxNeighborTableReader.ts\<close>) and the broadcast capture of \<open>tcpdump\<close>
  (\<open>BroadcastCaptureReader.ts\<close>), whose packets are framed from the chunks of a stream.
\<close>

section \<open>Fields of a line\<close>

text \<open>\<open>split(/\s+/)\<close>\<close>

function splitSpaces :: "string \<Rightarrow> string list" where
  "splitSpaces s = (let w = takeWhile (\<lambda>c. \<not> isSpace c) s; r = dropWhile (\<lambda>c. \<not> isSpace c) s
     in if r = [] then [w] else w # splitSpaces (dropWhile isSpace r))"
  by pat_completeness auto
termination
proof (relation "measure length")
  fix s w r :: string
  assume "w = takeWhile (\<lambda>c. \<not> isSpace c) s" and r: "r = dropWhile (\<lambda>c. \<not> isSpace c) s" and n: "r \<noteq> []"
  obtain c cs where c: "r = c # cs" using n by (cases r) simp_all
  have "isSpace c" using c r hd_dropWhile [of "\<lambda>c. \<not> isSpace c" s] by auto
  then have "length (dropWhile isSpace r) \<le> length cs" by (simp add: c length_dropWhile_le)
  also have "length cs < length r" by (simp add: c)
  also have "length r \<le> length s" unfolding r by (rule length_dropWhile_le)
  finally show "(dropWhile isSpace r, s) \<in> measure length" by simp
qed simp

declare splitSpaces.simps [simp del]

definition lineFields :: "string \<Rightarrow> string list" where
  "lineFields line = splitSpaces (trim line)"

definition textLines :: "string \<Rightarrow> string list" where
  "textLines s = splitOn (CHR 10) s"

section \<open>LinuxDhcpLeaseReader\<close>

definition starOption :: "string option \<Rightarrow> string option" where
  "starOption v = (case v of Some t \<Rightarrow> if t \<noteq> [] \<and> t \<noteq> ''*'' then Some t else None | None \<Rightarrow> None)"

definition parseLeaseLine :: "string \<Rightarrow> DhcpLease option" where
  "parseLeaseLine line =
     (let parts = lineFields line
      in if length parts < 4 then None
         else let macRaw = parts ! 1; ip = parts ! 2
         in if parts ! 0 = [] \<or> macRaw = [] \<or> ip = [] \<or> \<not> MAC_REGEX macRaw then None
         else map_option (\<lambda>expiry. \<lparr>l_expiry = expiry, l_mac = toLowerCase macRaw, l_ip = ip,
           l_hostname = starOption (arg parts 3), l_clientId = starOption (arg parts 4)\<rparr>)
           (jsNumber (parts ! 0)))"

definition parseLeases :: "string \<Rightarrow> DhcpLease list" where
  "parseLeases content = List.map_filter parseLeaseLine (textLines content)"

text \<open>\<open>readFile\<close> gives the text of a file of the machine, or the message of the error.\<close>

definition LeaseReader_read :: "(string \<Rightarrow> 'k \<Rightarrow> string + string) \<Rightarrow> string \<Rightarrow> ('k world, DhcpLease list) prog" where
  "LeaseReader_read readFile leaseFile = (\<lambda>w. case readFile leaseFile (w_kernel w) of
       Inl message \<Rightarrow> (Inl (Error (''Failed to read DHCP lease file '' @ leaseFile @ '': '' @ message)), w)
     | Inr content \<Rightarrow> (Inr (parseLeases content), w))"

section \<open>LinuxNeighborTableReader\<close>

definition indexOfField :: "string \<Rightarrow> string list \<Rightarrow> nat option" where
  "indexOfField x xs = (let n = length (takeWhile (\<lambda>y. y \<noteq> x) xs) in if n < length xs then Some n else None)"

definition parseNeighborLine :: "string \<Rightarrow> NeighborEntry option" where
  "parseNeighborLine line =
     (let parts = lineFields line
      in case arg parts 0 of None \<Rightarrow> None
         | Some ip \<Rightarrow> if ip = [] \<or> \<not> (IPV4_RE ip \<and> isValidIpv4 ip) then None
           else case indexOfField ''lladdr'' parts of None \<Rightarrow> None
           | Some lladdrIndex \<Rightarrow>
             let state = (case arg parts (lladdrIndex + 2) of None \<Rightarrow> ''UNKNOWN'' | Some s \<Rightarrow> s)
             in case arg parts (lladdrIndex + 1) of None \<Rightarrow> None
                | Some mac \<Rightarrow> if mac = [] \<or> \<not> MAC_REGEX mac then None
                    else Some \<lparr>n_ip = ip, n_mac = normalizeText mac, n_state = toUpperCase state\<rparr>)"

definition NeighborReader_read ::
  "(string \<Rightarrow> string list \<Rightarrow> ('s, string \<times> string) prog) \<Rightarrow> string \<Rightarrow> ('s, NeighborEntry list) prog" where
  "NeighborReader_read execute ifName =
     tryCatch
       (bnd (execute ''ip'' [''neigh'', ''show'', ''dev'', ifName]) (\<lambda>(stdout, _).
        ret (List.map_filter parseNeighborLine (textLines stdout))))
       (\<lambda>error. throw (Error (''Failed to read Linux neighbor table on '' @ ifName @ '': '' @ errorMessage error)))"

section \<open>BroadcastCaptureReader: one packet\<close>

text \<open>\<open>[0-9a-f]{2}(?::[0-9a-f]{2}){5}\<close> with the flag \<open>i\<close>\<close>

definition hexPair :: item where
  "hexPair = Rep isHex 2 (Some 2)"

definition colonPair :: "item list" where
  "colonPair = [Cls (\<lambda>c. c = CHR '':''), hexPair]"

definition macItems :: "item list" where
  "macItems = hexPair # concat (replicate 5 colonPair)"

text \<open>\<open>/(<mac>)\s+>\s+(<mac>)/i\<close>\<close>

definition ETHERNET_HEADER_REGEX :: "item list list" where
  "ETHERNET_HEADER_REGEX = [[Open] @ macItems @ [Close, spaces1] @ lit ''>'' @ [spaces1, Open] @ macItems @ [Close]]"

definition usableIp :: "string \<Rightarrow> bool" where
  "usableIp value \<longleftrightarrow> (IPV4_RE value \<and> isValidIpv4 value) \<and> value \<noteq> ''0.0.0.0''"

text \<open>\<open>/\b(?:BOOTP|DHCP)\b/i\<close>\<close>

definition dhcpPattern :: "item list list" where
  "dhcpPattern = [[Bound] @ liti ''bootp'' @ [Bound], [Bound] @ liti ''dhcp'' @ [Bound]]"

text \<open>\<open>/\b(?:Client-Ethernet-Address|chaddr)\s+\(?(<mac>)\)?/i\<close>; the optional last bracket cannot matter.\<close>

definition chaddrPattern :: "item list list" where
  "chaddrPattern = map (\<lambda>w. [Bound] @ liti w @ [spaces1, Rep (\<lambda>c. c = CHR ''('') 0 (Some 1), Open] @
     macItems @ [Close]) [''client-ethernet-address'', ''chaddr'']"

text \<open>\<open>/\bIP\s+(<quad>)(?:\.\d+)?\s*>/i\<close> and \<open>/\btell\s+(<quad>)\b/i\<close>\<close>

definition ipSourcePattern :: "item list list" where
  "ipSourcePattern = map (\<lambda>port. [Bound] @ liti ''ip'' @ [spaces1, Open] @ dottedQuad @ [Close] @ port @
     [Rep isSpace 0 None] @ lit ''>'') [[dot, Rep isDigit 1 None], []]"

definition tellPattern :: "item list list" where
  "tellPattern = [[Bound] @ liti ''tell'' @ [spaces1, Open] @ dottedQuad @ [Close, Bound]]"

definition letterRun :: item where
  "letterRun = Rep (\<lambda>c. 97 \<le> (of_char (lowerChar c) :: nat) \<and> of_char (lowerChar c) \<le> (122 :: nat)) 1 None"

text \<open>\<open>/DHCP-Message\s*\([^)]*\).*?:\s*([A-Za-z]+)/i\<close>\<close>

definition messagePattern :: "item list list" where
  "messagePattern = [liti ''dhcp-message'' @ [Rep isSpace 0 None] @ lit ''('' @
     [Rep (\<lambda>c. c \<noteq> CHR '')'') 0 None] @ lit '')'' @ [Lazy (\<lambda>c. of_char c \<notin> {10, 13 :: nat})] @ lit '':'' @
     [Rep isSpace 0 None, Open, letterRun, Close]]"

text \<open>\<open>/\bBOOTP\/DHCP,\s*(?:Request|Reply)(?:\s+from\s+[^,]+)?[^\n]*,\s*([A-Za-z]+)/i\<close>\<close>

definition bootpPattern :: "item list list" where
  "bootpPattern = concat (map (\<lambda>kind. map (\<lambda>via.
     [Bound] @ liti ''bootp/dhcp,'' @ [Rep isSpace 0 None] @ liti kind @ via @
     [Rep (\<lambda>c. of_char c \<noteq> (10 :: nat)) 0 None] @ lit '','' @ [Rep isSpace 0 None, Open, letterRun, Close])
     [[spaces1] @ liti ''from'' @ [spaces1, Rep (\<lambda>c. c \<noteq> CHR '','') 1 None], []]) [''request'', ''reply''])"

definition usableOption :: "string option \<Rightarrow> string option" where
  "usableOption v = (case v of Some ip \<Rightarrow> if usableIp ip then Some ip else None | None \<Rightarrow> None)"

record CaptureState =
  cs_running :: bool
  cs_identities :: "CapturedIdentity list"
  cs_rechecks :: "(string \<times> int) list"
  cs_packetsSeen :: nat
  cs_dhcpPacketsSeen :: nat
  cs_lastPacketAt :: "int option"
  cs_lastError :: "string option"
  cs_lastDhcp :: "LastDhcpMetadata option"
  cs_remainder :: string
  cs_packetLines :: "string list"
  cs_ethernetSource :: "string option"
  cs_isDhcp :: bool

definition parsePacket :: "int \<Rightarrow> string \<Rightarrow> CaptureState \<Rightarrow> CapturedIdentity option \<times> CaptureState" where
  "parsePacket now packet st =
     (case map_option toLowerCase (rxGroup ETHERNET_HEADER_REGEX packet) of
        None \<Rightarrow> (None, st)
      | Some ethernetMac \<Rightarrow>
        if rxTest dhcpPattern packet then
          let clientMac = map_option toLowerCase (rxGroup chaddrPattern packet);
              sourceIp = usableOption (rxGroup ipSourcePattern packet);
              messageType = (case rxGroup messagePattern packet of Some t \<Rightarrow> Some t
                | None \<Rightarrow> rxGroup bootpPattern packet)
          in (Some \<lparr>c_mac = toLowerCase (case clientMac of Some m \<Rightarrow> m | None \<Rightarrow> ethernetMac),
                c_ethernetSource = Some ethernetMac, c_sourceIp = sourceIp, c_capturedAt = now\<rparr>,
              st\<lparr>cs_dhcpPacketsSeen := Suc (cs_dhcpPacketsSeen st),
                 cs_lastDhcp := Some \<lparr>dm_messageType = messageType, dm_clientMac = clientMac,
                   dm_ethernetSource = Some ethernetMac, dm_sourceIp = sourceIp, dm_capturedAt = now\<rparr>\<rparr>)
        else
          let arpSender = usableOption (rxGroup tellPattern packet);
              sourceIp = (case arpSender of Some ip \<Rightarrow> Some ip
                | None \<Rightarrow> usableOption (rxGroup ipSourcePattern packet))
          in (Some \<lparr>c_mac = ethernetMac, c_ethernetSource = None, c_sourceIp = sourceIp, c_capturedAt = now\<rparr>, st))"

section \<open>BroadcastCaptureReader: the stream\<close>

text \<open>\<open>shift\<close> drops the oldest identity when there are more than 512.\<close>

definition flushPacket :: "int \<Rightarrow> CaptureState \<Rightarrow> CaptureState" where
  "flushPacket now st =
     (if cs_packetLines st = [] then st
      else let packet = joinWith [CHR 10] (cs_packetLines st);
               (identity, st1) = parsePacket now packet (st\<lparr>cs_packetLines := []\<rparr>)
      in case identity of None \<Rightarrow> st1
         | Some i \<Rightarrow> let ids = cs_identities st1 @ [i]
             in st1\<lparr>cs_identities := if 512 < length ids then tl ids else ids\<rparr>)"

definition acceptTcpdumpLine :: "int \<Rightarrow> string \<Rightarrow> CaptureState \<Rightarrow> CaptureState" where
  "acceptTcpdumpLine now line st =
     (if rxTest ETHERNET_HEADER_REGEX line
        then let st1 = flushPacket now st
             in st1\<lparr>cs_packetsSeen := Suc (cs_packetsSeen st1), cs_lastPacketAt := Some now,
                  cs_packetLines := [line]\<rparr>
      else if cs_packetLines st \<noteq> [] then st\<lparr>cs_packetLines := cs_packetLines st @ [line]\<rparr>
      else st)"

text \<open>The handlers of the process that \<open>start\<close> spawns: data, end, error output, failure, close.\<close>

definition onStdoutData :: "int \<Rightarrow> string \<Rightarrow> CaptureState \<Rightarrow> CaptureState" where
  "onStdoutData now chunk st =
     (let lines = textLines (cs_remainder st @ chunk)
      in fold (acceptTcpdumpLine now) (butlast lines) (st\<lparr>cs_remainder := last lines\<rparr>))"

definition onStdoutEnd :: "int \<Rightarrow> CaptureState \<Rightarrow> CaptureState" where
  "onStdoutEnd now st =
     (let st1 = (if cs_remainder st \<noteq> [] then acceptTcpdumpLine now (cs_remainder st) st else st)
      in (flushPacket now st1)\<lparr>cs_remainder := []\<rparr>)"

definition onStderrData :: "string \<Rightarrow> CaptureState \<Rightarrow> CaptureState" where
  "onStderrData chunk st =
     (let message = trim chunk
      in if message \<noteq> [] \<and> \<not> rxTest [liti ''tcpdump: listening on ''] message
         then st\<lparr>cs_lastError := Some message\<rparr> else st)"

definition onProcessError :: "string \<Rightarrow> CaptureState \<Rightarrow> CaptureState" where
  "onProcessError message st = st\<lparr>cs_lastError := Some message, cs_running := False\<rparr>"

definition onProcessClose :: "int \<Rightarrow> CaptureState \<Rightarrow> CaptureState" where
  "onProcessClose now st = (flushPacket now st)\<lparr>cs_running := False\<rparr>"

definition buildBroadcastCaptureArgs :: "string \<Rightarrow> string list" where
  "buildBroadcastCaptureArgs iface =
     [''-Z'', ''root'', ''-i'', iface, ''-l'', ''-n'', ''-e'', ''-v'', ''(udp port 67 or udp port 68) or arp'']"

text \<open>The command \<open>start\<close> spawns, if any, and the state behind it.\<close>

definition startCapture :: "string \<Rightarrow> CaptureState \<Rightarrow> (string \<times> string list) option \<times> CaptureState" where
  "startCapture iface st =
     (if cs_running st then (None, st)
      else (Some (''tcpdump'', buildBroadcastCaptureArgs iface), st\<lparr>cs_lastError := None, cs_running := True\<rparr>))"

definition stopCapture :: "CaptureState \<Rightarrow> CaptureState" where
  "stopCapture st = st\<lparr>cs_running := False\<rparr>"

definition recentIdentities :: "int \<Rightarrow> int \<Rightarrow> CaptureState \<Rightarrow> CapturedIdentity list" where
  "recentIdentities now maxAgeMs st = filter (\<lambda>i. now - maxAgeMs \<le> c_capturedAt i) (cs_identities st)"

text \<open>\<open>recheck\<close> before and after its wait.\<close>

definition recheckStart :: "int \<Rightarrow> string \<Rightarrow> CaptureState \<Rightarrow> CaptureState" where
  "recheckStart startedAt mac st =
     st\<lparr>cs_rechecks := AList.update (normalizeText mac) startedAt (cs_rechecks st)\<rparr>"

definition recheckDelay :: "int \<Rightarrow> int" where
  "recheckDelay windowMs = max 1000 (min windowMs 60000)"

definition recheckResult :: "int \<Rightarrow> int \<Rightarrow> string \<Rightarrow> int \<Rightarrow> CaptureState \<Rightarrow> bool \<times> CapturedIdentity list" where
  "recheckResult now startedAt mac windowMs st =
     (let identities = filter (\<lambda>i. startedAt \<le> c_capturedAt i \<and> c_mac i = normalizeText mac)
            (recentIdentities now (max (windowMs + 1000) 11000) st)
      in (identities \<noteq> [], identities))"

definition recentRecheckAttemptMacs :: "int \<Rightarrow> int \<Rightarrow> CaptureState \<Rightarrow> string list \<times> CaptureState" where
  "recentRecheckAttemptMacs now maxAgeMs st =
     (let kept = filter (\<lambda>(_, timestamp). now - maxAgeMs \<le> timestamp) (cs_rechecks st)
      in (map fst kept, st\<lparr>cs_rechecks := kept\<rparr>))"

record CaptureStatus =
  ct_running :: bool
  ct_interface :: string
  ct_packetsSeen :: nat
  ct_dhcpPacketsSeen :: nat
  ct_identitiesRecorded :: nat
  ct_lastPacketAt :: "int option"
  ct_lastError :: "string option"
  ct_lastDhcp :: "LastDhcpMetadata option"

definition captureStatus :: "string \<Rightarrow> CaptureState \<Rightarrow> CaptureStatus" where
  "captureStatus iface st = \<lparr>ct_running = cs_running st, ct_interface = iface,
     ct_packetsSeen = cs_packetsSeen st, ct_dhcpPacketsSeen = cs_dhcpPacketsSeen st,
     ct_identitiesRecorded = length (cs_identities st), ct_lastPacketAt = cs_lastPacketAt st,
     ct_lastError = cs_lastError st, ct_lastDhcp = cs_lastDhcp st\<rparr>"

text \<open>\<open>parseLine\<close>, the parser of a single line, which remembers the header across lines.\<close>

definition parseCaptureLine :: "int \<Rightarrow> string \<Rightarrow> CaptureState \<Rightarrow> CapturedIdentity option \<times> CaptureState" where
  "parseCaptureLine now line st =
     (let ethernetMac = (case rxGroup ETHERNET_HEADER_REGEX line of Some m \<Rightarrow> Some m
            | None \<Rightarrow> rxGroup [[Open] @ macItems @ [Close, spaces1, Open] @ macItems @ [Close, spaces1] @ lit ''>''] line);
          st1 = (case ethernetMac of None \<Rightarrow> st
            | Some m \<Rightarrow> st\<lparr>cs_ethernetSource := Some (toLowerCase m), cs_isDhcp := False\<rparr>);
          st2 = (if rxTest dhcpPattern line then st1\<lparr>cs_isDhcp := True\<rparr> else st1);
          packetSource = (case ethernetMac of Some m \<Rightarrow> Some m | None \<Rightarrow> cs_ethernetSource st2)
      in case packetSource of None \<Rightarrow> (None, st2)
         | Some source \<Rightarrow>
           let mac = (case rxGroup chaddrPattern line of
                 Some chaddr \<Rightarrow> if cs_isDhcp st2 then chaddr else source | None \<Rightarrow> source);
               sourceIp = (case usableOption (rxGroup tellPattern line) of Some ip \<Rightarrow> Some ip
                 | None \<Rightarrow> usableOption (rxGroup ipSourcePattern line))
           in (Some \<lparr>c_mac = toLowerCase mac, c_ethernetSource = None, c_sourceIp = sourceIp,
                 c_capturedAt = now\<rparr>, st2))"

section \<open>The framing of the stream\<close>

lemma splitOn_chunks: "splitOn c (a @ b) = butlast (splitOn c a) @ splitOn c (last (splitOn c a) @ b)"
proof (induction a)
  case (Cons x a)
  obtain w ws where w: "splitOn c a = w # ws" using splitOn_nonempty [of c a] by (cases "splitOn c a") auto
  show ?case
  proof (cases "ws = []")
    case True
    with Cons w show ?thesis by (cases "x = c") auto
  next
    case False
    with Cons w show ?thesis by (cases "x = c") auto
  qed
qed simp

lemma parsePacket_frame [simp]:
  "cs_remainder (snd (parsePacket now p st)) = cs_remainder st"
  "cs_identities (snd (parsePacket now p st)) = cs_identities st"
  "cs_packetLines (snd (parsePacket now p st)) = cs_packetLines st"
  "cs_rechecks (snd (parsePacket now p st)) = cs_rechecks st"
  "parsePacket now p (st\<lparr>cs_remainder := r, cs_packetLines := l\<rparr>) =
     (fst (parsePacket now p (st\<lparr>cs_packetLines := l\<rparr>)), (snd (parsePacket now p (st\<lparr>cs_packetLines := l\<rparr>)))\<lparr>cs_remainder := r\<rparr>)"
  by (simp_all add: parsePacket_def Let_def split: option.split)

lemma flushPacket_remainder [simp]:
  "cs_remainder (flushPacket now st) = cs_remainder st"
  "flushPacket now (st\<lparr>cs_remainder := r\<rparr>) = (flushPacket now st)\<lparr>cs_remainder := r\<rparr>"
  by (simp_all add: flushPacket_def Let_def case_prod_beta split: option.split)

lemma acceptLine_remainder [simp]:
  "cs_remainder (acceptTcpdumpLine now l st) = cs_remainder st"
  "acceptTcpdumpLine now l (st\<lparr>cs_remainder := r\<rparr>) = (acceptTcpdumpLine now l st)\<lparr>cs_remainder := r\<rparr>"
  by (simp_all add: acceptTcpdumpLine_def Let_def)

lemma acceptLines_remainder [simp]:
  "cs_remainder (fold (acceptTcpdumpLine now) ls st) = cs_remainder st"
  "fold (acceptTcpdumpLine now) ls (st\<lparr>cs_remainder := r\<rparr>) = (fold (acceptTcpdumpLine now) ls st)\<lparr>cs_remainder := r\<rparr>"
  by (induction ls arbitrary: st) simp_all

lemma onStdoutData_append: "onStdoutData now b (onStdoutData now a st) = onStdoutData now (a @ b) st"
proof -
  let ?ls = "textLines (cs_remainder st @ a)"
  have "textLines (cs_remainder st @ a @ b) = butlast ?ls @ textLines (last ?ls @ b)"
    using splitOn_chunks [of "CHR 10" "cs_remainder st @ a" b] by (simp add: textLines_def)
  moreover have "textLines x \<noteq> []" for x by (simp add: textLines_def splitOn_nonempty)
  ultimately show ?thesis
    by (simp add: onStdoutData_def Let_def butlast_append)
qed

lemma onStdoutData_Nil: "CHR 10 \<notin> set (cs_remainder st) \<Longrightarrow> onStdoutData now [] st = st"
  by (simp add: onStdoutData_def textLines_def splitOn_no_sep)

text \<open>
  C17. The capture does not depend on how the output of tcpdump is cut into chunks: delivering it
  piece by piece leaves the reader in the state in which one delivery of the whole text leaves
  it. (The unfinished line it keeps holds no line break, as after every delivery.)
\<close>

theorem capture_independent_of_chunks:
  assumes "CHR 10 \<notin> set (cs_remainder st)"
  shows "fold (onStdoutData now) chunks st = onStdoutData now (concat chunks) st"
proof (cases chunks)
  case Nil
  with assms show ?thesis by (simp add: onStdoutData_Nil)
next
  case (Cons c cs)
  have "fold (onStdoutData now) cs (onStdoutData now c st) = onStdoutData now (c @ concat cs) st"
  proof (induction cs arbitrary: c)
    case (Cons d ds)
    from Cons [of "c @ d"] show ?case by (simp add: onStdoutData_append)
  qed simp
  with Cons show ?thesis by simp
qed

definition idleCapture :: CaptureState where
  "idleCapture = \<lparr>cs_running = False, cs_identities = [], cs_rechecks = [], cs_packetsSeen = 0, cs_dhcpPacketsSeen = 0,
     cs_lastPacketAt = None, cs_lastError = None, cs_lastDhcp = None, cs_remainder = [], cs_packetLines = [],
     cs_ethernetSource = None, cs_isDhcp = False\<rparr>"

theorem capture_independent_of_chunks_witness:
  "fold (onStdoutData 5) [''12:00:00 02:00:00:00:00:01 > ff:ff:ff'', '':ff:ff:ff, ARP tell 192.168.1.20'', [CHR 10]] idleCapture =
   onStdoutData 5 (''12:00:00 02:00:00:00:00:01 > ff:ff:ff:ff:ff:ff, ARP tell 192.168.1.20'' @ [CHR 10]) idleCapture"
  using capture_independent_of_chunks [of idleCapture 5
      "[''12:00:00 02:00:00:00:00:01 > ff:ff:ff'', '':ff:ff:ff, ARP tell 192.168.1.20'', [CHR 10]]"]
  by (simp add: idleCapture_def)

section \<open>The events of a capture\<close>

datatype CaptureEvent =
    Stdout string
  | StdoutEnd
  | Stderr string
  | ProcessError string
  | ProcessClose
  | StartCall string
  | StopCall
  | RecheckCall string
  | AttemptsCall int

definition captureEvent :: "int \<times> CaptureEvent \<Rightarrow> CaptureState \<Rightarrow> CaptureState" where
  "captureEvent ev st = (let now = fst ev in case snd ev of
       Stdout chunk \<Rightarrow> onStdoutData now chunk st
     | StdoutEnd \<Rightarrow> onStdoutEnd now st
     | Stderr chunk \<Rightarrow> onStderrData chunk st
     | ProcessError message \<Rightarrow> onProcessError message st
     | ProcessClose \<Rightarrow> onProcessClose now st
     | StartCall iface \<Rightarrow> snd (startCapture iface st)
     | StopCall \<Rightarrow> stopCapture st
     | RecheckCall mac \<Rightarrow> recheckStart now mac st
     | AttemptsCall maxAgeMs \<Rightarrow> snd (recentRecheckAttemptMacs now maxAgeMs st))"

text \<open>
  At most 512 identities; no line break inside a buffered line; a buffered packet starts with its
  Ethernet header; one time stamp per MAC address.
\<close>

definition captureInv :: "CaptureState \<Rightarrow> bool" where
  "captureInv st \<longleftrightarrow> length (cs_identities st) \<le> 512 \<and> CHR 10 \<notin> set (cs_remainder st) \<and>
     (\<forall>l \<in> set (cs_packetLines st). CHR 10 \<notin> set l) \<and>
     (cs_packetLines st \<noteq> [] \<longrightarrow> rxTest ETHERNET_HEADER_REGEX (hd (cs_packetLines st))) \<and>
     distinct (map fst (cs_rechecks st))"

lemma flushPacket_inv:
  assumes "captureInv st"
  shows "captureInv (flushPacket now st) \<and> cs_packetLines (flushPacket now st) = []"
  using assms by (auto simp: flushPacket_def captureInv_def Let_def case_prod_beta split: option.split)

lemma acceptLine_inv: "captureInv st \<Longrightarrow> CHR 10 \<notin> set l \<Longrightarrow> captureInv (acceptTcpdumpLine now l st)"
  using flushPacket_inv [of st now] by (auto simp: acceptTcpdumpLine_def captureInv_def Let_def)

lemma acceptLines_inv:
  "captureInv st \<Longrightarrow> \<forall>l \<in> set ls. CHR 10 \<notin> set l \<Longrightarrow> captureInv (fold (acceptTcpdumpLine now) ls st)"
  by (induction ls arbitrary: st) (auto intro: acceptLine_inv)

lemma captureInv_remainder: "captureInv st \<Longrightarrow> CHR 10 \<notin> set r \<Longrightarrow> captureInv (st\<lparr>cs_remainder := r\<rparr>)"
  by (simp add: captureInv_def)

lemma captureInv_flags [simp]:
  "captureInv (st\<lparr>cs_lastError := e\<rparr>) = captureInv st" "captureInv (st\<lparr>cs_running := b\<rparr>) = captureInv st"
  by (simp_all add: captureInv_def)

lemma textLines_nonempty: "textLines s \<noteq> []"
  by (simp add: textLines_def)

lemma textLines_no_break: "l \<in> set (textLines s) \<Longrightarrow> CHR 10 \<notin> set l"
  unfolding textLines_def by (rule splitOn_parts)

lemma onStdoutData_inv: "captureInv st \<Longrightarrow> captureInv (onStdoutData now chunk st)"
  unfolding onStdoutData_def Let_def
  by (intro acceptLines_inv captureInv_remainder)
    (use textLines_no_break last_in_set [OF textLines_nonempty] in \<open>auto dest: in_set_butlastD\<close>)

lemma onStdoutEnd_inv: "captureInv st \<Longrightarrow> captureInv (onStdoutEnd now st)"
proof -
  assume inv: "captureInv st"
  then have "captureInv (acceptTcpdumpLine now (cs_remainder st) st)"
    by (intro acceptLine_inv) (simp_all add: captureInv_def)
  with inv flushPacket_inv show ?thesis by (auto simp: onStdoutEnd_def Let_def intro!: captureInv_remainder)
qed

text \<open>
  C18. Whatever events reach the capture reader, in whatever order and at whatever times, its state
  stays well formed: at most 512 identities are kept, a buffered packet starts with its Ethernet
  header and has no line break inside a line, and each MAC address has one recheck time stamp.
\<close>

theorem capture_events_keep_invariant:
  assumes "captureInv st"
  shows "captureInv (fold captureEvent evs st)"
  using assms
proof (induction evs arbitrary: st)
  case (Cons ev evs)
  have "captureInv (captureEvent ev st)"
  proof (cases "snd ev")
    case (RecheckCall mac)
    with Cons.prems show ?thesis by (simp add: captureEvent_def recheckStart_def captureInv_def distinct_update)
  next
    case (AttemptsCall age)
    with Cons.prems show ?thesis
      by (simp add: captureEvent_def recentRecheckAttemptMacs_def Let_def captureInv_def distinct_map_filter)
  qed (use Cons.prems onStdoutData_inv onStdoutEnd_inv flushPacket_inv [of st "fst ev"] in
      \<open>auto simp: captureEvent_def Let_def onStderrData_def onProcessError_def onProcessClose_def startCapture_def
        stopCapture_def\<close>)
  with Cons.IH show ?case by simp
qed simp

theorem capture_events_keep_invariant_witness:
  "captureInv (fold captureEvent [(1, StartCall ''lan0''), (2, Stdout ''tick''), (3, StdoutEnd), (4, RecheckCall ''m'')] idleCapture)"
  by (rule capture_events_keep_invariant) (simp add: captureInv_def idleCapture_def)

end
