(* ===== verification/Control.thy ===== *)
theory Control
  imports Executor Bindings Readers
begin

text \<open>
  The enforcement services as \<open>server.ts\<close> puts them together: the Prisma repositories over the
  database, the audited nft adapter over the socket and the agent, the reader of the lease file.
  What the services promise over their interfaces holds for this composition on every machine
  whose nft behaves as documented (the locale \<open>nft_tool\<close>), whatever fails on the way: a query,
  a request on the socket, a rejected or failing command.
\<close>

definition controlDeps :: "'k Machine \<Rightarrow> nat \<Rightarrow> nat \<Rightarrow> string \<Rightarrow> string \<Rightarrow> 'k world FirewallDeps" where
  "controlDeps m sshPort dashboardPort uplink admin =
     \<lparr>f_blocker = nftDeviceBlocker (nftEnvOf m sshPort dashboardPort uplink), f_devices = prismaDevices,
      f_policies = prismaPolicies, f_audit = Some PrismaOperations_audit, f_blocked = Some prismaBlocked,
      f_admin = admin\<rparr>"

definition lifecycleDeps :: "'k Machine \<Rightarrow> nat \<Rightarrow> nat \<Rightarrow> string \<Rightarrow> (string \<Rightarrow> 'k \<Rightarrow> string + string) \<Rightarrow> string \<Rightarrow>
    'k world BindingDeps" where
  "lifecycleDeps m sshPort dashboardPort uplink readFile leaseFile =
     \<lparr>il_devices = prismaDevices, il_policies = prismaPolicies, il_leases = LeaseReader_read readFile leaseFile,
      il_blocked = prismaBlocked, il_blocker = nftDeviceBlocker (nftEnvOf m sshPort dashboardPort uplink)\<rparr>"

text \<open>The two kernel sets of blocked addresses.\<close>

definition kernelSets :: "(string \<Rightarrow> 'k \<Rightarrow> string set) \<Rightarrow> 'k world \<Rightarrow> string set \<times> string set" where
  "kernelSets elems w = (elems ''blocked_macs'' (w_kernel w), elems ''blocked_ips'' (w_kernel w))"

definition leasesOn :: "(string \<Rightarrow> 'k \<Rightarrow> string + string) \<Rightarrow> string \<Rightarrow> 'k world \<Rightarrow> DhcpLease list" where
  "leasesOn readFile leaseFile w = (case readFile leaseFile (w_kernel w) of Inl _ \<Rightarrow> [] | Inr content \<Rightarrow> parseLeases content)"

lemma findPolicy_policies: "findPolicy w = (\<lambda>i. find (\<lambda>p. p_deviceId p = i) (w_policies w))"
  by (simp add: findPolicy_def fun_eq_iff)

lemmas weak_devices = device_repository_weaken [OF prismaDev.device_repository_axioms]
lemmas weak_policies = policy_repository_weaken [OF prismaPol.policy_repository_axioms]
lemmas weak_blocked = blocked_repository_weaken [OF prismaBlk.blocked_repository_axioms]

sublocale nft_tool \<subseteq> ctl: firewall_env "controlDeps m sshPort dashboardPort uplink admin" domainDevices findPolicy
    "\<lambda>w. elems ''blocked_macs'' (w_kernel w)" "\<lambda>w. elems ''blocked_ips'' (w_kernel w)" w_blocked activeSet wfTables
  for sshPort dashboardPort uplink admin
proof (unfold firewall_env_def firewall_env_axioms_def, intro conjI allI impI)
  let ?d = "controlDeps m sshPort dashboardPort uplink admin"
  note d [simp] = controlDeps_def
  show "device_repository (f_devices ?d) domainDevices (\<lambda>w. (findPolicy w, elems ''blocked_macs'' (w_kernel w),
      elems ''blocked_ips'' (w_kernel w), w_blocked w))"
    using weak_devices [where g = "\<lambda>(p, b, q, n, k). ((\<lambda>i. find (\<lambda>p. p_deviceId p = i) p), elems ''blocked_macs'' k,
      elems ''blocked_ips'' k, b)"] by (simp add: otherTables_def findPolicy_policies)
  show "policy_repository (f_policies ?d) findPolicy (\<lambda>w. (domainDevices w, elems ''blocked_macs'' (w_kernel w),
      elems ''blocked_ips'' (w_kernel w), w_blocked w))"
    using weak_policies [where g = "\<lambda>(d, b, q, n, k). (d, elems ''blocked_macs'' k, elems ''blocked_ips'' k, b)"]
    by (simp add: besidePolicies_def)
  show "device_blocker (f_blocker ?d) (\<lambda>w. elems ''blocked_macs'' (w_kernel w)) (\<lambda>w. elems ''blocked_ips'' (w_kernel w))
      (\<lambda>w. (domainDevices w, findPolicy w, w_blocked w))"
    using device_blocker_weaken [OF enforcer.device_blocker_nft, where g = "\<lambda>(d, p, b, q, n). (d, p, b)"]
    by (simp add: outside_def)
  show "frame (\<lambda>w. (domainDevices w, findPolicy w, elems ''blocked_macs'' (w_kernel w),
      elems ''blocked_ips'' (w_kernel w), w_blocked w)) (a x)" if "f_audit ?d = Some a" for a x
    using that frame_comp [OF audit_kernel, where g = "\<lambda>((d, p, b, q, n), v, k). (d, p, elems ''blocked_macs'' k,
      elems ''blocked_ips'' k, b)"] by (auto simp: outside_def)
  show "blocked_repository r w_blocked activeSet wfTables (\<lambda>w. (domainDevices w, findPolicy w,
      elems ''blocked_macs'' (w_kernel w), elems ''blocked_ips'' (w_kernel w)))" if "f_blocked ?d = Some r" for r
    using that weak_blocked [where g = "\<lambda>(d, p, q, n, k). (d, p, elems ''blocked_macs'' k, elems ''blocked_ips'' k)"]
    by (simp add: besideBlocked_def)
qed

sublocale nft_tool \<subseteq> life: binding_env "lifecycleDeps m sshPort dashboardPort uplink readFile leaseFile" domainDevices
    findPolicy "\<lambda>w. elems ''blocked_macs'' (w_kernel w)" "\<lambda>w. elems ''blocked_ips'' (w_kernel w)" w_blocked
    activeSet wfTables "leasesOn readFile leaseFile"
  for sshPort dashboardPort uplink readFile leaseFile
proof (unfold binding_env_def binding_env_axioms_def, intro conjI allI impI)
  let ?d = "lifecycleDeps m sshPort dashboardPort uplink readFile leaseFile"
  note d [simp] = lifecycleDeps_def
  show "device_repository (il_devices ?d) domainDevices (\<lambda>w. (findPolicy w, elems ''blocked_ips'' (w_kernel w),
      w_blocked w, leasesOn readFile leaseFile w))"
    using weak_devices [where g = "\<lambda>(p, b, q, n, k). ((\<lambda>i. find (\<lambda>p. p_deviceId p = i) p), elems ''blocked_ips'' k, b,
      case readFile leaseFile k of Inl _ \<Rightarrow> [] | Inr content \<Rightarrow> parseLeases content)"]
    by (simp add: otherTables_def findPolicy_policies leasesOn_def)
  show "policy_repository (il_policies ?d) findPolicy (\<lambda>w. (domainDevices w, elems ''blocked_ips'' (w_kernel w), w_blocked w))"
    using weak_policies [where g = "\<lambda>(d, b, q, n, k). (d, elems ''blocked_ips'' k, b)"] by (simp add: besidePolicies_def)
  show "device_blocker (il_blocker ?d) (\<lambda>w. elems ''blocked_macs'' (w_kernel w)) (\<lambda>w. elems ''blocked_ips'' (w_kernel w))
      (\<lambda>w. (domainDevices w, findPolicy w, w_blocked w))"
    using device_blocker_weaken [OF enforcer.device_blocker_nft, where g = "\<lambda>(d, p, b, q, n). (d, p, b)"]
    by (simp add: outside_def)
  show "blocked_repository (il_blocked ?d) w_blocked activeSet wfTables (\<lambda>w. (domainDevices w, findPolicy w,
      elems ''blocked_ips'' (w_kernel w)))"
    using weak_blocked [where g = "\<lambda>(d, p, q, n, k). (d, p, elems ''blocked_ips'' k)"] by (simp add: besideBlocked_def)
  show "frame (\<lambda>w. (domainDevices w, findPolicy w, elems ''blocked_ips'' (w_kernel w), w_blocked w)) (il_leases ?d)"
    by (simp add: frame_def LeaseReader_read_def split: sum.split)
  show "ls = leasesOn readFile leaseFile w" if "il_leases ?d w = (Inr ls, t)" for w ls t
    using that by (simp add: LeaseReader_read_def leasesOn_def split: sum.splits)
qed

context nft_tool
begin

lemmas control_block = ctl.blockDevice_spec
lemmas control_reconcile = ctl.reconcile_spec
lemmas control_unblock = ctl.unblockDevice_spec
lemmas control_quota_block = ctl.blockForQuota_spec
lemmas control_quota_release = ctl.unblockForQuota_spec
lemmas control_lifecycle = life.lifecycleBody_spec

end

section \<open>A machine on which nft behaves as documented\<close>

record SimKernel =
  sk_macs :: "string list"
  sk_ips :: "string list"
  sk_leases :: string

definition simElems :: "string \<Rightarrow> SimKernel \<Rightarrow> string set" where
  "simElems n k = (if n = ''blocked_macs'' then set (filter (elementText n) (sk_macs k))
     else set (filter (elementText n) (sk_ips k)))"

definition simUpdate :: "string \<Rightarrow> (string list \<Rightarrow> string list) \<Rightarrow> SimKernel \<Rightarrow> SimKernel" where
  "simUpdate n f k = (if n = ''blocked_macs'' then k\<lparr>sk_macs := f (sk_macs k)\<rparr> else k\<lparr>sk_ips := f (sk_ips k)\<rparr>)"

definition simListing :: "string list \<Rightarrow> string" where
  "simListing xs = (if xs = [] then ''table ip filter { set { } }''
     else ''table ip filter { set { '' @ ''elements = {'' @ joinWith '','' xs @ ''}'' @ '' } }'')"

definition simMissing :: ExecFailure where
  "simMissing = \<lparr>xf_message = ''Command failed'',
     xf_stderr = Some ''Error: Could not process rule: No such file or directory''\<rparr>"

definition simNft :: "string list \<Rightarrow> SimKernel \<Rightarrow> (ExecFailure + string \<times> string) \<times> SimKernel" where
  "simNft args k =
     (let n = (if 4 < length args then args ! 4 else []); v = (if 6 < length args then args ! 6 else []);
          known = (n = ''blocked_macs'' \<or> n = ''blocked_ips'')
      in if known \<and> elementText n v \<and> args = elementArgs ''add'' ''filter'' n v
           then (Inr ([], []), simUpdate n (setAdd v) k)
         else if known \<and> elementText n v \<and> args = elementArgs ''delete'' ''filter'' n v
           then if v \<in> simElems n k then (Inr ([], []), simUpdate n (filter (\<lambda>x. x \<noteq> v)) k) else (Inl simMissing, k)
         else if args = listSetArgs ''filter'' n
           then (Inr (simListing (filter (elementText n) (if n = ''blocked_macs'' then sk_macs k else sk_ips k)), []), k)
         else (Inr ([], []), k))"

definition simAgent :: AgentConfig where
  "simAgent = \<lparr>g_cwd = ''/opt/ayad-nm'', g_client = ''lan0'', g_uplink = ''wan0'', g_tun = ''tun0'',
     g_snapshotDir = ''/var/lib/ayad-nm/snapshots'', g_nftablesPath = ''/etc/nftables.conf'',
     g_vpnConfig = ''/etc/sing-box/config.json'', g_vpnStage = ''/run/ayad-nm/sing-box.json'',
     g_vpnInstallUnit = ''ayad-nm-vpn-install.service''\<rparr>"

definition simMachine :: "SimKernel Machine" where
  "simMachine = \<lparr>m_exec = (\<lambda>command args timeout k. if command = ''/usr/sbin/nft'' then simNft args k else (Inr ([], []), k)),
     m_writeFile = (\<lambda>path content k. (Inr (), k)), m_unlink = (\<lambda>path k. (Inr (), k)),
     m_agent = simAgent, m_socketPath = Some ''/run/ayad-nm/enforcement.sock''\<rparr>"

lemma nftTool_sim: "nftTool simMachine args k = simNft args k"
  by (simp add: nftTool_def simMachine_def)

lemma simElems_update:
  assumes "n \<in> blockSets" "n' \<in> blockSets"
  shows "simElems n (simUpdate n' f k) = (if n' = n
    then set (filter (elementText n) (f (if n = ''blocked_macs'' then sk_macs k else sk_ips k))) else simElems n k)"
  using assms by (auto simp: simElems_def simUpdate_def blockSets_def)

lemma simNft_add: "n \<in> blockSets \<Longrightarrow> simNft (elementArgs ''add'' ''filter'' n v) k =
     (Inr ([], []), if elementText n v then simUpdate n (setAdd v) k else k)"
  by (simp add: simNft_def elementArgs_def blockSets_def listSetArgs_def)

lemma simNft_delete: "n \<in> blockSets \<Longrightarrow> simNft (elementArgs ''delete'' ''filter'' n v) k =
     (if elementText n v then
        if v \<in> simElems n k then (Inr ([], []), simUpdate n (filter (\<lambda>x. x \<noteq> v)) k) else (Inl simMissing, k)
      else (Inr ([], []), k))"
  by (simp add: simNft_def elementArgs_def blockSets_def listSetArgs_def)

lemma simNft_list: "simNft (listSetArgs ''filter'' n) k =
     (Inr (simListing (filter (elementText n) (if n = ''blocked_macs'' then sk_macs k else sk_ips k)), []), k)"
  by (simp add: simNft_def elementArgs_def listSetArgs_def)

lemma simNft_check: "simNft (''-c'' # args) k = (Inr ([], []), k)"
  by (simp add: simNft_def elementArgs_def listSetArgs_def)

lemma not_neutral: "op = ''add'' \<or> op = ''delete'' \<Longrightarrow> \<not> neutral (elementArgs op ''filter'' n v)"
  by (auto simp: neutral_def elementArgs_def)

lemma simNft_neutral: "neutral args \<Longrightarrow> snd (simNft args k) = k"
proof -
  assume n: "neutral args"
  define x y where "x = (if 4 < length args then args ! 4 else [])" and "y = (if 6 < length args then args ! 6 else [])"
  have "args \<noteq> elementArgs ''add'' ''filter'' x y" "args \<noteq> elementArgs ''delete'' ''filter'' x y"
    using n not_neutral by blast+
  then show ?thesis unfolding simNft_def Let_def x_def [symmetric] y_def [symmetric] by simp
qed

lemma simListing_ok: "setListing (simListing xs) xs"
proof (cases "xs = []")
  case False
  have gaps: "map (\<lambda>((b, a), x). b @ x @ a) (zip (replicate (length xs) ([], [])) xs) = xs"
    by (induction xs) auto
  show ?thesis
    unfolding setListing_def simListing_def if_not_P [OF False]
    by (rule exI [of _ "''table ip filter { set { ''"], rule exI [of _ "replicate (length xs) ([], [])"],
        rule exI [of _ "'' } }''"]) (simp add: gaps isSpace_def)
qed (simp add: setListing_def simListing_def)

lemma simElems_text: "n \<in> blockSets \<Longrightarrow>
    simElems n k = set (filter (elementText n) (if n = ''blocked_macs'' then sk_macs k else sk_ips k))"
  by (auto simp: simElems_def blockSets_def)

lemma simElems_add: "n \<in> blockSets \<Longrightarrow> elementText n v \<Longrightarrow> simElems n (simUpdate n (setAdd v) k) = insert v (simElems n k)"
  by (auto simp: simElems_def simUpdate_def blockSets_def)

lemma simElems_delete: "n \<in> blockSets \<Longrightarrow>
    simElems n (simUpdate n (filter (\<lambda>x. x \<noteq> v)) k) = simElems n k - {v}"
  by (auto simp: simElems_def simUpdate_def blockSets_def)

interpretation simTool: nft_tool simMachine simElems
proof
  show "simElems n (snd (nftTool simMachine args k)) = simElems n k" if "neutral args" for args n k
    using simNft_neutral [OF that] by (simp add: nftTool_sim)
  show "simElems n' (snd (nftTool simMachine (elementArgs op ''filter'' n v) k)) = simElems n' k"
    if "op = ''add'' \<or> op = ''delete''" "n \<in> blockSets" "n' \<in> blockSets" "n' \<noteq> n" for op n n' v k
    using that simElems_update [OF that(3,2)] by (elim disjE) (simp_all add: nftTool_sim simNft_add simNft_delete)
  show "simElems n k \<subseteq> simElems n k' \<and> simElems n k' \<subseteq> insert v (simElems n k) \<and>
      (says isAlreadyExists r \<longrightarrow> v \<in> simElems n k')"
    if "n \<in> blockSets" "elementText n v" "nftTool simMachine (elementArgs ''add'' ''filter'' n v) k = (r, k')" for n v k r k'
    using that by (auto simp: nftTool_sim simNft_add simElems_add)
  show "simElems n k - {v} \<subseteq> simElems n k' \<and> simElems n k' \<subseteq> simElems n k \<and>
      (says isMissingElement r \<longrightarrow> v \<notin> simElems n k')"
    if "n \<in> blockSets" "elementText n v" "nftTool simMachine (elementArgs ''delete'' ''filter'' n v) k = (r, k')" for n v k r k'
    using that by (auto simp: nftTool_sim simNft_delete simElems_delete split: if_splits)
  show "\<exists>xs. setListing out xs \<and> set xs = simElems n k \<and> (\<forall>x \<in> set xs. elementText n x)"
    if "n \<in> blockSets" "nftTool simMachine (listSetArgs ''filter'' n) k = (Inr (out, err), k')" for n k out err k'
  proof (intro exI conjI)
    let ?xs = "filter (elementText n) (if n = ''blocked_macs'' then sk_macs k else sk_ips k)"
    have "out = simListing ?xs" using that(2) by (simp add: nftTool_sim simNft_list)
    then show "setListing out ?xs" using simListing_ok by simp
  qed (use that(1) in \<open>simp_all add: simElems_text\<close>)
qed (simp_all add: nftTool_sim simNft_check)

section \<open>Properties of the composed services\<close>

lemma control_interfaces:
  "b_blockIp (f_blocker (controlDeps m sshPort dashboardPort uplink admin)) = Some (nft_blockIp (nftEnvOf m sshPort dashboardPort uplink))"
  "b_unblockIp (f_blocker (controlDeps m sshPort dashboardPort uplink admin)) = Some (nft_unblockIp (nftEnvOf m sshPort dashboardPort uplink))"
  "b_getBlockedMacs (f_blocker (controlDeps m sshPort dashboardPort uplink admin)) =
     Some (nft_getBlockedMacs (nftEnvOf m sshPort dashboardPort uplink))"
  "b_getBlockedIps (f_blocker (controlDeps m sshPort dashboardPort uplink admin)) =
     Some (nft_getBlockedIps (nftEnvOf m sshPort dashboardPort uplink))"
  "f_blocked (controlDeps m sshPort dashboardPort uplink admin) = Some prismaBlocked"
  by (simp_all add: controlDeps_def nftDeviceBlocker_def)

lemma reconcile_kernel:
  assumes "nft_tool m elems" "firewall_reconcile (controlDeps m sshPort dashboardPort uplink admin) w = (Inr (), w')"
  shows "findPolicy w' = findPolicy w" "domainDevices w' = domainDevices w"
    "kernelSets elems w' = (desiredMacs (domainDevices w) (findPolicy w), desiredIps (domainDevices w) (findPolicy w))"
  using specD [OF nft_tool.control_reconcile [OF assms(1) control_interfaces(1-4)] assms(2)]
  by (simp_all add: kernelSets_def)

text \<open>
  C10. Blocking a device through the composed system either changes neither the policies nor the
  kernel sets, and fails; or it has persisted a blocking policy of the one device the request names,
  known, identity-validated, not named by the MAC address of a proxy and not the requester's, and only then touched the kernel sets, adding at most that
  device's MAC address (or, behind a proxy, its IP address). A success means the address is in
  the kernel set. This holds whatever fails on the way.
\<close>

theorem block_persists_then_enforces_one_device:
  assumes "nft_tool m elems"
    and "blockDevice (controlDeps m sshPort dashboardPort uplink admin) mac requesterIp w = (r, w')"
  shows "domainDevices w' = domainDevices w \<and>
    blockPost (blockTargets mac (domainDevices w)) requesterIp (findPolicy w) (kernelSets elems w)
      (findPolicy w') (kernelSets elems w') (r = Inr ())"
  using specD [OF nft_tool.control_block [OF assms(1)] assms(2)] by (simp add: kernelSets_def)

text \<open>
  C11. Start-up reconciliation refines its specification: when it succeeds, the two kernel sets are
  exactly the addresses the persisted policies ask for, whatever they held before. When it fails
  part-way, no address that is asked for was removed and none that is not was added. The
  database is untouched either way.
\<close>

theorem reconcile_converges_to_policies:
  assumes "nft_tool m elems"
    and "firewall_reconcile (controlDeps m sshPort dashboardPort uplink admin) w = (r, w')"
  defines "M \<equiv> desiredMacs (domainDevices w) (findPolicy w)" and "P \<equiv> desiredIps (domainDevices w) (findPolicy w)"
  shows "domainDevices w' = domainDevices w \<and> findPolicy w' = findPolicy w \<and> w_blocked w' = w_blocked w \<and>
    (r = Inr () \<longrightarrow> kernelSets elems w' = (M, P)) \<and>
    fst (kernelSets elems w) \<inter> M \<subseteq> fst (kernelSets elems w') \<and>
    fst (kernelSets elems w') \<subseteq> fst (kernelSets elems w) \<union> M \<and>
    snd (kernelSets elems w) \<inter> P \<subseteq> snd (kernelSets elems w') \<and>
    snd (kernelSets elems w') \<subseteq> snd (kernelSets elems w) \<union> P"
  using specD [OF nft_tool.control_reconcile [OF assms(1) control_interfaces(1-4)] assms(2)]
  by (auto simp: kernelSets_def M_def P_def)


text \<open>
  C15. Releasing a quota block leaves every policy as it is and changes the kernel sets only for
  the device the request names, whose policy does not block it: a manual block survives the end of a quota period.
\<close>

theorem quota_release_keeps_manual_blocks:
  assumes "nft_tool m elems" "wfTables (w_blocked w)"
    and "unblockForQuota (controlDeps m sshPort dashboardPort uplink admin) mac w = (r, w')"
  shows "findPolicy w' = findPolicy w \<and>
    (kernelSets elems w' = kernelSets elems w \<or>
     (\<exists>d \<in> set (domainDevices w). denotes mac d \<and> \<not> policyBlocks (findPolicy w (d_id d)) \<and>
        unblockEffect d (recordedIps False (activeSet (w_blocked w)) d \<union> set_option (d_ip d))
          (kernelSets elems w) (kernelSets elems w')))"
  using specD [OF nft_tool.control_quota_release [OF assms(1) control_interfaces(2) assms(2)] assms(3)]
  unfolding control_interfaces(5) by (auto simp: kernelSets_def)

text \<open>
  C16. The binding life cycle keeps every active binding enforced: if each active binding's address
  is in the kernel set before a cycle, so it is after it, even when the cycle is cut short by an
  error between two of its steps; and a binding is dropped only when the leases show that
  another client holds its address or that the device has another one.
\<close>

theorem lifecycle_keeps_bindings_enforced:
  assumes "nft_tool m elems" "wfTables (w_blocked w)"
    and "covered (activeSet (w_blocked w)) (snd (kernelSets elems w))"
    and "lifecycle_reconcile (lifecycleDeps m sshPort dashboardPort uplink readFile leaseFile) now (running, w) =
      (r, running', w')"
  shows "r = Inr () \<and> wfTables (w_blocked w') \<and>
    covered (activeSet (w_blocked w')) (snd (kernelSets elems w')) \<and>
    (\<forall>c \<in> activeSet (w_blocked w) - activeSet (w_blocked w').
       lostBinding (domainDevices w) (leaseIps now (leasesOn readFile leaseFile w))
         (leaseMacs now (leasesOn readFile leaseFile w)) c)"
proof (cases running)
  case True
  with assms(2-) show ?thesis by (simp add: lifecycle_reconcile_def guardedCycle_def)
next
  case False
  let ?d = "lifecycleDeps m sshPort dashboardPort uplink readFile leaseFile"
  obtain r1 w1 where body: "lifecycleBody ?d now w = (r1, w1)" by fastforce
  with assms(4) False have "w' = w1" "r = Inr ()"
    by (auto simp: lifecycle_reconcile_def guardedCycle_def tryCatch_def split: sum.splits)
  with specD [OF nft_tool.control_lifecycle [OF assms(1,2)] body] assms(3) show ?thesis
    by (simp add: kernelSets_def)
qed

section \<open>The hypotheses can hold\<close>

text \<open>A household with one visible device and one behind a proxy, which is blocked and bound.\<close>

definition demoLaptop :: Device where
  "demoLaptop = \<lparr>d_id = 1, d_mac = ''02:00:00:00:00:01'', d_ip = Some ''192.168.1.20'', d_hostname = None,
     d_l2Visible = True, d_proxyMac = None, d_identityValidated = True, d_identitySource = DHCP,
     d_firstSeen = 0, d_lastSeen = 0\<rparr>"

definition demoPhone :: Device where
  "demoPhone = demoLaptop\<lparr>d_id := 2, d_mac := ''02:00:00:00:00:02'', d_ip := Some ''192.168.1.21'',
     d_l2Visible := False, d_identitySource := PROXY_ACCEPTED_BY_ADMIN\<rparr>"

definition demoTables :: BlockTables where
  "demoTables = \<lparr>bt_nextRecord = 2, bt_records = [\<lparr>bd_id = 1, bd_deviceId = 2, bd_mac = None,
       bd_active = True, bd_reason = Some ''ip-enforced-proxy''\<rparr>],
     bt_nextBinding = 2, bt_bindings = [\<lparr>ib_id = 1, ib_blockedDeviceId = 1, ib_ip = ''192.168.1.21'',
       ib_active = True, ib_releasedAt = None, ib_releaseReason = None\<rparr>]\<rparr>"

definition demoWorld :: "SimKernel world" where
  "demoWorld = \<lparr>w_tick = 0, w_fault = (\<lambda>n. False), w_now = 0, w_nextDevice = 3, w_devices = [demoLaptop, demoPhone],
     w_nextPolicy = 2, w_policies = [(blankPolicy 1 2)\<lparr>p_blocked := True\<rparr>], w_blocked = demoTables,
     w_nextQuota = 1, w_quota = [], w_notifications = [], w_audit = [], w_vpnGuard = False,
     w_attempt = 0, w_link = (\<lambda>n. Delivered),
     w_kernel = \<lparr>sk_macs = [], sk_ips = [''192.168.1.21''], sk_leases = []\<rparr>\<rparr>"

lemma demo_wf: "wfTables (w_blocked demoWorld)"
  by (simp add: wfTables_def demoWorld_def demoTables_def)

lemma demo_covered: "covered (activeSet (w_blocked demoWorld)) (snd (kernelSets simElems demoWorld))"
proof -
  have "elementText ''blocked_ips'' ''192.168.1.21''" by code_simp
  moreover have "activeSet (w_blocked demoWorld) = {(2, ''192.168.1.21'')}" by code_simp
  moreover have "trim ''192.168.1.21'' = ''192.168.1.21''" by code_simp
  ultimately show ?thesis by (simp add: covered_def kernelSets_def simElems_def demoWorld_def)
qed

definition demoLifecycle where
  "demoLifecycle = lifecycle_reconcile (lifecycleDeps simMachine 22 80 ''wan0'' (\<lambda>path k. Inr (sk_leases k)) ''/leases'') 0
     (False, demoWorld)"

theorem lifecycle_keeps_bindings_enforced_witness:
  "fst demoLifecycle = Inr () \<and>
   covered (activeSet (w_blocked (snd (snd demoLifecycle)))) (snd (kernelSets simElems (snd (snd demoLifecycle))))"
  using lifecycle_keeps_bindings_enforced [OF simTool.nft_tool_axioms demo_wf demo_covered, of 22 80 "''wan0''"
      "\<lambda>path k. Inr (sk_leases k)" "''/leases''" 0 False "fst demoLifecycle" "fst (snd demoLifecycle)"
      "snd (snd demoLifecycle)"]
  by (simp add: demoLifecycle_def)

end
