(* ===== verification/Rates.thy ===== *)
theory Rates
  imports Entities
begin

text \<open>
  Traffic rates in milli-Mbps: \<open>TrafficRateParser.ts\<close>, \<open>TrafficRate.ts\<close>, the two local
  copies of the formatter (\<open>DeviceService.formatRateMbps\<close>,
  \<open>DefaultTrafficPolicyValidator.formatMbps\<close>) and \<open>DefaultTrafficPolicyValidator\<close>.
  \<open>bigint\<close> division truncates, so it is \<open>sdiv\<close> and \<open>smod\<close>.
\<close>

section \<open>Parsing\<close>

text \<open>
  The argument of \<open>parseRateMbps\<close>: a \<open>bigint\<close>, or a text (a number stands for the text
  \<open>String(value)\<close> gives it).
\<close>

datatype rate_value = BigInt int | Text string

definition SCALE :: int where "SCALE = 1000"

definition DECIMAL_REGEX :: "string \<Rightarrow> bool" where
  "DECIMAL_REGEX s \<longleftrightarrow> (let ps = splitOn (CHR ''.'') s in
     (length ps = 1 \<or> length ps = 2) \<and> list_all (\<lambda>p. p \<noteq> [] \<and> list_all isDigit p) ps)"

fun parseRateMbps :: "rate_value \<Rightarrow> js_error + int" where
  "parseRateMbps (BigInt value) = Inr value"
| "parseRateMbps (Text value) =
     (let text = trim value in
      if \<not> DECIMAL_REGEX text then Inl (Error (''Invalid rateMbps: '' @ value))
      else let parts = splitOn (CHR ''.'') text;
               wholePart = parts ! 0;
               fractionPart = (if 1 < length parts then parts ! 1 else [])
      in if wholePart = [] then Inl (Error (''Invalid rateMbps: '' @ value))
         else if 3 < length fractionPart
           then Inl (Error ''rateMbps supports a maximum of 3 decimal places'')
         else let paddedFraction = padEnd 3 (CHR ''0'') fractionPart;
                  whole = int (readNat wholePart);
                  fraction = int (readNat (if paddedFraction = [] then ''0'' else paddedFraction));
                  result = whole * SCALE + fraction
         in if result \<le> 0 then Inl (Error ''rateMbps must be greater than 0'') else Inr result)"

section \<open>TrafficRate\<close>

definition MILLI_Mbps :: int where "MILLI_Mbps = 1000"

definition BITS_PER_MILLI_Mbps :: int where "BITS_PER_MILLI_Mbps = 1000"

definition TrafficRate_fromMbps :: "int \<Rightarrow> js_error + int" where
  "TrafficRate_fromMbps milli =
     (if milli \<le> 0 then Inl (Error ''Traffic rate must be greater than zero'') else Inr milli)"

definition TrafficRate_fromWholeMbps :: "int \<Rightarrow> js_error + int" where
  "TrafficRate_fromWholeMbps mbps =
     (if mbps \<le> 0 then Inl (Error ''Traffic rate must be greater than zero'')
      else Inr (mbps * MILLI_Mbps))"

definition TrafficRate_toBitsPerSecond :: "int \<Rightarrow> int" where
  "TrafficRate_toBitsPerSecond r = r * BITS_PER_MILLI_Mbps"

definition TrafficRate_toTcRate :: "int \<Rightarrow> string" where
  "TrafficRate_toTcRate r = showInt (TrafficRate_toBitsPerSecond r) @ ''bit''"

text \<open>\<open>.replace(/0+$/, "")\<close>\<close>

definition stripTrailingZeros :: "string \<Rightarrow> string" where
  "stripTrailingZeros s = rev (dropWhile (\<lambda>c. c = CHR ''0'') (rev s))"

definition TrafficRate_toMbps :: "int \<Rightarrow> string" where
  "TrafficRate_toMbps r =
     (let whole = r sdiv MILLI_Mbps; fraction = r smod MILLI_Mbps
      in if fraction = 0 then showInt whole
         else showInt whole @ ''.'' @ stripTrailingZeros (padStart 3 (CHR ''0'') (showInt fraction)))"

definition formatMbps :: "int \<Rightarrow> string" where
  "formatMbps milliMbps =
     (let whole = milliMbps sdiv 1000; fraction = milliMbps smod 1000
      in if fraction = 0 then showInt whole
         else showInt whole @ ''.'' @ stripTrailingZeros (padStart 3 (CHR ''0'') (showInt fraction)))"

definition formatRateMbps :: "int option \<Rightarrow> string option" where
  "formatRateMbps milliMbps = map_option (\<lambda>m.
     (let whole = m sdiv 1000; fraction = m smod 1000
      in if fraction = 0 then showInt whole
         else showInt whole @ ''.'' @ stripTrailingZeros (padStart 3 (CHR ''0'') (showInt fraction))))
     milliMbps"

section \<open>DefaultTrafficPolicyValidator\<close>

definition MILLI_Mbps_PER_Mbps :: int where "MILLI_Mbps_PER_Mbps = 1000"

definition validateTrafficPolicy :: "int \<Rightarrow> Device \<Rightarrow> int \<Rightarrow> js_error + unit" where
  "validateTrafficPolicy uplinkBandwidthMbps device rateMbps =
     (if d_ip device = None then Inl (Error (''Device '' @ d_mac device @ '' has no IP address''))
      else if rateMbps \<le> 0 then Inl (Error ''Traffic rate must be greater than zero'')
      else let maxRateMilliMbps = uplinkBandwidthMbps * MILLI_Mbps_PER_Mbps
      in if rateMbps > maxRateMilliMbps
           then Inl (Error (''Traffic rate '' @ formatMbps rateMbps @
             '' Mbps exceeds uplink bandwidth '' @ showInt uplinkBandwidthMbps @ '' Mbps''))
         else Inr ())"

section \<open>Lemmas\<close>

lemma sdiv_nonneg: "0 \<le> a \<Longrightarrow> 0 < b \<Longrightarrow> a sdiv b = a div (b :: int)"
  by (cases "a = 0") (simp_all add: signed_divide_int_def)

lemma smod_nonneg: "0 \<le> a \<Longrightarrow> 0 < b \<Longrightarrow> a smod b = a mod (b :: int)"
  by (cases "a = 0") (simp_all add: signed_modulo_int_def)

lemma showInt_nonneg: "0 \<le> i \<Longrightarrow> showInt i = showNat (nat i)"
  by (simp add: showInt_def)

lemma stripTrailingZeros_split:
  "s = stripTrailingZeros s @ replicate (length s - length (stripTrailingZeros s)) (CHR ''0'')"
proof -
  let ?z = "takeWhile (\<lambda>c. c = CHR ''0'') (rev s)" and ?d = "dropWhile (\<lambda>c. c = CHR ''0'') (rev s)"
  have "?z = replicate (length ?z) (CHR ''0'')"
    by (rule replicate_length_same [symmetric]) (auto dest: set_takeWhileD)
  moreover have "s = rev ?d @ rev ?z" by (metis rev_append rev_rev_ident takeWhile_dropWhile_id)
  ultimately have "s = stripTrailingZeros s @ replicate (length ?z) (CHR ''0'')"
    by (metis rev_replicate stripTrailingZeros_def)
  then show ?thesis by (metis add_diff_cancel_left' length_append length_replicate)
qed

lemma padEnd_stripTrailingZeros:
  "length s = n \<Longrightarrow> padEnd n (CHR ''0'') (stripTrailingZeros s) = s"
  using stripTrailingZeros_split [of s] by (simp add: padEnd_def)

lemma set_stripTrailingZeros: "set (stripTrailingZeros s) \<subseteq> set s"
  using stripTrailingZeros_split [of s] by (metis set_append sup_ge1)

lemma length_stripTrailingZeros: "length (stripTrailingZeros s) \<le> length s"
  using stripTrailingZeros_split [of s] by (metis length_append le_add1)

lemma padStart_digits:
  assumes "n < 10 ^ k" "0 < k"
  shows "length (padStart k (CHR ''0'') (showNat n)) = k"
    and "readNat (padStart k (CHR ''0'') (showNat n)) = n"
    and "\<forall>c \<in> set (padStart k (CHR ''0'') (showNat n)). isDigit c"
  using length_showNat [OF assms] showNat_digits [of n]
  by (auto simp: padStart_def readNat_append2 isDigit_def)

text \<open>The fraction printed for \<open>0 < f < 1000\<close> reads back when it is padded to three places.\<close>

lemma fraction_text:
  assumes "0 < f" "f < (1000::nat)"
  defines "t \<equiv> stripTrailingZeros (padStart 3 (CHR ''0'') (showNat f))"
  shows "t \<noteq> []" and "length t \<le> 3" and "\<forall>c \<in> set t. isDigit c"
    and "readNat (padEnd 3 (CHR ''0'') t) = f"
proof -
  let ?p = "padStart 3 (CHR ''0'') (showNat f)"
  have p: "length ?p = 3" "readNat ?p = f" "\<forall>c \<in> set ?p. isDigit c"
    using padStart_digits [of f 3] assms(2) by simp_all
  then have pad: "padEnd 3 (CHR ''0'') t = ?p" by (simp add: t_def padEnd_stripTrailingZeros)
  show "readNat (padEnd 3 (CHR ''0'') t) = f" using pad p(2) by simp
  show "length t \<le> 3" using length_stripTrailingZeros [of ?p] p(1) by (simp add: t_def)
  show "\<forall>c \<in> set t. isDigit c" using set_stripTrailingZeros [of ?p] p(3) by (auto simp: t_def)
  show "t \<noteq> []"
  proof
    assume "t = []"
    with pad p(2) have "f = readNat (replicate 3 (CHR ''0''))" by (simp add: padEnd_def)
    with assms(1) show False by (simp only: readNat_zeros)
  qed
qed

lemma digits_no_sep: "\<forall>c \<in> set s. isDigit c \<Longrightarrow> CHR ''.'' \<notin> set s"
  by (auto simp: isDigit_def)

lemma digits_trim:
  assumes "s \<noteq> []" "\<forall>c \<in> set s. isDigit c \<or> c = CHR ''.''"
  shows "trim s = s"
proof (rule trim_id)
  have "isDigit c \<or> c = CHR ''.'' \<Longrightarrow> \<not> isSpace c" for c by (auto simp: isDigit_def isSpace_def)
  with assms show "s = [] \<or> \<not> isSpace (hd s) \<and> \<not> isSpace (last s)" by simp
qed

text \<open>What the parser does on a numeral with and without a fraction.\<close>

lemma parse_whole:
  assumes "w \<noteq> []" "\<forall>c \<in> set w. isDigit c"
  shows "parseRateMbps (Text w) = (if readNat w = 0 then Inl (Error ''rateMbps must be greater than 0'')
     else Inr (int (readNat w) * 1000))"
proof -
  have "trim w = w" "splitOn (CHR ''.'') w = [w]"
    using assms digits_trim [of w] by (auto simp: splitOn_no_sep digits_no_sep)
  moreover have "readNat (padEnd 3 (CHR ''0'') []) = 0"
    using readNat_zeros [of 3] by (simp only: padEnd_def) simp
  moreover have "padEnd 3 (CHR ''0'') [] \<noteq> []" by (simp add: padEnd_def)
  ultimately show ?thesis using assms
    by (simp add: DECIMAL_REGEX_def SCALE_def list_all_iff)
qed

lemma parse_fraction:
  assumes "w \<noteq> []" "\<forall>c \<in> set w. isDigit c" "f \<noteq> []" "\<forall>c \<in> set f. isDigit c" "length f \<le> 3"
  defines "n \<equiv> readNat w * 1000 + readNat (padEnd 3 (CHR ''0'') f)"
  shows "parseRateMbps (Text (w @ ''.'' @ f)) =
     (if n = 0 then Inl (Error ''rateMbps must be greater than 0'') else Inr (int n))"
proof -
  have "trim (w @ ''.'' @ f) = w @ ''.'' @ f"
    using assms by (intro digits_trim) auto
  moreover have "splitOn (CHR ''.'') (w @ ''.'' @ f) = [w, f]"
    using assms by (simp add: splitOn_append splitOn_no_sep digits_no_sep)
  moreover have "padEnd 3 (CHR ''0'') f \<noteq> []" using assms by (simp add: padEnd_def)
  ultimately show ?thesis using assms
    by (auto simp: DECIMAL_REGEX_def SCALE_def list_all_iff n_def)
qed

lemma toMbps_cases:
  assumes "0 < r"
  obtains "r mod 1000 = 0" "TrafficRate_toMbps r = showNat (nat r div 1000)"
  | f where "f = nat (r mod 1000)" "0 < f" "f < 1000"
      "TrafficRate_toMbps r = showNat (nat r div 1000) @ ''.'' @
         stripTrailingZeros (padStart 3 (CHR ''0'') (showNat f))"
proof (cases "r mod 1000 = 0")
  case True
  then have "TrafficRate_toMbps r = showNat (nat r div 1000)"
    using assms by (simp add: TrafficRate_toMbps_def MILLI_Mbps_def showInt_nonneg
        sdiv_nonneg smod_nonneg nat_div_distrib)
  with True show ?thesis by (rule that(1))
next
  case False
  let ?f = "nat (r mod 1000)"
  have m: "0 < r mod 1000" using False pos_mod_sign [of 1000 r] by linarith
  have "TrafficRate_toMbps r = showNat (nat r div 1000) @ ''.'' @
         stripTrailingZeros (padStart 3 (CHR ''0'') (showNat ?f))"
    using assms m by (simp add: TrafficRate_toMbps_def MILLI_Mbps_def showInt_nonneg
        sdiv_nonneg smod_nonneg nat_div_distrib)
  with m show ?thesis by (intro that(2) [of ?f]) auto
qed

lemma parse_toMbps:
  assumes "0 < r"
  shows "parseRateMbps (Text (TrafficRate_toMbps r)) = Inr r"
  using assms
proof (cases rule: toMbps_cases)
  case 1
  have "int (nat r div 1000) * 1000 = r"
    using 1(1) assms div_mult_mod_eq [of r 1000] by (simp add: zdiv_int del: div_mult_mod_eq)
  moreover from this assms have "nat r div 1000 \<noteq> 0" by (intro notI) simp
  ultimately have "int (nat r div 1000) * 1000 = r" "nat r div 1000 \<noteq> 0" .
  with 1 show ?thesis by (simp add: parse_whole showNat_digits del: parseRateMbps.simps)
next
  case (2 f)
  have "int (nat r div 1000) * 1000 + r mod 1000 = r"
    using assms by (simp add: zdiv_int div_mult_mod_eq)
  then have "int (nat r div 1000 * 1000 + f) = r" using 2(1) by simp
  moreover have "nat r div 1000 * 1000 + f \<noteq> 0" using 2(2) by simp
  ultimately show ?thesis
    using 2 fraction_text [of f]
    by (simp add: parse_fraction showNat_digits del: parseRateMbps.simps append.simps)
qed

lemma formatMbps_toMbps: "formatMbps r = TrafficRate_toMbps r"
  by (simp add: formatMbps_def TrafficRate_toMbps_def MILLI_Mbps_def)

lemma formatRateMbps_toMbps: "formatRateMbps r = map_option TrafficRate_toMbps r"
  by (cases r) (simp_all add: formatRateMbps_def TrafficRate_toMbps_def MILLI_Mbps_def)

lemma parse_positive: "parseRateMbps (Text s) = Inr r \<Longrightarrow> 0 < r"
  by (auto simp: Let_def split: if_splits)

lemma readNat_padEnd: "readNat (padEnd k (CHR ''0'') f) = readNat f * 10 ^ (k - length f)"
  by (simp add: padEnd_def readNat_append2)

lemma DECIMAL_REGEX_cases:
  assumes "DECIMAL_REGEX s"
  obtains "splitOn (CHR ''.'') s = [s]" "s \<noteq> []" "\<forall>c \<in> set s. isDigit c"
  | w f where "s = w @ ''.'' @ f" "splitOn (CHR ''.'') s = [w, f]" "w \<noteq> []" "\<forall>c \<in> set w. isDigit c"
      "f \<noteq> []" "\<forall>c \<in> set f. isDigit c"
proof -
  let ?ps = "splitOn (CHR ''.'') s"
  have ps: "\<forall>p \<in> set ?ps. p \<noteq> [] \<and> (\<forall>c \<in> set p. isDigit c)"
    using assms by (auto simp: DECIMAL_REGEX_def Let_def list_all_iff)
  have join: "joinWith ''.'' ?ps = s" by (rule joinWith_splitOn)
  from assms consider "length ?ps = 1" | "length ?ps = 2" by (auto simp: DECIMAL_REGEX_def Let_def)
  then show ?thesis
  proof cases
    case 1
    then obtain w where w: "?ps = [w]" by (cases ?ps) auto
    with join have "w = s" by simp
    with w ps show ?thesis by (intro that(1)) auto
  next
    case 2
    then obtain w f where wf: "?ps = [w, f]" by (cases ?ps; cases "tl ?ps") auto
    with join have "s = w @ ''.'' @ f" by simp
    with wf ps show ?thesis by (intro that(2) [of w f]) auto
  qed
qed

section \<open>Properties\<close>

text \<open>
  C4. Rates survive a trip through the API: the decimal text a positive rate in milli-Mbps is
  printed as, by \<open>TrafficRate.toMbps\<close>, by \<open>formatMbps\<close> and by \<open>formatRateMbps\<close> alike, is
  parsed back by \<open>parseRateMbps\<close> to the same rate.
\<close>

theorem rate_text_roundtrip:
  assumes "0 < r"
  shows "parseRateMbps (Text (TrafficRate_toMbps r)) = Inr r \<and>
    parseRateMbps (Text (formatMbps r)) = Inr r \<and>
    map_option (\<lambda>t. parseRateMbps (Text t)) (formatRateMbps (Some r)) = Some (Inr r)"
  using parse_toMbps [OF assms] by (simp add: formatMbps_toMbps formatRateMbps_toMbps del: parseRateMbps.simps)

theorem rate_text_roundtrip_witness:
  "TrafficRate_toMbps 1250 = ''1.25'' \<and> parseRateMbps (Text (TrafficRate_toMbps 1250)) = Inr 1250"
proof
  show "TrafficRate_toMbps 1250 = ''1.25''" by code_simp
  show "parseRateMbps (Text (TrafficRate_toMbps 1250)) = Inr 1250"
    using rate_text_roundtrip [of 1250] by (simp del: parseRateMbps.simps)
qed

text \<open>
  C5. \<open>parseRateMbps\<close> is exact and positive: an accepted text is a whole part and at most three
  fraction digits, and the result is the decimal value times 1000 without rounding.
\<close>

theorem parseRate_exact:
  assumes "parseRateMbps (Text s) = Inr r"
  shows "0 < r \<and> (\<exists>w f. trim s = (if f = [] then w else w @ ''.'' @ f) \<and> w \<noteq> [] \<and>
    (\<forall>c \<in> set (w @ f). isDigit c) \<and> length f \<le> 3 \<and> r * 10 ^ length f = int (readNat (w @ f)) * 1000)"
proof
  show "0 < r" using assms by (rule parse_positive)
  have t: "parseRateMbps (Text (trim s)) = Inr r"
    using assms by (auto simp: Let_def split: if_splits)
  have "DECIMAL_REGEX (trim s)" using assms by (auto simp: Let_def split: if_splits)
  then show "\<exists>w f. trim s = (if f = [] then w else w @ ''.'' @ f) \<and> w \<noteq> [] \<and>
    (\<forall>c \<in> set (w @ f). isDigit c) \<and> length f \<le> 3 \<and> r * 10 ^ length f = int (readNat (w @ f)) * 1000"
  proof (cases rule: DECIMAL_REGEX_cases)
    case 1
    with t have "r = int (readNat (trim s)) * 1000"
      by (simp add: parse_whole del: parseRateMbps.simps split: if_splits)
    with 1 show ?thesis by (rule_tac x = "trim s" in exI, rule_tac x = "[]" in exI) simp
  next
    case (2 w f)
    have len: "length f \<le> 3"
      using assms 2 by (auto simp: Let_def split: if_splits)
    with t 2 have "r = int (readNat w * 1000 + readNat f * 10 ^ (3 - length f))"
      by (simp add: parse_fraction readNat_padEnd del: parseRateMbps.simps append.simps split: if_splits)
    moreover have "(10::int) ^ (3 - length f) * 10 ^ length f = 1000"
      using len by (simp flip: power_add)
    ultimately have "r * 10 ^ length f = int (readNat (w @ f)) * 1000"
      by (simp add: readNat_append2 algebra_simps)
    with 2 len show ?thesis by (rule_tac x = w in exI, rule_tac x = f in exI) auto
  qed
qed

theorem parseRate_exact_witness:
  "parseRateMbps (Text '' 0.5 '') = Inr 500 \<and> 0 < (500 :: int)"
proof -
  have "parseRateMbps (Text '' 0.5 '') = Inr 500" by code_simp
  with parseRate_exact [OF this] show ?thesis by blast
qed


end
