(* ===== verification/Tc.thy ===== *)
theory Tc
  imports Values Rates Regex
begin

text \<open>
  Traffic control commands and readers of \<open>infrastructure/enforcement\<close>: \<open>TcBuilder\<close> and
  \<open>LinuxTcStateReader\<close>. The executor of system commands is an argument: it gets the command
  and its arguments and returns standard output and standard error, or throws.
\<close>

type_synonym 's Exec = "string \<Rightarrow> string list \<Rightarrow> ('s, string \<times> string) prog"

section \<open>TcBuilder\<close>

definition addHtbRootQdisc :: "string \<Rightarrow> string list" where
  "addHtbRootQdisc iface = [''qdisc'', ''add'', ''dev'', iface,
     ''root'', ''handle'', ''1:'', ''htb'', ''default'', ''1'']"

definition replaceHtbRootQdisc :: "string \<Rightarrow> string list" where
  "replaceHtbRootQdisc iface = [''qdisc'', ''replace'', ''dev'', iface,
     ''root'', ''handle'', ''1:'', ''htb'', ''default'', ''1'']"

definition addRootClass :: "string \<Rightarrow> string \<Rightarrow> string list" where
  "addRootClass iface rate = [''class'', ''add'', ''dev'', iface,
     ''parent'', ''1:'', ''classid'', ''1:1'', ''htb'', ''rate'', rate, ''ceil'', rate]"

definition changeRootClass :: "string \<Rightarrow> string \<Rightarrow> string list" where
  "changeRootClass iface rate = [''class'', ''change'', ''dev'', iface,
     ''classid'', ''1:1'', ''htb'', ''rate'', rate, ''ceil'', rate]"

definition addClass :: "string \<Rightarrow> string \<Rightarrow> string \<Rightarrow> string list" where
  "addClass iface classId rate = [''class'', ''add'', ''dev'', iface,
     ''parent'', ''1:1'', ''classid'', ''1:'' @ classId, ''htb'', ''rate'', rate, ''ceil'', rate]"

definition changeClassRate :: "string \<Rightarrow> string \<Rightarrow> string \<Rightarrow> string list" where
  "changeClassRate iface classId rate = [''class'', ''change'', ''dev'', iface,
     ''classid'', ''1:'' @ classId, ''htb'', ''rate'', rate, ''ceil'', rate]"

definition addDownloadFilterByIp :: "string \<Rightarrow> string \<Rightarrow> string \<Rightarrow> nat \<Rightarrow> string list" where
  "addDownloadFilterByIp iface ip classId priority = [''filter'', ''add'', ''dev'', iface,
     ''protocol'', ''ip'', ''parent'', ''1:'', ''prio'', showNat priority,
     ''u32'', ''match'', ''ip'', ''dst'', ip @ ''/32'', ''flowid'', ''1:'' @ classId]"

definition addUploadFilterByIp :: "string \<Rightarrow> string \<Rightarrow> string \<Rightarrow> nat \<Rightarrow> string list" where
  "addUploadFilterByIp iface ip classId priority = [''filter'', ''add'', ''dev'', iface,
     ''protocol'', ''ip'', ''parent'', ''1:'', ''prio'', showNat priority,
     ''u32'', ''match'', ''ip'', ''src'', ip @ ''/32'', ''flowid'', ''1:'' @ classId]"

definition deleteFilter :: "string \<Rightarrow> nat \<Rightarrow> string list" where
  "deleteFilter iface priority =
     [''filter'', ''del'', ''dev'', iface, ''parent'', ''1:'', ''pref'', showNat priority]"

definition deleteClass :: "string \<Rightarrow> string \<Rightarrow> string list" where
  "deleteClass iface classId = [''class'', ''del'', ''dev'', iface, ''classid'', ''1:'' @ classId]"

definition deleteRootQdisc :: "string \<Rightarrow> string list" where
  "deleteRootQdisc iface = [''qdisc'', ''del'', ''dev'', iface, ''root'']"

section \<open>TcStateReader\<close>

text \<open>States that carry \<open>exists: false\<close> have all their other fields null: they are \<open>None\<close>.\<close>

record TcDeviceClassState =
  tc_classId :: string
  tc_rate :: "string option"
  tc_ceil :: "string option"

record TcDeviceFilterState =
  tf_classId :: string
  tf_priority :: nat
  tf_ip :: "string option"

record 's TcStateReader =
  sr_getClassState :: "string \<Rightarrow> string \<Rightarrow> ('s, (string option \<times> string option) option) prog"
  sr_getRootQdiscState :: "string \<Rightarrow> ('s, string option) prog"
  sr_getRootClassState :: "string \<Rightarrow> ('s, (string option \<times> string option) option) prog"
  sr_getFilterState :: "string \<Rightarrow> string \<Rightarrow> ('s, (string option \<times> nat) option) prog"
  sr_getDeviceClasses :: "string \<Rightarrow> ('s, TcDeviceClassState list) prog"
  sr_getDeviceFilters :: "string \<Rightarrow> ('s, TcDeviceFilterState list) prog"

definition normalizeClassId :: "string \<Rightarrow> string" where
  "normalizeClassId classId =
     (let normalized = stripLeadingZeros (toLowerCase (trim classId))
      in if normalized = [] then ''0'' else normalized)"

text \<open>
  \<open>/^\s*class\s+htb\s+1:([0-9a-f]+)\b.*$/i\<close>; the tail \<open>.*$\<close> accepts what is left of a line.
\<close>

definition htbClassPattern :: "item list list" where
  "htbClassPattern = [[Start, Rep isSpace 0 None] @ liti ''class'' @ [spaces1] @ liti ''htb'' @ [spaces1] @
     lit ''1:'' @ [Open, Rep isHex 1 None, Close, Bound]]"

definition parseHtbClass :: "string \<Rightarrow> TcDeviceClassState option" where
  "parseHtbClass line = (case rxGroup htbClassPattern line of
      None \<Rightarrow> None
    | Some classId \<Rightarrow> Some \<lparr>tc_classId = normalizeClassId classId,
        tc_rate = rxGroup (wordToken ''rate'') line,
        tc_ceil = rxGroup (wordToken ''ceil'') line\<rparr>)"

definition htbClasses :: "string \<Rightarrow> TcDeviceClassState list" where
  "htbClasses stdout = List.map_filter parseHtbClass (splitOn CHR 0x0A stdout)"

definition findClass :: "string \<Rightarrow> string \<Rightarrow> (string option \<times> string option) option" where
  "findClass target stdout = map_option (\<lambda>p. (tc_rate p, tc_ceil p))
     (find (\<lambda>p. tc_classId p = target) (htbClasses stdout))"

definition tc_getClassState :: "'s Exec \<Rightarrow> string \<Rightarrow> string \<Rightarrow> ('s, (string option \<times> string option) option) prog" where
  "tc_getClassState exec iface classId =
     bnd (exec ''tc'' [''class'', ''show'', ''dev'', iface]) (\<lambda>result.
     ret (findClass (normalizeClassId classId) (fst result)))"

text \<open>\<open>/\bqdisc\s+htb\s+1:\s+root\b/\<close>\<close>

definition rootQdiscPattern :: "item list list" where
  "rootQdiscPattern = [[Bound] @ lit ''qdisc'' @ [spaces1] @ lit ''htb'' @ [spaces1] @ lit ''1:'' @
     [spaces1] @ lit ''root'' @ [Bound]]"

definition tc_getRootQdiscState :: "'s Exec \<Rightarrow> string \<Rightarrow> ('s, string option) prog" where
  "tc_getRootQdiscState exec iface =
     bnd (exec ''tc'' [''qdisc'', ''show'', ''dev'', iface]) (\<lambda>result.
     ret (case find (rxTest rootQdiscPattern) (splitOn CHR 0x0A (fst result)) of
            None \<Rightarrow> None
          | Some _ \<Rightarrow> Some ''htb''))"

definition tc_getRootClassState :: "'s Exec \<Rightarrow> string \<Rightarrow> ('s, (string option \<times> string option) option) prog" where
  "tc_getRootClassState exec iface =
     bnd (exec ''tc'' [''class'', ''show'', ''dev'', iface]) (\<lambda>result.
     ret (findClass ''1'' (fst result)))"

definition tc_getDeviceClasses :: "'s Exec \<Rightarrow> string \<Rightarrow> ('s, TcDeviceClassState list) prog" where
  "tc_getDeviceClasses exec iface =
     bnd (exec ''tc'' [''class'', ''show'', ''dev'', iface]) (\<lambda>result.
     ret (filter (\<lambda>p. tc_classId p \<noteq> ''1'') (htbClasses (fst result))))"

subsection \<open>Filters\<close>

text \<open>
  The reader walks the lines with the priority and address of the filter it is in and the lines
  seen since the filter began.
\<close>

record FilterScan =
  fs_priority :: "nat option"
  fs_ip :: "string option"
  fs_block :: "string list"
  fs_filters :: "TcDeviceFilterState list"

definition textualIp :: "item list list" where
  "textualIp = map (\<lambda>w. [Bound] @ lit w @ [spaces1, Open] @ dottedQuad @ [Close] @ lit ''/32'' @ [Bound])
     [''dst'', ''src'']"

definition flowPattern :: "item list list" where
  "flowPattern = [[Bound] @ liti ''flowid'' @ [spaces1] @ lit ''1:'' @ [Open, Rep isHex 1 None, Close, Bound]]"

definition rawMatch :: "item list list" where
  "rawMatch = [[Bound] @ liti ''match'' @ [spaces1, Open, Rep isHex 8 (Some 8), Close] @ liti ''/ffffffff'' @ [Bound]]"

definition decodeIpv4 :: "string \<Rightarrow> string option" where
  "decodeIpv4 hex =
     (if length hex \<noteq> 8 then None
      else let octets = map (\<lambda>i. parseIntHex (take 2 (drop i hex))) [0, 2, 4, 6]
           in if \<exists>v\<in>set octets. v = None \<or> the v > 255 then None
              else Some (joinWith ''.'' (map (\<lambda>v. showNat (the v)) octets)))"

definition orElse :: "'a option \<Rightarrow> 'a option \<Rightarrow> 'a option" where
  "orElse x y = (if x = None then y else x)"

definition filterLine :: "string \<Rightarrow> FilterScan \<Rightarrow> FilterScan" where
  "filterLine line scan =
     (let begun = (case rxGroup (wordNumber ''pref'') line of
                     None \<Rightarrow> scan\<lparr>fs_block := fs_block scan @ [line]\<rparr>
                   | Some n \<Rightarrow> scan\<lparr>fs_priority := Some (readNat n), fs_ip := None, fs_block := [line]\<rparr>);
          begun = (case rxGroup textualIp line of None \<Rightarrow> begun | Some ip \<Rightarrow> begun\<lparr>fs_ip := Some ip\<rparr>)
      in case (rxGroup flowPattern line, fs_priority begun) of
           (Some flow, Some priority) \<Rightarrow>
             (let classId = normalizeClassId flow in
              if classId = ''1'' then begun
              else let block = joinWith '' '' (fs_block begun);
                       ip = orElse (fs_ip begun) (orElse (rxGroup textualIp block)
                              (case rxGroup rawMatch block of None \<Rightarrow> None | Some hex \<Rightarrow> decodeIpv4 hex))
                   in begun\<lparr>fs_ip := ip,
                        fs_filters := fs_filters begun @
                          [\<lparr>tf_classId = classId, tf_priority = priority, tf_ip = ip\<rparr>]\<rparr>)
         | _ \<Rightarrow> begun)"

definition parseFilters :: "string \<Rightarrow> TcDeviceFilterState list" where
  "parseFilters stdout = fs_filters (fold filterLine (splitOn CHR 0x0A stdout)
     \<lparr>fs_priority = None, fs_ip = None, fs_block = [], fs_filters = []\<rparr>)"

definition tc_getDeviceFilters :: "'s Exec \<Rightarrow> string \<Rightarrow> ('s, TcDeviceFilterState list) prog" where
  "tc_getDeviceFilters exec iface =
     bnd (exec ''tc'' [''filter'', ''show'', ''dev'', iface, ''parent'', ''1:'']) (\<lambda>result.
     ret (parseFilters (fst result)))"

definition tc_getFilterState :: "'s Exec \<Rightarrow> string \<Rightarrow> string \<Rightarrow> ('s, (string option \<times> nat) option) prog" where
  "tc_getFilterState exec iface classId =
     bnd (tc_getDeviceFilters exec iface) (\<lambda>filters.
     ret (map_option (\<lambda>f. (tf_ip f, tf_priority f))
       (find (\<lambda>f. tf_classId f = normalizeClassId classId) filters)))"

definition linuxTcStateReader :: "'s Exec \<Rightarrow> 's TcStateReader" where
  "linuxTcStateReader exec = \<lparr>sr_getClassState = tc_getClassState exec,
     sr_getRootQdiscState = tc_getRootQdiscState exec, sr_getRootClassState = tc_getRootClassState exec,
     sr_getFilterState = tc_getFilterState exec, sr_getDeviceClasses = tc_getDeviceClasses exec,
     sr_getDeviceFilters = tc_getDeviceFilters exec\<rparr>"

end
