(* ===== verification/Ifb.thy ===== *)
theory Ifb
  imports Tc
begin

text \<open>
  The managers of the intermediate functional block device: the interface \<open>IfbManager\<close>,
  \<open>DirectTargetManager\<close> and \<open>LinuxIfbManager\<close>, which redirects the ingress of the physical
  interface to \<open>ifb0\<close> with one \<open>flower\<close> filter per address.
\<close>

record 's IfbManager =
  im_getName :: string
  im_exists :: "('s, bool) prog"
  im_ensure :: "string \<Rightarrow> ('s, string) prog"
  im_ensureUploadRedirect :: "string \<Rightarrow> string \<Rightarrow> ('s, unit) prog"
  im_removeUploadIp :: "string \<Rightarrow> string \<Rightarrow> ('s, unit) prog"
  im_removeAllUploadRedirects :: "string \<Rightarrow> ('s, unit) prog"
  im_reconcileUploadRedirects :: "string \<Rightarrow> string list \<Rightarrow> ('s, unit) prog"
  im_ensureDownloadRedirect :: "string \<Rightarrow> string \<Rightarrow> ('s, unit) prog"
  im_removeDownloadIp :: "string \<Rightarrow> string \<Rightarrow> ('s, unit) prog"
  im_removeAllDownloadRedirects :: "string \<Rightarrow> ('s, unit) prog"
  im_remove :: "string \<Rightarrow> ('s, unit) prog"

definition directTargetManager :: "string \<Rightarrow> 's IfbManager" where
  "directTargetManager targetInterface = \<lparr>im_getName = targetInterface,
     im_exists = ret True, im_ensure = (\<lambda>_. ret targetInterface),
     im_ensureUploadRedirect = (\<lambda>_ _. skip), im_removeUploadIp = (\<lambda>_ _. skip),
     im_removeAllUploadRedirects = (\<lambda>_. skip), im_reconcileUploadRedirects = (\<lambda>_ _. skip),
     im_ensureDownloadRedirect = (\<lambda>_ _. skip), im_removeDownloadIp = (\<lambda>_ _. skip),
     im_removeAllDownloadRedirects = (\<lambda>_. skip), im_remove = (\<lambda>_. skip)\<rparr>"

section \<open>Errors of the tools\<close>

definition messageHas :: "js_error \<Rightarrow> string \<Rightarrow> bool" where
  "messageHas e w \<longleftrightarrow> hasSubstr w (toLowerCase (errorMessage e))"

definition isMissingDeviceError :: "js_error \<Rightarrow> bool" where
  "isMissingDeviceError e \<longleftrightarrow> messageHas e ''cannot find device'' \<or> messageHas e ''cannot find dev'' \<or>
     messageHas e ''no such device'' \<or>
     messageHas e (''device '' @ [CHR 0x22] @ ''ifb0'' @ [CHR 0x22] @ '' does not exist'')"

definition isMissingIngressQdiscError :: "js_error \<Rightarrow> bool" where
  "isMissingIngressQdiscError e \<longleftrightarrow> messageHas e ''invalid handle'' \<or> messageHas e ''cannot find ingress'' \<or>
     messageHas e ''ingress qdisc'' \<and> messageHas e ''not found'' \<or>
     messageHas e ''no such file or directory'' \<or>
     messageHas e ''cannot delete qdisc'' \<and> messageHas e ''not found''"

definition isMissingFilterError :: "js_error \<Rightarrow> bool" where
  "isMissingFilterError e \<longleftrightarrow> messageHas e ''cannot find filter'' \<or>
     messageHas e ''filter protocol'' \<and> messageHas e ''not found'' \<or>
     messageHas e ''no such file or directory''"

text \<open>\<open>try { await execute(...) } catch (error) { if (!benign(error)) throw error; }\<close>\<close>

definition execTolerant :: "(js_error \<Rightarrow> bool) \<Rightarrow> 's Exec \<Rightarrow> string \<Rightarrow> string list \<Rightarrow> ('s, unit) prog" where
  "execTolerant benign exec command args =
     tryCatch (thn (exec command args) skip) (\<lambda>e. if benign e then skip else throw e)"

section \<open>Redirect filters\<close>

datatype Direction = Src | Dst

record RedirectFilter =
  rf_priority :: nat
  rf_ip :: "string option"
  rf_device :: "string option"
  rf_direction :: "Direction option"

text \<open>\<open>\b<word>\s+([0-9]{1,3}(?:\.[0-9]{1,3}){3})\b\<close> and \<open>\bredirect\s+dev\s+(\S+)\<close>\<close>

definition wordQuad :: "string \<Rightarrow> item list list" where
  "wordQuad w = [[Bound] @ lit w @ [spaces1, Open] @ dottedQuad @ [Close, Bound]]"

definition redirectDev :: "item list list" where
  "redirectDev = [[Bound] @ lit ''redirect'' @ [spaces1] @ lit ''dev'' @
     [spaces1, Open, Rep (\<lambda>c. \<not> isSpace c) 1 None, Close]]"

record RedirectScan =
  rs_priority :: "nat option"
  rs_ip :: "string option"
  rs_device :: "string option"
  rs_direction :: "Direction option"
  rs_filters :: "RedirectFilter list"

definition redirectLine :: "string \<Rightarrow> RedirectScan \<Rightarrow> RedirectScan" where
  "redirectLine line scan =
     (let scan = (case rxGroup (wordNumber ''pref'') line of
                    None \<Rightarrow> scan
                  | Some n \<Rightarrow> scan\<lparr>rs_priority := Some (readNat n), rs_ip := None,
                                 rs_device := None, rs_direction := None\<rparr>);
          srcIp = rxGroup (wordQuad ''src_ip'') line;
          dstIp = rxGroup (wordQuad ''dst_ip'') line;
          scan = (if srcIp \<noteq> None then scan\<lparr>rs_ip := srcIp, rs_direction := Some Src\<rparr>
                  else if dstIp \<noteq> None then scan\<lparr>rs_ip := dstIp, rs_direction := Some Dst\<rparr>
                  else scan);
          device = rxGroup redirectDev line;
          scan = (if device \<noteq> None then scan\<lparr>rs_device := device\<rparr> else scan)
      in case rs_priority scan of
           None \<Rightarrow> scan
         | Some priority \<Rightarrow>
             if srcIp = None \<and> dstIp = None \<and> device = None then scan
             else let entry = \<lparr>rf_priority = priority, rf_ip = rs_ip scan, rf_device = rs_device scan,
                        rf_direction = rs_direction scan\<rparr>;
                      filters = rs_filters scan
                  in scan\<lparr>rs_filters :=
                       (if filters \<noteq> [] \<and> rf_priority (last filters) = priority
                        then butlast filters @ [entry] else filters @ [entry])\<rparr>)"

definition parseRedirectFilters :: "string \<Rightarrow> RedirectFilter list" where
  "parseRedirectFilters output = rs_filters (fold redirectLine (splitOn CHR 0x0A output)
     \<lparr>rs_priority = None, rs_ip = None, rs_device = None, rs_direction = None, rs_filters = []\<rparr>)"

section \<open>Priorities\<close>

definition MIN_PRIORITY :: nat where
  "MIN_PRIORITY = 100"

definition MAX_PRIORITY :: nat where
  "MAX_PRIORITY = 65535"

text \<open>
  The loop over the offsets \<open>0 .. span - 1\<close>: candidates run through the range from \<open>base\<close> on
  and wrap around. All bases of the program are at least the minimum.
\<close>

definition candidatePriority :: "nat \<Rightarrow> nat \<Rightarrow> nat" where
  "candidatePriority base offset =
     MIN_PRIORITY + (base - MIN_PRIORITY + offset) mod (MAX_PRIORITY - MIN_PRIORITY + 1)"

fun probePriority :: "nat \<Rightarrow> nat \<Rightarrow> nat \<Rightarrow> nat list \<Rightarrow> nat option" where
  "probePriority 0 base offset used = None"
| "probePriority (Suc n) base offset used =
     (let candidate = candidatePriority base offset
      in if candidate \<notin> set used then Some candidate else probePriority n base (Suc offset) used)"

definition availablePriority :: "nat \<Rightarrow> nat list \<Rightarrow> nat option" where
  "availablePriority base used = probePriority (MAX_PRIORITY - MIN_PRIORITY + 1) base 0 used"

definition priorityForIp :: "string \<Rightarrow> nat" where
  "priorityForIp ip = MIN_PRIORITY + foldl (\<lambda>hash c. (hash * 31 + of_char c) mod 30000) 0 ip"

section \<open>LinuxIfbManager\<close>

definition IFB_NAME :: string where
  "IFB_NAME = ''ifb0''"

definition directionKey :: "Direction \<Rightarrow> string" where
  "directionKey d = (case d of Src \<Rightarrow> ''src_ip'' | Dst \<Rightarrow> ''dst_ip'')"

definition ifb_exists :: "'s Exec \<Rightarrow> ('s, bool) prog" where
  "ifb_exists exec =
     tryCatch (thn (exec ''ip'' [''link'', ''show'', ''dev'', IFB_NAME]) (ret True))
       (\<lambda>e. if isMissingDeviceError e then ret False else throw e)"

definition ifb_ensure :: "'s Exec \<Rightarrow> string \<Rightarrow> ('s, string) prog" where
  "ifb_ensure exec iface =
     bnd (ifb_exists exec) (\<lambda>there.
     thn (whenP (\<not> there) (thn (exec ''ip'' [''link'', ''add'', IFB_NAME, ''type'', ''ifb'']) skip))
    (thn (exec ''ip'' [''link'', ''set'', ''dev'', IFB_NAME, ''up''])
         (ret IFB_NAME)))"

definition readRedirects :: "'s Exec \<Rightarrow> string \<Rightarrow> ('s, RedirectFilter list) prog" where
  "readRedirects exec iface =
     bnd (exec ''tc'' [''filter'', ''show'', ''dev'', iface, ''ingress'']) (\<lambda>result.
     ret (parseRedirectFilters (fst result)))"

definition deleteRedirectFilter :: "'s Exec \<Rightarrow> string \<Rightarrow> nat \<Rightarrow> ('s, unit) prog" where
  "deleteRedirectFilter exec iface priority = execTolerant isMissingFilterError exec ''tc''
     [''filter'', ''del'', ''dev'', iface, ''parent'', ''ffff:'', ''pref'', showNat priority]"

definition ensureIngressQdisc :: "'s Exec \<Rightarrow> string \<Rightarrow> ('s, unit) prog" where
  "ensureIngressQdisc exec iface =
     bnd (exec ''tc'' [''qdisc'', ''show'', ''dev'', iface]) (\<lambda>result.
     if rxTest [[Bound] @ liti ''qdisc'' @ [spaces1] @ liti ''ingress'' @ [spaces1] @ liti ''ffff:''] (fst result)
     then skip
     else thn (exec ''tc'' [''qdisc'', ''add'', ''dev'', iface, ''handle'', ''ffff:'', ''ingress'']) skip)"

definition removeIngressQdisc :: "'s Exec \<Rightarrow> string \<Rightarrow> ('s, unit) prog" where
  "removeIngressQdisc exec iface = execTolerant isMissingIngressQdiscError exec ''tc''
     [''qdisc'', ''del'', ''dev'', iface, ''ingress'']"

definition redirectArgs :: "string \<Rightarrow> nat \<Rightarrow> Direction \<Rightarrow> string \<Rightarrow> string list" where
  "redirectArgs iface priority direction ip =
     [''filter'', ''add'', ''dev'', iface, ''parent'', ''ffff:'', ''pref'', showNat priority,
      ''protocol'', ''ip'', ''flower'', directionKey direction, ip,
      ''action'', ''mirred'', ''egress'', ''redirect'', ''dev'', IFB_NAME]"

definition ensureRedirect :: "'s Exec \<Rightarrow> string \<Rightarrow> string \<Rightarrow> Direction \<Rightarrow> ('s, unit) prog" where
  "ensureRedirect exec iface ip direction =
     thn (ifb_ensure exec iface)
    (bnd (readRedirects exec iface) (\<lambda>filters.
     let matching = filter (\<lambda>f. rf_ip f = Some ip \<and> rf_direction f = Some direction) filters in
     case find (\<lambda>f. rf_device f = Some IFB_NAME) matching of
       Some existing \<Rightarrow>
         forEach matching (\<lambda>duplicate. whenP (rf_priority duplicate \<noteq> rf_priority existing)
           (deleteRedirectFilter exec iface (rf_priority duplicate)))
     | None \<Rightarrow>
         thn (forEach matching (\<lambda>conflict. deleteRedirectFilter exec iface (rf_priority conflict)))
        (let remaining = filter (\<lambda>f. rf_priority f \<notin> rf_priority ` set matching) filters in
         case availablePriority (priorityForIp ip) (map rf_priority remaining) of
           None \<Rightarrow> throw (Error ''No available tc ingress filter priority'')
         | Some priority \<Rightarrow>
             thn (ensureIngressQdisc exec iface)
            (thn (exec ''tc'' (redirectArgs iface priority direction ip)) skip))))"

definition removeRedirectIp :: "'s Exec \<Rightarrow> string \<Rightarrow> string \<Rightarrow> Direction \<Rightarrow> ('s, unit) prog" where
  "removeRedirectIp exec iface ip direction =
     bnd (readRedirects exec iface) (\<lambda>filters.
     forEach (map rf_priority (filter (\<lambda>f. rf_ip f = Some ip \<and> rf_device f = Some IFB_NAME \<and>
         rf_direction f = Some direction) filters))
       (deleteRedirectFilter exec iface))"

definition removeAllRedirects :: "'s Exec \<Rightarrow> string \<Rightarrow> Direction \<Rightarrow> ('s, unit) prog" where
  "removeAllRedirects exec iface direction =
     bnd (readRedirects exec iface) (\<lambda>filters.
     forEach (setOfList (map rf_priority (filter (\<lambda>f. rf_device f = Some IFB_NAME \<and>
         rf_direction f = Some direction) filters)))
       (deleteRedirectFilter exec iface))"

definition reconcileUploadRedirects :: "'s Exec \<Rightarrow> string \<Rightarrow> string list \<Rightarrow> ('s, unit) prog" where
  "reconcileUploadRedirects exec iface expectedIps =
     bnd (readRedirects exec iface) (\<lambda>filters.
     forEach (map rf_priority (filter (\<lambda>f. rf_direction f \<noteq> Some Src \<or>
         (case rf_ip f of None \<Rightarrow> True | Some ip \<Rightarrow> ip \<notin> set expectedIps))
         (filter (\<lambda>f. rf_device f = Some IFB_NAME) filters)))
       (deleteRedirectFilter exec iface))"

definition ifb_remove :: "'s Exec \<Rightarrow> string \<Rightarrow> ('s, unit) prog" where
  "ifb_remove exec iface =
     thn (removeAllRedirects exec iface Src)
    (thn (removeAllRedirects exec iface Dst)
    (thn (removeIngressQdisc exec iface)
         (execTolerant isMissingDeviceError exec ''ip'' [''link'', ''delete'', IFB_NAME, ''type'', ''ifb''])))"

definition linuxIfbManager :: "'s Exec \<Rightarrow> 's IfbManager" where
  "linuxIfbManager exec = \<lparr>im_getName = IFB_NAME, im_exists = ifb_exists exec, im_ensure = ifb_ensure exec,
     im_ensureUploadRedirect = (\<lambda>iface ip. ensureRedirect exec iface ip Src),
     im_removeUploadIp = (\<lambda>iface ip. removeRedirectIp exec iface ip Src),
     im_removeAllUploadRedirects = (\<lambda>iface. removeAllRedirects exec iface Src),
     im_reconcileUploadRedirects = reconcileUploadRedirects exec,
     im_ensureDownloadRedirect = (\<lambda>iface ip. ensureRedirect exec iface ip Dst),
     im_removeDownloadIp = (\<lambda>iface ip. removeRedirectIp exec iface ip Dst),
     im_removeAllDownloadRedirects = (\<lambda>iface. removeAllRedirects exec iface Dst),
     im_remove = ifb_remove exec\<rparr>"

section \<open>Lemmas\<close>

lemma candidatePriority_bounds:
  "MIN_PRIORITY \<le> candidatePriority base offset \<and> candidatePriority base offset \<le> MAX_PRIORITY"
proof -
  have "(base - MIN_PRIORITY + offset) mod (MAX_PRIORITY - MIN_PRIORITY + 1) < MAX_PRIORITY - MIN_PRIORITY + 1"
    by (rule mod_less_divisor) simp
  then show ?thesis
    by (simp add: candidatePriority_def MIN_PRIORITY_def MAX_PRIORITY_def)
qed

lemma shift_mod:
  fixes n b q :: nat
  assumes "q < n"
  shows "\<exists>k < n. (b + k) mod n = q"
proof -
  let ?k = "(q + (n - b mod n)) mod n"
  have "b mod n < n" using assms by (intro mod_less_divisor) simp
  then have "b mod n + (q + (n - b mod n)) = q + n" by simp
  then have "(b mod n + (q + (n - b mod n))) mod n = q"
    using assms by simp
  then have "(b + ?k) mod n = q"
    by (metis mod_add_left_eq mod_add_right_eq)
  moreover have "?k < n" using assms by (intro mod_less_divisor) simp
  ultimately show ?thesis by blast
qed

text \<open>Every priority of the range is the candidate of some offset.\<close>

lemma candidatePriority_onto:
  assumes "MIN_PRIORITY \<le> p" "p \<le> MAX_PRIORITY"
  shows "\<exists>k < MAX_PRIORITY - MIN_PRIORITY + 1. candidatePriority base k = p"
proof -
  have "p - MIN_PRIORITY < MAX_PRIORITY - MIN_PRIORITY + 1"
    using assms by linarith
  from shift_mod [OF this, of "base - MIN_PRIORITY"] show ?thesis
    using assms(1) unfolding candidatePriority_def by (metis le_add_diff_inverse)
qed

lemma probePriority_find:
  "probePriority n base k used =
     find (\<lambda>p. p \<notin> set used) (map (candidatePriority base) [k..<k + n])"
proof (induction n arbitrary: k)
  case (Suc n)
  have "[k..<k + Suc n] = k # [Suc k..<Suc k + n]" by (simp add: upt_rec)
  then show ?case by (simp add: Let_def Suc.IH del: upt_Suc)
qed simp

lemma availablePriority_Some:
  assumes "availablePriority base used = Some p"
  shows "p \<notin> set used" "MIN_PRIORITY \<le> p" "p \<le> MAX_PRIORITY"
proof -
  from assms obtain xs where "p \<in> candidatePriority base ` xs" "p \<notin> set used"
    unfolding availablePriority_def probePriority_find find_Some_iff
    by (metis image_set nth_mem)
  then show "p \<notin> set used" "MIN_PRIORITY \<le> p" "p \<le> MAX_PRIORITY"
    using candidatePriority_bounds by blast+
qed

lemma availablePriority_None:
  "availablePriority base used = None \<longleftrightarrow> {MIN_PRIORITY..MAX_PRIORITY} \<subseteq> set used"
proof -
  have "candidatePriority base ` {0..<MAX_PRIORITY - MIN_PRIORITY + 1} = {MIN_PRIORITY..MAX_PRIORITY}"
  proof (rule set_eqI)
    fix p
    show "p \<in> candidatePriority base ` {0..<MAX_PRIORITY - MIN_PRIORITY + 1} \<longleftrightarrow> p \<in> {MIN_PRIORITY..MAX_PRIORITY}"
      using candidatePriority_onto [of p base] candidatePriority_bounds [of base] by auto
  qed
  moreover have "availablePriority base used = None \<longleftrightarrow>
      candidatePriority base ` {0..<MAX_PRIORITY - MIN_PRIORITY + 1} \<subseteq> set used"
    unfolding availablePriority_def probePriority_find find_None_iff set_map set_upt add_0 by blast
  ultimately show ?thesis by simp
qed

end
