(* ===== verification/Shaping.thy ===== *)
theory Shaping
  imports Ifb Discovery
begin

text \<open>
  \<open>SingleInterfaceIfbTrafficEnforcer\<close>: download is shaped on the egress of the physical
  interface and classified by destination, upload on the egress of the intermediate device and
  classified by source.
\<close>

record 's Shaper =
  sh_uplinkBandwidthMbps :: int
  sh_lanInterface :: string
  sh_executor :: "'s Exec"
  sh_ifbManager :: "'s IfbManager"
  sh_tcStateReader :: "'s TcStateReader"
  sh_sha256hex :: "string \<Rightarrow> string"

definition isAlreadyExistsTcObjectError :: "js_error \<Rightarrow> bool" where
  "isAlreadyExistsTcObjectError e \<longleftrightarrow> messageHas e ''file exists'' \<or> messageHas e ''already exists''"

definition isMissingTcObjectError :: "js_error \<Rightarrow> bool" where
  "isMissingTcObjectError e \<longleftrightarrow> messageHas e ''cannot find'' \<or>
     messageHas e ''no such file or directory'' \<or> messageHas e ''not found''"

definition runTc :: "'s Shaper \<Rightarrow> string list \<Rightarrow> ('s, unit) prog" where
  "runTc sh args = thn (sh_executor sh ''tc'' args) skip"

definition runTcTolerant :: "'s Shaper \<Rightarrow> string list \<Rightarrow> ('s, unit) prog" where
  "runTcTolerant sh args = execTolerant isMissingTcObjectError (sh_executor sh) ''tc'' args"

section \<open>Root state\<close>

definition getFilterPriority :: "string \<Rightarrow> nat" where
  "getFilterPriority classId = 100 + readHex classId mod 32000"

definition ensureRootState :: "'s Shaper \<Rightarrow> string \<Rightarrow> ('s, unit) prog" where
  "ensureRootState sh iface =
     bnd (sr_getRootQdiscState (sh_tcStateReader sh) iface) (\<lambda>rootState.
     thn (case rootState of
            None \<Rightarrow> runTc sh (addHtbRootQdisc iface)
          | Some kind \<Rightarrow> whenP (kind \<noteq> ''htb'') (runTc sh (replaceHtbRootQdisc iface)))
    (bnd (liftE (TrafficRate_fromWholeMbps (sh_uplinkBandwidthMbps sh))) (\<lambda>r.
     let rate = TrafficRate_toTcRate r in
     bnd (sr_getRootClassState (sh_tcStateReader sh) iface) (\<lambda>rootClass.
     case rootClass of
       None \<Rightarrow> runTc sh (addRootClass iface rate)
     | Some (actualRate, actualCeil) \<Rightarrow>
         whenP (actualRate \<noteq> Some rate \<or> actualCeil \<noteq> Some rate) (runTc sh (changeRootClass iface rate))))))"

definition initializeBaseState :: "'s Shaper \<Rightarrow> ('s, unit) prog" where
  "initializeBaseState sh = ensureRootState sh (sh_lanInterface sh)"

definition clearBaseState :: "'s Shaper \<Rightarrow> ('s, unit) prog" where
  "clearBaseState sh =
     bnd (sr_getRootQdiscState (sh_tcStateReader sh) (sh_lanInterface sh)) (\<lambda>rootState.
     thn (whenP (rootState = Some ''htb'') (runTcTolerant sh (deleteRootQdisc (sh_lanInterface sh))))
    (bnd (im_exists (sh_ifbManager sh)) (\<lambda>there.
     whenP there (im_remove (sh_ifbManager sh) (sh_lanInterface sh)))))"

section \<open>Classes and filters of a device\<close>

definition ensureDeviceClass :: "'s Shaper \<Rightarrow> string \<Rightarrow> string \<Rightarrow> string \<Rightarrow> ('s, unit) prog" where
  "ensureDeviceClass sh iface classId rate =
     (let change = runTc sh (changeClassRate iface classId rate);
          differs = (\<lambda>state. fst state \<noteq> Some rate \<or> snd state \<noteq> Some rate)
      in bnd (sr_getClassState (sh_tcStateReader sh) iface classId) (\<lambda>classState.
         case classState of
           Some state \<Rightarrow> whenP (differs state) change
         | None \<Rightarrow>
             bnd (tryCatch (thn (runTc sh (addClass iface classId rate)) (ret True))
               (\<lambda>e. if \<not> isAlreadyExistsTcObjectError e then throw e
                    else bnd (sr_getClassState (sh_tcStateReader sh) iface classId) (\<lambda>refreshed.
                         case refreshed of
                           None \<Rightarrow> throw e
                         | Some state \<Rightarrow> thn (whenP (differs state) change) (ret False))))
             (\<lambda>added. whenP added change)))"

definition filterCommand :: "TcTrafficDirection \<Rightarrow> string \<Rightarrow> string \<Rightarrow> string \<Rightarrow> nat \<Rightarrow> string list" where
  "filterCommand direction iface ip classId priority =
     (case direction of
        Download \<Rightarrow> addDownloadFilterByIp iface ip classId priority
      | Upload \<Rightarrow> addUploadFilterByIp iface ip classId priority)"

definition findAvailableFilterPriority :: "'s Shaper \<Rightarrow> string \<Rightarrow> nat \<Rightarrow> nat option \<Rightarrow> ('s, nat) prog" where
  "findAvailableFilterPriority sh iface basePriority ignored =
     bnd (sr_getDeviceFilters (sh_tcStateReader sh) iface) (\<lambda>filters.
     case availablePriority basePriority (filter (\<lambda>p. Some p \<noteq> ignored) (map tf_priority filters)) of
       None \<Rightarrow> throw (Error (''No available tc filter priority on '' @ iface))
     | Some priority \<Rightarrow> ret priority)"

definition ensureFilter :: "'s Shaper \<Rightarrow> string \<Rightarrow> string \<Rightarrow> string \<Rightarrow> TcTrafficDirection \<Rightarrow> ('s, unit) prog" where
  "ensureFilter sh iface ip classId direction =
     (let reader = sh_tcStateReader sh
      in bnd (sr_getFilterState reader iface classId) (\<lambda>filterState.
         if (case filterState of None \<Rightarrow> False | Some (actualIp, _) \<Rightarrow> actualIp = Some ip) then skip
         else bnd (findAvailableFilterPriority sh iface (getFilterPriority classId) (map_option snd filterState)) (\<lambda>priority.
              thn (case filterState of
                     None \<Rightarrow> skip
                   | Some (_, old) \<Rightarrow> runTc sh (deleteFilter iface old))
             (tryCatch (runTc sh (filterCommand direction iface ip classId priority)) (\<lambda>e.
                if \<not> isAlreadyExistsTcObjectError e then throw e
                else bnd (sr_getFilterState reader iface classId) (\<lambda>refreshed.
                     if (case refreshed of None \<Rightarrow> False | Some (actualIp, _) \<Rightarrow> actualIp = Some ip) then skip
                     else bnd (findAvailableFilterPriority sh iface (priority + 1) (map_option snd refreshed)) (\<lambda>retryPriority.
                          runTc sh (filterCommand direction iface ip classId retryPriority))))))))"

definition getClassId :: "'s Shaper \<Rightarrow> Device \<Rightarrow> TcTrafficDirection \<Rightarrow> string" where
  "getClassId sh device direction = TcClassId_fromMac (sh_sha256hex sh) (d_mac device) direction"

section \<open>Operations\<close>

definition withIp :: "Device \<Rightarrow> (string \<Rightarrow> ('s, unit) prog) \<Rightarrow> ('s, unit) prog" where
  "withIp device f = (case d_ip device of
      None \<Rightarrow> throw (Error (''Device '' @ d_mac device @ '' has no IP address''))
    | Some ip \<Rightarrow> f ip)"

definition limitDownload :: "'s Shaper \<Rightarrow> Device \<Rightarrow> int \<Rightarrow> ('s, unit) prog" where
  "limitDownload sh device rateMbps = withIp device (\<lambda>ip.
     let classId = getClassId sh device Download; lan = sh_lanInterface sh in
     thn (ensureRootState sh lan)
    (bnd (liftE (TrafficRate_fromMbps rateMbps)) (\<lambda>r.
     thn (ensureDeviceClass sh lan classId (TrafficRate_toTcRate r))
         (ensureFilter sh lan ip classId Download))))"

definition limitUpload :: "'s Shaper \<Rightarrow> Device \<Rightarrow> int \<Rightarrow> ('s, unit) prog" where
  "limitUpload sh device rateMbps = withIp device (\<lambda>ip.
     let classId = getClassId sh device Upload; lan = sh_lanInterface sh in
     bnd (im_ensure (sh_ifbManager sh) lan) (\<lambda>ifbName.
     thn (ensureRootState sh ifbName)
    (bnd (liftE (TrafficRate_fromMbps rateMbps)) (\<lambda>r.
     thn (ensureDeviceClass sh ifbName classId (TrafficRate_toTcRate r))
    (thn (ensureFilter sh ifbName ip classId Upload)
         (im_ensureUploadRedirect (sh_ifbManager sh) lan ip))))))"

definition limitDownloadBits :: "'s Shaper \<Rightarrow> Device \<Rightarrow> int \<Rightarrow> ('s, unit) prog" where
  "limitDownloadBits sh device bitsPerSecond = withIp device (\<lambda>ip.
     let classId = getClassId sh device Download; lan = sh_lanInterface sh in
     thn (ensureRootState sh lan)
    (thn (ensureDeviceClass sh lan classId (showInt bitsPerSecond @ ''bit''))
         (ensureFilter sh lan ip classId Download)))"

definition limitUploadBits :: "'s Shaper \<Rightarrow> Device \<Rightarrow> int \<Rightarrow> ('s, unit) prog" where
  "limitUploadBits sh device bitsPerSecond = withIp device (\<lambda>ip.
     let classId = getClassId sh device Upload; lan = sh_lanInterface sh in
     bnd (im_ensure (sh_ifbManager sh) lan) (\<lambda>ifbName.
     thn (ensureRootState sh ifbName)
    (thn (ensureDeviceClass sh ifbName classId (showInt bitsPerSecond @ ''bit''))
    (thn (ensureFilter sh ifbName ip classId Upload)
         (im_ensureUploadRedirect (sh_ifbManager sh) lan ip)))))"

definition clearClass :: "'s Shaper \<Rightarrow> string \<Rightarrow> string \<Rightarrow> ('s, unit) prog" where
  "clearClass sh iface classId =
     bnd (sr_getFilterState (sh_tcStateReader sh) iface classId) (\<lambda>filterState.
     thn (case filterState of
            None \<Rightarrow> skip
          | Some (_, priority) \<Rightarrow> runTcTolerant sh (deleteFilter iface priority))
    (bnd (sr_getClassState (sh_tcStateReader sh) iface classId) (\<lambda>classState.
     whenP (classState \<noteq> None) (runTcTolerant sh (deleteClass iface classId)))))"

definition clearDownload :: "'s Shaper \<Rightarrow> Device \<Rightarrow> ('s, unit) prog" where
  "clearDownload sh device = clearClass sh (sh_lanInterface sh) (getClassId sh device Download)"

definition clearUpload :: "'s Shaper \<Rightarrow> Device \<Rightarrow> ('s, unit) prog" where
  "clearUpload sh device =
     thn (case d_ip device of
            None \<Rightarrow> skip
          | Some ip \<Rightarrow> im_removeUploadIp (sh_ifbManager sh) (sh_lanInterface sh) ip)
    (bnd (im_exists (sh_ifbManager sh)) (\<lambda>there.
     whenP there (clearClass sh (im_getName (sh_ifbManager sh)) (getClassId sh device Upload))))"

section \<open>Removal of stale state\<close>

definition reconcileInterfaceState :: "'s Shaper \<Rightarrow> string \<Rightarrow> string list \<Rightarrow> ('s, unit) prog" where
  "reconcileInterfaceState sh iface expectedClassIds =
     bnd (sr_getDeviceClasses (sh_tcStateReader sh) iface) (\<lambda>actualClasses.
     bnd (sr_getDeviceFilters (sh_tcStateReader sh) iface) (\<lambda>actualFilters.
     let key = normalizeText;
         actualClassIds = map (\<lambda>c. key (tc_classId c)) actualClasses in
     thn (forEach actualFilters (\<lambda>f.
            let classId = key (tf_classId f)
            in whenP (\<not> (classId \<in> set actualClassIds \<and> classId \<in> set expectedClassIds))
                 (runTcTolerant sh (deleteFilter iface (tf_priority f)))))
         (forEach actualClasses (\<lambda>c.
            let classId = key (tc_classId c)
            in whenP (classId \<notin> set expectedClassIds)
                 (runTcTolerant sh (deleteClass iface classId))))))"

definition reconcileDownloadState :: "'s Shaper \<Rightarrow> string list \<Rightarrow> ('s, unit) prog" where
  "reconcileDownloadState sh expectedClassIds =
     reconcileInterfaceState sh (sh_lanInterface sh) expectedClassIds"

definition reconcileUploadState :: "'s Shaper \<Rightarrow> string list \<Rightarrow> ('s, unit) prog" where
  "reconcileUploadState sh expectedClassIds =
     bnd (im_exists (sh_ifbManager sh)) (\<lambda>there.
     if \<not> there
     then (if expectedClassIds \<noteq> []
           then throw (Error ''IFB is missing while upload traffic policies are active'')
           else skip)
     else let ifbName = im_getName (sh_ifbManager sh) in
          thn (reconcileInterfaceState sh ifbName expectedClassIds)
         (bnd (sr_getDeviceFilters (sh_tcStateReader sh) ifbName) (\<lambda>actualFilters.
          let expectedIps = setOfList (List.map_filter tf_ip
                (filter (\<lambda>f. normalizeText (tf_classId f) \<in> set expectedClassIds) actualFilters))
          in im_reconcileUploadRedirects (sh_ifbManager sh) (sh_lanInterface sh) expectedIps)))"

definition reconcileTrafficState :: "'s Shaper \<Rightarrow> string list \<Rightarrow> ('s, unit) prog" where
  "reconcileTrafficState sh expectedClassIds =
     thn (reconcileDownloadState sh expectedClassIds) (reconcileUploadState sh expectedClassIds)"

definition singleInterfaceIfbTrafficEnforcer :: "'s Shaper \<Rightarrow> 's TrafficEnforcer" where
  "singleInterfaceIfbTrafficEnforcer sh = \<lparr>te_initializeBaseState = initializeBaseState sh,
     te_clearBaseState = clearBaseState sh, te_limitDownload = limitDownload sh,
     te_limitUpload = limitUpload sh, te_limitDownloadBits = limitDownloadBits sh,
     te_limitUploadBits = limitUploadBits sh, te_clearDownload = clearDownload sh,
     te_clearUpload = clearUpload sh, te_reconcileTrafficState = reconcileTrafficState sh,
     te_reconcileDownloadState = reconcileDownloadState sh,
     te_reconcileUploadState = reconcileUploadState sh\<rparr>"

end
