(* ===== verification/UsageReader.thy ===== *)
theory UsageReader
  imports Nft Tc Entities
begin

text \<open>
  \<open>NftTrafficUsageReader\<close>, which keeps one named counter and one rule per device and direction in
  the accounting chain, and \<open>NftPortRuleEnforcer\<close>. The text JavaScript prints for a number that
  \<open>JSON.stringify\<close> meets is the argument \<open>numText\<close>.
\<close>

section \<open>JSON text\<close>

fun jsonText :: "(rat \<Rightarrow> string) \<Rightarrow> json \<Rightarrow> string" where
  "jsonText numText JNull = ''null''"
| "jsonText numText (JBool b) = (if b then ''true'' else ''false'')"
| "jsonText numText (JNum r) = numText r"
| "jsonText numText (JStr s) = jsonQuote s"
| "jsonText numText (JArr xs) = ''['' @ joinWith '','' (map (jsonText numText) xs) @ '']''"
| "jsonText numText (JObj kvs) =
     ''{'' @ joinWith '','' (map (\<lambda>(k, v). jsonQuote k @ '':'' @ jsonText numText v) kvs) @ ''}''"

text \<open>\<open>BigInt\<close> of a string; \<open>None\<close> is the syntax error it throws.\<close>

definition bigIntOfString :: "string \<Rightarrow> int option" where
  "bigIntOfString s =
     (let t = trim s; p = toLowerCase (take 2 t)
      in if t = [] then Some 0
         else if p = ''0x'' then map_option int (readBase 16 (drop 2 t))
         else if p = ''0o'' then map_option int (readBase 8 (drop 2 t))
         else if p = ''0b'' then map_option int (readBase 2 (drop 2 t))
         else let (sg, u) = takeSign t
              in if u \<noteq> [] \<and> list_all isDigit u then Some (sg * int (readNat u)) else None)"

section \<open>NftTrafficUsageReader\<close>

datatype TrafficAccountingMode = SingleInterfaceIfb | DualInterface

record TrafficAccountingTopology =
  tt_mode :: TrafficAccountingMode
  tt_clientInterface :: string
  tt_uplinkInterface :: "string option"
  tt_clientSubnet :: string

record 's UsageReader =
  ur_topology :: TrafficAccountingTopology
  ur_executor :: "'s Exec"
  ur_numText :: "rat \<Rightarrow> string"

record AccountingRule =
  ar_handle :: rat
  ar_comment :: string
  ar_raw :: json

definition usage_validateMac :: "string \<Rightarrow> js_error + string" where
  "usage_validateMac mac =
     (let normalized = toLowerCase (trim mac)
      in if \<not> MAC_REGEX normalized then Inl (Error (''Invalid MAC address: '' @ mac)) else Inr normalized)"

definition usage_validateIp :: "string \<Rightarrow> js_error + string" where
  "usage_validateIp ip =
     (let normalized = trim ip; parts = map jsNumber (splitOn (CHR ''.'') normalized)
      in if length parts \<noteq> 4 \<or> \<not> list_all jsOctet parts then Inl (Error (''Invalid IPv4 address: '' @ ip))
         else Inr normalized)"

definition usage_execNft :: "'s UsageReader \<Rightarrow> string list \<Rightarrow> ('s, string \<times> string) prog" where
  "usage_execNft ur args = ur_executor ur ''nft'' args"

definition execNftMutation :: "'s UsageReader \<Rightarrow> string list \<Rightarrow> ('s, unit) prog" where
  "execNftMutation ur args = thn (usage_execNft ur (''-c'' # args)) (thn (usage_execNft ur args) skip)"

definition plainMac :: "string \<Rightarrow> string" where
  "plainMac mac = filter (\<lambda>c. c \<noteq> CHR '':'') mac"

definition counterName :: "string \<Rightarrow> TcTrafficDirection \<Rightarrow> string" where
  "counterName mac direction = ''dev_'' @ directionText direction @ ''_'' @ plainMac mac"

definition ruleComment :: "string \<Rightarrow> TcTrafficDirection \<Rightarrow> string" where
  "ruleComment mac direction = ''ayad_nm_'' @ directionText direction @ ''_'' @ plainMac mac"

definition extractCounter :: "json \<Rightarrow> (string \<times> int) option" where
  "extractCounter item =
     (if \<not> isObject (Some item) \<or> \<not> isObject (member ''counter'' item) then None
      else let data = the (member ''counter'' item) in
        case jsonString (member ''name'' data) of
          None \<Rightarrow> None
        | Some name \<Rightarrow>
            (case member ''bytes'' data of
               Some (JNum r) \<Rightarrow> if isInteger r then Some (name, \<lfloor>r\<rfloor>) else None
             | Some (JStr s) \<Rightarrow> map_option (Pair name) (bigIntOfString s)
             | _ \<Rightarrow> None))"

definition readCounters :: "'s UsageReader \<Rightarrow> ('s, (string \<times> int) list) prog" where
  "readCounters ur =
     bnd (usage_execNft ur [''-j'', ''list'', ''counters'', ''table'', ''inet'', ''ayad_nm'']) (\<lambda>result.
     case parseJson (fst result) of
       None \<Rightarrow> throw (Error ''Failed to parse nft accounting counter state'')
     | Some document \<Rightarrow> bnd (liftE (nftItems document)) (\<lambda>items.
         ret (mapOfList (List.map_filter extractCounter items))))"

definition extractRule :: "json \<Rightarrow> AccountingRule option" where
  "extractRule item =
     (if \<not> isObject (Some item) \<or> \<not> isObject (member ''rule'' item) then None
      else let rule = the (member ''rule'' item) in
        case (jsonNum (member ''handle'' rule), jsonString (member ''comment'' rule)) of
          (Some handle, Some comment) \<Rightarrow> Some \<lparr>ar_handle = handle, ar_comment = comment, ar_raw = rule\<rparr>
        | _ \<Rightarrow> None)"

definition readRules :: "'s UsageReader \<Rightarrow> ('s, AccountingRule list) prog" where
  "readRules ur =
     bnd (usage_execNft ur [''-j'', ''-a'', ''list'', ''chain'', ''inet'', ''ayad_nm'', ''accounting'']) (\<lambda>result.
     case parseJson (fst result) of
       None \<Rightarrow> throw (Error ''Failed to parse nft accounting rule state'')
     | Some document \<Rightarrow> bnd (liftE (nftItems document)) (\<lambda>items. ret (List.map_filter extractRule items)))"

definition readDeviceUsage :: "'s UsageReader \<Rightarrow> string \<Rightarrow> ('s, TrafficUsage) prog" where
  "readDeviceUsage ur mac =
     bnd (liftE (usage_validateMac mac)) (\<lambda>normalizedMac.
     bnd (readCounters ur) (\<lambda>counters.
     let bytes = (\<lambda>direction. case map_of counters (counterName normalizedMac direction) of None \<Rightarrow> 0 | Some b \<Rightarrow> b)
     in ret \<lparr>u_downloadBytes = bytes Download, u_uploadBytes = bytes Upload\<rparr>))"

definition ensureTable :: "'s UsageReader \<Rightarrow> ('s, unit) prog" where
  "ensureTable ur =
     thn (tryCatch (thn (usage_execNft ur [''list'', ''table'', ''inet'', ''ayad_nm'']) skip)
           (\<lambda>_. execNftMutation ur [''add'', ''table'', ''inet'', ''ayad_nm'']))
         (tryCatch (thn (usage_execNft ur [''list'', ''chain'', ''inet'', ''ayad_nm'', ''accounting'']) skip)
           (\<lambda>_. execNftMutation ur [''add'', ''chain'', ''inet'', ''ayad_nm'', ''accounting'',
              ''{'', ''type'', ''filter'', ''hook'', ''forward'', ''priority'', ''filter'', '';'',
              ''policy'', ''accept'', '';'', ''}'']))"

definition ensureDeviceCounters :: "'s UsageReader \<Rightarrow> string \<Rightarrow> (string \<times> int) list \<Rightarrow> ('s, (string \<times> int) list) prog" where
  "ensureDeviceCounters ur mac counters =
     (let one = (\<lambda>direction cs. let name = counterName mac direction in
         if map_of cs name \<noteq> None then ret cs
         else thn (execNftMutation ur [''add'', ''counter'', ''inet'', ''ayad_nm'', name])
                  (ret (AList.update name 0 cs)))
      in bnd (one Download counters) (one Upload))"

definition ruleMatches :: "(rat \<Rightarrow> string) \<Rightarrow> json \<Rightarrow> TcTrafficDirection \<Rightarrow> string \<Rightarrow> bool" where
  "ruleMatches numText raw direction ip =
     (let serialized = jsonText numText raw in
      hasSubstr ip serialized \<and>
      (case direction of
         Download \<Rightarrow> hasSubstr ''daddr'' serialized \<and> hasSubstr ''oifname'' serialized
       | Upload \<Rightarrow> hasSubstr ''saddr'' serialized \<and> hasSubstr ''iifname'' serialized))"

definition buildRuleExpressions :: "TrafficAccountingTopology \<Rightarrow> TcTrafficDirection \<Rightarrow> string \<Rightarrow> string \<Rightarrow> js_error + string list" where
  "buildRuleExpressions topology direction mac ip =
     (let client = tt_clientInterface topology in
      case tt_mode topology of
        SingleInterfaceIfb \<Rightarrow> Inr (case direction of
            Download \<Rightarrow> [''oifname'', client, ''ip'', ''daddr'', ip]
          | Upload \<Rightarrow> [''iifname'', client, ''ip'', ''saddr'', ip])
      | DualInterface \<Rightarrow>
          if \<not> truthy (tt_uplinkInterface topology)
          then Inl (Error ''Dual-interface accounting requires an uplink interface'')
          else let uplink = the (tt_uplinkInterface topology) in Inr (case direction of
            Download \<Rightarrow> [''iifname'', uplink, ''oifname'', client, ''ip'', ''daddr'', ip]
          | Upload \<Rightarrow> [''iifname'', client, ''oifname'', uplink, ''ip'', ''saddr'', tt_clientSubnet topology,
              ''ether'', ''saddr'', mac]))"

definition addRule :: "'s UsageReader \<Rightarrow> string list \<Rightarrow> string \<Rightarrow> string \<Rightarrow> ('s, unit) prog" where
  "addRule ur expressions counter comment = execNftMutation ur
     ([''add'', ''rule'', ''inet'', ''ayad_nm'', ''accounting''] @ expressions @
      [''counter'', ''name'', counter, ''comment'', comment])"

definition replaceRule :: "'s UsageReader \<Rightarrow> rat \<Rightarrow> string list \<Rightarrow> string \<Rightarrow> string \<Rightarrow> ('s, unit) prog" where
  "replaceRule ur handle expressions counter comment = execNftMutation ur
     ([''replace'', ''rule'', ''inet'', ''ayad_nm'', ''accounting'', ''handle'', showHandle handle] @ expressions @
      [''counter'', ''name'', counter, ''comment'', comment])"

definition ensureRuleWithState :: "'s UsageReader \<Rightarrow> TcTrafficDirection \<Rightarrow> string \<Rightarrow> string \<Rightarrow> AccountingRule list \<Rightarrow> ('s, unit) prog" where
  "ensureRuleWithState ur direction mac ip rules =
     (let comment = ruleComment mac direction;
          existing = find (\<lambda>r. ar_comment r = comment) rules
      in if (case existing of None \<Rightarrow> False | Some r \<Rightarrow> ruleMatches (ur_numText ur) (ar_raw r) direction ip) then skip
         else bnd (liftE (buildRuleExpressions (ur_topology ur) direction mac ip)) (\<lambda>expressions.
           case existing of
             None \<Rightarrow> addRule ur expressions (counterName mac direction) comment
           | Some r \<Rightarrow> replaceRule ur (ar_handle r) expressions (counterName mac direction) comment))"

definition ensureDeviceAccounting :: "'s UsageReader \<Rightarrow> string \<Rightarrow> string \<Rightarrow> ('s, unit) prog" where
  "ensureDeviceAccounting ur mac ip =
     bnd (liftE (usage_validateMac mac)) (\<lambda>normalizedMac.
     if ip = [] then throw (Error (''Device '' @ normalizedMac @ '' has no IP address for traffic accounting''))
     else bnd (liftE (usage_validateIp ip)) (\<lambda>normalizedIp.
       thn (ensureTable ur)
      (bnd (readCounters ur) (\<lambda>counters.
       bnd (readRules ur) (\<lambda>rules.
       thn (ensureDeviceCounters ur normalizedMac counters)
      (thn (ensureRuleWithState ur Download normalizedMac normalizedIp rules)
      (bnd (readRules ur) (\<lambda>refreshedRules.
       ensureRuleWithState ur Upload normalizedMac normalizedIp refreshedRules))))))))"

text \<open>The loop over the devices: the counters and the expected comments are its state.\<close>

primrec accountDevices :: "'s UsageReader \<Rightarrow> AccountingRule list \<Rightarrow> (string \<times> string) list \<Rightarrow>
    (string \<times> int) list \<Rightarrow> string list \<Rightarrow> ('s, string list) prog" where
  "accountDevices ur rules [] counters expected = ret expected"
| "accountDevices ur rules (device # rest) counters expected =
     bnd (liftE (usage_validateMac (fst device))) (\<lambda>mac.
     if snd device = [] then accountDevices ur rules rest counters expected
     else bnd (liftE (usage_validateIp (snd device))) (\<lambda>ip.
       bnd (ensureDeviceCounters ur mac counters) (\<lambda>counters.
       thn (ensureRuleWithState ur Download mac ip rules)
      (thn (ensureRuleWithState ur Upload mac ip rules)
           (accountDevices ur rules rest counters
             (setAdd (ruleComment mac Upload) (setAdd (ruleComment mac Download) expected)))))))"

definition ownedComment :: "string \<Rightarrow> bool" where
  "ownedComment comment \<longleftrightarrow> startsWith ''ayad_nm_download_'' comment \<or> startsWith ''ayad_nm_upload_'' comment"

definition reconcileDeviceAccounting :: "'s UsageReader \<Rightarrow> (string \<times> string) list \<Rightarrow> ('s, unit) prog" where
  "reconcileDeviceAccounting ur devices =
     thn (ensureTable ur)
    (bnd (readCounters ur) (\<lambda>counters.
     bnd (readRules ur) (\<lambda>rules.
     bnd (accountDevices ur rules devices counters []) (\<lambda>expected.
     bnd (readRules ur) (\<lambda>refreshedRules.
     forEach refreshedRules (\<lambda>rule.
       whenP (ownedComment (ar_comment rule) \<and> ar_comment rule \<notin> set expected)
         (execNftMutation ur [''delete'', ''rule'', ''inet'', ''ayad_nm'', ''accounting'',
            ''handle'', showHandle (ar_handle rule)])))))))"


end
