(* ===== verification/Traffic.thy ===== *)
theory Traffic
  imports Shaping
begin

text \<open>
  \<open>TrafficEnforcementService\<close>, the operations behind the traffic routes, and
  \<open>TrafficReconciliationService\<close>, the cycle that makes the traffic enforcer converge to the
  persisted policies. The enforcer, the validator, the repositories and the discovery are
  interfaces. A number of JavaScript that may be \<open>NaN\<close> or infinite is \<open>rat option\<close>.
\<close>

record 's TrafficDeps =
  td_enforcer :: "'s TrafficEnforcer"
  td_validate :: "Device \<Rightarrow> int \<Rightarrow> js_error + unit"
  td_devices :: "'s DeviceRepository"
  td_policies :: "'s DevicePolicyRepository"
  td_quotaThrottleMbps :: "rat option"
  td_audit :: "(AuditData \<Rightarrow> ('s, unit) prog) option"
  td_discover :: "('s, ValidatedDeviceIdentity list) prog option"

text \<open>\<open>Math.round\<close>\<close>

definition mathRound :: "rat \<Rightarrow> int" where
  "mathRound x = \<lfloor>x + 1 / 2\<rfloor>"

section \<open>Fresh devices\<close>

definition resolveFreshDevice :: "'s TrafficDeps \<Rightarrow> int \<Rightarrow> string \<Rightarrow> ('s, Device option) prog" where
  "resolveFreshDevice deps now identifier =
     bnd (resolveDeviceIdentifier (td_devices deps) identifier) (\<lambda>found.
     case (found, td_discover deps) of
       (Some current, Some discoverP) \<Rightarrow>
         bnd discoverP (\<lambda>discovered.
         case find (\<lambda>item. toLowerCase (v_mac item) = toLowerCase (d_mac current)) discovered of
           None \<Rightarrow> ret (Some current)
         | Some observed \<Rightarrow>
             let reconciled = reconcileIdentityObservation (Some current) observed in
             bnd (liftE (MacAddress_create (v_mac reconciled))) (\<lambda>mac.
             bnd (liftE (IpAddress_create (v_ip reconciled))) (\<lambda>ip.
             bnd (if truthy (v_proxyMac reconciled)
                  then bnd (liftE (MacAddress_create (the (v_proxyMac reconciled)))) (\<lambda>p. ret (Some p))
                  else ret None) (\<lambda>proxy.
             bnd (dr_upsert (td_devices deps) \<lparr>du_mac = mac, du_ip = ip, du_hostname = v_hostname reconciled,
                    du_l2Visible = Some (v_l2Visible reconciled), du_proxyMac = proxy,
                    du_identityValidated = Some (v_identityValidated reconciled),
                    du_identitySource = Some (v_identitySource reconciled), du_seenAt = now\<rparr>) (\<lambda>device.
             ret (Some device))))))
     | _ \<Rightarrow> ret found)"

section \<open>TrafficEnforcementService\<close>

definition trafficAudit :: "'s TrafficDeps \<Rightarrow> string \<Rightarrow> Device \<Rightarrow> (string \<times> string) list \<Rightarrow> ('s, unit) prog" where
  "trafficAudit deps action device details = optCall (td_audit deps) (\<lambda>a.
     a \<lparr>a_action = action, a_mac = Some (d_mac device), a_deviceId = Some (d_id device),
        a_actor = None, a_details = details\<rparr>)"

text \<open>The try block of every operation: a failure is audited and thrown again.\<close>

definition audited :: "'s TrafficDeps \<Rightarrow> string \<Rightarrow> Device \<Rightarrow> (string \<times> string) list \<Rightarrow> ('s, unit) prog \<Rightarrow> ('s, unit) prog" where
  "audited deps action device details body =
     tryCatch (thn body (trafficAudit deps action device (details @ [(''result'', ''success'')])))
       (\<lambda>e. thn (trafficAudit deps action device [(''result'', ''failure''), (''error'', errorMessage e)]) (throw e))"

definition requireFresh :: "'s TrafficDeps \<Rightarrow> int \<Rightarrow> string \<Rightarrow> ('s, Device) prog" where
  "requireFresh deps now mac = bnd (resolveFreshDevice deps now mac) (\<lambda>found.
     case found of None \<Rightarrow> throw (Error (''Device not found: '' @ mac)) | Some device \<Rightarrow> ret device)"

definition requireValidated :: "'s TrafficDeps \<Rightarrow> int \<Rightarrow> string \<Rightarrow> ('s, Device) prog" where
  "requireValidated deps now mac = bnd (requireFresh deps now mac) (\<lambda>device.
     if \<not> d_identityValidated device then throw (Error (''Device identity is not validated: '' @ mac))
     else ret device)"

definition requireKnown :: "'s TrafficDeps \<Rightarrow> string \<Rightarrow> ('s, Device) prog" where
  "requireKnown deps mac = bnd (resolveDeviceIdentifier (td_devices deps) mac) (\<lambda>found.
     case found of None \<Rightarrow> throw (Error (''Device not found: '' @ mac)) | Some device \<Rightarrow> ret device)"

definition traffic_limitDownload :: "'s TrafficDeps \<Rightarrow> int \<Rightarrow> string \<Rightarrow> int \<Rightarrow> ('s, unit) prog" where
  "traffic_limitDownload deps now mac rateMbps =
     bnd (requireValidated deps now mac) (\<lambda>device.
     thn (liftE (td_validate deps device rateMbps))
         (audited deps ''set-download-limit'' device [(''rateMilliMbps'', showInt rateMbps)]
           (thn (pr_upsert (td_policies deps) (d_id device) (noPatch\<lparr>pp_downloadLimit := Some (Some rateMbps)\<rparr>))
                (te_limitDownload (td_enforcer deps) device rateMbps))))"

definition traffic_limitUpload :: "'s TrafficDeps \<Rightarrow> int \<Rightarrow> string \<Rightarrow> int \<Rightarrow> ('s, unit) prog" where
  "traffic_limitUpload deps now mac rateMbps =
     bnd (requireValidated deps now mac) (\<lambda>device.
     thn (liftE (td_validate deps device rateMbps))
         (audited deps ''set-upload-limit'' device [(''rateMilliMbps'', showInt rateMbps)]
           (thn (pr_upsert (td_policies deps) (d_id device) (noPatch\<lparr>pp_uploadLimit := Some (Some rateMbps)\<rparr>))
                (te_limitUpload (td_enforcer deps) device rateMbps))))"

text \<open>The loop that looks for a policy with a limit.\<close>

primrec anyLimited :: "'s DevicePolicyRepository \<Rightarrow> Device list \<Rightarrow> ('s, bool) prog" where
  "anyLimited policies [] = ret False"
| "anyLimited policies (device # rest) =
     bnd (pr_findByDeviceId policies (d_id device)) (\<lambda>policy.
     if (case policy of None \<Rightarrow> False | Some p \<Rightarrow> p_downloadLimit p \<noteq> None \<or> p_uploadLimit p \<noteq> None)
     then ret True else anyLimited policies rest)"

definition clearBaseStateWhenUnused :: "'s TrafficDeps \<Rightarrow> ('s, unit) prog" where
  "clearBaseStateWhenUnused deps =
     bnd (dr_findAll (td_devices deps)) (\<lambda>devices.
     bnd (anyLimited (td_policies deps) devices) (\<lambda>used.
     if used then skip else te_clearBaseState (td_enforcer deps)))"

definition traffic_clearDownload :: "'s TrafficDeps \<Rightarrow> string \<Rightarrow> ('s, unit) prog" where
  "traffic_clearDownload deps mac =
     bnd (requireKnown deps mac) (\<lambda>device.
     audited deps ''clear-download-limit'' device []
       (thn (pr_upsert (td_policies deps) (d_id device) (noPatch\<lparr>pp_downloadLimit := Some None\<rparr>))
       (thn (te_clearDownload (td_enforcer deps) device)
            (clearBaseStateWhenUnused deps))))"

definition traffic_clearUpload :: "'s TrafficDeps \<Rightarrow> string \<Rightarrow> ('s, unit) prog" where
  "traffic_clearUpload deps mac =
     bnd (requireKnown deps mac) (\<lambda>device.
     audited deps ''clear-upload-limit'' device []
       (thn (pr_upsert (td_policies deps) (d_id device) (noPatch\<lparr>pp_uploadLimit := Some None\<rparr>))
       (thn (te_clearUpload (td_enforcer deps) device)
            (clearBaseStateWhenUnused deps))))"

definition applyQuotaThrottle :: "'s TrafficDeps \<Rightarrow> int \<Rightarrow> string \<Rightarrow> ('s, unit) prog" where
  "applyQuotaThrottle deps now mac =
     bnd (requireValidated deps now mac) (\<lambda>device.
     case td_quotaThrottleMbps deps of
       None \<Rightarrow> throw (Error ''Quota throttle rate must be greater than zero'')
     | Some mbps \<Rightarrow>
       if mbps \<le> 0 then throw (Error ''Quota throttle rate must be greater than zero'')
       else let rateMilliMbps = mathRound (mbps * 1000);
                bitsPerSecond = rateMilliMbps * 1000;
                details = [(''rateMilliMbps'', showInt rateMilliMbps)] in
         thn (liftE (td_validate deps device rateMilliMbps))
             (tryCatch
               (thn (te_limitDownloadBits (td_enforcer deps) device bitsPerSecond)
               (thn (te_limitUploadBits (td_enforcer deps) device bitsPerSecond)
                    (trafficAudit deps ''apply-quota-throttle'' device (details @ [(''result'', ''success'')]))))
               (\<lambda>e. thn (trafficAudit deps ''apply-quota-throttle'' device
                       (details @ [(''result'', ''failure''), (''error'', errorMessage e)])) (throw e))))"

text \<open>One direction of the restored limits.\<close>

definition restoreLimit :: "'s TrafficDeps \<Rightarrow> Device \<Rightarrow> int option \<Rightarrow> (Device \<Rightarrow> int \<Rightarrow> ('s, unit) prog) \<Rightarrow>
    (Device \<Rightarrow> ('s, unit) prog) \<Rightarrow> ('s, unit) prog" where
  "restoreLimit deps device limit apply clear = (case limit of
      Some rate \<Rightarrow> thn (liftE (td_validate deps device rate)) (apply device rate)
    | None \<Rightarrow> clear device)"

definition clearQuotaThrottle :: "'s TrafficDeps \<Rightarrow> int \<Rightarrow> string \<Rightarrow> ('s, unit) prog" where
  "clearQuotaThrottle deps now mac =
     bnd (requireFresh deps now mac) (\<lambda>device.
     let te = td_enforcer deps in
     audited deps ''clear-quota-throttle'' device []
       (bnd (pr_findByDeviceId (td_policies deps) (d_id device)) (\<lambda>policy.
        case policy of
          None \<Rightarrow> thn (te_clearDownload te device) (te_clearUpload te device)
        | Some p \<Rightarrow>
            thn (restoreLimit deps device (p_downloadLimit p) (te_limitDownload te) (te_clearDownload te))
                (restoreLimit deps device (p_uploadLimit p) (te_limitUpload te) (te_clearUpload te)))))"

section \<open>TrafficReconciliationService\<close>

record 's ReconcilerDeps =
  tr_devices :: "'s DeviceRepository"
  tr_policies :: "'s DevicePolicyRepository"
  tr_enforcer :: "'s TrafficEnforcer"
  tr_quotaThrottleMbps :: "rat option"
  tr_sha256hex :: "string \<Rightarrow> string"

definition throttled :: "DevicePolicy \<Rightarrow> bool" where
  "throttled p \<longleftrightarrow> p_quotaEnforcedAction p = Some ''throttle''"

definition enforceable :: "Device \<times> DevicePolicy option \<Rightarrow> bool" where
  "enforceable = (\<lambda>(device, policy). d_identityValidated device \<and> d_ip device \<noteq> None \<and>
     (case policy of None \<Rightarrow> False
      | Some p \<Rightarrow> p_downloadLimit p \<noteq> None \<or> p_uploadLimit p \<noteq> None \<or> throttled p))"

definition expectedClasses :: "(string \<Rightarrow> string) \<Rightarrow> TcTrafficDirection \<Rightarrow> (DevicePolicy \<Rightarrow> int option) \<Rightarrow>
    (Device \<times> DevicePolicy option) list \<Rightarrow> string list" where
  "expectedClasses sha direction limit pairs =
     setOfList (map (\<lambda>(device, _). TcClassId_normalize (TcClassId_fromMac sha (d_mac device) direction))
       (filter (\<lambda>(device, policy). case policy of None \<Rightarrow> False | Some p \<Rightarrow> limit p \<noteq> None \<or> throttled p) pairs))"

text \<open>The limits of one device in one direction: the throttle of the quota overrides the policy.\<close>

definition applyLimit :: "Device \<Rightarrow> bool \<Rightarrow> int option \<Rightarrow> int \<Rightarrow> (Device \<Rightarrow> int \<Rightarrow> ('s, unit) prog) \<Rightarrow>
    (Device \<Rightarrow> int \<Rightarrow> ('s, unit) prog) \<Rightarrow> ('s, unit) prog" where
  "applyLimit device throttle limit bits byBits byRate =
     (if throttle then byBits device bits
      else case limit of None \<Rightarrow> skip | Some rate \<Rightarrow> byRate device rate)"

definition applyPolicy :: "'s TrafficEnforcer \<Rightarrow> int \<Rightarrow> Device \<times> DevicePolicy option \<Rightarrow> ('s, unit) prog" where
  "applyPolicy te bits = (\<lambda>(device, policy). case policy of
      None \<Rightarrow> skip
    | Some p \<Rightarrow>
        thn (applyLimit device (throttled p) (p_downloadLimit p) bits (te_limitDownloadBits te) (te_limitDownload te))
            (applyLimit device (throttled p) (p_uploadLimit p) bits (te_limitUploadBits te) (te_limitUpload te)))"

text \<open>A step whose failure is collected; the list of failures is what the cycle logs at its end.\<close>

definition collecting :: "string \<Rightarrow> ('s, unit) prog \<Rightarrow> string list \<Rightarrow> ('s, string list) prog" where
  "collecting what m failures =
     tryCatch (thn m (ret failures)) (\<lambda>e. ret (failures @ [what @ '': '' @ errorMessage e]))"

primrec applyPolicies :: "'s TrafficEnforcer \<Rightarrow> int \<Rightarrow> (Device \<times> DevicePolicy option) list \<Rightarrow> string list \<Rightarrow>
    ('s, string list) prog" where
  "applyPolicies te bits [] failures = ret failures"
| "applyPolicies te bits (pair # rest) failures =
     bnd (collecting (''Failed to reconcile traffic policy for '' @ d_mac (fst pair)) (applyPolicy te bits pair) failures)
       (applyPolicies te bits rest)"

definition trafficCycle :: "'s ReconcilerDeps \<Rightarrow> ('s, string list) prog" where
  "trafficCycle deps =
     (let te = tr_enforcer deps; sha = tr_sha256hex deps in
     bnd (dr_findAll (tr_devices deps)) (\<lambda>devices.
     bnd (mapProg (\<lambda>device. bnd (pr_findByDeviceId (tr_policies deps) (d_id device)) (\<lambda>policy.
            ret (device, policy))) devices) (\<lambda>policies.
     let pairs = filter enforceable policies in
     if pairs = [] then thn (te_clearBaseState te) (ret [])
     else thn (te_initializeBaseState te)
       (case tr_quotaThrottleMbps deps of
          None \<Rightarrow> throw (Error ''Quota throttle rate must be greater than zero'')
        | Some mbps \<Rightarrow>
          if mbps \<le> 0 then throw (Error ''Quota throttle rate must be greater than zero'')
          else let bits = mathRound (mbps * 1000000) in
            bnd (applyPolicies te bits pairs []) (\<lambda>failures.
            bnd (collecting ''Failed to reconcile stale download tc state''
                   (te_reconcileDownloadState te (expectedClasses sha Download p_downloadLimit pairs)) failures) (\<lambda>failures.
            collecting ''Failed to reconcile stale upload tc state''
                   (te_reconcileUploadState te (expectedClasses sha Upload p_uploadLimit pairs)) failures))))))"

text \<open>The state of the service is its flag \<open>running\<close>, paired with the state of the system.\<close>

definition traffic_reconcile :: "'s ReconcilerDeps \<Rightarrow> (bool \<times> 's, string list) prog" where
  "traffic_reconcile deps = (\<lambda>(running, s).
     if running then (Inr [], running, s)
     else case trafficCycle deps s of (r, t) \<Rightarrow> (r, False, t))"

end
