(* ===== verification/Calendar.thy ===== *)
theory Calendar
  imports Prelude
begin

text \<open>
  UTC dates as ECMAScript defines them: a time value is the number of milliseconds since the
  epoch, days are divided by the proleptic Gregorian calendar. Months are numbered through, month
  \<open>k\<close> is month \<open>k mod 12\<close> of year \<open>k div 12\<close>.
\<close>

definition msPerDay :: int where
  "msPerDay = 86400000"

definition dayFromYear :: "int \<Rightarrow> int" where
  "dayFromYear y = 365 * (y - 1970) + (y - 1969) div 4 - (y - 1901) div 100 + (y - 1601) div 400"

definition leapYear :: "int \<Rightarrow> bool" where
  "leapYear y \<longleftrightarrow> y mod 4 = 0 \<and> (\<not> y mod 100 = 0 \<or> y mod 400 = 0)"

text \<open>The first day of a month within its year.\<close>

definition monthOffset :: "bool \<Rightarrow> int \<Rightarrow> int" where
  "monthOffset leap m = [0, 31, 59, 90, 120, 151, 181, 212, 243, 273, 304, 334] ! nat m +
     (if leap \<and> 2 \<le> m then 1 else 0)"

definition monthStart :: "int \<Rightarrow> int" where
  "monthStart k = dayFromYear (k div 12) + monthOffset (leapYear (k div 12)) (k mod 12)"

lemma div_step:
  fixes x c :: int
  assumes "0 < c"
  shows "(x + 1) div c = x div c + (if (x + 1) mod c = 0 then 1 else 0)"
proof (cases "x mod c + 1 = c")
  case True
  then have "x + 1 = (x div c + 1) * c"
    using div_mult_mod_eq [of x c] by (simp only: distrib_right)
  with assms show ?thesis by simp
next
  case False
  have "x mod c < c" "0 \<le> x mod c" using assms by simp_all
  with False have r: "0 \<le> x mod c + 1" "x mod c + 1 < c" by simp_all
  have "x + 1 = x div c * c + (x mod c + 1)" by simp
  then have "(x + 1) div c = x div c" "(x + 1) mod c = x mod c + 1"
    using r by (metis div_pos_pos_trivial add.right_neutral assms div_mult_self3 less_irrefl,
      metis mod_pos_pos_trivial mod_mult_self3)
  with r \<open>0 \<le> x mod c\<close> show ?thesis by simp
qed

lemma div_step_at:
  fixes x x' y c :: int
  assumes "0 < c" "x' = x + 1" "x' mod c = y mod c"
  shows "x' div c = x div c + (if y mod c = 0 then 1 else 0)"
  using assms div_step [of c x] by simp

lemma leap_count:
  fixes a a' b b' c c' n :: int
  assumes "a = a' + (if p then 1 else 0)" "b = b' + (if q then 1 else 0)" "c = c' + (if r then 1 else 0)"
    and "q \<Longrightarrow> p" "r \<Longrightarrow> q"
  shows "n + 365 + a - b + c = n + a' - b' + c' + (if p \<and> (\<not> q \<or> r) then 366 else 365)"
  using assms by (cases p; cases q; cases r) simp_all

lemma dayFromYear_Suc: "dayFromYear (y + 1) = dayFromYear y + (if leapYear y then 366 else 365)"
proof -
  have mods: "(y - 1968) mod 4 = y mod 4" "(y - 1900) mod 100 = y mod 100" "(y - 1600) mod 400 = y mod 400"
    using mod_diff_right_eq [of y 1968 4] mod_diff_right_eq [of y 1900 100]
      mod_diff_right_eq [of y 1600 400] by simp_all
  have "(y - 1968) div 4 = (y - 1969) div 4 + (if y mod 4 = 0 then 1 else 0)"
    by (rule div_step_at [OF _ _ mods(1)]) simp_all
  moreover have "(y - 1900) div 100 = (y - 1901) div 100 + (if y mod 100 = 0 then 1 else 0)"
    by (rule div_step_at [OF _ _ mods(2)]) simp_all
  moreover have "(y - 1600) div 400 = (y - 1601) div 400 + (if y mod 400 = 0 then 1 else 0)"
    by (rule div_step_at [OF _ _ mods(3)]) simp_all
  moreover have "y mod 4 = 0" if "y mod 100 = 0"
    using that dvd_trans [of 4 100 y] by (simp add: mod_eq_0_iff_dvd)
  moreover have "y mod 100 = 0" if "y mod 400 = 0"
    using that dvd_trans [of 100 400 y] by (simp add: mod_eq_0_iff_dvd)
  ultimately have "365 * (y - 1970) + 365 + (y - 1968) div 4 - (y - 1900) div 100 + (y - 1600) div 400 =
      dayFromYear y + (if leapYear y then 366 else 365)"
    unfolding dayFromYear_def leapYear_def by (rule leap_count)
  moreover have "y + 1 - 1969 = y - 1968" "y + 1 - 1901 = y - 1900" "y + 1 - 1601 = y - 1600"
    "365 * (y + 1 - 1970) = 365 * (y - 1970) + 365" by simp_all
  ultimately show ?thesis unfolding dayFromYear_def [of "y + 1"] by (simp only:)
qed

lemma month_cases:
  assumes "0 \<le> m" "m < (12 :: int)"
  obtains "m = 0" | "m = 1" | "m = 2" | "m = 3" | "m = 4" | "m = 5" | "m = 6" | "m = 7" | "m = 8" |
    "m = 9" | "m = 10" | "m = 11"
proof -
  have "m \<in> {0..11}" using assms by simp
  then have "m \<in> {0, 1, 2, 3, 4, 5, 6, 7, 8, 9, 10, 11}" by (simp, presburger)
  then show thesis using that by blast
qed

text \<open>Months have 28 to 31 days, so their first days increase.\<close>

lemma monthStart_Suc: "monthStart k + 28 \<le> monthStart (k + 1) \<and> monthStart (k + 1) \<le> monthStart k + 31"
proof (cases "k mod 12 = 11")
  case True
  then have "(k + 1) mod 12 = 0" using mod_add_left_eq [of k 12 1] by simp
  moreover from this have "(k + 1) div 12 = k div 12 + 1" using div_step [of 12 k] by simp
  ultimately have "(k + 1) mod 12 = 0" "(k + 1) div 12 = k div 12 + 1" .
  with True show ?thesis
    by (simp add: monthStart_def monthOffset_def dayFromYear_Suc)
next
  case False
  moreover have "0 \<le> k mod 12" "k mod 12 < 12" by simp_all
  ultimately have "(k mod 12 + 1) mod 12 = k mod 12 + 1" by (intro mod_pos_pos_trivial) linarith+
  then have m: "(k + 1) mod 12 = k mod 12 + 1" by (simp only: mod_add_left_eq)
  with \<open>0 \<le> k mod 12\<close> have "(k + 1) mod 12 \<noteq> 0" by linarith
  then have "(k + 1) div 12 = k div 12" using div_step [of 12 k] by simp
  moreover note m
  ultimately have eq: "(k + 1) div 12 = k div 12" "(k + 1) mod 12 = k mod 12 + 1" .
  have "0 \<le> k mod 12" "k mod 12 < 12" by simp_all
  then show ?thesis
    by (cases rule: month_cases) (use False in \<open>simp_all add: monthStart_def eq monthOffset_def\<close>)
qed

lemma monthStart_add: "monthStart k \<le> monthStart (k + int n)"
proof (induction n)
  case (Suc n)
  with monthStart_Suc [of "k + int n"] show ?case by (simp add: algebra_simps)
qed simp

lemma monthStart_mono: "j \<le> k \<Longrightarrow> monthStart j \<le> monthStart k"
  using monthStart_add [of j "nat (k - j)"] by simp

text \<open>The month a day lies in, searched from a first guess.\<close>

function monthSearch :: "int \<Rightarrow> int \<Rightarrow> int" where
  "monthSearch k d = (if d < monthStart k then monthSearch (k - 1) d
     else if monthStart (k + 1) \<le> d then monthSearch (k + 1) d else k)"
  by pat_completeness auto
termination
proof (relation "measure (\<lambda>(k, d). nat (if d < monthStart k then monthStart k - d
    else if monthStart (k + 1) \<le> d then d - monthStart (k + 1) + 1 else 0))")
  fix k d :: int
  assume "d < monthStart k"
  with monthStart_Suc [of "k - 1"]
  show "((k - 1, d), k, d) \<in> measure (\<lambda>(k, d). nat (if d < monthStart k then monthStart k - d
    else if monthStart (k + 1) \<le> d then d - monthStart (k + 1) + 1 else 0))"
    by simp
next
  fix k d :: int
  assume "\<not> d < monthStart k" "monthStart (k + 1) \<le> d"
  with monthStart_Suc [of "k + 1"]
  show "((k + 1, d), k, d) \<in> measure (\<lambda>(k, d). nat (if d < monthStart k then monthStart k - d
    else if monthStart (k + 1) \<le> d then d - monthStart (k + 1) + 1 else 0))"
    by simp
qed simp

declare monthSearch.simps [simp del]

definition monthOf :: "int \<Rightarrow> int" where
  "monthOf d = monthSearch (12 * 1970 + d div 31) d"

lemma monthSearch_correct: "monthStart (monthSearch k d) \<le> d \<and> d < monthStart (monthSearch k d + 1)"
  by (induction k d rule: monthSearch.induct) (subst (1 2) monthSearch.simps, simp)

lemma monthOf_bounds: "monthStart (monthOf d) \<le> d" "d < monthStart (monthOf d + 1)"
  using monthSearch_correct by (simp_all add: monthOf_def)

lemma monthOf_unique: "monthStart k \<le> d \<Longrightarrow> d < monthStart (k + 1) \<Longrightarrow> monthOf d = k"
  using monthOf_bounds [of d] monthStart_mono [of "monthOf d + 1" k] monthStart_mono [of "k + 1" "monthOf d"]
  by linarith

section \<open>The methods of Date\<close>

definition dayOfTime :: "int \<Rightarrow> int" where
  "dayOfTime t = t div msPerDay"

definition getUTCDay :: "int \<Rightarrow> int" where
  "getUTCDay t = (dayOfTime t + 4) mod 7"

definition getUTCDate :: "int \<Rightarrow> int" where
  "getUTCDate t = dayOfTime t - monthStart (monthOf (dayOfTime t)) + 1"

definition getUTCMonth :: "int \<Rightarrow> int" where
  "getUTCMonth t = monthOf (dayOfTime t) mod 12"

definition getUTCFullYear :: "int \<Rightarrow> int" where
  "getUTCFullYear t = monthOf (dayOfTime t) div 12"

text \<open>\<open>MakeDay\<close> carries a date beyond the month into the following days.\<close>

definition setUTCDate :: "int \<Rightarrow> int \<Rightarrow> int" where
  "setUTCDate t date = (monthStart (monthOf (dayOfTime t)) + date - 1) * msPerDay + t mod msPerDay"

definition setUTCMonth :: "int \<Rightarrow> int \<Rightarrow> int" where
  "setUTCMonth t month =
     (monthStart (12 * getUTCFullYear t + month) + getUTCDate t - 1) * msPerDay + t mod msPerDay"

text \<open>\<open>setUTCHours(0, 0, 0, 0)\<close>\<close>

definition setUTCMidnight :: "int \<Rightarrow> int" where
  "setUTCMidnight t = dayOfTime t * msPerDay"

lemma dayOfTime_scale [simp]: "dayOfTime (d * msPerDay) = d"
  by (simp add: dayOfTime_def msPerDay_def)

lemma dayOfTime_shift [simp]: "dayOfTime (d * msPerDay + t mod msPerDay) = d"
  by (simp add: dayOfTime_def msPerDay_def)

lemma dayOfTime_less: "dayOfTime t < d \<longleftrightarrow> t < d * msPerDay"
  using div_mult_mod_eq [of t 86400000] pos_mod_bound [of 86400000 t] pos_mod_sign [of 86400000 t]
  unfolding dayOfTime_def msPerDay_def by linarith

lemma dayOfTime_ge: "d \<le> dayOfTime t \<longleftrightarrow> d * msPerDay \<le> t"
  using dayOfTime_less [of t d] by linarith

end
