(* ===== verification/Quota.thy ===== *)
theory Quota
  imports Calendar Firewall
begin

text \<open>
  \<open>QuotaService\<close>: periods of usage, thresholds and the enforcement of exhausted quotas. The
  services it calls and the clock (every \<open>new Date()\<close>) are operations of the record of its
  dependencies; its set of notified thresholds is paired with the state of the system.
\<close>

section \<open>Periods\<close>

definition calculatePeriod :: "string \<Rightarrow> int \<Rightarrow> int \<times> int" where
  "calculatePeriod periodType now =
     (let kind = toLowerCase periodType in
      if kind = ''daily'' then
        (setUTCMidnight now, setUTCMidnight (setUTCDate now (getUTCDate now + 1)))
      else if kind = ''weekly'' then
        (let day = getUTCDay now;
             daysFromMonday = (if day = 0 then 6 else day - 1);
             start = setUTCMidnight (setUTCDate now (getUTCDate now - daysFromMonday))
         in (start, setUTCDate start (getUTCDate start + 7)))
      else
        (let start = setUTCMidnight (setUTCDate now 1)
         in (start, setUTCMonth start (getUTCMonth start + 1))))"

section \<open>Service\<close>

record 's QuotaDeps =
  qd_devices :: "'s DeviceRepository"
  qd_policies :: "'s DevicePolicyRepository"
  qd_applyQuotaThrottle :: "string \<Rightarrow> ('s, unit) prog"
  qd_clearQuotaThrottle :: "string \<Rightarrow> ('s, unit) prog"
  qd_blockForQuota :: "string \<Rightarrow> ('s, unit) prog"
  qd_unblockForQuota :: "string \<Rightarrow> ('s, unit) prog"
  qd_notify :: "int option \<Rightarrow> string \<Rightarrow> string \<Rightarrow> ('s, unit) prog"
  qd_periods :: "'s QuotaPeriodRepository"
  qd_clock :: "('s, int) prog"

datatype QuotaAction = NotifyOnly | Throttle | Block

record QuotaView =
  qv_quota :: "int option"
  qv_quotaPeriod :: "string option"
  qv_quotaAction :: "string option"
  qv_periodStart :: "int option"
  qv_periodEnd :: "int option"
  qv_usedDownloadBytes :: int
  qv_usedUploadBytes :: int
  qv_usedBytes :: int
  qv_remainingBytes :: "int option"
  qv_exhausted :: bool

definition normalizeAction :: "string option \<Rightarrow> QuotaAction option" where
  "normalizeAction value =
     (if value = Some ''notify-only'' then Some NotifyOnly
      else if value = Some ''throttle'' then Some Throttle
      else if value = Some ''block'' then Some Block
      else None)"

definition actionText :: "QuotaAction \<Rightarrow> string" where
  "actionText a = (case a of NotifyOnly \<Rightarrow> ''notify-only'' | Throttle \<Rightarrow> ''throttle'' | Block \<Rightarrow> ''block'')"

definition buildView :: "int \<Rightarrow> string \<Rightarrow> string option \<Rightarrow> QuotaPeriodData \<Rightarrow> QuotaView" where
  "buildView quota quotaPeriod quotaAction period =
     (let usedBytes = q_usedDownloadBytes period + q_usedUploadBytes period;
          remainingBytes = (if quota > usedBytes then quota - usedBytes else 0)
      in \<lparr>qv_quota = Some quota, qv_quotaPeriod = Some quotaPeriod, qv_quotaAction = quotaAction,
          qv_periodStart = Some (q_periodStart period), qv_periodEnd = Some (q_periodEnd period),
          qv_usedDownloadBytes = q_usedDownloadBytes period, qv_usedUploadBytes = q_usedUploadBytes period,
          qv_usedBytes = usedBytes, qv_remainingBytes = Some remainingBytes,
          qv_exhausted = (usedBytes \<ge> quota)\<rparr>)"

definition emptyView :: "DevicePolicy \<Rightarrow> QuotaView" where
  "emptyView policy = \<lparr>qv_quota = None, qv_quotaPeriod = p_quotaPeriod policy,
     qv_quotaAction = p_quotaAction policy, qv_periodStart = None, qv_periodEnd = None,
     qv_usedDownloadBytes = 0, qv_usedUploadBytes = 0, qv_usedBytes = 0, qv_remainingBytes = None,
     qv_exhausted = False\<rparr>"

definition setEnforced :: "'s QuotaDeps \<Rightarrow> int \<Rightarrow> string option \<Rightarrow> ('s, unit) prog" where
  "setEnforced deps deviceId action =
     thn (pr_upsert (qd_policies deps) deviceId (noPatch\<lparr>pp_quotaEnforcedAction := Some action\<rparr>)) skip"

definition clearQuotaEnforcement :: "'s QuotaDeps \<Rightarrow> int \<Rightarrow> string \<Rightarrow> string option \<Rightarrow> ('s, unit) prog" where
  "clearQuotaEnforcement deps deviceId mac enforcedAction =
     thn (whenP (enforcedAction = Some ''throttle'') (qd_clearQuotaThrottle deps mac))
    (thn (whenP (enforcedAction = Some ''block'') (qd_unblockForQuota deps mac))
         (setEnforced deps deviceId None))"

definition enforceQuotaAction :: "'s QuotaDeps \<Rightarrow> int \<Rightarrow> string \<Rightarrow> ('s, unit) prog" where
  "enforceQuotaAction deps deviceId mac =
     bnd (pr_findByDeviceId (qd_policies deps) deviceId) (\<lambda>found.
     case found of None \<Rightarrow> skip
     | Some policy \<Rightarrow>
       (case normalizeAction (p_quotaAction policy) of
          None \<Rightarrow> clearQuotaEnforcement deps deviceId mac (p_quotaEnforcedAction policy)
        | Some action \<Rightarrow>
          if p_quotaEnforcedAction policy = Some (actionText action) then skip
          else thn (whenP (truthy (p_quotaEnforcedAction policy))
                     (clearQuotaEnforcement deps deviceId mac (p_quotaEnforcedAction policy)))
              (thn (case action of
                      NotifyOnly \<Rightarrow> qd_notify deps (Some deviceId) ''quota-exhausted''
                        (''Device '' @ mac @ '' has exhausted its traffic quota.'')
                    | Throttle \<Rightarrow> qd_applyQuotaThrottle deps mac
                    | Block \<Rightarrow> qd_blockForQuota deps mac)
                   (setEnforced deps deviceId (Some (actionText action))))))"

definition getOrCreateCurrentPeriod :: "'s QuotaDeps \<Rightarrow> int \<Rightarrow> string \<Rightarrow> int \<Rightarrow> ('s, QuotaPeriodData) prog" where
  "getOrCreateCurrentPeriod deps deviceId periodType now =
     (let bounds = calculatePeriod periodType now in
      bnd (qr_findCurrent (qd_periods deps) deviceId periodType now) (\<lambda>found.
      case found of
        None \<Rightarrow> qr_create (qd_periods deps) deviceId periodType (fst bounds) (snd bounds)
      | Some period \<Rightarrow>
          if q_periodStart period \<noteq> fst bounds \<or> q_periodEnd period \<noteq> snd bounds
          then qr_reset (qd_periods deps) (q_id period) (fst bounds) (snd bounds)
          else ret period))"

text \<open>What every reader of the quota does first when the policy has no quota.\<close>

definition clearStale :: "'s QuotaDeps \<Rightarrow> string \<Rightarrow> Device \<Rightarrow> DevicePolicy \<Rightarrow> ('s, unit) prog" where
  "clearStale deps mac device policy = whenP (truthy (p_quotaEnforcedAction policy))
     (clearQuotaEnforcement deps (d_id device) mac (p_quotaEnforcedAction policy))"

definition getQuota :: "'s QuotaDeps \<Rightarrow> string \<Rightarrow> ('s, QuotaView option) prog" where
  "getQuota deps mac =
     bnd (resolveDeviceIdentifier (qd_devices deps) mac) (\<lambda>found.
     case found of None \<Rightarrow> ret None
     | Some device \<Rightarrow>
       bnd (pr_findByDeviceId (qd_policies deps) (d_id device)) (\<lambda>foundPolicy.
       case foundPolicy of None \<Rightarrow> ret None
       | Some policy \<Rightarrow>
         (case (p_quota policy, p_quotaPeriod policy) of
            (Some quota, Some periodType) \<Rightarrow>
              bnd (qd_clock deps) (\<lambda>now.
              bnd (getOrCreateCurrentPeriod deps (d_id device) periodType now) (\<lambda>period.
              ret (Some (buildView quota periodType (p_quotaAction policy) period))))
          | _ \<Rightarrow> thn (clearStale deps mac device policy) (ret (Some (emptyView policy))))))"

subsection \<open>Thresholds\<close>

text \<open>A key of the set \<open>notifiedThresholds\<close>: device, start of the period, threshold.\<close>

type_synonym notified = "(int \<times> int \<times> int) list"

definition onState :: "('s, 'a) prog \<Rightarrow> ('n \<times> 's, 'a) prog" where
  "onState m = (\<lambda>(n, s). case m s of (r, t) \<Rightarrow> (r, n, t))"

definition notifyThreshold :: "'s QuotaDeps \<Rightarrow> int \<Rightarrow> string \<Rightarrow> int \<Rightarrow> int \<Rightarrow> int \<Rightarrow> int \<Rightarrow> (notified \<times> 's, unit) prog" where
  "notifyThreshold deps deviceId mac quota used periodStart threshold = (\<lambda>(keys, s).
     let key = (deviceId, periodStart, threshold) in
     if used * 100 < quota * threshold \<or> key \<in> set keys then (Inr (), keys, s)
     else onState (qd_notify deps (Some deviceId) (''quota-'' @ showInt threshold)
            (''Device '' @ mac @ '' reached '' @ showInt threshold @ ''% of its traffic quota.''))
            (setAdd key keys, s))"

definition notifyThresholds :: "'s QuotaDeps \<Rightarrow> int \<Rightarrow> string \<Rightarrow> int \<Rightarrow> int \<Rightarrow> int \<Rightarrow> (notified \<times> 's, unit) prog" where
  "notifyThresholds deps deviceId mac quota used periodStart =
     (if quota \<le> 0 then skip
      else forEach [80, 90, 100] (notifyThreshold deps deviceId mac quota used periodStart))"

definition recordUsage :: "'s QuotaDeps \<Rightarrow> string \<Rightarrow> int \<Rightarrow> int \<Rightarrow> int \<Rightarrow> (notified \<times> 's, QuotaView option) prog" where
  "recordUsage deps mac downloadBytes uploadBytes timestamp =
     (if downloadBytes < 0 \<or> uploadBytes < 0 then throw (Error ''Quota usage cannot be negative'')
      else bnd (onState (resolveDeviceIdentifier (qd_devices deps) mac)) (\<lambda>found.
      case found of None \<Rightarrow> ret None
      | Some device \<Rightarrow>
        bnd (onState (pr_findByDeviceId (qd_policies deps) (d_id device))) (\<lambda>foundPolicy.
        case foundPolicy of None \<Rightarrow> ret None
        | Some policy \<Rightarrow>
          (case (p_quota policy, p_quotaPeriod policy) of
             (Some quota, Some periodType) \<Rightarrow>
               bnd (onState (getOrCreateCurrentPeriod deps (d_id device) periodType timestamp)) (\<lambda>period.
               bnd (onState (qr_incrementUsage (qd_periods deps) (q_id period) downloadBytes uploadBytes)) (\<lambda>updated.
               thn (notifyThresholds deps (d_id device) mac quota
                     (q_usedDownloadBytes updated + q_usedUploadBytes updated) (q_periodStart updated))
              (let view = buildView quota periodType (p_quotaAction policy) updated in
               thn (whenP (qv_exhausted view) (onState (enforceQuotaAction deps (d_id device) mac)))
                   (ret (Some view)))))
           | _ \<Rightarrow> thn (onState (clearStale deps mac device policy)) (ret None)))))"

subsection \<open>Reconciliation, reset and removal\<close>

definition quota_reconcilePolicy :: "'s QuotaDeps \<Rightarrow> string \<Rightarrow> ('s, unit) prog" where
  "quota_reconcilePolicy deps mac =
     bnd (resolveDeviceIdentifier (qd_devices deps) mac) (\<lambda>found.
     case found of None \<Rightarrow> skip
     | Some device \<Rightarrow>
       bnd (pr_findByDeviceId (qd_policies deps) (d_id device)) (\<lambda>foundPolicy.
       case foundPolicy of None \<Rightarrow> skip
       | Some policy \<Rightarrow>
         (case (p_quota policy, p_quotaPeriod policy) of
            (Some quota, Some periodType) \<Rightarrow>
              bnd (qd_clock deps) (\<lambda>now.
              bnd (qr_findCurrent (qd_periods deps) (d_id device) periodType now) (\<lambda>current.
              case current of
                None \<Rightarrow> clearStale deps mac device policy
              | Some period \<Rightarrow>
                  if qv_exhausted (buildView quota periodType (p_quotaAction policy) period)
                  then enforceQuotaAction deps (d_id device) mac
                  else clearStale deps mac device policy))
          | _ \<Rightarrow> clearStale deps mac device policy)))"

definition resetQuota :: "'s QuotaDeps \<Rightarrow> string \<Rightarrow> ('s, QuotaView option) prog" where
  "resetQuota deps mac =
     bnd (resolveDeviceIdentifier (qd_devices deps) mac) (\<lambda>found.
     case found of None \<Rightarrow> ret None
     | Some device \<Rightarrow>
       bnd (pr_findByDeviceId (qd_policies deps) (d_id device)) (\<lambda>foundPolicy.
       case foundPolicy of None \<Rightarrow> throw (Error ''Quota is not configured for this device'')
       | Some policy \<Rightarrow>
         (case (p_quota policy, p_quotaPeriod policy) of
            (Some quota, Some periodType) \<Rightarrow>
              thn (clearQuotaEnforcement deps (d_id device) mac (p_quotaEnforcedAction policy))
             (bnd (qd_clock deps) (\<lambda>now.
              let bounds = calculatePeriod periodType now in
              bnd (qd_clock deps) (\<lambda>later.
              bnd (qr_findCurrent (qd_periods deps) (d_id device) periodType later) (\<lambda>current.
              bnd (case current of
                     None \<Rightarrow> qr_create (qd_periods deps) (d_id device) periodType (fst bounds) (snd bounds)
                   | Some period \<Rightarrow> qr_reset (qd_periods deps) (q_id period) (fst bounds) (snd bounds)) (\<lambda>period.
              thn (setEnforced deps (d_id device) None)
                  (ret (Some (buildView quota periodType (p_quotaAction policy) period))))))))
          | _ \<Rightarrow> throw (Error ''Quota is not configured for this device''))))"

definition clearQuota :: "'s QuotaDeps \<Rightarrow> string \<Rightarrow> ('s, QuotaView option) prog" where
  "clearQuota deps mac =
     bnd (resolveDeviceIdentifier (qd_devices deps) mac) (\<lambda>found.
     case found of None \<Rightarrow> ret None
     | Some device \<Rightarrow>
       bnd (pr_findByDeviceId (qd_policies deps) (d_id device)) (\<lambda>foundPolicy.
       case foundPolicy of None \<Rightarrow> ret None
       | Some policy \<Rightarrow>
           thn (clearQuotaEnforcement deps (d_id device) mac (p_quotaEnforcedAction policy))
          (thn (case p_quotaPeriod policy of
                  None \<Rightarrow> skip
                | Some periodType \<Rightarrow>
                    bnd (qd_clock deps) (\<lambda>now.
                    let bounds = calculatePeriod periodType now in
                    bnd (qd_clock deps) (\<lambda>later.
                    bnd (qr_findCurrent (qd_periods deps) (d_id device) periodType later) (\<lambda>current.
                    case current of
                      None \<Rightarrow> skip
                    | Some period \<Rightarrow> thn (qr_reset (qd_periods deps) (q_id period) (fst bounds) (snd bounds)) skip))))
          (thn (pr_upsert (qd_policies deps) (d_id device) (noPatch\<lparr>pp_quota := Some None,
                  pp_quotaPeriod := Some None, pp_quotaAction := Some None, pp_quotaEnforcedAction := Some None\<rparr>))
               (getQuota deps mac)))))"

end
