(* ===== verification/Policies.thy ===== *)
theory Policies
  imports Traffic Quota
begin

text \<open>
  Policies of devices: \<open>DevicePolicyService\<close> validates and stores the patch of a policy,
  \<open>PolicyCatalogService\<close> keeps profiles, schedules and port rules, \<open>ProfileEnforcementService\<close> and
  \<open>ScheduleEnforcementService\<close> apply them in cycles.
\<close>

section \<open>Catalog\<close>

record ProfileRecord =
  pf_id :: int
  pf_name :: string
  pf_description :: "string option"
  pf_downloadLimit :: "int option"
  pf_uploadLimit :: "int option"
  pf_quota :: "int option"
  pf_quotaPeriod :: "string option"

record ScheduleRuleRecord =
  sr_id :: int
  sr_dayOfWeek :: int
  sr_startTime :: string
  sr_endTime :: string
  sr_downloadLimit :: "int option"
  sr_uploadLimit :: "int option"
  sr_blocked :: "bool option"

record ScheduleRecord =
  sd_id :: int
  sd_name :: string
  sd_description :: "string option"
  sd_rules :: "ScheduleRuleRecord list"

record PortRuleRecord =
  po_id :: int
  po_deviceId :: int
  po_name :: string
  po_protocol :: string
  po_port :: int
  po_action :: string
  po_enabled :: bool

text \<open>Patches leave a field that is \<open>None\<close> unchanged.\<close>

record ProfilePatch =
  fp_name :: "string option"
  fp_description :: "string option option"
  fp_downloadLimit :: "int option option"
  fp_uploadLimit :: "int option option"
  fp_quota :: "int option option"
  fp_quotaPeriod :: "string option option"

record 's PolicyCatalogRepository =
  pc_profiles :: "('s, ProfileRecord list) prog"
  pc_createProfile :: "ProfileRecord \<Rightarrow> ('s, ProfileRecord) prog"
  pc_updateProfile :: "int \<Rightarrow> ProfilePatch \<Rightarrow> ('s, ProfileRecord) prog"
  pc_deleteProfile :: "int \<Rightarrow> ('s, unit) prog"
  pc_schedules :: "('s, ScheduleRecord list) prog"
  pc_createSchedule :: "string \<Rightarrow> string option \<Rightarrow> ScheduleRuleRecord list \<Rightarrow> ('s, ScheduleRecord) prog"
  pc_updateSchedule :: "int \<Rightarrow> string option \<Rightarrow> string option option \<Rightarrow> ScheduleRuleRecord list option \<Rightarrow> ('s, ScheduleRecord) prog"
  pc_deleteSchedule :: "int \<Rightarrow> ('s, unit) prog"
  pc_portRules :: "int \<Rightarrow> ('s, PortRuleRecord list) prog"
  pc_portRule :: "int \<Rightarrow> ('s, PortRuleRecord option) prog"
  pc_createPortRule :: "PortRuleRecord \<Rightarrow> ('s, PortRuleRecord) prog"
  pc_deletePortRule :: "int \<Rightarrow> ('s, unit) prog"

record 's PortRuleEnforcer =
  pe_apply :: "string \<Rightarrow> string \<Rightarrow> PortRuleRecord \<Rightarrow> ('s, unit) prog"
  pe_remove :: "PortRuleRecord \<Rightarrow> ('s, unit) prog"

section \<open>PolicyCatalogService\<close>

definition isSafeId :: "int \<Rightarrow> bool" where
  "isSafeId i \<longleftrightarrow> \<bar>i\<bar> \<le> MAX_SAFE_INTEGER \<and> \<not> i \<le> 0"

definition catalogId :: "int \<Rightarrow> js_error + int" where
  "catalogId value = (if isSafeId value then Inr value else Inl (Error ''Invalid id''))"

text \<open>\<open>/^([01]\d|2[0-3]):[0-5]\d$/\<close>\<close>

definition HH_MM :: "string \<Rightarrow> bool" where
  "HH_MM s \<longleftrightarrow> (case s of
      [a, b, c, d, e] \<Rightarrow>
        ((a = CHR ''0'' \<or> a = CHR ''1'') \<and> isDigit b \<or>
         a = CHR ''2'' \<and> isDigit b \<and> digitVal b \<le> 3) \<and>
        c = CHR '':'' \<and> isDigit d \<and> digitVal d \<le> 5 \<and> isDigit e
    | _ \<Rightarrow> False)"

definition catalogRule :: "ScheduleRuleRecord \<Rightarrow> js_error + ScheduleRuleRecord" where
  "catalogRule value =
     (if sr_dayOfWeek value < 0 \<or> sr_dayOfWeek value > 6 then Inl (Error ''dayOfWeek must be 0..6'')
      else if \<not> HH_MM (sr_startTime value) \<or> \<not> HH_MM (sr_endTime value)
        then Inl (Error ''Schedule times must be HH:MM'')
      else Inr value)"

record 's CatalogDeps =
  cd_repository :: "'s PolicyCatalogRepository"
  cd_devices :: "'s DeviceRepository option"
  cd_portEnforcer :: "'s PortRuleEnforcer option"

definition createProfile :: "'s CatalogDeps \<Rightarrow> ProfileRecord \<Rightarrow> ('s, ProfileRecord) prog" where
  "createProfile deps data =
     (if trim (pf_name data) = [] then throw (Error ''Profile name is required'')
      else pc_createProfile (cd_repository deps) data)"

definition updateProfile :: "'s CatalogDeps \<Rightarrow> int \<Rightarrow> ProfilePatch \<Rightarrow> ('s, ProfileRecord) prog" where
  "updateProfile deps idValue data =
     bnd (liftE (catalogId idValue)) (\<lambda>i. pc_updateProfile (cd_repository deps) i data)"

definition deleteProfile :: "'s CatalogDeps \<Rightarrow> int \<Rightarrow> ('s, unit) prog" where
  "deleteProfile deps idValue = bnd (liftE (catalogId idValue)) (pc_deleteProfile (cd_repository deps))"

definition createSchedule :: "'s CatalogDeps \<Rightarrow> string \<Rightarrow> string option \<Rightarrow> ScheduleRuleRecord list \<Rightarrow> ('s, ScheduleRecord) prog" where
  "createSchedule deps name description rules =
     (if trim name = [] then throw (Error ''Schedule name is required'')
      else bnd (mapProg (\<lambda>r. liftE (catalogRule r)) rules) (pc_createSchedule (cd_repository deps) name description))"

definition updateSchedule :: "'s CatalogDeps \<Rightarrow> int \<Rightarrow> string option \<Rightarrow> string option option \<Rightarrow>
    ScheduleRuleRecord list option \<Rightarrow> ('s, ScheduleRecord) prog" where
  "updateSchedule deps idValue name description rules =
     bnd (liftE (catalogId idValue)) (\<lambda>i.
     bnd (case rules of
            None \<Rightarrow> ret None
          | Some rs \<Rightarrow> bnd (mapProg (\<lambda>r. liftE (catalogRule r)) rs) (\<lambda>valid. ret (Some valid))) (\<lambda>valid.
     pc_updateSchedule (cd_repository deps) i name description valid))"

definition deleteSchedule :: "'s CatalogDeps \<Rightarrow> int \<Rightarrow> ('s, unit) prog" where
  "deleteSchedule deps idValue = bnd (liftE (catalogId idValue)) (pc_deleteSchedule (cd_repository deps))"

definition catalog_portRules :: "'s CatalogDeps \<Rightarrow> int \<Rightarrow> ('s, PortRuleRecord list) prog" where
  "catalog_portRules deps deviceId = bnd (liftE (catalogId deviceId)) (pc_portRules (cd_repository deps))"

definition createPortRule :: "'s CatalogDeps \<Rightarrow> PortRuleRecord \<Rightarrow> ('s, PortRuleRecord) prog" where
  "createPortRule deps data =
     (if po_protocol data \<notin> {''tcp'', ''udp''} \<or> po_port data < 1 \<or> po_port data > 65535 \<or>
         po_action data \<notin> {''allow'', ''block''}
      then throw (Error ''Invalid port rule'')
      else bnd (case cd_devices deps of None \<Rightarrow> ret None | Some ds \<Rightarrow> dr_findById ds (po_deviceId data)) (\<lambda>found.
      case found of
        None \<Rightarrow> throw (Error ''Device not found or has no current IP'')
      | Some device \<Rightarrow>
        (case d_ip device of
           None \<Rightarrow> throw (Error ''Device not found or has no current IP'')
         | Some ip \<Rightarrow>
             bnd (pc_createPortRule (cd_repository deps) data) (\<lambda>created.
             thn (tryCatch
                   (case cd_portEnforcer deps of
                      None \<Rightarrow> skip
                    | Some pe \<Rightarrow> whenP (po_enabled data) (pe_apply pe (d_mac device) ip created))
                   (\<lambda>e. thn (pc_deletePortRule (cd_repository deps) (po_id created)) (throw e)))
                 (ret created)))))"

definition deletePortRule :: "'s CatalogDeps \<Rightarrow> int \<Rightarrow> ('s, unit) prog" where
  "deletePortRule deps idValue =
     bnd (liftE (catalogId idValue)) (\<lambda>target.
     bnd (pc_portRule (cd_repository deps) target) (\<lambda>found.
     thn (case (found, cd_portEnforcer deps) of
            (Some rule, Some pe) \<Rightarrow> pe_remove pe rule
          | _ \<Rightarrow> skip)
         (pc_deletePortRule (cd_repository deps) target)))"

section \<open>DevicePolicyService\<close>

record 's PolicyServiceDeps =
  ps_devices :: "'s DeviceRepository"
  ps_policies :: "'s DevicePolicyRepository"
  ps_catalog :: "'s PolicyCatalogRepository option"
  ps_reconcilePolicy :: "(string \<Rightarrow> ('s, unit) prog) option"

text \<open>What the service returns carries no ids.\<close>

record DevicePolicyData =
  pd_blocked :: bool
  pd_downloadLimit :: "int option"
  pd_uploadLimit :: "int option"
  pd_quota :: "int option"
  pd_quotaPeriod :: "string option"
  pd_quotaAction :: "string option"
  pd_quotaEnforcedAction :: "string option"
  pd_profileId :: "int option"
  pd_scheduleId :: "int option"

definition toPolicyData :: "DevicePolicy \<Rightarrow> DevicePolicyData" where
  "toPolicyData p = \<lparr>pd_blocked = p_blocked p, pd_downloadLimit = p_downloadLimit p,
     pd_uploadLimit = p_uploadLimit p, pd_quota = p_quota p, pd_quotaPeriod = p_quotaPeriod p,
     pd_quotaAction = p_quotaAction p, pd_quotaEnforcedAction = p_quotaEnforcedAction p,
     pd_profileId = p_profileId p, pd_scheduleId = p_scheduleId p\<rparr>"

definition defaultPolicyData :: DevicePolicyData where
  "defaultPolicyData = \<lparr>pd_blocked = False, pd_downloadLimit = None, pd_uploadLimit = None,
     pd_quota = None, pd_quotaPeriod = None, pd_quotaAction = None, pd_quotaEnforcedAction = None,
     pd_profileId = None, pd_scheduleId = None\<rparr>"

definition getDevicePolicy :: "'s PolicyServiceDeps \<Rightarrow> string \<Rightarrow> ('s, DevicePolicyData option) prog" where
  "getDevicePolicy deps mac =
     bnd (resolveDeviceIdentifier (ps_devices deps) mac) (\<lambda>found.
     case found of None \<Rightarrow> ret None
     | Some device \<Rightarrow>
       bnd (pr_findByDeviceId (ps_policies deps) (d_id device)) (\<lambda>policy.
       ret (Some (case policy of None \<Rightarrow> defaultPolicyData | Some p \<Rightarrow> toPolicyData p))))"

text \<open>A reference of the patch to an entry of the catalog.\<close>

definition validateReference :: "string \<Rightarrow> string \<Rightarrow> 's PolicyCatalogRepository option \<Rightarrow>
    ('s PolicyCatalogRepository \<Rightarrow> ('s, int list) prog) \<Rightarrow> int option option \<Rightarrow> ('s, unit) prog" where
  "validateReference field what catalog ids reference = (case reference of
      Some (Some i) \<Rightarrow>
        if \<not> isSafeId i then throw (Error (''Invalid '' @ field))
        else (case catalog of
            None \<Rightarrow> throw (Error ''Policy catalog unavailable'')
          | Some c \<Rightarrow> bnd (ids c) (\<lambda>known.
              if i \<notin> set known then throw (Error (what @ '' not found: '' @ showInt i)) else skip))
    | _ \<Rightarrow> skip)"

definition validateInput :: "'s PolicyServiceDeps \<Rightarrow> PolicyPatch \<Rightarrow> ('s, unit) prog" where
  "validateInput deps data =
     thn (case pp_quota data of
            Some (Some quota) \<Rightarrow> if quota < 0 then throw (Error ''Quota must not be negative'') else skip
          | _ \<Rightarrow> skip)
    (thn (validateReference ''profileId'' ''Profile'' (ps_catalog deps)
            (\<lambda>c. bnd (pc_profiles c) (\<lambda>ps. ret (map pf_id ps))) (pp_profileId data))
         (validateReference ''scheduleId'' ''Schedule'' (ps_catalog deps)
            (\<lambda>c. bnd (pc_schedules c) (\<lambda>ss. ret (map sd_id ss))) (pp_scheduleId data)))"

text \<open>Values of the profile fill only what the patch leaves open.\<close>

definition profileDefaults :: "ProfileRecord \<Rightarrow> PolicyPatch \<Rightarrow> PolicyPatch" where
  "profileDefaults profile data =
     data\<lparr>pp_downloadLimit := (case pp_downloadLimit data of None \<Rightarrow> Some (pf_downloadLimit profile) | v \<Rightarrow> v),
          pp_uploadLimit := (case pp_uploadLimit data of None \<Rightarrow> Some (pf_uploadLimit profile) | v \<Rightarrow> v),
          pp_quota := (case pp_quota data of None \<Rightarrow> Some (pf_quota profile) | v \<Rightarrow> v),
          pp_quotaPeriod := (case pp_quotaPeriod data of None \<Rightarrow> Some (pf_quotaPeriod profile) | v \<Rightarrow> v)\<rparr>"

definition policyUpdates :: "'s PolicyServiceDeps \<Rightarrow> PolicyPatch \<Rightarrow> ('s, PolicyPatch) prog" where
  "policyUpdates deps data = (case pp_profileId data of
      Some (Some profileId) \<Rightarrow>
        (case ps_catalog deps of
           None \<Rightarrow> throw (Error ''Policy catalog unavailable'')
         | Some c \<Rightarrow> bnd (pc_profiles c) (\<lambda>profiles.
             case find (\<lambda>p. pf_id p = profileId) profiles of
               None \<Rightarrow> throw (Error (''Profile not found: '' @ showInt profileId))
             | Some profile \<Rightarrow> ret (profileDefaults profile data)))
    | _ \<Rightarrow> ret data)"

definition touchesQuota :: "PolicyPatch \<Rightarrow> bool" where
  "touchesQuota data \<longleftrightarrow> pp_quota data \<noteq> None \<or> pp_quotaPeriod data \<noteq> None \<or> pp_quotaAction data \<noteq> None \<or>
     pp_quotaEnforcedAction data \<noteq> None \<or> (pp_profileId data \<noteq> None \<and> pp_profileId data \<noteq> Some None)"

definition upsertDevicePolicy :: "'s PolicyServiceDeps \<Rightarrow> string \<Rightarrow> PolicyPatch \<Rightarrow> ('s, DevicePolicyData) prog" where
  "upsertDevicePolicy deps mac data =
     bnd (resolveDeviceIdentifier (ps_devices deps) mac) (\<lambda>found.
     case found of None \<Rightarrow> throw (Error (''Device not found: '' @ mac))
     | Some device \<Rightarrow>
         thn (validateInput deps data)
        (bnd (policyUpdates deps data) (\<lambda>updates.
         bnd (pr_upsert (ps_policies deps) (d_id device) updates) (\<lambda>policy.
         thn (optCall (ps_reconcilePolicy deps) (\<lambda>reconcile. whenP (touchesQuota data) (reconcile mac)))
             (ret (toPolicyData policy))))))"

end
