(* ===== verification/PortRules.thy ===== *)
theory PortRules
  imports UsageReader Policies
begin

text \<open>
  \<open>NftPortRuleEnforcer\<close>: a port rule of the catalog becomes two rules of the forward chain; removal
  finds their handles in the JSON listing of the chain by a regular expression.
\<close>

record 's PortEnforcer =
  px_executor :: "'s Exec"
  px_audit :: "(AuditData \<Rightarrow> ('s, unit) prog) option"
  px_clientInterface :: string
  px_uplinkInterface :: string
  px_admin :: string

text \<open>\<open>/^(?:\d{1,3}\.){3}\d{1,3}$/\<close> and the range of every octet\<close>

definition port_validIpv4 :: "string \<Rightarrow> bool" where
  "port_validIpv4 value \<longleftrightarrow> rxTest [[Start] @ dottedQuad @ [End]] value \<and>
     list_all (\<lambda>part. jsOctet (jsNumber part)) (splitOn (CHR ''.'') value)"

definition validRulePort :: "int \<Rightarrow> bool" where
  "validRulePort port \<longleftrightarrow> 1 \<le> port \<and> port \<le> 65535"

definition portComment :: "PortRuleRecord \<Rightarrow> string" where
  "portComment rule = ''ayad_nm_port_'' @ showInt (po_id rule)"

definition verdictOf :: "PortRuleRecord \<Rightarrow> string" where
  "verdictOf rule = (if po_action rule = ''allow'' then ''accept'' else ''drop'')"

definition uploadRule :: "'s PortEnforcer \<Rightarrow> string \<Rightarrow> PortRuleRecord \<Rightarrow> string list" where
  "uploadRule px ip rule = [''insert'', ''rule'', ''ip'', ''filter'', ''ayad_nm_forward'', ''position'', ''4'',
     ''iifname'', px_clientInterface px, ''ip'', ''saddr'', ip, po_protocol rule, ''dport'', showInt (po_port rule),
     ''oifname'', px_uplinkInterface px, verdictOf rule, ''comment'', portComment rule]"

definition downloadRule :: "'s PortEnforcer \<Rightarrow> string \<Rightarrow> PortRuleRecord \<Rightarrow> string list" where
  "downloadRule px ip rule = [''insert'', ''rule'', ''ip'', ''filter'', ''ayad_nm_forward'', ''position'', ''4'',
     ''iifname'', px_uplinkInterface px, ''ip'', ''daddr'', ip, po_protocol rule, ''sport'', showInt (po_port rule),
     ''oifname'', px_clientInterface px, verdictOf rule, ''comment'', portComment rule @ ''_return'']"

definition portAudit :: "'s PortEnforcer \<Rightarrow> string \<Rightarrow> string option \<Rightarrow> PortRuleRecord \<Rightarrow> (string \<times> string) list \<Rightarrow> ('s, unit) prog" where
  "portAudit px action mac rule details = optCall (px_audit px) (\<lambda>a. a
     \<lparr>a_action = action, a_mac = mac, a_deviceId = Some (po_deviceId rule), a_actor = Some (px_admin px),
      a_details = (''ruleId'', showInt (po_id rule)) # details\<rparr>)"

definition port_apply :: "'s PortEnforcer \<Rightarrow> string \<Rightarrow> string \<Rightarrow> PortRuleRecord \<Rightarrow> ('s, unit) prog" where
  "port_apply px mac ip rule =
     (if \<not> port_validIpv4 ip \<or> po_protocol rule \<notin> {''tcp'', ''udp''} \<or>
         po_action rule \<notin> {''allow'', ''block''} \<or> \<not> validRulePort (po_port rule)
      then throw (Error ''Invalid port rule input'')
      else let upload = uploadRule px ip rule; download = downloadRule px ip rule;
               details = [(''protocol'', po_protocol rule), (''port'', showInt (po_port rule)), (''action'', po_action rule)];
               nft = px_executor px ''nft'' in
        tryCatch
          (thn (nft (''-c'' # upload)) (thn (nft (''-c'' # download)) (thn (nft upload) (thn (nft download)
             (portAudit px ''apply-port-rule'' (Some mac) rule (details @ [(''result'', ''success'')]))))))
          (\<lambda>e. thn (portAudit px ''apply-port-rule'' (Some mac) rule
                  (details @ [(''result'', ''failure''), (''error'', errorMessage e)])) (throw e)))"

text \<open>
  \<open>"comment"\s*:\s*"ayad_nm_port_<id>(?:_return)?"[\s\S]*?"handle"\s*:\s*(\d+)\<close>; the optional group
  is tried first.
\<close>

definition quoted :: "string \<Rightarrow> string" where
  "quoted w = [CHR 0x22] @ w @ [CHR 0x22]"

definition handlePattern :: "PortRuleRecord \<Rightarrow> item list list" where
  "handlePattern rule = map (\<lambda>suffix.
     lit (quoted ''comment'') @ [Rep isSpace 0 None] @ lit '':'' @ [Rep isSpace 0 None] @
     lit (quoted (portComment rule @ suffix)) @ [Lazy (\<lambda>_. True)] @ lit (quoted ''handle'') @
     [Rep isSpace 0 None] @ lit '':'' @ [Rep isSpace 0 None, Open, Rep isDigit 1 None, Close])
     [''_return'', '''']"

definition portHandles :: "PortRuleRecord \<Rightarrow> string \<Rightarrow> string list" where
  "portHandles rule stdout = List.map_filter (\<lambda>groups. case groups of [] \<Rightarrow> None | h # _ \<Rightarrow>
     if h = [] then None else Some h) (rxMatchAll (handlePattern rule) stdout)"

definition deletePortHandle :: "'s PortEnforcer \<Rightarrow> string \<Rightarrow> ('s, unit) prog" where
  "deletePortHandle px handle =
     (let args = [''delete'', ''rule'', ''ip'', ''filter'', ''ayad_nm_forward'', ''handle'', handle] in
      thn (px_executor px ''nft'' (''-c'' # args)) (thn (px_executor px ''nft'' args) skip))"

definition port_remove :: "'s PortEnforcer \<Rightarrow> PortRuleRecord \<Rightarrow> ('s, unit) prog" where
  "port_remove px rule =
     bnd (px_executor px ''nft'' [''-j'', ''-a'', ''list'', ''chain'', ''ip'', ''filter'', ''ayad_nm_forward'']) (\<lambda>result.
     let handles = portHandles rule (fst result);
         removed = (''removed'', showNat (length handles)) in
     tryCatch
       (thn (forEach handles (deletePortHandle px))
            (portAudit px ''remove-port-rule'' None rule [removed, (''result'', ''success'')]))
       (\<lambda>e. thn (portAudit px ''remove-port-rule'' None rule
               [removed, (''result'', ''failure''), (''error'', errorMessage e)]) (throw e)))"

definition nftPortRuleEnforcer :: "'s PortEnforcer \<Rightarrow> 's PortRuleEnforcer" where
  "nftPortRuleEnforcer px = \<lparr>pe_apply = port_apply px, pe_remove = port_remove px\<rparr>"

end
