(* ===== verification/Whitelist.thy ===== *)
theory Whitelist
  imports Control Shaping PortRules
begin

text \<open>
  What the whitelist of the enforcement agent lets through. The agent runs as root, the backend
  does not: whatever the backend, or someone who took it over, sends, the firewall rules and
  sets that are removed are those of this program.
\<close>

section \<open>Removals\<close>

definition managedChains :: "string list set" where
  "managedChains = {[''ip'', ''filter'', ''INPUT''], [''ip'', ''filter'', ''FORWARD''], [''ip'', ''filter'', ''ayad_nm_forward''],
     [''ip'', ''filter'', ''ayad_nm_input''], [''ip'', ''nat'', ''POSTROUTING''], [''inet'', ''ayad_nm'', ''accounting'']}"

definition ownChains :: "string list set" where
  "ownChains = {[''ip'', ''filter'', ''ayad_nm_forward''], [''ip'', ''filter'', ''ayad_nm_input''],
     [''inet'', ''ayad_nm'', ''accounting'']}"

text \<open>
  The removals: all rules of a chain of its own, one element of one of its three sets, one rule by
  its handle in a chain it has rules in.
\<close>

definition confinedRemoval :: "string list \<Rightarrow> bool" where
  "confinedRemoval a \<longleftrightarrow>
     (\<exists>c \<in> ownChains. a = [''flush'', ''chain''] @ c) \<or>
     (\<exists>v. a = elementArgs ''delete'' ''filter'' ''blocked_macs'' v \<and> MAC_REGEX v) \<or>
     (\<exists>v. a = elementArgs ''delete'' ''filter'' ''blocked_ips'' v \<and> validIpv4 v) \<or>
     (\<exists>v. a = elementArgs ''delete'' ''ayad_nm'' ''vpn_blocked_ips'' v \<and> validIpv4 v) \<or>
     (\<exists>c \<in> managedChains. \<exists>h. a = [''delete'', ''rule''] @ c @ [''handle'', h] \<and> validRuleHandle h)"

lemma argIs_Cons [simp]: "argIs (x # xs) 0 y \<longleftrightarrow> x = y" "argIs (x # xs) (Suc n) y \<longleftrightarrow> argIs xs n y"
  "\<not> argIs [] n y"
  by (simp_all add: argIs_def arg_def)

lemma argIn_Cons [simp]: "argIn (x # xs) 0 ys \<longleftrightarrow> x \<in> set ys" "argIn (x # xs) (Suc n) ys \<longleftrightarrow> argIn xs n ys"
  "\<not> argIn [] n ys"
  by (simp_all add: argIn_def arg_def)

lemma argSat_Cons [simp]: "argSat P (x # xs) 0 \<longleftrightarrow> P x" "argSat P (x # xs) (Suc n) \<longleftrightarrow> argSat P xs n"
  "\<not> argSat P [] n"
  by (simp_all add: argSat_def arg_def)

lemma argsFrom_simps: "argsFrom a i [] \<longleftrightarrow> True" "argsFrom a i (x # xs) \<longleftrightarrow> argIs a i x \<and> argsFrom a (Suc i) xs"
proof -
  have "list_all (\<lambda>(k, y). argIs a (i + k) y) (enumerate (Suc n) xs) \<longleftrightarrow>
      list_all (\<lambda>(k, y). argIs a (Suc i + k) y) (enumerate n xs)" for n
    by (induction xs arbitrary: n) simp_all
  then show "argsFrom a i (x # xs) \<longleftrightarrow> argIs a i x \<and> argsFrom a (Suc i) xs" by (simp add: argsFrom_def)
qed (simp add: argsFrom_def)

lemma arg_numeral [simp]:
  "argIs (x # xs) (numeral n) y \<longleftrightarrow> argIs xs (pred_numeral n) y"
  "argIn (x # xs) (numeral n) ys \<longleftrightarrow> argIn xs (pred_numeral n) ys"
  "argSat P (x # xs) (numeral n) \<longleftrightarrow> argSat P xs (pred_numeral n)"
  by (simp_all add: numeral_eq_Suc)

lemma argIs_head: "argIs a 0 x \<longleftrightarrow> (\<exists>xs. a = x # xs)"
  by (cases a) auto

lemma exact_length:
  "length a = 5 \<Longrightarrow> \<exists>x0 x1 x2 x3 x4. a = [x0, x1, x2, x3, x4]"
  "length a = 7 \<Longrightarrow> \<exists>x0 x1 x2 x3 x4 x5 x6. a = [x0, x1, x2, x3, x4, x5, x6]"
  "length a = 8 \<Longrightarrow> \<exists>x0 x1 x2 x3 x4 x5 x6 x7. a = [x0, x1, x2, x3, x4, x5, x6, x7]"
  by (auto simp: length_Suc_conv numeral_eq_Suc)

lemma flush_confined:
  assumes "length a = 5" "argIs a 0 ''flush''"
    "argsFrom a 1 [''chain'', ''inet'', ''ayad_nm'', ''accounting''] \<or>
     argsFrom a 1 [''chain'', ''ip'', ''filter''] \<and> argIn a 4 [''ayad_nm_forward'', ''ayad_nm_input'']"
  shows "confinedRemoval a"
proof -
  from exact_length(1) [OF assms(1)] obtain x0 x1 x2 x3 x4 where a: "a = [x0, x1, x2, x3, x4]" by blast
  show ?thesis
    using assms(2,3) by (auto simp: a argsFrom_simps confinedRemoval_def ownChains_def)
qed

lemma element_confined:
  assumes "validElement a" "argIs a 0 ''delete''" "argIs a 1 ''element''"
  shows "confinedRemoval a"
proof -
  from assms(1) have "length a = 8" by (simp add: validElement_def split: if_splits)
  from exact_length(3) [OF this] obtain x0 x1 x2 x3 x4 x5 x6 x7 where a: "a = [x0, x1, x2, x3, x4, x5, x6, x7]" by blast
  have "a = elementArgs ''delete'' ''filter'' ''blocked_macs'' x6 \<and> MAC_REGEX x6 \<or>
      a = elementArgs ''delete'' ''filter'' ''blocked_ips'' x6 \<and> validIpv4 x6 \<or>
      a = elementArgs ''delete'' ''ayad_nm'' ''vpn_blocked_ips'' x6 \<and> validIpv4 x6"
    using assms by (auto simp: a validElement_def elementArgs_def argsFrom_simps elementMac_def split: if_splits)
  then show ?thesis unfolding confinedRemoval_def by blast
qed

lemma handle_confined:
  assumes "length a = 7" "argIs a 0 ''delete''" "argIs a 1 ''rule''" "argIs a 5 ''handle''" "argSat validRuleHandle a 6"
    and "\<exists>c \<in> managedChains. argsFrom a 2 c"
  shows "confinedRemoval a"
proof -
  from exact_length(2) [OF assms(1)] obtain x0 x1 x2 x3 x4 x5 x6 where a: "a = [x0, x1, x2, x3, x4, x5, x6]" by blast
  have "\<exists>c \<in> managedChains. a = [''delete'', ''rule''] @ c @ [''handle'', x6]" "validRuleHandle x6"
    using assms(2-) by (auto simp: a argsFrom_simps managedChains_def)
  then show ?thesis unfolding confinedRemoval_def by blast
qed

lemma ipRule_confined:
  assumes "validManagedNftRule cfg a" "argIs a 0 ''delete''"
  shows "confinedRemoval a"
proof -
  have del: "argIn a 0 [''add'', ''insert''] = False" "argIs a 0 ''replace'' = False"
    using assms(2) by (auto simp: argIs_head)
  have d: "deleteByHandle a" and r: "argIs a 1 ''rule''" and
    c: "argIs a 2 ''ip'' \<and> (argIs a 3 ''filter'' \<and> argIn a 4 [''INPUT'', ''FORWARD'', ''ayad_nm_forward'', ''ayad_nm_input''] \<or>
        argIs a 3 ''nat'' \<and> argIs a 4 ''POSTROUTING'')"
    using assms by (auto simp: validManagedNftRule_def Let_def del split: if_splits)
  have "\<exists>c \<in> managedChains. argsFrom a 2 c"
    using c by (auto simp: managedChains_def argsFrom_simps argIn_def argIs_def split: option.splits)
  with d r assms(2) show ?thesis by (intro handle_confined) (auto simp: deleteByHandle_def)
qed

lemma accountingRule_confined:
  assumes "validAccountingRule cfg a" "argIs a 0 ''delete''"
  shows "confinedRemoval a"
  using assms by (intro handle_confined) (auto simp: validAccountingRule_def managedChains_def argsFrom_simps split: if_splits)

lemma argIn_two: "argIn a 0 [x, y] \<Longrightarrow> argIs a 0 x \<or> argIs a 0 y"
  by (cases a) auto

lemma removal_not_list:
  assumes "argIs a 0 ''delete'' \<or> argIs a 0 ''flush''"
  shows "\<not> argIs (filter (\<lambda>x. x \<noteq> ''-j'' \<and> x \<noteq> ''-a'') a) 0 ''list''" "\<not> argIs a 0 ''-f''"
  using assms by (cases a; auto)+

lemma validNft_flush:
  assumes v: "validNft cfg a" and f: "argIs a 0 ''flush''"
    and no: "\<not> argIs (filter (\<lambda>x. x \<noteq> ''-j'' \<and> x \<noteq> ''-a'') a) 0 ''list''" "\<not> argIs a 0 ''-f''"
  shows "length a = 5 \<and> (argsFrom a 1 [''chain'', ''inet'', ''ayad_nm'', ''accounting''] \<or>
       argsFrom a 1 [''chain'', ''ip'', ''filter''] \<and> argIn a 4 [''ayad_nm_forward'', ''ayad_nm_input''])"
proof -
  have "argIn a 0 [''add'', ''insert'', ''delete'', ''replace''] = False" using f by (cases a) auto
  with v show ?thesis
    unfolding validNft_def Let_def by (simp only: no simp_thms if_False split: if_splits)
qed

lemma validNft_delete:
  assumes v: "validNft cfg a" and d: "argIs a 0 ''delete''"
    and no: "\<not> argIs (filter (\<lambda>x. x \<noteq> ''-j'' \<and> x \<noteq> ''-a'') a) 0 ''list''" "\<not> argIs a 0 ''-f''"
  shows "validElement a \<and> argIs a 1 ''element'' \<or> validManagedNftRule cfg a \<or> validAccountingRule cfg a"
proof -
  have n: "argIs a 0 ''add'' = False" "argIs a 0 ''flush'' = False" using d by (cases a; auto)+
  then have "validChain a = False" "validSet a = False" unfolding validChain_def validSet_def by simp_all
  with v show ?thesis
    unfolding validNft_def Let_def by (simp only: no n simp_thms if_False split: if_splits)
qed



section \<open>Traffic control\<close>

text \<open>An argument without the characters the agent refuses.\<close>

definition plainArg :: "string \<Rightarrow> bool" where
  "plainArg a \<longleftrightarrow> length a \<le> 500 \<and> noneOf [CHR '';'', CHR ''{'', CHR ''}'', CHR 0x00, CHR 0x0D, CHR 0x0A] a"

lemma plainArg_append: "plainArg a \<Longrightarrow> length a + length b \<le> 500 \<Longrightarrow> plainArg b \<Longrightarrow> plainArg (a @ b)"
  by (simp add: plainArg_def noneOf_def)

lemma plainArg_noneOf:
  assumes "plainArg a"
  shows "length a \<le> 512" "noneOf [CHR 0x00] a" "noneOf [CHR 0x0D, CHR 0x0A] a" "noneOf '';{}'' a"
  using assms by (auto simp: plainArg_def noneOf_def list_ex_iff)

lemma tc_accepted:
  assumes "op \<in> {''qdisc'', ''class'', ''filter''}" "verb \<in> {''add'', ''change'', ''del''}"
    and "validInterface cfg iface" "plainArg iface" "list_all plainArg rest" "length rest \<le> 60"
  shows "agent_valid cfg ''tc'' (op # verb # ''dev'' # iface # rest)"
proof -
  have all: "list_all plainArg (op # verb # ''dev'' # iface # rest)"
    using assms by (auto simp: plainArg_def noneOf_def)
  then have w: "wellFormedRequest ''tc'' (op # verb # ''dev'' # iface # rest)"
    using assms(6) unfolding wellFormedRequest_def list_all_iff by (auto simp: plainArg_noneOf)
  have dev: "indexOf ''dev'' (op # verb # ''dev'' # iface # rest) = Some 2"
    using assms(1,2) by (auto simp: indexOf_def)
  have ne: "iface \<noteq> []" using assms(3) by (auto simp: validInterface_def interfaceName_def)
  have n: "list_all (noneOf '';{}'') (op # verb # ''dev'' # iface # rest)"
    using all unfolding list_all_iff by (blast intro: plainArg_noneOf)
  have "validTc cfg (op # verb # ''dev'' # iface # rest)"
    unfolding validTc_def Let_def dev using assms(1-3) ne n by (auto simp: argsFrom_simps)
  with w show ?thesis by (simp add: agent_valid_def)
qed

lemma plain_showNat: "n < 10 ^ 5 \<Longrightarrow> plainArg (showNat n)"
  using showNat_digits [of n] length_showNat [of n 5]
  by (auto simp: plainArg_def noneOf_def list_ex_iff list_all_iff isDigit_def)

definition shapingCommands :: "string \<Rightarrow> string \<Rightarrow> string \<Rightarrow> string \<Rightarrow> nat \<Rightarrow> Direction \<Rightarrow> string list list" where
  "shapingCommands iface rate classId ip priority direction =
     [addHtbRootQdisc iface, addRootClass iface rate, changeRootClass iface rate, addClass iface classId rate,
      changeClassRate iface classId rate, addDownloadFilterByIp iface ip classId priority,
      addUploadFilterByIp iface ip classId priority, deleteFilter iface priority, deleteClass iface classId,
      deleteRootQdisc iface, redirectArgs iface priority direction ip]"

text \<open>
  C28. The agent accepts every command the traffic enforcer and the redirect manager build on an
  allowed interface, for every rate, class, address and priority that are plain texts; but it
  rejects the one that replaces a foreign root qdisc, on every interface.
\<close>

theorem agent_accepts_shaping_commands:
  assumes "validInterface cfg iface" "plainArg rate" "plainArg classId" "length classId \<le> 4" "plainArg ip" "length ip \<le> 15"
    and "priority \<le> 65535"
  shows "list_all (agent_valid cfg ''tc'') (shapingCommands iface rate classId ip priority direction) \<and>
    \<not> agent_valid cfg ''tc'' (replaceHtbRootQdisc iface)"
proof -
  have plain: "plainArg iface"
    using assms(1) by (auto simp: validInterface_def interfaceName_def plainArg_def noneOf_def list_all_iff list_ex_iff
        interfaceChar_def isDigit_def)
  have cls: "plainArg (''1:'' @ classId)" "plainArg (ip @ ''/32'')"
    using assms(3-6) by (auto simp: plainArg_def noneOf_def)
  have prio: "plainArg (showNat priority)" using assms(7) by (intro plain_showNat) simp
  note accept = tc_accepted [OF _ _ assms(1) plain]
  note args = addHtbRootQdisc_def addRootClass_def changeRootClass_def addClass_def changeClassRate_def
    addDownloadFilterByIp_def addUploadFilterByIp_def deleteFilter_def deleteClass_def deleteRootQdisc_def redirectArgs_def
  have lits: "list_all plainArg [''root'', ''handle'', ''1:'', ''htb'', ''default'', ''1'', ''parent'', ''classid'', ''1:1'',
      ''rate'', ''ceil'', ''protocol'', ''ip'', ''prio'', ''u32'', ''match'', ''dst'', ''src'', ''flowid'', ''pref'', ''ffff:'',
      ''flower'', ''src_ip'', ''dst_ip'', ''action'', ''mirred'', ''egress'', ''redirect'', ''dev'', IFB_NAME]"
    by (simp add: plainArg_def noneOf_def IFB_NAME_def)
  then have lit: "plainArg x" if "x \<in> set [''root'', ''handle'', ''1:'', ''htb'', ''default'', ''1'', ''parent'', ''classid'', ''1:1'',
      ''rate'', ''ceil'', ''protocol'', ''ip'', ''prio'', ''u32'', ''match'', ''dst'', ''src'', ''flowid'', ''pref'', ''ffff:'',
      ''flower'', ''src_ip'', ''dst_ip'', ''action'', ''mirred'', ''egress'', ''redirect'', ''dev'', IFB_NAME]" for x
    using that unfolding list_all_iff by blast
  have "directionKey direction \<in> {''src_ip'', ''dst_ip''}" by (cases direction) (simp_all add: directionKey_def)
  then have key: "plainArg (directionKey direction)" using lit by auto
  have all: "agent_valid cfg ''tc'' c" if "c \<in> set (shapingCommands iface rate classId ip priority direction)" for c
    using that unfolding shapingCommands_def
    by (auto simp: args intro!: accept simp: assms(2,5) cls [simplified] prio key lit)
  have "\<not> validTc cfg (replaceHtbRootQdisc iface)"
    by (auto simp: validTc_def replaceHtbRootQdisc_def argsFrom_simps Let_def split: if_splits)
  then show ?thesis using all by (auto simp: list_all_iff agent_valid_def)
qed

theorem agent_accepts_shaping_commands_witness:
  "list_all (agent_valid simAgent ''tc'') (shapingCommands ''lan0'' ''5000000bit'' ''3f'' ''192.168.1.20'' 163 Src)"
proof -
  have "validInterface simAgent ''lan0''" "plainArg ''5000000bit''" "plainArg ''3f''" "plainArg ''192.168.1.20''"
    by code_simp+
  from agent_accepts_shaping_commands [OF this(1-3) _ this(4), of 163 Src] show ?thesis by simp
qed

end
