(* ===== verification/Progress.thy ===== *)
theory Progress
  imports Whitelist
begin

text \<open>
  What the composed services achieve when nothing is broken. \<open>yields P m V\<close> is total correctness:
  from every state with \<open>P\<close> the program returns, without a throw, a value with \<open>V\<close>, and \<open>P\<close> still
  holds. \<open>healthy\<close> is such a state: the database answers, the socket delivers, the rows of the
  devices are in the form this program writes. With a machine whose nft carries out what the
  agent lets through (\<open>nft_alive\<close>), every enforcement operation then succeeds, so the safety
  properties of \<open>Control\<close>, which speak of runs that may fail, are not vacuous.
\<close>

section \<open>Total correctness\<close>

definition yields :: "('s \<Rightarrow> bool) \<Rightarrow> ('s, 'a) prog \<Rightarrow> ('a \<Rightarrow> bool) \<Rightarrow> bool" where
  "yields P m V \<longleftrightarrow> (\<forall>s. P s \<longrightarrow> (\<exists>x t. m s = (Inr x, t) \<and> P t \<and> V x))"

abbreviation alive :: "('s \<Rightarrow> bool) \<Rightarrow> ('s, 'a) prog \<Rightarrow> bool" where
  "alive P m \<equiv> yields P m (\<lambda>_. True)"

named_theorems alive_rules \<open>introduction rules of alive\<close>

lemma yieldsD:
  assumes "yields P m V" "P s"
  obtains x t where "m s = (Inr x, t)" "P t" "V x"
  using assms by (auto simp: yields_def)

lemma alive_run: "alive P m \<Longrightarrow> P s \<Longrightarrow> \<exists>t. m s = (Inr (), t) \<and> P t"
  by (fastforce simp: yields_def)

lemma yields_bnd:
  assumes "yields P m V" "\<And>x. V x \<Longrightarrow> yields P (f x) W"
  shows "yields P (bnd m f) W"
  unfolding yields_def
proof (intro allI impI)
  fix s assume "P s"
  with assms(1) obtain x t where "m s = (Inr x, t)" "P t" "V x" by (rule yieldsD)
  with assms(2) show "\<exists>x t. bnd m f s = (Inr x, t) \<and> P t \<and> W x"
    by (simp add: bnd_Inr yields_def)
qed

lemma yields_thn: "yields P m V \<Longrightarrow> yields P n W \<Longrightarrow> yields P (thn m n) W"
  unfolding thn_def by (rule yields_bnd)

lemma yields_tryCatch: "yields P m V \<Longrightarrow> yields P (tryCatch m h) V"
  by (fastforce simp: yields_def tryCatch_def)

lemma yields_mono: "yields P m V \<Longrightarrow> (\<And>x. V x \<Longrightarrow> W x) \<Longrightarrow> yields P m W"
  by (fastforce simp: yields_def)

lemma yields_ret: "V x \<Longrightarrow> yields P (ret x) V"
  by (simp add: yields_def)

lemma alive_ret [alive_rules]: "alive P (ret x)"
  by (simp add: yields_def)

lemma alive_skip [alive_rules]: "alive P skip"
  by (simp add: yields_def)

lemma alive_gets [alive_rules]: "alive P (gets f)"
  by (simp add: yields_def)

lemma alive_liftE [alive_rules]: "x = Inr y \<Longrightarrow> alive P (liftE x)"
  by (simp add: liftE_def yields_def)

lemma alive_bnd [alive_rules]: "alive P m \<Longrightarrow> (\<And>x. alive P (f x)) \<Longrightarrow> alive P (bnd m f)"
  by (rule yields_bnd)

lemma alive_thn [alive_rules]: "alive P m \<Longrightarrow> alive P n \<Longrightarrow> alive P (thn m n)"
  by (rule yields_thn)

lemma alive_tryCatch [alive_rules]: "alive P m \<Longrightarrow> alive P (tryCatch m h)"
  by (rule yields_tryCatch)

lemma alive_if [alive_rules]: "(c \<Longrightarrow> alive P m) \<Longrightarrow> (\<not> c \<Longrightarrow> alive P n) \<Longrightarrow> alive P (if c then m else n)"
  by simp

lemma alive_whenP [alive_rules]: "(c \<Longrightarrow> alive P m) \<Longrightarrow> alive P (whenP c m)"
  by (cases c) (simp_all add: alive_skip)

lemma alive_option [alive_rules]:
  "(x = None \<Longrightarrow> alive P m) \<Longrightarrow> (\<And>y. x = Some y \<Longrightarrow> alive P (f y)) \<Longrightarrow>
   alive P (case x of None \<Rightarrow> m | Some y \<Rightarrow> f y)"
  by (cases x) simp_all

lemma alive_optCall [alive_rules]: "(\<And>f. m = Some f \<Longrightarrow> alive P (c f)) \<Longrightarrow> alive P (optCall m c)"
  by (cases m) (simp_all add: alive_skip)

lemma alive_forEach [alive_rules]: "(\<And>x. x \<in> set xs \<Longrightarrow> alive P (f x)) \<Longrightarrow> alive P (forEach xs f)"
  by (induction xs) (auto intro: alive_rules)

lemma alive_case_prod [alive_rules]: "(\<And>a b. p = (a, b) \<Longrightarrow> alive P (f a b)) \<Longrightarrow> alive P (case p of (a, b) \<Rightarrow> f a b)"
  by (cases p) simp

section \<open>A healthy system\<close>

text \<open>Rows as this program writes them, with the unique columns of the table.\<close>

definition goodRows :: "Device list \<Rightarrow> bool" where
  "goodRows D \<longleftrightarrow> distinct (map d_mac D) \<and> distinct (map d_id D) \<and>
     (\<forall>d \<in> set D. toDomainDevice d = Inr d \<and> (\<forall>ip. d_ip d = Some ip \<longrightarrow> isIPv4 ip))"

text \<open>A record of a blocked device that holds a MAC address holds that of its device; the bindings are IPv4 addresses.\<close>

definition recordKeys :: "Device list \<Rightarrow> BlockTables \<Rightarrow> bool" where
  "recordKeys D t \<longleftrightarrow> (\<forall>r \<in> set (bt_records t). \<forall>mac. bd_mac r = Some mac \<longrightarrow>
     (\<exists>d \<in> set D. d_mac d = mac \<and> d_id d = bd_deviceId r)) \<and> (\<forall>b \<in> set (bt_bindings t). isIPv4 (ib_ip b))"

definition healthy :: "Device list \<Rightarrow> 'k world \<Rightarrow> bool" where
  "healthy D w \<longleftrightarrow> w_devices w = D \<and> (\<forall>n. \<not> w_fault w n) \<and> (\<forall>n. w_link w n = Delivered) \<and>
     recordKeys D (w_blocked w)"

lemma healthy_upd [simp]:
  "healthy D (w\<lparr>w_tick := t\<rparr>) = healthy D w" "healthy D (w\<lparr>w_attempt := n\<rparr>) = healthy D w"
  "healthy D (w\<lparr>w_kernel := k\<rparr>) = healthy D w" "healthy D (w\<lparr>w_audit := a\<rparr>) = healthy D w"
  "healthy D (w\<lparr>w_policies := p\<rparr>) = healthy D w" "healthy D (w\<lparr>w_nextPolicy := i\<rparr>) = healthy D w"
  "healthy D (w\<lparr>w_vpnGuard := g\<rparr>) = healthy D w" "healthy D (w\<lparr>w_notifications := ns\<rparr>) = healthy D w"
  by (simp_all add: healthy_def)

lemma query_yields:
  assumes "\<And>w. healthy D w \<Longrightarrow> \<exists>x t. f w = (Inr x, t) \<and> healthy D t \<and> V x"
  shows "yields (healthy D) (query f) V"
  unfolding yields_def
proof (intro allI impI)
  fix w :: "'a world" assume h: "healthy D w"
  then have "query f w = f (w\<lparr>w_tick := Suc (w_tick w)\<rparr>)" by (simp add: query_def healthy_def Let_def)
  with assms [of "w\<lparr>w_tick := Suc (w_tick w)\<rparr>"] h show "\<exists>x t. query f w = (Inr x, t) \<and> healthy D t \<and> V x" by simp
qed

lemma select_yields: "(\<And>w. healthy D w \<Longrightarrow> V (f w)) \<Longrightarrow> yields (healthy D) (select f) V"
  unfolding select_def by (rule query_yields) simp

lemma audit_alive:
  "(\<And>i. a_deviceId d = Some i \<Longrightarrow> i \<in> d_id ` set D) \<Longrightarrow> alive (healthy D) (PrismaOperations_audit d)"
  unfolding PrismaOperations_audit_def
  by (rule query_yields) (force simp: healthy_def list_ex_iff split: option.split)

subsection \<open>The repositories\<close>

lemma goodRows_iff: "goodRows D \<Longrightarrow> w_devices w = D \<Longrightarrow> set (domainDevices w) = set D"
  by (auto simp: goodRows_def domainDevices_iff)

lemma find_key: "distinct (map key xs) \<Longrightarrow> x \<in> set xs \<Longrightarrow> find (\<lambda>y. key y = key x) xs = Some x"
  by (induction xs) (auto simp: image_iff)

lemma findById_yields:
  assumes "goodRows D" "d \<in> set D"
  shows "yields (healthy D) (PrismaDevice_findById (d_id d)) (\<lambda>x. x = Some d)"
proof -
  have "find (\<lambda>r. d_id r = d_id d) D = Some d"
    using assms by (intro find_key) (auto simp: goodRows_def)
  then have "yields (healthy D) (select (\<lambda>w. find (\<lambda>r. d_id r = d_id d) (w_devices w))) (\<lambda>x. x = Some d)"
    by (intro select_yields) (simp add: healthy_def)
  then show ?thesis unfolding PrismaDevice_findById_def
    by (rule yields_bnd) (use assms in \<open>simp add: toDomainOption_def liftE_def goodRows_def yields_def\<close>)
qed

lemma findByMac_yields:
  assumes "goodRows D" "d \<in> set D"
  shows "yields (healthy D) (PrismaDevice_findByMac (d_mac d)) (\<lambda>x. x = Some d)"
proof -
  have "find (\<lambda>r. d_mac r = d_mac d) D = Some d"
    using assms by (intro find_key) (auto simp: goodRows_def)
  then have "yields (healthy D) (select (\<lambda>w. find (\<lambda>r. d_mac r = d_mac d) (w_devices w))) (\<lambda>x. x = Some d)"
    by (intro select_yields) (simp add: healthy_def)
  then show ?thesis unfolding PrismaDevice_findByMac_def
    by (rule yields_bnd) (use assms in \<open>simp add: toDomainOption_def liftE_def goodRows_def yields_def\<close>)
qed

lemma mapProg_yields:
  assumes "\<forall>d \<in> set ds. toDomainDevice d = Inr d"
  shows "yields P (mapProg (\<lambda>r. liftE (toDomainDevice r)) ds) (\<lambda>x. x = ds)"
  using assms by (induction ds) (auto simp: liftE_def intro!: yields_ret yields_bnd)

lemma findAll_yields:
  assumes "goodRows D"
  shows "yields (healthy D) PrismaDevice_findAll (\<lambda>ds. set ds = set D)"
  unfolding PrismaDevice_findAll_def
  by (rule yields_bnd [where V = "\<lambda>ds. ds = sort_key d_id D"], rule select_yields)
    (use assms in \<open>auto simp: healthy_def goodRows_def intro!: yields_mono [OF mapProg_yields]\<close>)

lemma upsertPolicy_alive: "i \<in> d_id ` set D \<Longrightarrow> alive (healthy D) (PrismaPolicy_upsert i patch)"
  unfolding PrismaPolicy_upsert_def
  by (rule query_yields) (force simp: healthy_def list_ex_iff Let_def split: option.split)

lemma findPolicy_alive: "alive (healthy D) (PrismaPolicy_findByDeviceId i)"
  unfolding PrismaPolicy_findByDeviceId_def by (rule select_yields) simp

lemma resolve_yields:
  assumes "goodRows D" "d \<in> set D" "denotes identifier d"
  shows "yields (healthy D) (resolveDeviceIdentifier prismaDevices identifier) (\<lambda>x. x = Some d)"
proof (cases "NUMERIC_ID_REGEX identifier \<and> int (readNat identifier) \<le> MAX_SAFE_INTEGER")
  case True
  with assms findById_yields [OF assms(1,2)] show ?thesis
    by (simp add: resolveDeviceIdentifier_def denotes_def prismaDevices_def)
next
  case False
  with assms findByMac_yields [OF assms(1,2)] show ?thesis
    by (simp add: resolveDeviceIdentifier_def denotes_def liftE_def prismaDevices_def if_not_P)
qed

lemma denotes_unique: "goodRows D \<Longrightarrow> d \<in> set D \<Longrightarrow> e \<in> set D \<Longrightarrow> denotes i d \<Longrightarrow> denotes i e \<Longrightarrow> e = d"
  by (auto simp: goodRows_def denotes_def distinct_map inj_on_def split: if_splits)

lemma elementText_validIpv4: "validIpv4 v \<longleftrightarrow> isIPv4 v"
proof -
  have "(p = ''0'' \<or> canonicalNumber 3 p) \<and> readNat p \<le> 255 \<longleftrightarrow> isOctet p" for p
    by (cases p) (auto simp: isOctet_def canonicalNumber_def isDigit_def readNat_def)
  then show ?thesis by (simp add: validIpv4_def isIPv4_def Let_def)
qed

lemma recordKeys_upsert:
  assumes "recordKeys D t" "upsertRecord i mac reason t = Inr (r, t')"
    and "\<And>m. mac = Some m \<Longrightarrow> \<exists>d \<in> set D. d_mac d = m \<and> d_id d = i"
  shows "recordKeys D t'"
proof -
  from assms(2) have "bt_records t' = bt_records t @ [r] \<or> bt_records t' = map (\<lambda>x. if bd_deviceId x = i then r else x) (bt_records t)"
    and r: "bd_mac r = mac" "bd_deviceId r = i"
    by (auto simp: upsertRecord_def findRecord_def Let_def find_Some_iff split: if_splits option.splits)
  then have "set (bt_records t') \<subseteq> insert r (set (bt_records t))" by auto
  moreover have "bt_bindings t' = bt_bindings t"
    using assms(2) by (auto simp: upsertRecord_def Let_def split: if_splits option.splits)
  moreover have "\<exists>d \<in> set D. d_mac d = m \<and> d_id d = bd_deviceId r" if "bd_mac r = Some m" for m
    using assms(3) r that by simp
  ultimately show ?thesis using assms(1) unfolding recordKeys_def by (metis insertE subsetD)
qed

lemma recordBlock_alive:
  assumes "goodRows D" "d \<in> set D" "mac = None \<or> mac = Some (d_mac d)" "\<And>x. ip = Some x \<Longrightarrow> isIPv4 x"
  shows "alive (healthy D) (PrismaBlocked_recordBlock (d_id d) mac ip reason)"
proof -
  have "\<exists>r t. upsertRecord (d_id d) mac reason (w_blocked w) = Inr (r, t) \<and> recordKeys D t" if h: "healthy D w" for w :: "'a world"
  proof -
    have "\<not> (mac \<noteq> None \<and> list_ex (\<lambda>r. bd_deviceId r \<noteq> d_id d \<and> bd_mac r = mac) (bt_records (w_blocked w)))"
    proof
      assume "mac \<noteq> None \<and> list_ex (\<lambda>r. bd_deviceId r \<noteq> d_id d \<and> bd_mac r = mac) (bt_records (w_blocked w))"
      with assms(3) obtain r where r: "r \<in> set (bt_records (w_blocked w))" "bd_deviceId r \<noteq> d_id d" "bd_mac r = Some (d_mac d)"
        by (auto simp: list_ex_iff)
      moreover from h have "recordKeys D (w_blocked w)" by (simp add: healthy_def)
      ultimately obtain e where e: "e \<in> set D" "d_mac e = d_mac d" "d_id e = bd_deviceId r"
        unfolding recordKeys_def by blast
      with assms(1,2) have "e = d" by (auto simp: goodRows_def distinct_map inj_on_def)
      with e r show False by simp
    qed
    then obtain r t where u: "upsertRecord (d_id d) mac reason (w_blocked w) = Inr (r, t)"
      by (cases "findRecord (d_id d) (w_blocked w)") (auto simp: upsertRecord_def Let_def)
    moreover have "recordKeys D t"
      using h assms(2,3) by (intro recordKeys_upsert [OF _ u]) (auto simp: healthy_def)
    ultimately show ?thesis by blast
  qed
  moreover have "list_ex (\<lambda>e. d_id e = d_id d) (w_devices w)" if "healthy D w" for w :: "'a world"
    using that assms(2) by (auto simp: healthy_def list_ex_iff)
  moreover have "recordKeys D t \<Longrightarrow> truthy ip \<Longrightarrow> recordKeys D (upsertBinding i (the ip) t)" for i t
    using assms(4) by (cases ip) (auto simp: recordKeys_def upsertBinding_def truthy_def)
  ultimately show ?thesis
    unfolding PrismaBlocked_recordBlock_def
    by (intro alive_rules query_yields) (fastforce simp: healthy_def updBlocked_def)+
qed

lemma releaseBinding_ips: "ib_ip ` set (releaseBinding now reason i b rows) \<subseteq> ib_ip ` set rows"
  by (auto simp: releaseBinding_def split: option.split)

lemma releaseWhere_ips: "ib_ip ` set (releaseWhere now reason i P rows) \<subseteq> ib_ip ` set rows"
proof -
  have "ib_ip ` set (fold (releaseBinding now reason i) bs rows) \<subseteq> ib_ip ` set rows" for bs
  proof (induction bs arbitrary: rows)
    case (Cons b bs)
    from subset_trans [OF Cons.IH releaseBinding_ips] show ?case by simp
  qed simp
  then show ?thesis by (simp add: releaseWhere_def)
qed

lemma releaseBlock_alive: "alive (healthy D) (PrismaBlocked_releaseBlock i)"
proof -
  have "isIPv4 (ib_ip b)" if "\<forall>b \<in> set rows. isIPv4 (ib_ip b)" "b \<in> set (releaseWhere now reason j P rows)" for b now reason j P rows
    using that releaseWhere_ips [of now reason j P rows] by (metis image_eqI image_iff subsetD)
  then show ?thesis unfolding PrismaBlocked_releaseBlock_def
    by (intro alive_rules select_yields query_yields) (auto simp: healthy_def updBlocked_def recordKeys_def)
qed

lemma activeIps_yields: "yields (healthy D) (PrismaBlocked_activeIps i) (\<lambda>ips. \<forall>ip \<in> set ips. validIpv4 ip)"
proof -
  have "yields (healthy D) (select (\<lambda>w. map ib_ip (filter (\<lambda>b. ib_blockedDeviceId b = j \<and> ib_active b) (bt_bindings (w_blocked w)))))
      (\<lambda>ips. \<forall>ip \<in> set ips. validIpv4 ip)" for j
    by (rule select_yields) (auto simp: healthy_def recordKeys_def elementText_validIpv4)
  then show ?thesis unfolding PrismaBlocked_activeIps_def
    by (intro yields_bnd [OF select_yields [where V = "\<lambda>_. True"]]) (auto intro: yields_ret split: option.split)
qed

section \<open>A machine that carries out what the agent lets through\<close>

text \<open>
  The commands of the blocking operations, without the rebuilding of the chains at start-up. nft
  carries each of them out; only the deletion of an element that is not there fails, and says so.
\<close>

definition blockingCommands :: "string list set" where
  "blockingCommands =
     {chainArgs ''filter'' ''ayad_nm_forward'' ''forward'' ''-300'', [''add'', ''table'', ''ip'', ''ayad_nm''],
      setArgs ''ayad_nm'' ''vpn_blocked_ips'' ''ipv4_addr'',
      chainArgs ''ayad_nm'' ''blocked_devices_prerouting'' ''prerouting'' ''-301'',
      [''-a'', ''list'', ''chain'', ''ip'', ''ayad_nm'', ''blocked_devices_prerouting''], vpnRuleArgs,
      listSetArgs ''filter'' ''blocked_macs'', listSetArgs ''filter'' ''blocked_ips''} \<union>
     {elementArgs ''add'' ''filter'' n v | n v. n \<in> blockSets \<and> elementText n v} \<union>
     {elementArgs ''add'' ''ayad_nm'' ''vpn_blocked_ips'' v | v. validIpv4 v}"

definition deletionCommands :: "string list set" where
  "deletionCommands = {elementArgs ''delete'' ''filter'' n v | n v. n \<in> blockSets \<and> elementText n v} \<union>
     {elementArgs ''delete'' ''ayad_nm'' ''vpn_blocked_ips'' v | v. validIpv4 v}"

locale nft_alive = nft_tool m elems for m :: "'k Machine" and elems +
  assumes socket: "truthy (m_socketPath m)"
    and carries_out: "args \<in> blockingCommands \<Longrightarrow> \<exists>out k'. nftTool m args k = (Inr out, k')"
    and checks: "args \<in> blockingCommands \<Longrightarrow> \<exists>out k'. nftTool m (''-c'' # args) k = (Inr out, k')"
    and deletes: "args \<in> deletionCommands \<Longrightarrow> says isMissingElement (fst (nftTool m args k))"
    and checks_delete: "args \<in> deletionCommands \<Longrightarrow> says isMissingElement (fst (nftTool m (''-c'' # args) k))"

lemma length_joinWith: "xs \<noteq> [] \<Longrightarrow> length (joinWith [c] xs) = sum_list (map length xs) + length xs - 1"
  by (induction "[c]" xs rule: joinWith.induct) auto

lemma element_length:
  assumes "elementText n v"
  shows "length v \<le> 500"
proof (cases "n = ''blocked_macs''")
  case True
  let ?ps = "splitOn (CHR '':'') v"
  from True assms have "length ?ps = 6" "map length ?ps = replicate 6 2"
    by (auto simp: elementText_def MAC_REGEX_def Let_def list_all_iff intro!: nth_equalityI)
  then show ?thesis using length_joinWith [of ?ps "CHR '':''"] by (simp add: joinWith_splitOn sum_list_replicate)
next
  case False
  let ?ps = "splitOn (CHR ''.'') v"
  from False assms have p: "length ?ps = 4" "\<forall>p \<in> set ?ps. length p \<le> 3"
    by (auto simp: elementText_def elementText_validIpv4 isIPv4_def isOctet_def Let_def list_all_iff)
  obtain a b c d where "?ps = [a, b, c, d]" using p(1) by (auto simp: numeral_eq_Suc length_Suc_conv)
  then have "sum_list (map length ?ps) \<le> 12" using p(2) by simp
  then show ?thesis using p(1) length_joinWith [of ?ps "CHR ''.''"] by (simp add: joinWith_splitOn)
qed

lemma element_plain: "n \<in> blockSets \<Longrightarrow> elementText n v \<Longrightarrow> plainArg v"
  using canonical_chars [OF elementText_canonical] element_length [of n v]
  by (fastforce simp: plainArg_def noneOf_def list_ex_iff isHex_def isHexLower_def isDigit_def)

lemma nft_accepted:
  assumes "length args < 64" "list_all (\<lambda>a. length a \<le> 512 \<and> noneOf [CHR 0x00] a \<and> noneOf [CHR 0x0D, CHR 0x0A] a) args"
    and "stripChecks args = args" "validNft cfg args"
  shows "agent_valid cfg ''nft'' args \<and> agent_valid cfg ''nft'' (''-c'' # args)"
  using assms by (simp add: agent_valid_def wellFormedRequest_def list_all_iff noneOf_def)

lemma element_accepted:
  assumes "op = ''add'' \<or> op = ''delete''" "plainArg v"
    and "(n = ''blocked_macs'' \<and> table = ''filter'' \<and> MAC_REGEX v) \<or>
      (n = ''blocked_ips'' \<and> table = ''filter'' \<and> validIpv4 v) \<or>
      (n = ''vpn_blocked_ips'' \<and> table = ''ayad_nm'' \<and> validIpv4 v)"
  shows "agent_valid cfg ''nft'' (elementArgs op table n v) \<and> agent_valid cfg ''nft'' (''-c'' # elementArgs op table n v)"
proof (rule nft_accepted)
  show "list_all (\<lambda>a. length a \<le> 512 \<and> noneOf [CHR 0x00] a \<and> noneOf [CHR 0x0D, CHR 0x0A] a) (elementArgs op table n v)"
    using assms plainArg_noneOf [OF assms(2)] by (auto simp: elementArgs_def noneOf_def)
  show "validNft cfg (elementArgs op table n v)"
    using assms(1,3) unfolding elementArgs_def validNft_def validElement_def argsFrom_simps elementMac_def
    by (elim disjE conjE) simp_all
qed (use assms(1) in \<open>auto simp: elementArgs_def\<close>)

lemma blocking_accepted:
  assumes "args \<in> blockingCommands \<union> deletionCommands"
  shows "agent_valid cfg ''nft'' args \<and> agent_valid cfg ''nft'' (''-c'' # args)"
proof -
  have elem: "agent_valid cfg ''nft'' (elementArgs op ''filter'' n v) \<and> agent_valid cfg ''nft'' (''-c'' # elementArgs op ''filter'' n v)"
    if "n \<in> blockSets" "elementText n v" "op = ''add'' \<or> op = ''delete''" for op n v
    using that element_plain [OF that(1,2)] by (intro element_accepted) (auto simp: blockSets_def elementText_def)
  have vpn: "agent_valid cfg ''nft'' (elementArgs op ''ayad_nm'' ''vpn_blocked_ips'' v) \<and>
      agent_valid cfg ''nft'' (''-c'' # elementArgs op ''ayad_nm'' ''vpn_blocked_ips'' v)"
    if "validIpv4 v" "op = ''add'' \<or> op = ''delete''" for op v
    using that element_plain [of "''blocked_ips''" v] by (intro element_accepted) (auto simp: blockSets_def elementText_def)
  have "agent_valid cfg ''nft'' args \<and> agent_valid cfg ''nft'' (''-c'' # args)"
    if "args \<in> {chainArgs ''filter'' ''ayad_nm_forward'' ''forward'' ''-300'', [''add'', ''table'', ''ip'', ''ayad_nm''],
      setArgs ''ayad_nm'' ''vpn_blocked_ips'' ''ipv4_addr'',
      chainArgs ''ayad_nm'' ''blocked_devices_prerouting'' ''prerouting'' ''-301'',
      [''-a'', ''list'', ''chain'', ''ip'', ''ayad_nm'', ''blocked_devices_prerouting''], vpnRuleArgs,
      listSetArgs ''filter'' ''blocked_macs'', listSetArgs ''filter'' ''blocked_ips''}"
  proof (rule nft_accepted)
    show "length args < 64" "stripChecks args = args"
      "list_all (\<lambda>a. length a \<le> 512 \<and> noneOf [CHR 0x00] a \<and> noneOf [CHR 0x0D, CHR 0x0A] a) args"
      using that by (auto simp: chainArgs_def setArgs_def listSetArgs_def vpnRuleArgs_def noneOf_def)
    from that show "validNft cfg args"
      by (elim insertE emptyE) (simp_all add: chainArgs_def setArgs_def listSetArgs_def vpnRuleArgs_def validNft_def
          validChain_def validSet_def argsFrom_simps chainBody_def noneOf_def)
  qed
  with elem vpn assms show ?thesis unfolding blockingCommands_def deletionCommands_def by blast
qed

section \<open>One command\<close>

text \<open>A program that may throw only errors with \<open>E\<close>.\<close>

definition tolerable :: "(js_error \<Rightarrow> bool) \<Rightarrow> ('s \<Rightarrow> bool) \<Rightarrow> ('s, 'a) prog \<Rightarrow> bool" where
  "tolerable E P m \<longleftrightarrow> (\<forall>s. P s \<longrightarrow> (case m s of (r, t) \<Rightarrow> P t \<and> (\<forall>e. r = Inl e \<longrightarrow> E e)))"

lemma alive_tolerable: "alive P m \<Longrightarrow> tolerable E P m"
  by (fastforce simp: tolerable_def yields_def)

lemma tolerable_bnd: "tolerable E P m \<Longrightarrow> (\<And>x. tolerable E P (f x)) \<Longrightarrow> tolerable E P (bnd m f)"
proof -
  assume m: "tolerable E P m" and f: "\<And>x. tolerable E P (f x)"
  have "case bnd m f s of (r, t) \<Rightarrow> P t \<and> (\<forall>e. r = Inl e \<longrightarrow> E e)" if "P s" for s
  proof -
    obtain r t where run: "m s = (r, t)" by fastforce
    with m that have t: "P t" "\<And>e. r = Inl e \<Longrightarrow> E e" by (auto simp: tolerable_def)
    with run f show ?thesis by (cases r) (simp_all add: bnd_Inl bnd_Inr tolerable_def)
  qed
  then show ?thesis unfolding tolerable_def by blast
qed

lemma tolerable_thn: "tolerable E P m \<Longrightarrow> tolerable E P n \<Longrightarrow> tolerable E P (thn m n)"
  unfolding thn_def by (rule tolerable_bnd)

lemma tolerable_rethrow:
  "tolerable E P m \<Longrightarrow> (\<And>e. alive P (h e)) \<Longrightarrow> tolerable E P (tryCatch m (\<lambda>e. thn (h e) (throw e)))"
proof -
  assume m: "tolerable E P m" and h: "\<And>e. alive P (h e)"
  have "case tryCatch m (\<lambda>e. thn (h e) (throw e)) s of (r, t) \<Rightarrow> P t \<and> (\<forall>e. r = Inl e \<longrightarrow> E e)" if "P s" for s
  proof -
    obtain r t where run: "m s = (r, t)" by fastforce
    with m that have t: "P t" "\<And>e. r = Inl e \<Longrightarrow> E e" by (auto simp: tolerable_def)
    show ?thesis
    proof (cases r)
      case (Inl e)
      from h [of e] t(1) obtain x u where "h e t = (Inr x, u)" "P u" by (rule yieldsD)
      with run Inl t(2) show ?thesis by (simp add: tryCatch_Inl thn_Inr)
    qed (use run t in \<open>simp add: tryCatch_Inr\<close>)
  qed
  then show ?thesis unfolding tolerable_def by blast
qed

lemma tolerable_caught: "tolerable E P m \<Longrightarrow> alive P (tryCatch (bnd m (\<lambda>_. skip)) (\<lambda>e. if E e then skip else throw e))"
  by (fastforce simp: tolerable_def tryCatch_def bnd_def yields_def split: prod.splits sum.splits)

lemma hasSubstr_append: "hasSubstr p x \<Longrightarrow> hasSubstr p (a @ x)"
  by (induction a) auto

lemma missing_wrapped: "isMissingElement (Error x) \<Longrightarrow> isMissingElement (Error (a @ x))"
  by (auto simp: isMissingElement_def Let_def hasSubstr_append)

text \<open>A request that is delivered runs; it is repeated only when its reply looks like a broken socket.\<close>

lemma delivered_runs:
  assumes "healthy D w" "agent_valid (m_agent m) ''nft'' args" "says isMissingElement (fst (nftTool m args (w_kernel w)))"
  obtains (failed) e w' where "executeRemoteOnce m ''nft'' args w = (Inl e, w')" "healthy D w'"
      "isMissingElement (Error (rf_message e))" "\<nexists>out. fst (nftTool m args (w_kernel w)) = Inr out"
  | (ran) out w' where "executeRemoteOnce m ''nft'' args w = (Inr out, w')" "healthy D w'"
proof -
  obtain r k where t: "nftTool m args (w_kernel w) = (r, k)" by fastforce
  have link: "w_link w (w_attempt w) = Delivered" using assms(1) by (simp add: healthy_def)
  show thesis
  proof (cases r)
    case (Inr out)
    then show thesis using t link assms(1,2)
      by (intro ran [of out "w\<lparr>w_attempt := Suc (w_attempt w), w_kernel := k\<rparr>"])
        (simp_all add: executeRemoteOnce_def executeRequest_nft Let_def)
  next
    case (Inl f)
    let ?d = "describeCommand ''nft'' args @ '' failed: ''"
    have miss: "isMissingElement (Error (?d @ ?d @ localFailureDetail f))"
      using assms(3) t Inl missing_wrapped by (simp only: says_def fst_conv sum.case)
    have run: "executeRemoteOnce m ''nft'' args w = (Inl (RemoteFailure None (?d @ ?d @ localFailureDetail f)),
        w\<lparr>w_attempt := Suc (w_attempt w), w_kernel := k\<rparr>)"
      using t link assms(2) Inl by (simp add: executeRemoteOnce_def executeRequest_nft Let_def)
    show thesis by (rule failed [OF run]) (use assms(1) miss t Inl in simp_all)
  qed
qed

context nft_alive
begin

lemma attempts_tolerable:
  assumes "args' = args \<or> args' = ''-c'' # args" "args \<in> deletionCommands"
  shows "tolerable isMissingElement (healthy D) (remoteAttempts m ''nft'' args' (Suc n))"
  unfolding tolerable_def
proof (intro allI impI)
  have acc: "agent_valid (m_agent m) ''nft'' args'" using assms blocking_accepted by blast
  have says: "says isMissingElement (fst (nftTool m args' k))" for k using assms deletes checks_delete by blast
  show "case remoteAttempts m ''nft'' args' (Suc n) w of (r, t) \<Rightarrow> healthy D t \<and> (\<forall>e. r = Inl e \<longrightarrow> isMissingElement e)"
    if "healthy D w" for w
    using that
  proof (induction n arbitrary: w)
    case 0
    from 0 acc says show ?case by (rule delivered_runs) simp_all
  next
    case (Suc n)
    from Suc.prems acc says show ?case
    proof (rule delivered_runs)
      fix e w' assume "executeRemoteOnce m ''nft'' args' w = (Inl e, w')" "healthy D w'" "isMissingElement (Error (rf_message e))"
      with Suc.IH [of w'] show ?thesis by simp
    qed simp
  qed
qed

lemma attempts_alive:
  assumes "args' = args \<or> args' = ''-c'' # args" "args \<in> blockingCommands"
  shows "alive (healthy D) (remoteAttempts m ''nft'' args' (Suc n))"
  unfolding yields_def
proof (intro allI impI)
  fix w :: "'k world" assume h: "healthy D w"
  have acc: "agent_valid (m_agent m) ''nft'' args'" using assms blocking_accepted by blast
  obtain out k where ok: "nftTool m args' (w_kernel w) = (Inr out, k)"
    using assms carries_out checks by metis
  then have "says isMissingElement (fst (nftTool m args' (w_kernel w)))" by (simp add: says_def)
  from h acc this show "\<exists>x t. remoteAttempts m ''nft'' args' (Suc n) w = (Inr x, t) \<and> healthy D t \<and> True"
    by (rule delivered_runs) (simp_all add: ok)
qed

lemma execute_alive:
  assumes "args \<in> blockingCommands"
  shows "alive (healthy D) (LinuxExecutor_execute m ''nft'' args)" "alive (healthy D) (LinuxExecutor_execute m ''nft'' (''-c'' # args))"
  using attempts_alive [OF _ assms, of _ D 19] by (simp_all add: LinuxExecutor_execute_def socket REMOTE_CONNECT_RETRIES_def
      numeral_eq_Suc del: remoteAttempts.simps)

lemma execute_tolerable:
  assumes "args \<in> deletionCommands"
  shows "tolerable isMissingElement (healthy D) (LinuxExecutor_execute m ''nft'' args)"
    "tolerable isMissingElement (healthy D) (LinuxExecutor_execute m ''nft'' (''-c'' # args))"
  using attempts_tolerable [OF _ assms, of _ D 19] by (simp_all add: LinuxExecutor_execute_def socket REMOTE_CONNECT_RETRIES_def
      numeral_eq_Suc del: remoteAttempts.simps)

lemma audit_nft: "alive (healthy D) (PrismaOperations_audit (nftAuditData a args x))"
  by (rule audit_alive) (simp add: nftAuditData_def)

lemma execNft_alive:
  assumes "args \<in> blockingCommands"
  shows "alive (healthy D) (execNft (nftEnvOf m ssh dash uplink) args)"
  unfolding execNft_def Let_def nftEnvOf_def optCall_simps NftEnv.simps
  by (intro alive_rules execute_alive [OF assms] audit_nft)

lemma execNft_tolerable:
  assumes "args \<in> deletionCommands"
  shows "tolerable isMissingElement (healthy D) (execNft (nftEnvOf m ssh dash uplink) args)"
  unfolding execNft_def Let_def nftEnvOf_def optCall_simps NftEnv.simps
proof (intro tolerable_thn tolerable_rethrow)
  show "tolerable isMissingElement (healthy D) (if c then bnd (LinuxExecutor_execute m ''nft'' (''-c'' # args)) (\<lambda>_. skip) else skip)" for c
    by (cases c) (simp_all add: tolerable_bnd execute_tolerable(2) [OF assms] alive_tolerable alive_skip)
  show "tolerable isMissingElement (healthy D) (bnd (LinuxExecutor_execute m ''nft'' args) (\<lambda>(stdout, stderr).
      thn (PrismaOperations_audit (nftAuditData ''enforcement-command-after'' args [(''result'', ''success''),
            (''stdout'', take 2000 stdout), (''stderr'', take 2000 stderr)])) (ret stdout)))"
    by (rule tolerable_bnd, rule execute_tolerable(1) [OF assms])
      (auto simp: case_prod_beta intro!: alive_tolerable alive_rules audit_nft)
qed (auto intro: alive_tolerable audit_nft)

section \<open>The operations of the adapter\<close>

lemma execUnless_alive: "args \<in> blockingCommands \<Longrightarrow> alive (healthy D) (execUnless isAlreadyExists (nftEnvOf m ssh dash uplink) args)"
  unfolding execUnless_def by (intro alive_rules execNft_alive)

lemma deleteElement_alive:
  "elementArgs ''delete'' table n v \<in> deletionCommands \<Longrightarrow> alive (healthy D) (deleteElement (nftEnvOf m ssh dash uplink) table n v)"
  unfolding deleteElement_def execUnless_def by (intro tolerable_caught execNft_tolerable)

lemma ensureVpn_alive: "alive (healthy D) (ensureVpnEnforcementState (nftEnvOf m ssh dash uplink))"
  unfolding ensureVpnEnforcementState_def runNft_def
  by (intro alive_rules execUnless_alive execNft_alive) (simp_all add: blockingCommands_def)

lemma ensureControl_alive: "alive (healthy D) (ensureControlChain (nftEnvOf m ssh dash uplink))"
  unfolding ensureControlChain_def by (intro execUnless_alive) (simp add: blockingCommands_def)

lemma vpn_commands:
  assumes "validIpv4 ip"
  shows "alive (healthy D) (syncVpnBlockedIp (nftEnvOf m ssh dash uplink) ip)"
    "alive (healthy D) (removeVpnBlockedIp (nftEnvOf m ssh dash uplink) ip)"
  unfolding syncVpnBlockedIp_def removeVpnBlockedIp_def addElement_def
  by (intro alive_rules ensureVpn_alive execUnless_alive deleteElement_alive;
      use assms in \<open>auto simp: blockingCommands_def deletionCommands_def\<close>)+

lemma add_alive:
  "n \<in> blockSets \<Longrightarrow> elementText n v \<Longrightarrow> alive (healthy D) (addElement (nftEnvOf m ssh dash uplink) ''filter'' n v)"
  unfolding addElement_def by (rule execUnless_alive) (auto simp: blockingCommands_def)

lemma delete_alive:
  "n \<in> blockSets \<Longrightarrow> elementText n v \<Longrightarrow> alive (healthy D) (deleteElement (nftEnvOf m ssh dash uplink) ''filter'' n v)"
  by (rule deleteElement_alive) (auto simp: deletionCommands_def)

lemma blockIp_alive:
  assumes "validIpv4 ip"
  shows "alive (healthy D) (nft_blockIp (nftEnvOf m ssh dash uplink) ip)"
    "alive (healthy D) (nft_unblockIp (nftEnvOf m ssh dash uplink) ip)"
  using assms unfolding nft_blockIp_def nft_unblockIp_def validIpv4_canonical [OF assms]
  by (auto simp: liftE_def blockSets_def elementText_def
      intro!: alive_rules add_alive delete_alive vpn_commands ensureVpn_alive ensureControl_alive)

lemma blockMac_alive:
  assumes "MacAddress_create mac = Inr mac"
  shows "alive (healthy D) (nft_blockDevice (nftEnvOf m ssh dash uplink) mac None)"
    "(\<And>ip. oip = Some ip \<Longrightarrow> validIpv4 ip) \<Longrightarrow> alive (healthy D) (nft_unblockDevice (nftEnvOf m ssh dash uplink) mac oip)"
proof -
  have v: "nft_validateMac mac = Inr mac" "MAC_REGEX mac" "toLowerCase mac = mac"
    using assms by (auto simp: nft_validateMac_def MacAddress_create_def Let_def MAC_REGEX_trim split: if_splits)
  show "alive (healthy D) (nft_blockDevice (nftEnvOf m ssh dash uplink) mac None)"
    using v by (auto simp: nft_blockDevice_def liftE_def blockSets_def elementText_def truthy_def
        intro!: alive_rules add_alive ensureControl_alive)
  assume ip: "\<And>ip. oip = Some ip \<Longrightarrow> validIpv4 ip"
  show "alive (healthy D) (nft_unblockDevice (nftEnvOf m ssh dash uplink) mac oip)"
    using v ip by (cases oip) (auto simp: nft_unblockDevice_def liftE_def blockSets_def elementText_def truthy_def
        validIpv4_canonical intro!: alive_rules delete_alive vpn_commands)
qed

lemma execNft_ran:
  assumes "execNft env args s = (Inr x, t)"
  shows "\<exists>s1 err s2. n_execute env args s1 = (Inr (x, err), s2)"
proof -
  from assms obtain u s0 where "tryCatch (bnd (n_execute env args) (\<lambda>(stdout, stderr).
           thn (optCall (n_audit env) (\<lambda>a. a (nftAuditData ''enforcement-command-after'' args [(''result'', ''success''),
                  (''stdout'', take 2000 stdout), (''stderr'', take 2000 stderr)]))) (ret stdout)))
      (\<lambda>error. thn (optCall (n_audit env) (\<lambda>a. a (nftAuditData ''enforcement-command-after'' args
                  [(''result'', ''failure''), (''error'', errorMessage error)]))) (throw error)) s0 = (Inr x, t)"
    unfolding execNft_def Let_def by (blast elim: thn_InrE)
  then have "\<exists>b ta. n_execute env args s0 = (Inr (x, b), ta)"
    by (fastforce simp: tryCatch_def split: prod.splits sum.splits elim!: bnd_InrE thn_InrE)
  then show ?thesis by blast
qed

lemma listing_yields:
  assumes "n \<in> blockSets"
  shows "yields (healthy D) (execNft (nftEnvOf m ssh dash uplink) (listSetArgs ''filter'' n))
    (\<lambda>out. \<exists>xs. setListing out xs \<and> (\<forall>x \<in> set xs. elementText n x))"
  unfolding yields_def
proof (intro allI impI)
  have "listSetArgs ''filter'' n \<in> blockingCommands" using assms by (auto simp: blockSets_def blockingCommands_def)
  fix w :: "'k world" assume "healthy D w"
  with execNft_alive [OF \<open>listSetArgs ''filter'' n \<in> blockingCommands\<close>]
  obtain x t where run: "execNft (nftEnvOf m ssh dash uplink) (listSetArgs ''filter'' n) w = (Inr x, t)" "healthy D t"
    by (rule yieldsD)
  moreover from execNft_ran [OF run(1)] obtain s1 err s2 where
    "LinuxExecutor_execute m ''nft'' (listSetArgs ''filter'' n) s1 = (Inr (x, err), s2)"
    by (auto simp: nftEnvOf_def)
  from execute_list [OF assms this] have "\<exists>xs. setListing x xs \<and> (\<forall>x \<in> set xs. elementText n x)" by blast
  ultimately show "\<exists>x t. execNft (nftEnvOf m ssh dash uplink) (listSetArgs ''filter'' n) w = (Inr x, t) \<and> healthy D t \<and>
     (\<exists>xs. setListing x xs \<and> (\<forall>x \<in> set xs. elementText n x))" by blast
qed

lemma ipv4_text: "nft_validateIp x = Inr x \<Longrightarrow> IPV4_RE x \<and> trim x = x"
  by (auto simp: nft_validateIp_def Let_def split: if_splits)

lemma listed_elements:
  "yields (healthy D) (nft_getBlockedMacs (nftEnvOf m ssh dash uplink)) (\<lambda>xs. \<forall>x \<in> set xs. elementText ''blocked_macs'' x)"
  "yields (healthy D) (nft_getBlockedIps (nftEnvOf m ssh dash uplink)) (\<lambda>xs. \<forall>x \<in> set xs. elementText ''blocked_ips'' x)"
proof -
  have macs: "listedValues normalizeText MAC_REGEX out = xs"
    if "setListing out xs" "\<forall>x \<in> set xs. elementText ''blocked_macs'' x" for out xs
    using that by (intro listedValues_listing [where n = "''blocked_macs''" and f = toLowerCase])
      (auto simp: normalizeText_def elementText_def canonicalElement_def)
  have ips: "listedValues trim IPV4_RE out = xs"
    if "setListing out xs" "\<forall>x \<in> set xs. elementText ''blocked_ips'' x" for out xs
    using that by (intro listedValues_listing [where n = "''blocked_ips''" and f = id])
      (auto simp: elementText_def canonicalElement_def validIpv4_canonical dest: ipv4_text)
  show "yields (healthy D) (nft_getBlockedMacs (nftEnvOf m ssh dash uplink)) (\<lambda>xs. \<forall>x \<in> set xs. elementText ''blocked_macs'' x)"
    unfolding nft_getBlockedMacs_def
    by (rule yields_bnd, rule listing_yields) (auto simp: blockSets_def macs intro!: yields_ret)
  show "yields (healthy D) (nft_getBlockedIps (nftEnvOf m ssh dash uplink)) (\<lambda>xs. \<forall>x \<in> set xs. elementText ''blocked_ips'' x)"
    unfolding nft_getBlockedIps_def
    by (rule yields_bnd, rule listing_yields) (auto simp: blockSets_def ips intro!: yields_ret)
qed

section \<open>The services\<close>

lemma device_facts:
  assumes "goodRows D" "d \<in> set D"
  shows "MacAddress_create (d_mac d) = Inr (d_mac d)" "d_ip d = Some ip \<Longrightarrow> validIpv4 ip"
proof -
  from assms have d: "toDomainDevice d = Inr d" "\<And>ip. d_ip d = Some ip \<Longrightarrow> isIPv4 ip" by (auto simp: goodRows_def)
  from toDomainDevice_ok [OF d(1)] show "MacAddress_create (d_mac d) = Inr (d_mac d)" by simp
  from d(2) show "d_ip d = Some ip \<Longrightarrow> validIpv4 ip" by (simp add: elementText_validIpv4)
qed

lemma device_ip: "goodRows D \<Longrightarrow> d \<in> set D \<Longrightarrow> d_ip d = Some ip \<Longrightarrow> isIPv4 ip"
  by (simp add: goodRows_def)

lemma enforceBlock_alive:
  assumes "goodRows D" "d \<in> set D" "d_l2Visible d \<or> d_ip d \<noteq> None"
  shows "alive (healthy D) (enforceBlock (controlDeps m ssh dash uplink admin) d)"
  using assms(3) device_facts [OF assms(1,2)]
  by (auto simp: enforceBlock_def controlDeps_def nftDeviceBlocker_def intro!: blockMac_alive blockIp_alive)

lemma auditDevice_alive:
  "d \<in> set D \<Longrightarrow> alive (healthy D) (audit (controlDeps m ssh dash uplink admin)
     (blockAudit (controlDeps m ssh dash uplink admin) action actor d details))"
  by (auto simp: audit_def controlDeps_def blockAudit_def intro!: audit_alive)

lemma blockDevice_alive:
  assumes "goodRows D" "d \<in> set D" "denotes mac d" "d_identityValidated d"
    and "d_l2Visible d \<or> d_ip d \<noteq> None" "d_mac d \<notin> set (knownProxyMacs D)"
    and "\<not> (truthy requesterIp \<and> d_ip d = requesterIp)"
  shows "alive (healthy D) (blockDevice (controlDeps m ssh dash uplink admin) mac requesterIp)"
proof -
  let ?deps = "controlDeps m ssh dash uplink admin"
  have proxies: "MAC_REGEX mac \<Longrightarrow> normalizeText mac \<notin> set (knownProxyMacs ds)" if "set ds = set D" for ds
    using assms(6) that denotes_mac(1) [OF assms(3)] by (auto simp: knownProxyMacs_def set_map_filter)
  have i: "d_id d \<in> d_id ` set D" using assms(2) by simp
  have dev: "f_devices ?deps = prismaDevices" "f_policies ?deps = prismaPolicies" "f_blocked ?deps = Some prismaBlocked"
    by (simp_all add: controlDeps_def)
  have all: "yields (healthy D) (dr_findAll prismaDevices) (\<lambda>ds. set ds = set D)"
    using findAll_yields [OF assms(1)] by (simp add: prismaDevices_def)
  show ?thesis
    unfolding blockDevice_def dev
  proof (rule yields_bnd [OF resolve_yields [OF assms(1-3)]], simp only: option.case, intro alive_if yields_bnd [OF all])
    fix ds :: "Device list" assume "set ds = set D"
    note proxies = proxies [OF this]
    show "alive (healthy D) (let proxyMacs = knownProxyMacs ds; requestedMac = if MAC_REGEX mac then Some (normalizeText mac) else None
       in if truthy requestedMac \<and> the requestedMac \<in> set proxyMacs then throw (Error (''Refusing to enforce proxy MAC: '' @ mac))
          else if truthy requesterIp \<and> d_ip d = requesterIp then throw (Error ''Refusing to block the device making this request'')
          else bnd (pr_upsert prismaPolicies (d_id d) (noPatch\<lparr>pp_blocked := Some True\<rparr>)) (\<lambda>_.
          tryCatch
            (thn (enforceBlock ?deps d)
            (thn (optCall (Some prismaBlocked) (\<lambda>r. br_recordBlock r (d_id d)
                   (if d_identitySource d = PROXY_ACCEPTED_BY_ADMIN then None else Some (d_mac d)) (d_ip d)
                   (Some (if d_l2Visible d then ''mac-enforced'' else ''ip-enforced-proxy''))))
            (audit ?deps (blockAudit ?deps ''block-device'' (f_admin ?deps) d [(''result'', ''success'')]))))
            (\<lambda>error.
              thn (audit ?deps (blockAudit ?deps ''block-device'' (f_admin ?deps) d
                    [(''result'', ''pending''), (''error'', errorMessage error), (''desiredStatePersisted'', ''true'')]))
                (throw (PendingEnforcement (d_id d) True (errorMessage error))))))"
      unfolding Let_def
    proof (intro alive_if)
      show "alive (healthy D) (throw (Error (''Refusing to enforce proxy MAC: '' @ mac)))"
        if "truthy (if MAC_REGEX mac then Some (normalizeText mac) else None) \<and>
          the (if MAC_REGEX mac then Some (normalizeText mac) else None) \<in> set (knownProxyMacs ds)"
        using that proxies by (simp add: truthy_def split: if_splits)
    qed (use assms(7) in \<open>auto intro!: alive_rules enforceBlock_alive assms auditDevice_alive recordBlock_alive
        device_ip [OF assms(1,2)] upsertPolicy_alive [OF i] simp: prismaPolicies_def prismaBlocked_def\<close>)
  qed (use assms(4) in simp)
qed

lemma unblockDevice_alive:
  assumes "goodRows D" "d \<in> set D" "denotes mac d"
  shows "alive (healthy D) (unblockDevice (controlDeps m ssh dash uplink admin) mac)"
proof -
  let ?deps = "controlDeps m ssh dash uplink admin"
  have i: "d_id d \<in> d_id ` set D" using assms(2) by simp
  note facts = device_facts [OF assms(1,2)]
  have dev: "f_devices ?deps = prismaDevices" "f_policies ?deps = prismaPolicies" "f_blocked ?deps = Some prismaBlocked"
    "f_blocker ?deps = nftDeviceBlocker (nftEnvOf m ssh dash uplink)"
    by (simp_all add: controlDeps_def)
  show ?thesis
    unfolding unblockDevice_def dev
    by (rule yields_bnd [OF resolve_yields [OF assms]])
      (auto simp: prismaPolicies_def prismaBlocked_def nftDeviceBlocker_def facts
        intro!: alive_rules upsertPolicy_alive [OF i] auditDevice_alive [OF assms(2)] releaseBlock_alive blockMac_alive
          yields_bnd [OF activeIps_yields] blockIp_alive)
qed

lemma blockForQuota_alive:
  assumes "goodRows D" "d \<in> set D" "denotes mac d" "d_identityValidated d"
    and "d_l2Visible d \<or> d_ip d \<noteq> None"
  shows "alive (healthy D) (blockForQuota (controlDeps m ssh dash uplink admin) mac)"
proof -
  let ?deps = "controlDeps m ssh dash uplink admin"
  have dev: "f_devices ?deps = prismaDevices" "f_blocked ?deps = Some prismaBlocked"
    by (simp_all add: controlDeps_def)
  show ?thesis
    unfolding blockForQuota_def dev
    by (rule yields_bnd [OF resolve_yields [OF assms(1-3)]])
      (auto simp: prismaBlocked_def assms(4) intro!: alive_rules enforceBlock_alive assms auditDevice_alive recordBlock_alive
        device_ip [OF assms(1,2)])
qed

lemma desiredSets_yields:
  assumes "goodRows D" "set ds \<subseteq> set D" "\<forall>x \<in> set (fst acc). MacAddress_create x = Inr x" "\<forall>x \<in> set (snd acc). validIpv4 x"
  shows "yields (healthy D) (desiredSets prismaPolicies ds acc)
    (\<lambda>(ms, is). (\<forall>x \<in> set ms. MacAddress_create x = Inr x) \<and> (\<forall>x \<in> set is. validIpv4 x))"
  using assms(2-4)
proof (induction ds arbitrary: acc)
  case Nil
  then show ?case unfolding desiredSets.simps by (intro yields_ret) (simp add: split_beta)
next
  case (Cons d ds)
  have d: "d \<in> set D" using Cons.prems by simp
  have find: "yields (healthy D) (pr_findByDeviceId prismaPolicies (d_id d)) (\<lambda>_. True)"
    using findPolicy_alive by (simp add: prismaPolicies_def)
  show ?case unfolding desiredSets.simps
    by (rule yields_bnd [OF find])
      (use Cons device_facts [OF assms(1) d] in \<open>auto split: option.split\<close>)
qed

lemma reconcile_alive:
  assumes "goodRows D"
  shows "alive (healthy D) (firewall_reconcile (controlDeps m ssh dash uplink admin))"
proof -
  let ?deps = "controlDeps m ssh dash uplink admin"
  have dev: "f_devices ?deps = prismaDevices" "f_policies ?deps = prismaPolicies"
    "f_blocker ?deps = nftDeviceBlocker (nftEnvOf m ssh dash uplink)"
    by (simp_all add: controlDeps_def)
  have all: "yields (healthy D) (dr_findAll prismaDevices) (\<lambda>ds. set ds = set D)"
    using findAll_yields [OF assms(1)] by (simp add: prismaDevices_def)
  have mac: "elementText ''blocked_macs'' x \<Longrightarrow> MacAddress_create x = Inr x" for x
    by (simp add: elementText_def MacAddress_create_def MAC_REGEX_trim)
  have ip: "elementText ''blocked_ips'' x \<Longrightarrow> validIpv4 x" for x by (simp add: elementText_def)
  show ?thesis
    unfolding firewall_reconcile_def dev Let_def
  proof (rule yields_bnd [OF all], rule yields_bnd [OF desiredSets_yields [OF assms]], simp_all only: split_paired_all prod.case set_simps)
    fix ms ips assume V: "(\<forall>x \<in> set ms. MacAddress_create x = Inr x) \<and> (\<forall>x \<in> set ips. validIpv4 x)"
    let ?b = "nftDeviceBlocker (nftEnvOf m ssh dash uplink)"
    show "alive (healthy D)
        (thn (forEach ms (\<lambda>mac. bnd (liftE (MacAddress_create mac)) (\<lambda>ma. b_block ?b ma None)))
        (thn (forEach ips (\<lambda>ip. optCall (b_blockIp ?b) (\<lambda>f. f ip)))
        (bnd (case b_getBlockedMacs ?b of None \<Rightarrow> ret [] | Some g \<Rightarrow> g) (\<lambda>existingMacs.
         thn (forEach existingMacs (\<lambda>mac. whenP (mac \<notin> set ms) (bnd (liftE (MacAddress_create mac)) (\<lambda>ma. b_unblock ?b ma None))))
        (bnd (case b_getBlockedIps ?b of None \<Rightarrow> ret [] | Some g \<Rightarrow> g) (\<lambda>existingIps.
         forEach existingIps (\<lambda>ip. whenP (ip \<notin> set ips) (optCall (b_unblockIp ?b) (\<lambda>f. f ip)))))))))"
      unfolding nftDeviceBlocker_def DeviceBlocker.simps option.case optCall_simps
    proof (intro alive_thn alive_forEach alive_whenP blockIp_alive yields_bnd [OF listed_elements(1)] yields_bnd [OF listed_elements(2)])
      show "alive (healthy D) (bnd (liftE (MacAddress_create x)) (\<lambda>ma. nft_blockDevice (nftEnvOf m ssh dash uplink) ma None))"
        if "x \<in> set ms" for x using that V by (simp add: liftE_def blockMac_alive)
      show "alive (healthy D) (bnd (liftE (MacAddress_create x)) (\<lambda>ma. nft_unblockDevice (nftEnvOf m ssh dash uplink) ma None))"
        if "\<forall>x \<in> set xs. elementText ''blocked_macs'' x" "x \<in> set xs" for x xs
        using that by (auto simp: mac liftE_def intro!: blockMac_alive(2))
    qed (use V ip in auto)
  qed simp_all
qed

end

section \<open>The simulated machine is one\<close>

lemma simNft_blocking:
  assumes "args \<in> blockingCommands"
  shows "\<exists>out k'. simNft args k = (Inr out, k')"
proof -
  have "args \<noteq> elementArgs ''delete'' ''filter'' n v" for n v
    using assms by (auto simp: blockingCommands_def chainArgs_def setArgs_def listSetArgs_def vpnRuleArgs_def elementArgs_def)
  then show ?thesis unfolding simNft_def Let_def by (simp split: if_splits)
qed

interpretation simAlive: nft_alive simMachine simElems
proof
  show "truthy (m_socketPath simMachine)" by (simp add: simMachine_def truthy_def)
  show "\<exists>out k'. nftTool simMachine args k = (Inr out, k')" if "args \<in> blockingCommands" for args k
    using simNft_blocking [OF that] by (simp add: nftTool_sim)
  show "\<exists>out k'. nftTool simMachine (''-c'' # args) k = (Inr out, k')" for args k
    by (simp add: nftTool_sim simNft_check)
  show "says isMissingElement (fst (nftTool simMachine args k))" if "args \<in> deletionCommands" for args k
  proof -
    have miss: "isMissingElement (Error (localFailureDetail simMissing))"
      by code_simp
    from that have "args \<noteq> elementArgs ''add'' ''filter'' n v" for n v
      by (auto simp: deletionCommands_def elementArgs_def)
    with miss show ?thesis unfolding nftTool_sim simNft_def Let_def by (auto simp: says_def)
  qed
  show "says isMissingElement (fst (nftTool simMachine (''-c'' # args) k))" for args k
    by (simp add: nftTool_sim simNft_check says_def)
qed

section \<open>Properties\<close>

text \<open>
  C12. Blocking works when nothing is broken: with a database that answers, a socket that delivers
  and an nft that carries out the agent's commands, a request that names an identity-validated
  device with an enforcement path, neither a proxy nor the requester, succeeds; afterwards the
  device's policy is blocked and its address is in the kernel set.
\<close>

theorem healthy_block_enforces:
  assumes "nft_alive m elems" "goodRows D" "healthy D w" "d \<in> set D" "denotes identifier d"
    and "d_identityValidated d" "d_l2Visible d \<or> d_ip d \<noteq> None" "d_mac d \<notin> set (knownProxyMacs D)"
    and "\<not> (truthy requesterIp \<and> d_ip d = requesterIp)"
  shows "\<exists>w'. blockDevice (controlDeps m sshPort dashboardPort uplink admin) identifier requesterIp w = (Inr (), w') \<and>
    healthy D w' \<and> policyBlocks (findPolicy w' (d_id d)) \<and> enforcedIn d (kernelSets elems w')"
proof -
  have tool: "nft_tool m elems" using assms(1) by (simp add: nft_alive_def)
  from alive_run [OF nft_alive.blockDevice_alive [OF assms(1,2,4-9)] assms(3)]
  obtain w' where run: "blockDevice (controlDeps m sshPort dashboardPort uplink admin) identifier requesterIp w = (Inr (), w')"
    and h: "healthy D w'" by blast
  from specD [OF nft_tool.control_block [OF tool] run] obtain e where
    "e \<in> set (blockTargets identifier (domainDevices w))" "policyBlocks (findPolicy w' (d_id e))"
    "enforcedIn e (kernelSets elems w')"
    by (auto simp: blockPost_def kernelSets_def policyBlocks_def)
  moreover from this(1) have "e = d"
    using denotes_unique [OF assms(2,4) _ assms(5)] goodRows_iff [OF assms(2)] assms(3)
    by (auto simp: blockTargets_def healthy_def)
  ultimately show ?thesis using run h by blast
qed

text \<open>
  C13. Start-up reconciliation succeeds when nothing is broken, and then the kernel sets are exactly
  the addresses the persisted policies ask for, whatever they held before.
\<close>

theorem healthy_reconcile_converges:
  assumes "nft_alive m elems" "goodRows D" "healthy D w"
  shows "\<exists>w'. firewall_reconcile (controlDeps m sshPort dashboardPort uplink admin) w = (Inr (), w') \<and>
    kernelSets elems w' = (desiredMacs (domainDevices w) (findPolicy w), desiredIps (domainDevices w) (findPolicy w))"
proof -
  have tool: "nft_tool m elems" using assms(1) by (simp add: nft_alive_def)
  from alive_run [OF nft_alive.reconcile_alive [OF assms(1,2)] assms(3)]
  obtain w' where run: "firewall_reconcile (controlDeps m sshPort dashboardPort uplink admin) w = (Inr (), w')"
    by blast
  with reconcile_kernel(3) [OF tool run] show ?thesis by blast
qed

lemma demo_rows: "goodRows [demoLaptop, demoPhone]"
proof -
  have "toDomainDevice demoLaptop = Inr demoLaptop" "toDomainDevice demoPhone = Inr demoPhone"
    "isIPv4 (the (d_ip demoLaptop))" "isIPv4 (the (d_ip demoPhone))" by code_simp+
  then show ?thesis by (simp add: goodRows_def) (simp add: demoPhone_def demoLaptop_def)
qed

lemma demo_healthy: "healthy [demoLaptop, demoPhone] demoWorld"
proof -
  have "isIPv4 ''192.168.1.21''" by code_simp
  then show ?thesis by (simp add: healthy_def demoWorld_def recordKeys_def demoTables_def)
qed

theorem healthy_block_enforces_witness:
  "\<exists>w'. blockDevice (controlDeps simMachine 22 80 ''wan0'' ''admin'') ''02:00:00:00:00:01'' None demoWorld = (Inr (), w') \<and>
     enforcedIn demoLaptop (kernelSets simElems w')"
proof -
  have "denotes ''02:00:00:00:00:01'' demoLaptop" "d_mac demoLaptop \<notin> set (knownProxyMacs [demoLaptop, demoPhone])"
    by code_simp+
  with healthy_block_enforces [OF simAlive.nft_alive_axioms demo_rows demo_healthy, of demoLaptop "''02:00:00:00:00:01''" None
      22 80 "''wan0''" "''admin''"]
  show ?thesis by (auto simp: demoLaptop_def truthy_def)
qed

lemma demo_devices: "domainDevices demoWorld = [demoLaptop, demoPhone]"
proof -
  have "toDomainDevice demoLaptop = Inr demoLaptop" "toDomainDevice demoPhone = Inr demoPhone"
    using demo_rows by (auto simp: goodRows_def)
  moreover have "sort_key d_id [demoLaptop, demoPhone] = [demoLaptop, demoPhone]" by (simp add: demoLaptop_def demoPhone_def)
  ultimately show ?thesis by (simp add: domainDevices_def demoWorld_def List.map_filter_simps)
qed

lemma demo_desired:
  "desiredMacs (domainDevices demoWorld) (findPolicy demoWorld) = {}"
  "desiredIps (domainDevices demoWorld) (findPolicy demoWorld) = {''192.168.1.21''}"
proof -
  have "\<not> wantsBlock (findPolicy demoWorld) demoLaptop" "wantsBlock (findPolicy demoWorld) demoPhone"
    "\<not> d_l2Visible demoPhone" "d_ip demoPhone = Some ''192.168.1.21''" by code_simp+
  then show "desiredMacs (domainDevices demoWorld) (findPolicy demoWorld) = {}"
    "desiredIps (domainDevices demoWorld) (findPolicy demoWorld) = {''192.168.1.21''}"
    by (simp_all add: demo_devices desiredSets_unfold)
qed

theorem healthy_reconcile_converges_witness:
  "\<exists>w'. firewall_reconcile (controlDeps simMachine 22 80 ''wan0'' ''admin'') demoWorld = (Inr (), w') \<and>
     kernelSets simElems w' = ({}, {''192.168.1.21''})"
  using healthy_reconcile_converges [OF simAlive.nft_alive_axioms demo_rows demo_healthy, of 22 80 "''wan0''" "''admin''"]
  by (simp add: demo_desired)

section \<open>Runs of the operations of \<open>Control\<close> that succeed\<close>

lemma demo_laptop_runs:
  "\<exists>w'. blockDevice (controlDeps simMachine 22 80 ''wan0'' ''admin'') ''02:00:00:00:00:01'' None demoWorld = (Inr (), w')"
  "\<exists>w'. firewall_reconcile (controlDeps simMachine 22 80 ''wan0'' ''admin'') demoWorld = (Inr (), w')"
  "\<exists>w'. unblockDevice (controlDeps simMachine 22 80 ''wan0'' ''admin'') ''2'' demoWorld = (Inr (), w')"
proof -
  have l: "denotes ''02:00:00:00:00:01'' demoLaptop" "d_mac demoLaptop \<notin> set (knownProxyMacs [demoLaptop, demoPhone])"
    "d_identityValidated demoLaptop" "d_l2Visible demoLaptop" "denotes ''2'' demoPhone"
    by code_simp+
  show "\<exists>w'. blockDevice (controlDeps simMachine 22 80 ''wan0'' ''admin'') ''02:00:00:00:00:01'' None demoWorld = (Inr (), w')"
    using alive_run [OF simAlive.blockDevice_alive [OF demo_rows _ l(1), of None 22 80 "''wan0''" "''admin''"] demo_healthy] l by (auto simp: truthy_def)
  show "\<exists>w'. firewall_reconcile (controlDeps simMachine 22 80 ''wan0'' ''admin'') demoWorld = (Inr (), w')"
    using alive_run [OF simAlive.reconcile_alive [OF demo_rows, of 22 80 "''wan0''" "''admin''"] demo_healthy] by blast
  show "\<exists>w'. unblockDevice (controlDeps simMachine 22 80 ''wan0'' ''admin'') ''2'' demoWorld = (Inr (), w')"
    using alive_run [OF simAlive.unblockDevice_alive [OF demo_rows _ l(5), of 22 80 "''wan0''" "''admin''"] demo_healthy] by auto
qed

theorem block_persists_then_enforces_one_device_witness:
  "\<exists>w'. blockDevice (controlDeps simMachine 22 80 ''wan0'' ''admin'') ''02:00:00:00:00:01'' None demoWorld = (Inr (), w') \<and>
     blockPost (blockTargets ''02:00:00:00:00:01'' (domainDevices demoWorld)) None (findPolicy demoWorld)
       (kernelSets simElems demoWorld) (findPolicy w') (kernelSets simElems w') True"
proof -
  from demo_laptop_runs(1) obtain w' where
    run: "blockDevice (controlDeps simMachine 22 80 ''wan0'' ''admin'') ''02:00:00:00:00:01'' None demoWorld = (Inr (), w')" ..
  from block_persists_then_enforces_one_device [OF simTool.nft_tool_axioms run] run show ?thesis by auto
qed

theorem reconcile_converges_to_policies_witness:
  "\<exists>w'. firewall_reconcile (controlDeps simMachine 22 80 ''wan0'' ''admin'') demoWorld = (Inr (), w') \<and>
     kernelSets simElems w' = ({}, {''192.168.1.21''})"
proof -
  from demo_laptop_runs(2) obtain w' where
    run: "firewall_reconcile (controlDeps simMachine 22 80 ''wan0'' ''admin'') demoWorld = (Inr (), w')" ..
  from reconcile_converges_to_policies [OF simTool.nft_tool_axioms run] run show ?thesis by (auto simp: demo_desired)
qed


theorem quota_release_keeps_manual_blocks_witness:
  "\<exists>r w'. unblockForQuota (controlDeps simMachine 22 80 ''wan0'' ''admin'') ''2'' demoWorld = (r, w') \<and>
     findPolicy w' = findPolicy demoWorld \<and> ''192.168.1.21'' \<in> snd (kernelSets simElems w')"
proof -
  obtain r w' where run: "unblockForQuota (controlDeps simMachine 22 80 ''wan0'' ''admin'') ''2'' demoWorld = (r, w')" by fastforce
  have only: "denotes ''2'' d \<Longrightarrow> d \<in> set (domainDevices demoWorld) \<Longrightarrow> policyBlocks (findPolicy demoWorld (d_id d))" for d
  proof -
    assume d: "denotes ''2'' d" "d \<in> set (domainDevices demoWorld)"
    have "\<not> denotes ''2'' demoLaptop" "policyBlocks (findPolicy demoWorld (d_id demoPhone))" by code_simp+
    with d show ?thesis by (auto simp: demo_devices)
  qed
  have "''192.168.1.21'' \<in> snd (kernelSets simElems demoWorld)" by code_simp
  with quota_release_keeps_manual_blocks [OF simTool.nft_tool_axioms demo_wf run] only run show ?thesis by auto
qed

end
