(* ===== verification/Schedules.thy ===== *)
theory Schedules
  imports Policies Ipv4
begin

text \<open>
  \<open>ProfileEnforcementService\<close> and \<open>ScheduleEnforcementService\<close>. The clock of the schedule
  service gives the local weekday and the minute of the day. The service keeps the states it
  enforced per device; they are paired with the state of the system, with the flag \<open>running\<close> in
  front.
\<close>

text \<open>The operations of \<open>TrafficEnforcementService\<close> the cycles use.\<close>

record 's TrafficOps =
  to_limitDownload :: "string \<Rightarrow> int \<Rightarrow> ('s, unit) prog"
  to_limitUpload :: "string \<Rightarrow> int \<Rightarrow> ('s, unit) prog"
  to_clearDownload :: "string \<Rightarrow> ('s, unit) prog"
  to_clearUpload :: "string \<Rightarrow> ('s, unit) prog"

definition trafficOps :: "'s TrafficDeps \<Rightarrow> int \<Rightarrow> 's TrafficOps" where
  "trafficOps deps now = \<lparr>to_limitDownload = traffic_limitDownload deps now,
     to_limitUpload = traffic_limitUpload deps now, to_clearDownload = traffic_clearDownload deps,
     to_clearUpload = traffic_clearUpload deps\<rparr>"

text \<open>One direction: a limit is applied, otherwise a persisted limit is cleared.\<close>

definition applyOrClear :: "int option \<Rightarrow> int option \<Rightarrow> (int \<Rightarrow> ('s, unit) prog) \<Rightarrow> ('s, unit) prog \<Rightarrow> ('s, unit) prog" where
  "applyOrClear wanted persisted apply clear = (case wanted of
      Some rate \<Rightarrow> apply rate
    | None \<Rightarrow> whenP (persisted \<noteq> None) clear)"

text \<open>\<open>finally { this.running = false; }\<close> around a cycle that lets errors through.\<close>

definition flaggedCycle :: "('s, unit) prog \<Rightarrow> (bool \<times> 's, unit) prog" where
  "flaggedCycle body = (\<lambda>(running, s). if running then (Inr (), running, s)
     else case body s of (r, t) \<Rightarrow> (r, False, t))"

section \<open>ProfileEnforcementService\<close>

record 's ProfileDeps =
  fd_devices :: "'s DeviceRepository"
  fd_policies :: "'s DevicePolicyRepository"
  fd_catalog :: "'s PolicyCatalogRepository"
  fd_traffic :: "'s TrafficOps"

definition profileStep :: "'s ProfileDeps \<Rightarrow> ProfileRecord list \<Rightarrow> Device \<Rightarrow> ('s, unit) prog" where
  "profileStep deps profiles device =
     bnd (pr_findByDeviceId (fd_policies deps) (d_id device)) (\<lambda>found.
     let t = fd_traffic deps; mac = d_mac device in
     case found of None \<Rightarrow> skip
     | Some policy \<Rightarrow>
       (case p_profileId policy of None \<Rightarrow> skip
        | Some profileId \<Rightarrow>
          (case find (\<lambda>p. profileId \<noteq> 0 \<and> pf_id p = profileId) profiles of None \<Rightarrow> skip
           | Some profile \<Rightarrow> whenP (d_ip device \<noteq> None)
               (thn (applyOrClear (pf_downloadLimit profile) (p_downloadLimit policy)
                       (to_limitDownload t mac) (to_clearDownload t mac))
                    (applyOrClear (pf_uploadLimit profile) (p_uploadLimit policy)
                       (to_limitUpload t mac) (to_clearUpload t mac))))))"

definition profileCycle :: "'s ProfileDeps \<Rightarrow> ('s, unit) prog" where
  "profileCycle deps =
     bnd (pc_profiles (fd_catalog deps)) (\<lambda>profiles.
     bnd (dr_findAll (fd_devices deps)) (\<lambda>devices.
     forEach devices (profileStep deps profiles)))"

definition profile_reconcile :: "'s ProfileDeps \<Rightarrow> (bool \<times> 's, unit) prog" where
  "profile_reconcile deps = flaggedCycle (profileCycle deps)"

section \<open>ScheduleEnforcementService\<close>

datatype ScheduledTarget = MacTarget string | IpTarget string

record ScheduledState =
  ss_blocked :: bool
  ss_target :: ScheduledTarget

type_synonym scheduledStates = "(int \<times> ScheduledState) list"

record 's ScheduleDeps =
  sc_devices :: "'s DeviceRepository"
  sc_policies :: "'s DevicePolicyRepository"
  sc_catalog :: "'s PolicyCatalogRepository"
  sc_traffic :: "'s TrafficOps"
  sc_blocker :: "'s DeviceBlocker"
  sc_audit :: "(AuditData \<Rightarrow> ('s, unit) prog) option"
  sc_now :: "('s, int \<times> int) prog"

text \<open>\<open>value.split(":").map(Number)\<close>: the first two numbers, a missing one is 0, \<open>None\<close> is NaN.\<close>

definition parseTime :: "string \<Rightarrow> rat option" where
  "parseTime value = (case map jsNumber (splitOn CHR '':'' value) of
      [] \<Rightarrow> Some 0
    | [hours] \<Rightarrow> map_option (\<lambda>h. h * 60) hours
    | hours # mins # _ \<Rightarrow> (case (hours, mins) of (Some h, Some m) \<Rightarrow> Some (h * 60 + m) | _ \<Rightarrow> None))"

text \<open>A comparison with NaN is false.\<close>

definition numLe :: "rat option \<Rightarrow> rat option \<Rightarrow> bool" where
  "numLe x y \<longleftrightarrow> (case (x, y) of (Some a, Some b) \<Rightarrow> a \<le> b | _ \<Rightarrow> False)"

definition numLess :: "rat option \<Rightarrow> rat option \<Rightarrow> bool" where
  "numLess x y \<longleftrightarrow> (case (x, y) of (Some a, Some b) \<Rightarrow> a < b | _ \<Rightarrow> False)"

definition inWindow :: "ScheduleRuleRecord \<Rightarrow> int \<Rightarrow> bool" where
  "inWindow rule minutes \<longleftrightarrow>
     (let start = parseTime (sr_startTime rule); stop = parseTime (sr_endTime rule);
          m = Some (of_int minutes)
      in if numLe start stop then numLe start m \<and> numLess m stop
         else numLe start m \<or> numLess m stop)"

definition targetFor :: "Device \<Rightarrow> ScheduledTarget option" where
  "targetFor device =
     (if d_l2Visible device then Some (MacTarget (d_mac device))
      else map_option IpTarget (d_ip device))"

definition enforceTarget :: "'s ScheduleDeps \<Rightarrow> ScheduledTarget \<Rightarrow> bool \<Rightarrow> ('s, unit) prog" where
  "enforceTarget deps target blocked =
     (let b = sc_blocker deps in
      thn (case target of
             MacTarget value \<Rightarrow> bnd (liftE (MacAddress_create value)) (\<lambda>mac.
               if blocked then b_block b mac None else b_unblock b mac None)
           | IpTarget value \<Rightarrow>
               if blocked then (case b_blockIp b of
                   None \<Rightarrow> throw (Error ''Proxy-backed scheduled block requires IP enforcement'')
                 | Some f \<Rightarrow> f value)
               else optCall (b_unblockIp b) (\<lambda>f. f value))
          (optCall (sc_audit deps) (\<lambda>a. a
             \<lparr>a_action = (if blocked then ''schedule-block-device'' else ''schedule-unblock-device''),
              a_mac = None, a_deviceId = None, a_actor = Some ''system'',
              a_details = [(''result'', ''success''),
                (''target'', case target of MacTarget v \<Rightarrow> ''mac '' @ v | IpTarget v \<Rightarrow> ''ip '' @ v)]\<rparr>)))"

definition activeRule :: "ScheduleRecord list \<Rightarrow> int \<Rightarrow> int \<Rightarrow> int \<Rightarrow> ScheduleRuleRecord option" where
  "activeRule schedules scheduleId day minutes =
     (case find (\<lambda>s. sd_id s = scheduleId) schedules of None \<Rightarrow> None
      | Some schedule \<Rightarrow> find (\<lambda>r. sr_dayOfWeek r = day \<and> inWindow r minutes) (sd_rules schedule))"

text \<open>A change of the map \<open>scheduledStates\<close>.\<close>

definition setStates :: "(scheduledStates \<Rightarrow> scheduledStates) \<Rightarrow> (scheduledStates \<times> 's, unit) prog" where
  "setStates f = modify (\<lambda>(m, s). (f m, s))"

definition windowActive :: "'s ScheduleDeps \<Rightarrow> Device \<Rightarrow> bool \<Rightarrow> ScheduledState option \<Rightarrow> (scheduledStates \<times> 's, unit) prog" where
  "windowActive deps device blocked previous =
     (case targetFor device of None \<Rightarrow> skip
      | Some target \<Rightarrow>
          thn (whenP (case previous of None \<Rightarrow> True
                 | Some p \<Rightarrow> ss_blocked p \<noteq> blocked \<or> ss_target p \<noteq> target)
                (onState (thn (case previous of None \<Rightarrow> skip
                     | Some p \<Rightarrow> whenP (ss_target p \<noteq> target) (enforceTarget deps (ss_target p) False))
                   (enforceTarget deps target blocked))))
              (setStates (AList.update (d_id device) \<lparr>ss_blocked = blocked, ss_target = target\<rparr>)))"

definition windowEnded :: "'s ScheduleDeps \<Rightarrow> Device \<Rightarrow> bool \<Rightarrow> ScheduledState \<Rightarrow> (scheduledStates \<times> 's, unit) prog" where
  "windowEnded deps device policyBlocked previous =
     thn (whenP (ss_blocked previous \<noteq> policyBlocked)
           (let target = (case targetFor device of None \<Rightarrow> ss_target previous | Some t \<Rightarrow> t) in
            onState (thn (whenP (ss_target previous \<noteq> target) (enforceTarget deps (ss_target previous) False))
                         (enforceTarget deps target policyBlocked))))
         (setStates (AList.delete (d_id device)))"

definition ruleOr :: "('r \<Rightarrow> 'v option) \<Rightarrow> 'r option \<Rightarrow> 'v option \<Rightarrow> 'v option" where
  "ruleOr field active fallback = (case active of None \<Rightarrow> fallback
     | Some r \<Rightarrow> (case field r of None \<Rightarrow> fallback | v \<Rightarrow> v))"

definition scheduleStep :: "'s ScheduleDeps \<Rightarrow> ScheduleRecord list \<Rightarrow> int \<Rightarrow> int \<Rightarrow> Device \<Rightarrow> (scheduledStates \<times> 's, unit) prog" where
  "scheduleStep deps schedules day minutes device =
     bnd (onState (pr_findByDeviceId (sc_policies deps) (d_id device))) (\<lambda>found.
     case found of None \<Rightarrow> skip
     | Some policy \<Rightarrow>
       if p_scheduleId policy = None \<or> p_scheduleId policy = Some 0 then skip
       else let active = activeRule schedules (the (p_scheduleId policy)) day minutes;
                t = sc_traffic deps; mac = d_mac device in
         bnd (gets (\<lambda>(m, s). map_of m (d_id device))) (\<lambda>previous.
         thn (case (active, previous) of
                (Some rule, _) \<Rightarrow> windowActive deps device
                   (case sr_blocked rule of None \<Rightarrow> p_blocked policy | Some b \<Rightarrow> b) previous
              | (None, Some p) \<Rightarrow> windowEnded deps device (p_blocked policy) p
              | (None, None) \<Rightarrow> skip)
             (whenP (d_ip device \<noteq> None)
               (onState (thn (applyOrClear (ruleOr sr_downloadLimit active (p_downloadLimit policy)) (p_downloadLimit policy)
                          (to_limitDownload t mac) (to_clearDownload t mac))
                        (applyOrClear (ruleOr sr_uploadLimit active (p_uploadLimit policy)) (p_uploadLimit policy)
                          (to_limitUpload t mac) (to_clearUpload t mac)))))))"

definition scheduleCycle :: "'s ScheduleDeps \<Rightarrow> (scheduledStates \<times> 's, unit) prog" where
  "scheduleCycle deps =
     bnd (onState (sc_now deps)) (\<lambda>(day, minutes).
     bnd (onState (pc_schedules (sc_catalog deps))) (\<lambda>schedules.
     bnd (onState (dr_findAll (sc_devices deps))) (\<lambda>devices.
     forEach devices (scheduleStep deps schedules day minutes))))"

definition schedule_reconcile :: "'s ScheduleDeps \<Rightarrow> (bool \<times> scheduledStates \<times> 's, unit) prog" where
  "schedule_reconcile deps = flaggedCycle (scheduleCycle deps)"

end
