(* ===== verification/Accounting.thy ===== *)
theory Accounting
  imports Quota "HOL-Library.Signed_Division"
begin

text \<open>
  \<open>TrafficAccountingService\<close>: it turns the byte counters of the devices into live rates, minute
  buckets of history and usage of the quotas. Its maps are association lists in insertion order,
  paired with the state of the system; the discovery, the reader of the counters, the repository
  of samples, the quota service and the clock are operations of its dependencies.
\<close>

record PreviousUsage =
  pu_downloadBytes :: int
  pu_uploadBytes :: int
  pu_timestamp :: int

record PendingBucket =
  pb_bucketStart :: int
  pb_downloadBytes :: int
  pb_uploadBytes :: int
  pb_firstTimestamp :: int
  pb_lastTimestamp :: int

record LiveTraffic =
  lt_downloadRateBps :: int
  lt_uploadRateBps :: int
  lt_downloadBytes :: int
  lt_uploadBytes :: int
  lt_sampledAt :: int

record Ledger =
  lg_previous :: "(int \<times> PreviousUsage) list"
  lg_pending :: "(int \<times> PendingBucket) list"
  lg_live :: "(string \<times> LiveTraffic) list"
  lg_lastReconcile :: int

definition emptyLedger :: Ledger where
  "emptyLedger = \<lparr>lg_previous = [], lg_pending = [], lg_live = [], lg_lastReconcile = 0\<rparr>"

record SampleData =
  sm_deviceId :: int
  sm_timestamp :: int
  sm_downloadBytes :: int
  sm_uploadBytes :: int
  sm_downloadRate :: "int option"
  sm_uploadRate :: "int option"

record 's AccountingDeps =
  ac_devices :: "'s DeviceRepository"
  ac_discover :: "('s, ValidatedDeviceIdentity list) prog"
  ac_readDeviceUsage :: "string \<Rightarrow> ('s, TrafficUsage) prog"
  ac_reconcileDeviceAccounting :: "(string \<times> string) list \<Rightarrow> ('s, unit) prog"
  ac_accumulateBucket :: "SampleData \<Rightarrow> ('s, unit) prog"
  ac_recordUsage :: "string \<Rightarrow> int \<Rightarrow> int \<Rightarrow> int \<Rightarrow> ('s, unit) prog"
  ac_clock :: "('s, int) prog"

definition ACCOUNTING_RECONCILE_INTERVAL_MS :: int where
  "ACCOUNTING_RECONCILE_INTERVAL_MS = 10000"

definition HISTORY_BUCKET_MS :: int where
  "HISTORY_BUCKET_MS = 60000"

definition updLedger :: "(Ledger \<Rightarrow> Ledger) \<Rightarrow> (Ledger \<times> 's, unit) prog" where
  "updLedger f = modify (\<lambda>(l, s). (f l, s))"

section \<open>Deltas, rates and buckets\<close>

definition calculateDelta :: "int \<Rightarrow> int \<Rightarrow> int" where
  "calculateDelta current previous = (if current < previous then current else current - previous)"

definition calculateRate :: "int \<Rightarrow> int \<Rightarrow> int option" where
  "calculateRate bytes elapsedMs = (if elapsedMs \<le> 0 then None else Some ((bytes * 1000) sdiv elapsedMs))"

definition bucketStartOf :: "int \<Rightarrow> int" where
  "bucketStartOf t = t div HISTORY_BUCKET_MS * HISTORY_BUCKET_MS"

definition bucketSample :: "int \<Rightarrow> PendingBucket \<Rightarrow> SampleData" where
  "bucketSample deviceId bucket =
     (let elapsedMs = max 1 (pb_lastTimestamp bucket - pb_firstTimestamp bucket)
      in \<lparr>sm_deviceId = deviceId, sm_timestamp = pb_bucketStart bucket,
          sm_downloadBytes = pb_downloadBytes bucket, sm_uploadBytes = pb_uploadBytes bucket,
          sm_downloadRate = Some ((pb_downloadBytes bucket * 1000) sdiv elapsedMs),
          sm_uploadRate = Some ((pb_uploadBytes bucket * 1000) sdiv elapsedMs)\<rparr>)"

definition flushHistoryBucket :: "'s AccountingDeps \<Rightarrow> int \<Rightarrow> PendingBucket \<Rightarrow> ('s, unit) prog" where
  "flushHistoryBucket deps deviceId bucket = ac_accumulateBucket deps (bucketSample deviceId bucket)"

definition addToHistoryBucket :: "'s AccountingDeps \<Rightarrow> int \<Rightarrow> int \<Rightarrow> int \<Rightarrow> int \<Rightarrow> (Ledger \<times> 's, unit) prog" where
  "addToHistoryBucket deps deviceId timestamp downloadBytes uploadBytes =
     (let bucketStart = bucketStartOf timestamp in
      bnd (gets (\<lambda>(l, s). map_of (lg_pending l) deviceId)) (\<lambda>found.
      let put = (\<lambda>b. updLedger (\<lambda>l. l\<lparr>lg_pending := AList.update deviceId b (lg_pending l)\<rparr>));
          fresh = \<lparr>pb_bucketStart = bucketStart, pb_downloadBytes = downloadBytes,
            pb_uploadBytes = uploadBytes, pb_firstTimestamp = timestamp, pb_lastTimestamp = timestamp\<rparr> in
      case found of
        None \<Rightarrow> put fresh
      | Some pending \<Rightarrow>
          if pb_bucketStart pending = bucketStart
          then put (pending\<lparr>pb_downloadBytes := pb_downloadBytes pending + downloadBytes,
                 pb_uploadBytes := pb_uploadBytes pending + uploadBytes, pb_lastTimestamp := timestamp\<rparr>)
          else thn (onState (flushHistoryBucket deps deviceId pending)) (put fresh)))"

text \<open>A flush that is logged when it fails; the bucket stays pending then.\<close>

definition flushAndForget :: "'s AccountingDeps \<Rightarrow> int \<times> PendingBucket \<Rightarrow> (Ledger \<times> 's, unit) prog" where
  "flushAndForget deps = (\<lambda>(deviceId, bucket).
     tryCatch (thn (onState (flushHistoryBucket deps deviceId bucket))
                   (updLedger (\<lambda>l. l\<lparr>lg_pending := AList.delete deviceId (lg_pending l)\<rparr>)))
       (\<lambda>_. skip))"

definition flushExpiredHistoryBuckets :: "'s AccountingDeps \<Rightarrow> int \<Rightarrow> (Ledger \<times> 's, unit) prog" where
  "flushExpiredHistoryBuckets deps now =
     bnd (gets (\<lambda>(l, s). lg_pending l)) (\<lambda>pending.
     forEach pending (\<lambda>entry.
       whenP (pb_bucketStart (snd entry) < bucketStartOf now) (flushAndForget deps entry)))"

definition accounting_stop :: "'s AccountingDeps \<Rightarrow> (Ledger \<times> 's, unit) prog" where
  "accounting_stop deps = bnd (gets (\<lambda>(l, s). lg_pending l)) (\<lambda>pending. forEach pending (flushAndForget deps))"

section \<open>Sampling\<close>

definition rememberUsage :: "int \<Rightarrow> TrafficUsage \<Rightarrow> int \<Rightarrow> Ledger \<Rightarrow> Ledger" where
  "rememberUsage deviceId current timestamp l = l\<lparr>lg_previous := AList.update deviceId
     \<lparr>pu_downloadBytes = u_downloadBytes current, pu_uploadBytes = u_uploadBytes current,
      pu_timestamp = timestamp\<rparr> (lg_previous l)\<rparr>"

definition showLive :: "string \<Rightarrow> TrafficUsage \<Rightarrow> int option \<Rightarrow> int option \<Rightarrow> int \<Rightarrow> Ledger \<Rightarrow> Ledger" where
  "showLive mac current down up timestamp l = l\<lparr>lg_live := AList.update mac
     \<lparr>lt_downloadRateBps = (case down of None \<Rightarrow> 0 | Some r \<Rightarrow> r),
      lt_uploadRateBps = (case up of None \<Rightarrow> 0 | Some r \<Rightarrow> r),
      lt_downloadBytes = u_downloadBytes current, lt_uploadBytes = u_uploadBytes current,
      lt_sampledAt = timestamp\<rparr> (lg_live l)\<rparr>"

definition collectDevice :: "'s AccountingDeps \<Rightarrow> Device \<Rightarrow> int \<Rightarrow> (Ledger \<times> 's, unit) prog" where
  "collectDevice deps device timestamp =
     (let mac = d_mac device; i = d_id device in
      bnd (onState (ac_readDeviceUsage deps mac)) (\<lambda>current.
      bnd (gets (\<lambda>(l, s). map_of (lg_previous l) i)) (\<lambda>found.
      case found of
        None \<Rightarrow> updLedger (\<lambda>l. showLive mac current (Some 0) (Some 0) timestamp (rememberUsage i current timestamp l))
      | Some previous \<Rightarrow>
          let downloadDelta = calculateDelta (u_downloadBytes current) (pu_downloadBytes previous);
              uploadDelta = calculateDelta (u_uploadBytes current) (pu_uploadBytes previous);
              elapsedMs = timestamp - pu_timestamp previous in
            thn (updLedger (showLive mac current (calculateRate downloadDelta elapsedMs)
                   (calculateRate uploadDelta elapsedMs) timestamp))
           (thn (whenP (downloadDelta > 0 \<or> uploadDelta > 0)
                  (thn (addToHistoryBucket deps i timestamp downloadDelta uploadDelta)
                       (tryCatch (onState (ac_recordUsage deps mac downloadDelta uploadDelta timestamp)) (\<lambda>_. skip))))
                (updLedger (rememberUsage i current timestamp))))))"

text \<open>The loop over the discovered devices; it returns the ids of those that were found.\<close>

definition collectOne :: "'s AccountingDeps \<Rightarrow> int \<Rightarrow> ValidatedDeviceIdentity \<Rightarrow> int list \<Rightarrow> (Ledger \<times> 's, int list) prog" where
  "collectOne deps now discovered active = (\<lambda>state.
     case bnd (liftE (MacAddress_create (v_mac discovered))) (\<lambda>m. onState (dr_findByMac (ac_devices deps) m)) state of
       (Inl e, t) \<Rightarrow> (Inr active, t)
     | (Inr None, t) \<Rightarrow> (Inr active, t)
     | (Inr (Some device), t) \<Rightarrow>
         tryCatch (thn (collectDevice deps device now) (ret (setAdd (d_id device) active)))
           (\<lambda>_. ret (setAdd (d_id device) active)) t)"

primrec collectAll :: "'s AccountingDeps \<Rightarrow> int \<Rightarrow> ValidatedDeviceIdentity list \<Rightarrow> int list \<Rightarrow> (Ledger \<times> 's, int list) prog" where
  "collectAll deps now [] active = ret active"
| "collectAll deps now (d # ds) active = bnd (collectOne deps now d active) (collectAll deps now ds)"

definition collectBody :: "'s AccountingDeps \<Rightarrow> (Ledger \<times> 's, unit) prog" where
  "collectBody deps =
     bnd (onState (ac_discover deps)) (\<lambda>discovered.
     bnd (onState (ac_clock deps)) (\<lambda>now.
     bnd (gets (\<lambda>(l, s). lg_lastReconcile l)) (\<lambda>lastReconcile.
     thn (whenP (lastReconcile = 0 \<or> now - lastReconcile \<ge> ACCOUNTING_RECONCILE_INTERVAL_MS)
           (thn (onState (ac_reconcileDeviceAccounting deps (map (\<lambda>d. (v_mac d, v_ip d)) discovered)))
                (updLedger (\<lambda>l. l\<lparr>lg_lastReconcile := now\<rparr>))))
    (bnd (collectAll deps now discovered []) (\<lambda>active.
     thn (updLedger (\<lambda>l. l\<lparr>lg_previous := filter (\<lambda>(i, _). i \<in> set active) (lg_previous l)\<rparr>))
    (thn (flushExpiredHistoryBuckets deps now)
         (updLedger (\<lambda>l. l\<lparr>lg_live := filter (\<lambda>(mac, _). mac \<in> v_mac ` set discovered) (lg_live l)\<rparr>))))))))"

definition collect :: "'s AccountingDeps \<Rightarrow> (bool \<times> Ledger \<times> 's, unit) prog" where
  "collect deps = (\<lambda>(running, s). if running then (Inr (), running, s)
     else case tryCatch (collectBody deps) (\<lambda>_. skip) s of (r, t) \<Rightarrow> (r, False, t))"

end
