(* ===== verification/QuotaPeriods.thy ===== *)
theory QuotaPeriods
  imports Quota
begin

text \<open>
  The periods of \<open>QuotaService.calculatePeriod\<close>: days, weeks from Monday and calendar months of
  UTC. Each kind cuts the time line into intervals, and every instant of an interval is given
  that interval, so usage that arrives in one period is counted in one row of the table.
\<close>

section \<open>The period of a day\<close>

definition periodDays :: "string \<Rightarrow> int \<Rightarrow> int \<times> int" where
  "periodDays periodType d =
     (let kind = toLowerCase periodType in
      if kind = ''daily'' then (d, d + 1)
      else if kind = ''weekly'' then (7 * ((d + 3) div 7) - 3, 7 * ((d + 3) div 7) + 4)
      else (monthStart (monthOf d), monthStart (monthOf d + 1)))"

lemma setUTCDate_add: "setUTCDate t (getUTCDate t + n) = (dayOfTime t + n) * msPerDay + t mod msPerDay"
  by (simp add: setUTCDate_def getUTCDate_def)

lemma setUTCMidnight_shift: "setUTCMidnight (d * msPerDay + t mod msPerDay) = d * msPerDay"
  by (simp add: setUTCMidnight_def)

lemma scale_mod [simp]: "(d * msPerDay) mod msPerDay = 0"
  by simp

lemma monthOf_start [simp]: "monthOf (monthStart m) = m"
  using monthStart_Suc [of m] by (intro monthOf_unique) simp_all

lemma weekday_offset: "(if getUTCDay t = 0 then 6 else getUTCDay t - 1) = (dayOfTime t + 3) mod 7"
proof -
  let ?r = "(dayOfTime t + 3) mod 7"
  have "(?r + 1) mod 7 = (dayOfTime t + 3 + 1) mod 7" by (rule mod_add_left_eq)
  then have day: "getUTCDay t = (?r + 1) mod 7" by (simp add: getUTCDay_def add.assoc)
  have "0 \<le> ?r" "?r < 7" by simp_all
  then consider "?r = 6" | "0 \<le> ?r" "?r + 1 < 7" by linarith
  then show ?thesis by cases (simp_all add: day mod_pos_pos_trivial)
qed

lemma week_start: "d - (d + 3) mod 7 = 7 * ((d + 3) div 7) - (3 :: int)"
  using mult_div_mod_eq [of 7 "d + 3"] by linarith

lemma week_div: "7 * q - 3 \<le> e \<Longrightarrow> e < 7 * q + 4 \<Longrightarrow> (e + 3) div 7 = (q :: int)"
  by (rule int_div_pos_eq [of "e + 3" 7 q "e + 3 - 7 * q"]) simp_all

lemma calculatePeriod_days:
  "calculatePeriod periodType t = (let p = periodDays periodType (dayOfTime t) in (fst p * msPerDay, snd p * msPerDay))"
proof -
  let ?d = "dayOfTime t" and ?kind = "toLowerCase periodType"
  consider "?kind = ''daily''" | "?kind = ''weekly''" | "?kind \<noteq> ''daily''" "?kind \<noteq> ''weekly''" by blast
  then show ?thesis
  proof cases
    case 1
    have "setUTCMidnight (setUTCDate t (getUTCDate t + 1)) = (?d + 1) * msPerDay"
      unfolding setUTCDate_add by (rule setUTCMidnight_shift)
    then show ?thesis using 1 by (simp add: calculatePeriod_def periodDays_def Let_def setUTCMidnight_def)
  next
    case 2
    let ?o = "(?d + 3) mod 7"
    have start: "setUTCMidnight (setUTCDate t (getUTCDate t - ?o)) = (?d - ?o) * msPerDay"
      using setUTCDate_add [of t "- ?o"] setUTCMidnight_shift by simp
    have "setUTCDate (e * msPerDay) (getUTCDate (e * msPerDay) + 7) = (e + 7) * msPerDay" for e
      by (subst setUTCDate_add) simp
    with start 2 show ?thesis
      unfolding calculatePeriod_def periodDays_def Let_def weekday_offset week_start by simp
  next
    case 3
    let ?m = "monthOf ?d"
    have start: "setUTCMidnight (setUTCDate t 1) = monthStart ?m * msPerDay"
      unfolding setUTCDate_def using setUTCMidnight_shift by simp
    have "setUTCMonth (monthStart m * msPerDay) (getUTCMonth (monthStart m * msPerDay) + 1) = monthStart (m + 1) * msPerDay" for m
      by (simp add: setUTCMonth_def getUTCFullYear_def getUTCMonth_def getUTCDate_def add.assoc [symmetric])
    with start 3 show ?thesis
      by (simp add: calculatePeriod_def periodDays_def Let_def)
  qed
qed

lemma period_kinds:
  obtains "toLowerCase k = ''daily''" "\<And>d. periodDays k d = (d, d + 1)"
  | "toLowerCase k = ''weekly''" "\<And>d. periodDays k d = (7 * ((d + 3) div 7) - 3, 7 * ((d + 3) div 7) + 4)"
  | "\<And>d. periodDays k d = (monthStart (monthOf d), monthStart (monthOf d + 1))"
  by (cases "toLowerCase k = ''daily''"; cases "toLowerCase k = ''weekly''") (simp_all add: periodDays_def)

lemma periodDays_partition:
  "fst (periodDays k d) \<le> d \<and> d < snd (periodDays k d) \<and> fst (periodDays k (snd (periodDays k d))) = snd (periodDays k d) \<and>
   (\<forall>e. fst (periodDays k d) \<le> e \<longrightarrow> e < snd (periodDays k d) \<longrightarrow> periodDays k e = periodDays k d)"
proof (cases rule: period_kinds [of k])
  case 2
  obtain q where q: "(d + 3) div 7 = q" by blast
  have d: "7 * q - 3 \<le> d" "d < 7 * q + 4"
    using week_start [of d] pos_mod_sign [of 7 "d + 3"] pos_mod_bound [of 7 "d + 3"] unfolding q by linarith+
  have "(7 * q + 4 + 3) div 7 = q + 1" by (rule week_div) (simp_all add: distrib_left)
  then have "fst (periodDays k (7 * q + 4)) = 7 * q + 4" unfolding 2 fst_conv by (simp add: distrib_left)
  moreover have "periodDays k e = (7 * q - 3, 7 * q + 4)" if "7 * q - 3 \<le> e" "e < 7 * q + 4" for e
    unfolding 2 week_div [OF that] ..
  moreover have "periodDays k d = (7 * q - 3, 7 * q + 4)" unfolding 2 q ..
  ultimately show ?thesis using d by (simp only: fst_conv snd_conv) blast
next
  case 3
  have "periodDays k e = periodDays k d" if "monthStart (monthOf d) \<le> e" "e < monthStart (monthOf d + 1)" for e
    unfolding 3 monthOf_unique [OF that] ..
  then show ?thesis using monthOf_bounds [of d] unfolding 3 fst_conv snd_conv monthOf_start by blast
next
  case 1
  have "d \<le> e \<Longrightarrow> e < d + 1 \<Longrightarrow> e = d" for e by linarith
  then show ?thesis unfolding 1 fst_conv snd_conv by auto
qed

section \<open>The property\<close>

text \<open>
  C22. The periods of every type partition time: the period of an instant contains it, every
  instant in it has the same period, and the next period begins where it ends.
\<close>

theorem quota_periods_partition_time:
  assumes "calculatePeriod periodType now = (s, e)"
  shows "s \<le> now \<and> now < e \<and> (\<forall>t. s \<le> t \<and> t < e \<longrightarrow> calculatePeriod periodType t = (s, e)) \<and>
    fst (calculatePeriod periodType e) = e"
proof -
  let ?p = "periodDays periodType (dayOfTime now)"
  have se: "s = fst ?p * msPerDay" "e = snd ?p * msPerDay"
    using assms by (simp_all add: calculatePeriod_days Let_def)
  note part = periodDays_partition [of periodType "dayOfTime now"]
  have "s \<le> now" "now < e" using part unfolding se dayOfTime_ge [symmetric] dayOfTime_less [symmetric] by blast+
  moreover have "calculatePeriod periodType t = (s, e)" if "s \<le> t" "t < e" for t
  proof -
    have "fst ?p \<le> dayOfTime t" "dayOfTime t < snd ?p"
      using that unfolding se dayOfTime_ge [symmetric] dayOfTime_less [symmetric] by blast+
    with part have "periodDays periodType (dayOfTime t) = ?p" by blast
    then show ?thesis unfolding calculatePeriod_days Let_def se by (simp only:)
  qed
  moreover have "fst (calculatePeriod periodType e) = e"
  proof -
    from part have "fst (periodDays periodType (snd ?p)) = snd ?p" by blast
    then show ?thesis unfolding se calculatePeriod_days Let_def dayOfTime_scale fst_conv by (rule arg_cong)
  qed
  ultimately show ?thesis by blast
qed

theorem quota_periods_partition_time_witness:
  "\<exists>e. calculatePeriod ''monthly'' 1709164800000 = (1706745600000, e) \<and> 1709164800000 < e"
proof -
  have "calculatePeriod ''monthly'' 1709164800000 = (1706745600000, 1709251200000)" by code_simp
  with quota_periods_partition_time [OF this] show ?thesis by blast
qed

end
