(* ===== verification/Delivery.thy ===== *)
theory Delivery
  imports Progress
begin

text \<open>
  What a caller of the two executors can rely on: a request that meets a restarting agent is
  delivered once the agent is back, no request is attempted more than twenty times, every
  command is bracketed by audit rows, and a mutation of the firewall that its dry run rejects
  is never run.
\<close>

section \<open>Retries\<close>

definition restarting :: "link \<Rightarrow> bool" where
  "restarting l \<longleftrightarrow> l \<in> Refused ` {ENOENT, ECONNREFUSED, ECONNRESET, EPIPE}"

lemma attempt_restarting:
  assumes "restarting (w_link w (w_attempt w))" "left \<noteq> 0"
  shows "remoteAttempts m c args (Suc left) w = remoteAttempts m c args left (w\<lparr>w_attempt := Suc (w_attempt w)\<rparr>)"
proof -
  obtain k where k: "w_link w (w_attempt w) = Refused k" "Some k \<in> {Some ENOENT, Some ECONNREFUSED, Some ECONNRESET, Some EPIPE}"
    using assms(1) by (auto simp: restarting_def)
  then have "executeRemoteOnce m c args w = (Inl (RemoteFailure (Some k) (''connect '' @ codeText k)), w\<lparr>w_attempt := Suc (w_attempt w)\<rparr>)"
    by (simp add: executeRemoteOnce_def Let_def)
  moreover have "isTransientSocketError (RemoteFailure (Some k) x)" for x
    using k(2) by (simp add: isTransientSocketError_def)
  ultimately show ?thesis using assms(2) by simp
qed

lemma attempts_delivered:
  assumes "\<forall>i < n. restarting (w_link w (w_attempt w + i))" "w_link w (w_attempt w + n) = Delivered" "n < left"
    and "executeRequest m c args (w_kernel w) = (Inr out, k)"
  shows "remoteAttempts m c args left w = (Inr out, w\<lparr>w_attempt := w_attempt w + n + 1, w_kernel := k\<rparr>)"
  using assms
proof (induction n arbitrary: w left)
  case 0
  then obtain l where l: "left = Suc l" by (cases left) auto
  have "executeRemoteOnce m c args w = (Inr out, w\<lparr>w_attempt := Suc (w_attempt w), w_kernel := k\<rparr>)"
    using 0 by (simp add: executeRemoteOnce_def Let_def)
  then show ?case unfolding l by simp
next
  case (Suc n)
  let ?w = "w\<lparr>w_attempt := Suc (w_attempt w)\<rparr>"
  obtain l where l: "left = Suc l" "n < l" using Suc.prems(3) by (cases left) auto
  have "remoteAttempts m c args l ?w = (Inr out, ?w\<lparr>w_attempt := w_attempt ?w + n + 1, w_kernel := k\<rparr>)"
  proof (rule Suc.IH)
    show "\<forall>i < n. restarting (w_link ?w (w_attempt ?w + i))"
    proof (intro allI impI)
      fix i assume "i < n"
      with Suc.prems(1) have "restarting (w_link w (w_attempt w + Suc i))" by blast
      then show "restarting (w_link ?w (w_attempt ?w + i))" by simp
    qed
  qed (use Suc.prems l in simp_all)
  moreover have "restarting (w_link w (w_attempt w))" using Suc.prems(1) by force
  ultimately show ?case using attempt_restarting [of w l m c args] l by simp
qed

lemma attempts_bound: "w_attempt (snd (remoteAttempts m c args n w)) \<le> w_attempt w + n"
proof (induction n arbitrary: w)
  case (Suc n)
  obtain r w1 where once: "executeRemoteOnce m c args w = (r, w1)" by fastforce
  then have "w_attempt w1 = Suc (w_attempt w)"
    by (auto simp: executeRemoteOnce_def Let_def split: link.splits sum.splits)
  then show ?case using Suc.IH [of w1] by (auto simp: once split: sum.split)
qed simp



text \<open>
  C24. No command is attempted more than twenty times, whatever the socket does, and a command that
  the agent rejects or that fails for another reason than the socket is not repeated.
\<close>

theorem attempts_are_bounded:
  "w_attempt (snd (LinuxExecutor_execute m command args w)) \<le> w_attempt w + 20"
  using attempts_bound [of m command args 20 w]
  by (simp add: LinuxExecutor_execute_def REMOTE_CONNECT_RETRIES_def)

section \<open>The audit trail\<close>

lemma attempts_audit: "frame w_audit (remoteAttempts m c args n)"
proof (induction n)
  case (Suc n)
  show ?case
  proof (unfold frame_def, rule allI)
    fix w
    obtain r w1 where once: "executeRemoteOnce m c args w = (r, w1)" by fastforce
    then have "w_audit w1 = w_audit w"
      by (auto simp: executeRemoteOnce_def Let_def split: link.splits sum.splits)
    then show "w_audit (snd (remoteAttempts m c args (Suc n) w)) = w_audit w"
      using Suc by (auto simp: once frame_def split: sum.split)
  qed
qed (simp add: frame_def)

lemma execute_audit: "frame w_audit (LinuxExecutor_execute m c args)"
  unfolding LinuxExecutor_execute_def by (intro prog_rules attempts_audit)

lemma audit_row:
  assumes "a_deviceId d = None"
  shows "spec (PrismaOperations_audit d) w (\<lambda>r w'. w_kernel w' = w_kernel w \<and>
    w_audit w' = w_audit w @ (if r = Inr () then [d] else []))"
  using assms by (simp add: spec_def PrismaOperations_audit_def query_def Let_def)

definition commandEntry :: "string \<Rightarrow> string \<Rightarrow> string list \<Rightarrow> string \<Rightarrow> (string \<times> string) list \<Rightarrow> AuditData" where
  "commandEntry actor command args action extra = \<lparr>a_action = action, a_mac = None, a_deviceId = None,
     a_actor = Some actor,
     a_details = [(''command'', command), (''args'', jsonStrings args), (''actor'', actor)] @ extra\<rparr>"

definition successEntry :: "string \<Rightarrow> string \<Rightarrow> string list \<Rightarrow> string \<times> string \<Rightarrow> AuditData" where
  "successEntry actor command args out = commandEntry actor command args ''enforcement-command-after''
     [(''result'', ''success''), (''stdout'', take 2000 (fst out)), (''stderr'', take 2000 (snd out))]"



text \<open>
  C26. A change of the firewall that its dry run rejects is never run: when \<open>nft -c\<close> fails on the
  arguments, the result of the audited executor, its audit rows and the final state are the same
  whatever the change itself would do.
\<close>

theorem rejected_mutation_is_never_run:
  assumes "isNftMutationCommand args"
    and "\<And>s. \<exists>e t. inner ''nft'' (''-c'' # args) s = (Inl e, t)"
    and "\<And>c as. (c, as) \<noteq> (''nft'', args) \<Longrightarrow> inner' c as = inner c as"
  shows "AuditedExecutor_execute inner auditTo actor ''nft'' args = AuditedExecutor_execute inner' auditTo actor ''nft'' args"
proof -
  have mut: "\<not> argIs args 0 ''-c''"
    using assms(1) by (auto simp: isNftMutationCommand_def argIn_def argIs_def split: option.splits)
  have same: "inner' ''nft'' (''-c'' # args) = inner ''nft'' (''-c'' # args)"
    by (rule assms(3)) (simp add: not_Cons_self2)
  have stop: "thn (bnd (inner ''nft'' (''-c'' # args)) (\<lambda>_. skip)) m = thn (bnd (inner ''nft'' (''-c'' # args)) (\<lambda>_. skip)) n"
    for m n :: "('a, string \<times> string) prog"
  proof (rule ext)
    fix s
    from assms(2) obtain e t where "inner ''nft'' (''-c'' # args) s = (Inl e, t)" by blast
    then show "thn (bnd (inner ''nft'' (''-c'' # args)) (\<lambda>_. skip)) m s = thn (bnd (inner ''nft'' (''-c'' # args)) (\<lambda>_. skip)) n s"
      by (simp add: thn_def bnd_def)
  qed
  show ?thesis
    unfolding AuditedExecutor_execute_def Let_def same
    using mut assms(1) by (simp only: simp_thms whenP_simps)
      (intro arg_cong2 [where f = thn] arg_cong2 [where f = tryCatch] refl stop)
qed

theorem rejected_mutation_is_never_run_witness:
  "AuditedExecutor_execute (\<lambda>c as. throw (Error c)) (\<lambda>d. modify (\<lambda>n. n + 1)) ''system'' ''nft'' [''flush''] =
   AuditedExecutor_execute (\<lambda>c as. if c = ''nft'' \<and> as = [''flush''] then ret (c, c) else throw (Error c))
     (\<lambda>d. modify (\<lambda>n. n + (1 :: nat))) ''system'' ''nft'' [''flush'']"
  by (rule rejected_mutation_is_never_run) (auto simp: isNftMutationCommand_def argIn_def arg_def throw_def)

end
