(* ===== verification/QuotaFacts.thy ===== *)
theory QuotaFacts
  imports Progress Quota Traffic Shaping
begin

text \<open>
  What the quota service promises: each threshold is announced once per period, an exhausted
  quota with the action \<open>block\<close> ends in the kernel, and what a restart does to such a block.
\<close>

section \<open>The services of \<open>server.ts\<close>\<close>

text \<open>The privileged executor, the traffic enforcer and the services over them.\<close>

definition systemExecutor :: "'k Machine \<Rightarrow> string \<Rightarrow> string list \<Rightarrow> ('k world, string \<times> string) prog" where
  "systemExecutor m = AuditedExecutor_execute (LinuxExecutor_execute m) PrismaOperations_audit ''system''"

definition shaperOn :: "'k Machine \<Rightarrow> int \<Rightarrow> string \<Rightarrow> (string \<Rightarrow> string) \<Rightarrow> 'k world Shaper" where
  "shaperOn m uplinkBandwidthMbps lanInterface sha256hex = \<lparr>sh_uplinkBandwidthMbps = uplinkBandwidthMbps,
     sh_lanInterface = lanInterface, sh_executor = systemExecutor m, sh_ifbManager = linuxIfbManager (systemExecutor m),
     sh_tcStateReader = linuxTcStateReader (systemExecutor m), sh_sha256hex = sha256hex\<rparr>"

definition trafficOn :: "'k world Shaper \<Rightarrow> rat option \<Rightarrow> ('k world, ValidatedDeviceIdentity list) prog \<Rightarrow> 'k world TrafficDeps" where
  "trafficOn sh quotaThrottleMbps discoverP = \<lparr>td_enforcer = singleInterfaceIfbTrafficEnforcer sh,
     td_validate = validateTrafficPolicy (sh_uplinkBandwidthMbps sh), td_devices = prismaDevices,
     td_policies = prismaPolicies, td_quotaThrottleMbps = quotaThrottleMbps,
     td_audit = Some PrismaOperations_audit, td_discover = Some discoverP\<rparr>"

text \<open>The quota service as \<open>server.ts\<close> builds it over a traffic service.\<close>

definition quotaControl :: "'k Machine \<Rightarrow> nat \<Rightarrow> nat \<Rightarrow> string \<Rightarrow> string \<Rightarrow> 'k world TrafficDeps \<Rightarrow> 'k world QuotaDeps" where
  "quotaControl m sshPort dashboardPort uplink admin td =
     \<lparr>qd_devices = prismaDevices, qd_policies = prismaPolicies,
      qd_applyQuotaThrottle = (\<lambda>mac w. applyQuotaThrottle td (w_now w) mac w),
      qd_clearQuotaThrottle = (\<lambda>mac w. clearQuotaThrottle td (w_now w) mac w),
      qd_blockForQuota = blockForQuota (controlDeps m sshPort dashboardPort uplink admin),
      qd_unblockForQuota = unblockForQuota (controlDeps m sshPort dashboardPort uplink admin),
      qd_notify = PrismaNotification_create, qd_periods = prismaQuota, qd_clock = gets w_now\<rparr>"

definition demoTraffic :: "SimKernel world TrafficDeps" where
  "demoTraffic = trafficOn (shaperOn simMachine 100 ''lan0'' (\<lambda>s. ''0123456789abcdef'')) (Some 1) (ret [])"

abbreviation demoQuota :: "SimKernel world QuotaDeps" where
  "demoQuota \<equiv> quotaControl simMachine 22 80 ''wan0'' ''admin'' demoTraffic"

section \<open>Thresholds\<close>

definition reachedThresholds :: "int \<Rightarrow> int \<Rightarrow> int set" where
  "reachedThresholds quota used = {t \<in> {80, 90, 100}. 0 < quota \<and> quota * t \<le> used * 100}"

definition thresholdKeys :: "int \<Rightarrow> int \<Rightarrow> int \<Rightarrow> int \<Rightarrow> (int \<times> int \<times> int) set" where
  "thresholdKeys deviceId periodStart quota used = (\<lambda>t. (deviceId, periodStart, t)) ` reachedThresholds quota used"

lemma notifyThreshold_ok:
  assumes "notifyThreshold deps i mac quota used start t (keys, s) = (Inr (), keys', s')"
  shows "set keys' = set keys \<union> (if quota * t \<le> used * 100 then {(i, start, t)} else {})"
  using assms by (auto simp: notifyThreshold_def onState_def Let_def split: if_splits prod.splits)

lemma notifyThreshold_skip:
  assumes "used * 100 < quota * t \<or> (i, start, t) \<in> set keys"
  shows "notifyThreshold deps i mac quota used start t (keys, s) = (Inr (), keys, s)"
  using assms by (auto simp: notifyThreshold_def Let_def)

lemma notifyThresholds_ok:
  assumes "notifyThresholds deps i mac quota used start (keys, s) = (Inr (), keys', s')"
  shows "set keys' = set keys \<union> thresholdKeys i start quota used"
proof (cases "quota \<le> 0")
  case True
  with assms show ?thesis by (simp add: notifyThresholds_def thresholdKeys_def reachedThresholds_def)
next
  case False
  let ?n = "notifyThreshold deps i mac quota used start"
  from assms False have "thn (?n 80) (thn (?n 90) (thn (?n 100) skip)) (keys, s) = (Inr (), keys', s')"
    by (simp add: notifyThresholds_def)
  then obtain k1 s1 k2 s2 k3 s3 where "?n 80 (keys, s) = (Inr (), k1, s1)" "?n 90 (k1, s1) = (Inr (), k2, s2)"
    "?n 100 (k2, s2) = (Inr (), k3, s3)" "keys' = k3"
    by (auto elim!: thn_InrE)
  from this(1-3) [THEN notifyThreshold_ok] this(4) False show ?thesis
    by (auto simp: thresholdKeys_def reachedThresholds_def)
qed

lemma notifyThresholds_skip:
  assumes "thresholdKeys i start quota used \<subseteq> set keys"
  shows "notifyThresholds deps i mac quota used start (keys, s) = (Inr (), keys, s)"
proof (cases "quota \<le> 0")
  case False
  have key: "used * 100 < quota * t \<or> (i, start, t) \<in> set keys" if "t \<in> {80, 90, 100}" for t
  proof (cases "(i, start, t) \<in> set keys")
    case key: False
    with assms have "t \<notin> reachedThresholds quota used" by (auto simp: thresholdKeys_def)
    with that False show ?thesis unfolding reachedThresholds_def by auto
  qed simp
  let ?n = "notifyThreshold deps i mac quota used start"
  have "?n 80 (keys, s) = (Inr (), keys, s)" "?n 90 (keys, s) = (Inr (), keys, s)" "?n 100 (keys, s) = (Inr (), keys, s)"
    by (rule notifyThreshold_skip, rule key, simp)+
  with False show ?thesis by (simp add: notifyThresholds_def thn_Inr)
qed (simp add: notifyThresholds_def)




section \<open>An exhausted quota that blocks\<close>

lemma setEnforced_ok:
  assumes "qd_policies deps = prismaPolicies" "setEnforced deps i a w = (Inr (), w')" "findPolicy w i = Some p"
  shows "besidePolicies w' = besidePolicies w \<and> findPolicy w' = (findPolicy w)(i \<mapsto> p\<lparr>p_quotaEnforcedAction := a\<rparr>)"
proof -
  from assms(1,2) obtain q where u: "pr_upsert prismaPolicies i (noPatch\<lparr>pp_quotaEnforcedAction := Some a\<rparr>) w = (Inr q, w')"
    by (auto simp: setEnforced_def elim!: thn_InrE)
  have "patchPolicy (noPatch\<lparr>pp_quotaEnforcedAction := Some a\<rparr>) p = p\<lparr>p_quotaEnforcedAction := a\<rparr>"
    by (simp add: patchPolicy_def Let_def)
  with frameD [OF prismaPol.upsert_frame u] prismaPol.upsert_ok [OF u] assms(3) show ?thesis by auto
qed

lemma found_policy:
  assumes "pr_findByDeviceId prismaPolicies i w = (Inr q, t)"
  shows "q = findPolicy w i" "findPolicy t = findPolicy w" "besidePolicies t = besidePolicies w"
  using prismaPol.find_ok [OF assms] frameD [OF prismaPol.find_frame assms] by auto

text \<open>
  C19. When the quota of a device is exhausted, its policy says \<open>block\<close> and nothing is enforced yet,
  a successful enforcement ends with the address of the identity-validated device that was named
  in the kernel set and the policy row saying that the block is enforced; no other policy changes.
\<close>

theorem exhausted_quota_blocks_in_kernel:
  assumes "nft_tool m elems"
    and "findPolicy w i = Some p" "p_quotaAction p = Some ''block''" "p_quotaEnforcedAction p = None"
    and "enforceQuotaAction (quotaControl m sshPort dashboardPort uplink admin td) i mac w = (Inr (), w')"
  shows "findPolicy w' = (findPolicy w)(i \<mapsto> p\<lparr>p_quotaEnforcedAction := Some ''block''\<rparr>) \<and>
    (\<exists>d \<in> set (domainDevices w'). denotes mac d \<and> d_identityValidated d \<and> enforcedIn d (kernelSets elems w'))"
proof -
  let ?q = "quotaControl m sshPort dashboardPort uplink admin td"
  note run = assms(5)
  have pol: "qd_policies ?q = prismaPolicies" by (simp add: quotaControl_def)
  from run obtain x t where f: "pr_findByDeviceId prismaPolicies i w = (Inr x, t)"
    unfolding enforceQuotaAction_def pol by (blast elim: bnd_InrE)
  note t = found_policy [OF f]
  have act: "normalizeAction (p_quotaAction p) = Some Block" by (simp add: assms(3) normalizeAction_def)
  have "thn (blockForQuota (controlDeps m sshPort dashboardPort uplink admin) mac)
      (setEnforced ?q i (Some ''block'')) t = (Inr (), w')"
    using run f t(1) assms(2) unfolding enforceQuotaAction_def pol
    by (simp add: bnd_Inr act assms(4) truthy_def actionText_def quotaControl_def)
  then obtain u v where b: "blockForQuota (controlDeps m sshPort dashboardPort uplink admin) mac t = (Inr u, v)"
    and e: "setEnforced ?q i (Some ''block'') v = (Inr (), w')" by (rule thn_InrE)
  from specD [OF nft_tool.control_quota_block [OF assms(1)] b]
  obtain d where d: "domainDevices v = domainDevices t" "findPolicy v = findPolicy t" "d \<in> set (domainDevices t)"
    "denotes mac d" "d_identityValidated d" "enforcedIn d (kernelSets elems v)"
    by (auto simp: kernelSets_def)
  from setEnforced_ok [OF pol e, of p] d(2) t assms(2)
  have "besidePolicies w' = besidePolicies v" "findPolicy w' = (findPolicy w)(i \<mapsto> p\<lparr>p_quotaEnforcedAction := Some ''block''\<rparr>)"
    by simp_all
  with d show ?thesis by (auto simp: besidePolicies_def kernelSets_def)
qed

text \<open>When nothing is broken, that enforcement is successful.\<close>

lemma exhausted_quota_alive:
  assumes "nft_alive m elems" "goodRows D" "healthy D w" "d \<in> set D" "denotes mac d" "d_identityValidated d"
    and "d_l2Visible d \<or> d_ip d \<noteq> None"
    and "findPolicy w i = Some p" "p_quotaAction p = Some ''block''" "p_quotaEnforcedAction p = None" "i \<in> d_id ` set D"
  shows "\<exists>w'. enforceQuotaAction (quotaControl m sshPort dashboardPort uplink admin td) i mac w = (Inr (), w')"
proof -
  let ?q = "quotaControl m sshPort dashboardPort uplink admin td"
  have pol: "qd_policies ?q = prismaPolicies" by (simp add: quotaControl_def)
  obtain x t where f: "pr_findByDeviceId prismaPolicies i w = (Inr x, t)" "healthy D t"
    by (rule yieldsD [OF findPolicy_alive assms(3)]) (auto simp: prismaPolicies_def)
  have act: "normalizeAction (p_quotaAction p) = Some Block" by (simp add: assms(9) normalizeAction_def)
  have "alive (healthy D) (setEnforced ?q i a)" for a
    unfolding setEnforced_def pol
    by (intro alive_rules) (use upsertPolicy_alive [OF assms(11)] in \<open>simp add: prismaPolicies_def\<close>)
  with nft_alive.blockForQuota_alive [OF assms(1,2,4-7)]
  have "alive (healthy D) (thn (blockForQuota (controlDeps m sshPort dashboardPort uplink admin) mac) (setEnforced ?q i (Some ''block'')))"
    by (intro alive_rules)
  from alive_run [OF this f(2)] show ?thesis
    using f(1) found_policy(1) [OF f(1)] assms(8) unfolding enforceQuotaAction_def pol
    by (auto simp: bnd_Inr act assms(10) truthy_def actionText_def quotaControl_def)
qed

definition quotaPolicy :: "string option \<Rightarrow> DevicePolicy" where
  "quotaPolicy enforced = (blankPolicy 1 1)\<lparr>p_quota := Some 1000, p_quotaPeriod := Some ''daily'',
     p_quotaAction := Some ''block'', p_quotaEnforcedAction := enforced\<rparr>"

definition quotaWorld :: "string option \<Rightarrow> SimKernel world" where
  "quotaWorld enforced = demoWorld\<lparr>w_policies := [quotaPolicy enforced],
     w_kernel := \<lparr>sk_macs = (if enforced = None then [] else [''02:00:00:00:00:01'']), sk_ips = [], sk_leases = []\<rparr>\<rparr>"

lemma quotaWorld_facts:
  "healthy [demoLaptop, demoPhone] (quotaWorld enforced)" "findPolicy (quotaWorld enforced) 1 = Some (quotaPolicy enforced)"
  "domainDevices (quotaWorld enforced) = [demoLaptop, demoPhone]"
proof -
  show "healthy [demoLaptop, demoPhone] (quotaWorld enforced)" using demo_healthy by (simp add: quotaWorld_def)
  show "findPolicy (quotaWorld enforced) 1 = Some (quotaPolicy enforced)"
    by (simp add: findPolicy_def quotaWorld_def quotaPolicy_def blankPolicy_def)
  show "domainDevices (quotaWorld enforced) = [demoLaptop, demoPhone]"
    using demo_devices by (simp add: quotaWorld_def domainDevices_def)
qed

text \<open>
  C20. A quota block does not outlive a restart: the reconciliation at start-up, when it succeeds,
  removes from the kernel set the MAC address of a device that only its quota blocks, and
  enforcing the quota action again does not bring it back, because the policy row still says that
  the block is enforced.
\<close>

theorem restart_drops_quota_block:
  assumes "nft_tool m elems"
    and "findPolicy w (d_id d) = Some p" "\<not> p_blocked p" "p_quotaAction p = Some ''block''"
    and "p_quotaEnforcedAction p = Some ''block''"
    and "\<forall>e \<in> set (domainDevices w). d_mac e = d_mac d \<longrightarrow> d_id e = d_id d"
    and "firewall_reconcile (controlDeps m sshPort dashboardPort uplink admin) w = (Inr (), w')"
    and "enforceQuotaAction (quotaControl m sshPort dashboardPort uplink admin td) (d_id d) mac w' = (r, w'')"
  shows "d_mac d \<notin> fst (kernelSets elems w'')"
proof -
  let ?q = "quotaControl m sshPort dashboardPort uplink admin td"
  have pol: "qd_policies ?q = prismaPolicies" by (simp add: quotaControl_def)
  from reconcile_kernel [OF assms(1,7)] have k: "findPolicy w' = findPolicy w"
    "fst (kernelSets elems w') = desiredMacs (domainDevices w) (findPolicy w)" by simp_all
  have "d_mac d \<notin> desiredMacs (domainDevices w) (findPolicy w)"
    using assms(2,3,6) by (auto simp: desiredMacs_def wantsBlock_def policyBlocks_def)
  moreover have "w_kernel w'' = w_kernel w'"
  proof -
    obtain x t where f: "pr_findByDeviceId prismaPolicies (d_id d) w' = (x, t)" by fastforce
    have kt: "w_kernel t = w_kernel w'" using frameD [OF prismaPol.find_frame f] by (simp add: besidePolicies_def)
    show ?thesis
    proof (cases x)
      case (Inr q)
      with f have "q = Some p" using found_policy(1) [of "d_id d" w' q t] k(1) assms(2) by simp
      with assms(8) f Inr have "w'' = t" unfolding enforceQuotaAction_def pol
        by (simp add: bnd_Inr assms(4,5) normalizeAction_def actionText_def)
      with kt show ?thesis by simp
    next
      case (Inl e)
      with assms(8) f have "w'' = t" unfolding enforceQuotaAction_def pol by (simp add: bnd_Inl)
      with kt show ?thesis by simp
    qed
  qed
  ultimately show ?thesis using k(2) by (simp add: kernelSets_def)
qed

theorem exhausted_quota_blocks_in_kernel_witness:
  "\<exists>w'. enforceQuotaAction demoQuota 1 ''02:00:00:00:00:01'' (quotaWorld None) = (Inr (), w') \<and>
     findPolicy w' 1 = Some ((quotaPolicy None)\<lparr>p_quotaEnforcedAction := Some ''block''\<rparr>) \<and>
     fst (kernelSets simElems w') \<union> snd (kernelSets simElems w') \<noteq> {}"
proof -
  have l: "denotes ''02:00:00:00:00:01'' demoLaptop" "d_identityValidated demoLaptop" "d_l2Visible demoLaptop" "d_id demoLaptop = 1"
    by code_simp+
  obtain w' where run: "enforceQuotaAction demoQuota 1 ''02:00:00:00:00:01'' (quotaWorld None) = (Inr (), w')"
    using exhausted_quota_alive [where sshPort = 22 and dashboardPort = 80 and uplink = "''wan0''" and admin = "''admin''"
        and td = demoTraffic, OF simAlive.nft_alive_axioms demo_rows quotaWorld_facts(1) _ l(1,2) _ quotaWorld_facts(2)] l
    by (auto simp: quotaPolicy_def blankPolicy_def)
  from exhausted_quota_blocks_in_kernel [OF simTool.nft_tool_axioms quotaWorld_facts(2) _ _ run] run show ?thesis
    by (auto simp: quotaPolicy_def blankPolicy_def enforcedIn_def split: if_splits)
qed

theorem restart_drops_quota_block_witness:
  "''02:00:00:00:00:01'' \<in> fst (kernelSets simElems (quotaWorld (Some ''block''))) \<and>
   (\<exists>w'. firewall_reconcile (controlDeps simMachine 22 80 ''wan0'' ''admin'') (quotaWorld (Some ''block'')) = (Inr (), w') \<and>
     ''02:00:00:00:00:01'' \<notin> fst (kernelSets simElems (snd (enforceQuotaAction demoQuota 1 ''02:00:00:00:00:01'' w'))))"
proof -
  let ?w = "quotaWorld (Some ''block'')"
  obtain w' where run: "firewall_reconcile (controlDeps simMachine 22 80 ''wan0'' ''admin'') ?w = (Inr (), w')"
    using alive_run [OF simAlive.reconcile_alive [OF demo_rows] quotaWorld_facts(1)] by blast
  have id: "d_id demoLaptop = 1" "d_mac demoLaptop = ''02:00:00:00:00:01''" "d_mac demoPhone \<noteq> d_mac demoLaptop"
    by (simp_all add: demoLaptop_def demoPhone_def)
  then have pol: "findPolicy ?w (d_id demoLaptop) = Some (quotaPolicy (Some ''block''))" by (simp add: quotaWorld_facts)
  have one: "\<forall>e \<in> set (domainDevices ?w). d_mac e = d_mac demoLaptop \<longrightarrow> d_id e = d_id demoLaptop"
    using id by (simp add: quotaWorld_facts)
  have again: "enforceQuotaAction demoQuota (d_id demoLaptop) ''02:00:00:00:00:01'' w' =
      (fst (enforceQuotaAction demoQuota 1 ''02:00:00:00:00:01'' w'), snd (enforceQuotaAction demoQuota 1 ''02:00:00:00:00:01'' w'))"
    by (simp add: id)
  have "''02:00:00:00:00:01'' \<in> fst (kernelSets simElems ?w)" by code_simp
  with restart_drops_quota_block [OF simTool.nft_tool_axioms pol _ _ _ one run again] run id
  show ?thesis by (auto simp: quotaPolicy_def blankPolicy_def)
qed

end
