(* ===== verification/History.thy ===== *)
theory History
  imports Accounting
begin

text \<open>
  The tables of traffic history: \<open>PrismaTrafficSampleRepository.ts\<close>, which adds minute buckets and
  reads history, and \<open>TrafficRetentionService.ts\<close>, which rolls old rows up into hours and days
  and deletes them. Any query may fail, as \<open>hd_fault\<close> decides by its number; the statements of
  one run of the retention service are separate queries, so a run may stop between any two.
\<close>

section \<open>Tables\<close>

record SampleRow =
  ts_id :: int
  ts_deviceId :: int
  ts_timestamp :: int
  ts_downloadBytes :: int
  ts_uploadBytes :: int
  ts_downloadRate :: "int option"
  ts_uploadRate :: "int option"

record RollupRow =
  ro_id :: int
  ro_deviceId :: int
  ro_bucketStart :: int
  ro_granularity :: string
  ro_downloadBytes :: int
  ro_uploadBytes :: int

record HistoryDb =
  hd_tick :: nat
  hd_fault :: "nat \<Rightarrow> bool"
  hd_now :: int
  hd_devices :: "int list"
  hd_nextSample :: int
  hd_samples :: "SampleRow list"
  hd_nextRollup :: int
  hd_rollups :: "RollupRow list"

definition histQuery :: "(HistoryDb \<Rightarrow> (js_error + 'a) \<times> HistoryDb) \<Rightarrow> (HistoryDb, 'a) prog" where
  "histQuery f = (\<lambda>s. let t = s\<lparr>hd_tick := Suc (hd_tick s)\<rparr>
     in if hd_fault s (hd_tick s) then (Inl (Error ''Can't reach database server''), t) else f t)"

section \<open>PrismaTrafficSampleRepository\<close>

definition insertSample :: "SampleData \<Rightarrow> HistoryDb \<Rightarrow> (js_error + SampleRow) \<times> HistoryDb" where
  "insertSample d s =
     (if sm_deviceId d \<notin> set (hd_devices s) then (Inl (Error ''Foreign key constraint violated''), s)
      else let row = \<lparr>ts_id = hd_nextSample s, ts_deviceId = sm_deviceId d, ts_timestamp = sm_timestamp d,
                 ts_downloadBytes = sm_downloadBytes d, ts_uploadBytes = sm_uploadBytes d,
                 ts_downloadRate = sm_downloadRate d, ts_uploadRate = sm_uploadRate d\<rparr>
           in (Inr row, s\<lparr>hd_samples := hd_samples s @ [row], hd_nextSample := hd_nextSample s + 1\<rparr>))"

definition sameBucket :: "SampleData \<Rightarrow> SampleRow \<Rightarrow> bool" where
  "sameBucket d r \<longleftrightarrow> ts_deviceId r = sm_deviceId d \<and> ts_timestamp r = sm_timestamp d"

definition PrismaTraffic_create :: "SampleData \<Rightarrow> (HistoryDb, SampleRow) prog" where
  "PrismaTraffic_create d = histQuery (\<lambda>s.
     if list_ex (sameBucket d) (hd_samples s) then (Inl (Error ''Unique constraint failed''), s)
     else insertSample d s)"

definition increaseSample :: "SampleData \<Rightarrow> SampleRow \<Rightarrow> SampleRow" where
  "increaseSample d r = r\<lparr>ts_downloadBytes := ts_downloadBytes r + sm_downloadBytes d,
     ts_uploadBytes := ts_uploadBytes r + sm_uploadBytes d,
     ts_downloadRate := sm_downloadRate d, ts_uploadRate := sm_uploadRate d\<rparr>"

definition PrismaTraffic_accumulateBucket :: "SampleData \<Rightarrow> (HistoryDb, SampleRow) prog" where
  "PrismaTraffic_accumulateBucket d = histQuery (\<lambda>s.
     case find (sameBucket d) (hd_samples s) of
       None \<Rightarrow> insertSample d s
     | Some r \<Rightarrow> (Inr (increaseSample d r),
         s\<lparr>hd_samples := map (\<lambda>x. if sameBucket d x then increaseSample d x else x) (hd_samples s)\<rparr>))"

definition hoursMs :: "int \<Rightarrow> int" where
  "hoursMs n = n * 3600000"

definition inWindowOf :: "int option \<Rightarrow> int \<Rightarrow> int \<Rightarrow> int \<Rightarrow> int \<Rightarrow> bool" where
  "inWindowOf wanted start finish deviceId t \<longleftrightarrow>
     (case wanted of None \<Rightarrow> True | Some i \<Rightarrow> deviceId = i) \<and> start \<le> t \<and> t < finish"

definition rollupSample :: "RollupRow \<Rightarrow> SampleRow" where
  "rollupSample r = \<lparr>ts_id = - ro_id r, ts_deviceId = ro_deviceId r, ts_timestamp = ro_bucketStart r,
     ts_downloadBytes = ro_downloadBytes r, ts_uploadBytes = ro_uploadBytes r,
     ts_downloadRate = None, ts_uploadRate = None\<rparr>"

definition findRollups :: "int option \<Rightarrow> string \<Rightarrow> int \<Rightarrow> int \<Rightarrow> (HistoryDb, SampleRow list) prog" where
  "findRollups wanted granularity start finish = histQuery (\<lambda>s. (Inr (map rollupSample (sort_key ro_bucketStart
     (filter (\<lambda>r. ro_granularity r = granularity \<and> inWindowOf wanted start finish (ro_deviceId r) (ro_bucketStart r))
       (hd_rollups s)))), s))"

definition PrismaTraffic_findHistory :: "int option \<Rightarrow> int \<Rightarrow> int \<Rightarrow> (HistoryDb, SampleRow list) prog" where
  "PrismaTraffic_findHistory wanted start finish =
     (let rawCutoff = finish - hoursMs 48; dailyCutoff = finish - hoursMs (30 * 24); spanMs = finish - start in
      bnd (histQuery (\<lambda>s. (Inr (sort_key ts_timestamp (filter (\<lambda>r. inWindowOf wanted (max start rawCutoff) finish
            (ts_deviceId r) (ts_timestamp r)) (hd_samples s))), s))) (\<lambda>rawRows.
      if spanMs \<le> hoursMs 48 then ret rawRows
      else bnd (findRollups wanted ''hourly'' (max start dailyCutoff) rawCutoff) (\<lambda>hourlyRows.
      if spanMs \<le> hoursMs (30 * 24) then ret (sort_key ts_timestamp (hourlyRows @ rawRows))
      else bnd (findRollups wanted ''daily'' start dailyCutoff) (\<lambda>dailyRows.
           ret (sort_key ts_timestamp (dailyRows @ hourlyRows @ rawRows))))))"

section \<open>TrafficRetentionService\<close>

definition HOUR_MS :: int where
  "HOUR_MS = 3600000"

definition DAY_MS :: int where
  "DAY_MS = 24 * HOUR_MS"

definition floorToHour :: "int \<Rightarrow> int" where
  "floorToHour t = t div HOUR_MS * HOUR_MS"

definition floorToDay :: "int \<Rightarrow> int" where
  "floorToDay t = t div DAY_MS * DAY_MS"

text \<open>\<open>INSERT ... ON CONFLICT DO UPDATE\<close> of one grp: its device, its bucket and its two sums.\<close>

definition rollupKey :: "string \<Rightarrow> int \<times> int \<Rightarrow> RollupRow \<Rightarrow> bool" where
  "rollupKey granularity k r \<longleftrightarrow> ro_granularity r = granularity \<and> ro_deviceId r = fst k \<and> ro_bucketStart r = snd k"

definition upsertRollup :: "string \<Rightarrow> (int \<times> int) \<times> int \<times> int \<Rightarrow> HistoryDb \<Rightarrow> HistoryDb" where
  "upsertRollup granularity grp s = (case grp of (k, down, up) \<Rightarrow>
     if list_ex (rollupKey granularity k) (hd_rollups s)
       then s\<lparr>hd_rollups := map (\<lambda>r. if rollupKey granularity k r
              then r\<lparr>ro_downloadBytes := down, ro_uploadBytes := up\<rparr> else r) (hd_rollups s)\<rparr>
     else s\<lparr>hd_rollups := hd_rollups s @ [\<lparr>ro_id = hd_nextRollup s, ro_deviceId = fst k, ro_bucketStart = snd k,
              ro_granularity = granularity, ro_downloadBytes = down, ro_uploadBytes = up\<rparr>],
            hd_nextRollup := hd_nextRollup s + 1\<rparr>)"

text \<open>\<open>GROUP BY\<close> a key, with the sums of two columns.\<close>

definition groupSums :: "('r \<Rightarrow> int \<times> int) \<Rightarrow> ('r \<Rightarrow> int) \<Rightarrow> ('r \<Rightarrow> int) \<Rightarrow> 'r list \<Rightarrow> ((int \<times> int) \<times> int \<times> int) list" where
  "groupSums key down up rows = map (\<lambda>k. (k,
       sum_list (map down (filter (\<lambda>r. key r = k) rows)), sum_list (map up (filter (\<lambda>r. key r = k) rows))))
     (remdups (map key rows))"

definition rollHours :: "int \<Rightarrow> int \<Rightarrow> (HistoryDb, unit) prog" where
  "rollHours hourlyCutoff rawCutoff = histQuery (\<lambda>s. (Inr (), fold (upsertRollup ''hourly'')
     (groupSums (\<lambda>r. (ts_deviceId r, floorToHour (ts_timestamp r))) ts_downloadBytes ts_uploadBytes
       (filter (\<lambda>r. ts_timestamp r < rawCutoff \<and> hourlyCutoff \<le> ts_timestamp r) (hd_samples s))) s))"

definition rollDays :: "int \<Rightarrow> (HistoryDb, unit) prog" where
  "rollDays hourlyCutoff = histQuery (\<lambda>s. (Inr (), fold (upsertRollup ''daily'')
     (groupSums (\<lambda>r. (ro_deviceId r, floorToDay (ro_bucketStart r))) ro_downloadBytes ro_uploadBytes
       (filter (\<lambda>r. ro_granularity r = ''hourly'' \<and> ro_bucketStart r < hourlyCutoff) (hd_rollups s))) s))"

definition deleteSamples :: "int \<Rightarrow> (HistoryDb, unit) prog" where
  "deleteSamples rawCutoff = histQuery (\<lambda>s.
     (Inr (), s\<lparr>hd_samples := filter (\<lambda>r. \<not> ts_timestamp r < rawCutoff) (hd_samples s)\<rparr>))"

definition deleteHours :: "int \<Rightarrow> (HistoryDb, unit) prog" where
  "deleteHours hourlyCutoff = histQuery (\<lambda>s. (Inr (), s\<lparr>hd_rollups :=
     filter (\<lambda>r. \<not> (ro_granularity r = ''hourly'' \<and> ro_bucketStart r < hourlyCutoff)) (hd_rollups s)\<rparr>))"

definition retention_run :: "int \<Rightarrow> int \<Rightarrow> (HistoryDb, unit) prog" where
  "retention_run rawWindowMs hourlyWindowMs =
     bnd (gets hd_now) (\<lambda>now.
     let rawCutoff = floorToHour (now - rawWindowMs); hourlyCutoff = floorToDay (now - hourlyWindowMs)
     in thn (rollHours hourlyCutoff rawCutoff)
       (thn (rollDays hourlyCutoff)
       (thn (deleteSamples rawCutoff)
            (deleteHours hourlyCutoff))))"

end
