(* ===== verification/Retention.thy ===== *)
theory Retention
  imports History
begin

text \<open>
  The retention service loses no bytes: what the tables say about a device and a day stays the
  same through a run of \<open>TrafficRetentionService.run\<close>, also when the run stops between two of
  its queries, and the tables stay consistent for the run that comes after.
\<close>

section \<open>The accounts of the tables\<close>

text \<open>A rollup row and a sample without their ids, and the two byte counts of each.\<close>

definition rollKeyOf :: "RollupRow \<Rightarrow> string \<times> int \<times> int" where
  "rollKeyOf r = (ro_granularity r, ro_deviceId r, ro_bucketStart r)"

definition rollBytes :: "RollupRow \<Rightarrow> int \<times> int" where
  "rollBytes r = (ro_downloadBytes r, ro_uploadBytes r)"

definition sampleBytes :: "SampleRow \<Rightarrow> int \<times> int" where
  "sampleBytes r = (ts_downloadBytes r, ts_uploadBytes r)"

text \<open>The sums of a list of byte counts.\<close>

definition total :: "(int \<times> int) list \<Rightarrow> int \<times> int" where
  "total bs = (sum_list (map fst bs), sum_list (map snd bs))"

definition plus2 :: "int \<times> int \<Rightarrow> int \<times> int \<Rightarrow> int \<times> int" where
  "plus2 a b = (fst a + fst b, snd a + snd b)"

definition hourOf :: "SampleRow \<Rightarrow> int \<times> int" where
  "hourOf r = (ts_deviceId r, floorToHour (ts_timestamp r))"

definition dayOfHour :: "RollupRow \<Rightarrow> int \<times> int" where
  "dayOfHour r = (ro_deviceId r, floorToDay (ro_bucketStart r))"

definition hasRollup :: "HistoryDb \<Rightarrow> string \<Rightarrow> int \<times> int \<Rightarrow> bool" where
  "hasRollup s g k \<longleftrightarrow> (\<exists>r \<in> set (hd_rollups s). rollupKey g k r)"

definition hourRows :: "HistoryDb \<Rightarrow> int \<times> int \<Rightarrow> RollupRow list" where
  "hourRows s k = filter (\<lambda>r. ro_granularity r = ''hourly'' \<and> dayOfHour r = k) (hd_rollups s)"

text \<open>The samples of a device and day that no hourly row accounts for.\<close>

definition looseSamples :: "HistoryDb \<Rightarrow> int \<times> int \<Rightarrow> SampleRow list" where
  "looseSamples s k = filter (\<lambda>x. (ts_deviceId x, floorToDay (ts_timestamp x)) = k \<and>
     \<not> hasRollup s ''hourly'' (hourOf x)) (hd_samples s)"

text \<open>What the tables say a device has transferred on a day: the finest complete source counts.\<close>

definition dayBytes :: "HistoryDb \<Rightarrow> int \<times> int \<Rightarrow> int \<times> int" where
  "dayBytes s k = (case find (rollupKey ''daily'' k) (hd_rollups s) of
       Some r \<Rightarrow> rollBytes r
     | None \<Rightarrow> plus2 (total (map rollBytes (hourRows s k))) (total (map sampleBytes (looseSamples s k))))"

text \<open>
  A row whose source is still there agrees with it, and there are daily rows only for days before
  the cutoff of the hourly table.
\<close>

definition consistent :: "int \<Rightarrow> HistoryDb \<Rightarrow> bool" where
  "consistent cutoff s \<longleftrightarrow>
     (\<forall>r \<in> set (hd_rollups s). ro_granularity r = ''hourly'' \<longrightarrow> (\<exists>x \<in> set (hd_samples s). rollupKey ''hourly'' (hourOf x) r) \<longrightarrow>
        rollBytes r = total (map sampleBytes (filter (\<lambda>x. rollupKey ''hourly'' (hourOf x) r) (hd_samples s)))) \<and>
     (\<forall>r \<in> set (hd_rollups s). ro_granularity r = ''daily'' \<longrightarrow> hourRows s (ro_deviceId r, ro_bucketStart r) \<noteq> [] \<longrightarrow>
        rollBytes r = total (map rollBytes (hourRows s (ro_deviceId r, ro_bucketStart r)))) \<and>
     (\<forall>r \<in> set (hd_rollups s). ro_granularity r = ''daily'' \<longrightarrow> ro_bucketStart r < cutoff) \<and>
     (\<forall>r \<in> set (hd_rollups s). ro_granularity r = ''hourly'' \<longrightarrow> floorToHour (ro_bucketStart r) = ro_bucketStart r)"

text \<open>Every sample before the time is accounted for by an hourly or a daily row.\<close>

definition rolledUp :: "int \<Rightarrow> HistoryDb \<Rightarrow> bool" where
  "rolledUp t s \<longleftrightarrow> (\<forall>x \<in> set (hd_samples s). ts_timestamp x < t \<longrightarrow>
     hasRollup s ''hourly'' (hourOf x) \<or> hasRollup s ''daily'' (ts_deviceId x, floorToDay (ts_timestamp x)))"

section \<open>Time\<close>

lemma floor_facts:
  "floorToHour t \<le> t" "t < floorToHour t + HOUR_MS" "floorToHour (floorToHour t) = floorToHour t"
  "floorToDay (floorToDay t) = floorToDay t" "floorToDay (floorToHour t) = floorToDay t" "floorToHour (floorToDay t) = floorToDay t"
  unfolding floorToHour_def floorToDay_def HOUR_MS_def DAY_MS_def
  by (simp_all add: minus_mult_div_eq_mod [symmetric] algebra_simps zdiv_zmult2_eq [symmetric]) (presburger+)?


lemma floor_below:
  assumes "0 < (h :: int)"
  shows "t div h * h < q * h \<longleftrightarrow> t < q * h"
proof
  assume "t div h * h < q * h"
  with assms have "(t div h + 1) * h \<le> q * h" by simp
  moreover have "t < (t div h + 1) * h"
    using div_mult_mod_eq [of t h] pos_mod_bound [OF assms, of t] unfolding distrib_right mult_1 by linarith
  ultimately show "t < q * h" by linarith
next
  assume "t < q * h"
  moreover have "t div h * h \<le> t" using div_mult_mod_eq [of t h] pos_mod_sign [OF assms, of t] by linarith
  ultimately show "t div h * h < q * h" by linarith
qed

lemma below_hour: "floorToHour c = c \<Longrightarrow> floorToHour t < c \<longleftrightarrow> t < c"
  unfolding floorToHour_def by (metis floor_below HOUR_MS_def zero_less_numeral)

lemma below_day: "floorToDay c = c \<Longrightarrow> floorToDay t < c \<longleftrightarrow> t < c"
  unfolding floorToDay_def by (metis floor_below DAY_MS_def HOUR_MS_def zero_less_numeral mult_pos_pos)

section \<open>Rolling up\<close>

lemma groupSums_total: "groupSums key down up rows =
    map (\<lambda>k. (k, total (map (\<lambda>r. (down r, up r)) (filter (\<lambda>r. key r = k) rows)))) (remdups (map key rows))"
  by (simp add: groupSums_def total_def comp_def)

lemma rollupKey_iff: "rollupKey g k r \<longleftrightarrow> rollKeyOf r = (g, k)"
  by (cases k) (auto simp: rollupKey_def rollKeyOf_def)

lemma upsert_same:
  assumes "hasRollup s g k" "\<And>r. r \<in> set (hd_rollups s) \<Longrightarrow> rollupKey g k r \<Longrightarrow> rollBytes r = v"
  shows "upsertRollup g (k, v) s = s"
proof -
  have "map (\<lambda>r. if rollupKey g k r then r\<lparr>ro_downloadBytes := fst v, ro_uploadBytes := snd v\<rparr> else r) (hd_rollups s) = hd_rollups s"
  proof (rule map_idI)
    fix r assume "r \<in> set (hd_rollups s)"
    with assms(2) show "(if rollupKey g k r then r\<lparr>ro_downloadBytes := fst v, ro_uploadBytes := snd v\<rparr> else r) = r"
      by (cases r) (fastforce simp: rollBytes_def)
  qed
  moreover have "list_ex (rollupKey g k) (hd_rollups s)" using assms(1) by (auto simp: hasRollup_def list_ex_iff)
  ultimately show ?thesis by (simp add: upsertRollup_def case_prod_beta)
qed

lemma upsert_new:
  assumes "\<not> hasRollup s g k"
  shows "\<exists>r. upsertRollup g (k, v) s = s\<lparr>hd_rollups := hd_rollups s @ [r], hd_nextRollup := hd_nextRollup s + 1\<rparr> \<and>
    rollKeyOf r = (g, k) \<and> rollBytes r = v"
  using assms by (cases k; cases v) (auto simp: upsertRollup_def hasRollup_def list_ex_iff rollKeyOf_def rollBytes_def)

lemma fold_upsert:
  assumes "distinct ks" "\<And>r k. r \<in> set (hd_rollups s) \<Longrightarrow> k \<in> set ks \<Longrightarrow> rollupKey g k r \<Longrightarrow> rollBytes r = f k"
  shows "\<exists>new. hd_rollups (fold (upsertRollup g) (map (\<lambda>k. (k, f k)) ks) s) = hd_rollups s @ new \<and>
    map (\<lambda>r. (rollKeyOf r, rollBytes r)) new = map (\<lambda>k. ((g, k), f k)) (filter (\<lambda>k. \<not> hasRollup s g k) ks) \<and>
    hd_samples (fold (upsertRollup g) (map (\<lambda>k. (k, f k)) ks) s) = hd_samples s"
  using assms
proof (induction ks arbitrary: s)
  case (Cons k ks)
  show ?case
  proof (cases "hasRollup s g k")
    case True
    with Cons.prems(2) have "upsertRollup g (k, f k) s = s" by (intro upsert_same) auto
    with Cons True show ?thesis by simp
  next
    case False
    from upsert_new [OF this, of "f k"] obtain r where
      r: "upsertRollup g (k, f k) s = s\<lparr>hd_rollups := hd_rollups s @ [r], hd_nextRollup := hd_nextRollup s + 1\<rparr>"
      "rollKeyOf r = (g, k)" "rollBytes r = f k" by blast
    let ?s = "s\<lparr>hd_rollups := hd_rollups s @ [r], hd_nextRollup := hd_nextRollup s + 1\<rparr>"
    have "hasRollup ?s g k' = hasRollup s g k'" if "k' \<in> set ks" for k'
      using that Cons.prems(1) r(2) by (auto simp: hasRollup_def rollupKey_iff)
    then have same: "filter (\<lambda>k. \<not> hasRollup ?s g k) ks = filter (\<lambda>k. \<not> hasRollup s g k) ks" by (auto intro: filter_cong)
    have old: "rollBytes r' = f k'" if "r' \<in> set (hd_rollups ?s)" "k' \<in> set ks" "rollupKey g k' r'" for r' k'
    proof (cases "r' = r")
      case True
      with that r Cons.prems(1) show ?thesis by (simp add: rollupKey_iff)
    next
      case False
      with that Cons.prems(2) [of r' k'] show ?thesis by simp
    qed
    have "distinct ks" using Cons.prems(1) by simp
    from Cons.IH [OF this, of ?s, OF old] obtain new where
      n: "hd_rollups (fold (upsertRollup g) (map (\<lambda>k. (k, f k)) ks) ?s) = hd_rollups ?s @ new"
      "map (\<lambda>r. (rollKeyOf r, rollBytes r)) new = map (\<lambda>k. ((g, k), f k)) (filter (\<lambda>k. \<not> hasRollup s g k) ks)"
      "hd_samples (fold (upsertRollup g) (map (\<lambda>k. (k, f k)) ks) ?s) = hd_samples s"
      unfolding same by auto
    show ?thesis by (rule exI [of _ "r # new"]) (use n r False in \<open>simp add: r(1)\<close>)
  qed
qed simp

section \<open>Sums\<close>

lemma total_append [simp]: "total (xs @ ys) = plus2 (total xs) (total ys)"
  by (simp add: total_def plus2_def)

lemma total_Nil [simp]: "total [] = (0, 0)"
  by (simp add: total_def)

lemma plus2_simps [simp]: "plus2 a (0, 0) = a" "plus2 (0, 0) a = a"
  by (simp_all add: plus2_def)

lemma plus2_assoc: "plus2 (plus2 a b) c = plus2 a (plus2 b c)"
  by (simp add: plus2_def)

text \<open>A sum by groups is the sum of the members.\<close>

lemma sum_by_key:
  fixes v :: "'a \<Rightarrow> int"
  assumes "distinct ks"
  shows "sum_list (map (\<lambda>k. sum_list (map v (filter (\<lambda>x. key x = k) xs))) ks) = sum_list (map v (filter (\<lambda>x. key x \<in> set ks) xs))"
  using assms
proof (induction xs)
  case (Cons x xs)
  have "sum_list (map (\<lambda>k. if key x = k then v x + sum_list (map v (filter (\<lambda>x. key x = k) xs)) else sum_list (map v (filter (\<lambda>x. key x = k) xs))) ks) =
      sum_list (map (\<lambda>k. (if key x = k then v x else 0)) ks) + sum_list (map (\<lambda>k. sum_list (map v (filter (\<lambda>x. key x = k) xs))) ks)"
    by (induction ks) auto
  moreover have "sum_list (map (\<lambda>k. (if key x = k then v x else 0)) ks) = (if key x \<in> set ks then v x else 0)"
    using Cons.prems by (induction ks) auto
  moreover have "(\<lambda>k. sum_list (map v (filter (\<lambda>x. key x = k) (x # xs)))) =
      (\<lambda>k. if key x = k then v x + sum_list (map v (filter (\<lambda>x. key x = k) xs)) else sum_list (map v (filter (\<lambda>x. key x = k) xs)))"
    by auto
  ultimately show ?case using Cons by simp
qed simp

lemma total_by_key:
  assumes "distinct ks"
  shows "total (map (\<lambda>k. total (map b (filter (\<lambda>x. key x = k) xs))) ks) = total (map b (filter (\<lambda>x. key x \<in> set ks) xs))"
  using sum_by_key [OF assms, of "fst \<circ> b" key xs] sum_by_key [OF assms, of "snd \<circ> b" key xs]
  by (simp add: total_def comp_def)


lemma total_split: "total (map b (filter P xs)) =
    plus2 (total (map b (filter (\<lambda>x. P x \<and> \<not> Q x) xs))) (total (map b (filter (\<lambda>x. P x \<and> Q x) xs)))"
  by (induction xs) (auto simp: total_def plus2_def)

lemma find_append_case: "find P (xs @ ys) = (case find P xs of None \<Rightarrow> find P ys | Some x \<Rightarrow> Some x)"
  by (induction xs) auto

section \<open>The four steps\<close>

definition hourKeys :: "int \<Rightarrow> int \<Rightarrow> HistoryDb \<Rightarrow> (int \<times> int) list" where
  "hourKeys hc rc s = remdups (map hourOf (filter (\<lambda>x. ts_timestamp x < rc \<and> hc \<le> ts_timestamp x) (hd_samples s)))"

definition hourSum :: "HistoryDb \<Rightarrow> int \<times> int \<Rightarrow> int \<times> int" where
  "hourSum s k = total (map sampleBytes (filter (\<lambda>x. hourOf x = k) (hd_samples s)))"

definition rolledHours :: "int \<Rightarrow> int \<Rightarrow> HistoryDb \<Rightarrow> HistoryDb" where
  "rolledHours hc rc s = fold (upsertRollup ''hourly'') (map (\<lambda>k. (k, hourSum s k)) (hourKeys hc rc s)) s"

lemma hourKeys_window:
  assumes "floorToHour hc = hc" "floorToHour rc = rc" "k \<in> set (hourKeys hc rc s)"
  shows "hc \<le> snd k" "snd k < rc" "floorToHour (snd k) = snd k"
    "hourOf x = k \<Longrightarrow> ts_timestamp x < rc \<and> hc \<le> ts_timestamp x"
proof -
  from assms(3) obtain y where "hourOf y = k" "ts_timestamp y < rc" "hc \<le> ts_timestamp y" by (auto simp: hourKeys_def)
  with below_hour [OF assms(1), of "ts_timestamp y"] below_hour [OF assms(2), of "ts_timestamp y"]
  show k: "hc \<le> snd k" "snd k < rc" "floorToHour (snd k) = snd k"
    by (auto simp: hourOf_def floor_facts)
  show "hourOf x = k \<Longrightarrow> ts_timestamp x < rc \<and> hc \<le> ts_timestamp x"
    using k below_hour [OF assms(1), of "ts_timestamp x"] below_hour [OF assms(2), of "ts_timestamp x"]
    by (auto simp: hourOf_def)
qed

lemma rollHours_step:
  assumes "floorToHour hc = hc" "floorToHour rc = rc"
  shows "rollHours hc rc = histQuery (\<lambda>s. (Inr (), rolledHours hc rc s))"
proof -
  have sums: "groupSums (\<lambda>r. (ts_deviceId r, floorToHour (ts_timestamp r))) ts_downloadBytes ts_uploadBytes
       (filter (\<lambda>r. ts_timestamp r < rc \<and> hc \<le> ts_timestamp r) (hd_samples s)) =
      map (\<lambda>k. (k, hourSum s k)) (hourKeys hc rc s)" for s
  proof -
    have "filter (\<lambda>r. hourOf r = k) (filter (\<lambda>r. ts_timestamp r < rc \<and> hc \<le> ts_timestamp r) (hd_samples s)) =
        filter (\<lambda>r. hourOf r = k) (hd_samples s)" if "k \<in> set (hourKeys hc rc s)" for k
      using hourKeys_window(4) [OF assms that] by (auto intro!: filter_cong)
    then show ?thesis
      unfolding groupSums_total hourOf_def [symmetric] sampleBytes_def [symmetric] hourKeys_def [symmetric]
      by (simp add: hourSum_def)
  qed
  show ?thesis by (simp add: rollHours_def rolledHours_def sums)
qed

lemma rolledHours_facts:
  assumes "floorToHour hc = hc" "floorToHour rc = rc" "consistent hc s"
  obtains new where "hd_rollups (rolledHours hc rc s) = hd_rollups s @ new"
    "map (\<lambda>r. (rollKeyOf r, rollBytes r)) new =
       map (\<lambda>k. ((''hourly'', k), hourSum s k)) (filter (\<lambda>k. \<not> hasRollup s ''hourly'' k) (hourKeys hc rc s))"
    "hd_samples (rolledHours hc rc s) = hd_samples s"
proof -
  have "rollBytes r = hourSum s k" if "r \<in> set (hd_rollups s)" "k \<in> set (hourKeys hc rc s)" "rollupKey ''hourly'' k r" for r k
  proof -
    from that(2) obtain y where y: "y \<in> set (hd_samples s)" "hourOf y = k" by (auto simp: hourKeys_def)
    have g: "ro_granularity r = ''hourly''" using that(3) by (simp add: rollupKey_def)
    have iff: "rollupKey ''hourly'' (hourOf x) r \<longleftrightarrow> hourOf x = k" for x using that(3) by (auto simp: rollupKey_iff)
    from assms(3) that(1) g y have "rollBytes r = total (map sampleBytes (filter (\<lambda>x. rollupKey ''hourly'' (hourOf x) r) (hd_samples s)))"
      unfolding consistent_def using that(3) by blast
    then show ?thesis unfolding iff hourSum_def .
  qed
  moreover have "distinct (hourKeys hc rc s)" by (simp add: hourKeys_def)
  ultimately show thesis
    using fold_upsert [of "hourKeys hc rc s" s "''hourly''" "hourSum s"] that unfolding rolledHours_def by blast
qed

lemma rollHours_ok:
  assumes "floorToHour hc = hc" "floorToHour rc = rc" "floorToDay hc = hc" "consistent hc s" "rolledUp hc s"
  defines "t \<equiv> rolledHours hc rc s"
  shows "consistent hc t" "rolledUp rc t" "dayBytes t = dayBytes s"
proof -
  from rolledHours_facts [OF assms(1,2,4)] obtain new where
    rows: "hd_rollups t = hd_rollups s @ new" and
    new: "map (\<lambda>r. (rollKeyOf r, rollBytes r)) new =
       map (\<lambda>k. ((''hourly'', k), hourSum s k)) (filter (\<lambda>k. \<not> hasRollup s ''hourly'' k) (hourKeys hc rc s))" and
    samples: "hd_samples t = hd_samples s" unfolding t_def by blast
  let ?ks = "filter (\<lambda>k. \<not> hasRollup s ''hourly'' k) (hourKeys hc rc s)"
  have newE: "\<exists>k \<in> set ?ks. rollKeyOf r = (''hourly'', k) \<and> rollBytes r = hourSum s k" if "r \<in> set new" for r
  proof -
    have "(rollKeyOf r, rollBytes r) \<in> set (map (\<lambda>r. (rollKeyOf r, rollBytes r)) new)" using that by simp
    then show ?thesis unfolding new by auto
  qed
  have newI: "\<exists>r \<in> set new. rollKeyOf r = (''hourly'', k)" if "k \<in> set ?ks" for k
  proof -
    have "((''hourly'', k), hourSum s k) \<in> set (map (\<lambda>k. ((''hourly'', k), hourSum s k)) ?ks)" using that by simp
    then show ?thesis unfolding new [symmetric] by auto
  qed
  have has: "hasRollup t g k \<longleftrightarrow> hasRollup s g k \<or> (g = ''hourly'' \<and> k \<in> set ?ks)" for g k
  proof -
    have "(\<exists>r \<in> set new. rollKeyOf r = (g, k)) \<longleftrightarrow> g = ''hourly'' \<and> k \<in> set ?ks"
    proof
      assume "\<exists>r \<in> set new. rollKeyOf r = (g, k)"
      then obtain r where "r \<in> set new" "rollKeyOf r = (g, k)" by blast
      moreover from newE [OF this(1)] obtain k' where "k' \<in> set ?ks" "rollKeyOf r = (''hourly'', k')" by blast
      ultimately show "g = ''hourly'' \<and> k \<in> set ?ks" by simp
    qed (use newI in blast)
    then show ?thesis unfolding hasRollup_def rollupKey_iff rows set_append bex_Un by blast
  qed
  have newRow: "ro_granularity r = ''hourly''" "hc \<le> floorToDay (ro_bucketStart r)"
      "floorToHour (ro_bucketStart r) = ro_bucketStart r" if r: "r \<in> set new" for r
  proof -
    from newE [OF r] obtain k where k: "k \<in> set (hourKeys hc rc s)" "rollKeyOf r = (''hourly'', k)" by auto
    note w = hourKeys_window [OF assms(1,2) k(1)]
    from k(2) have f: "ro_granularity r = ''hourly''" "ro_bucketStart r = snd k" by (auto simp: rollKeyOf_def)
    with w below_day [OF assms(3), of "snd k"] show "ro_granularity r = ''hourly''" "hc \<le> floorToDay (ro_bucketStart r)"
      "floorToHour (ro_bucketStart r) = ro_bucketStart r" by auto
  qed
  have old: "hourRows t k = hourRows s k" if "snd k < hc" for k
  proof -
    have "filter (\<lambda>r. ro_granularity r = ''hourly'' \<and> dayOfHour r = k) new = []"
      using newRow(2) that by (force simp: filter_empty_conv dayOfHour_def)
    then show ?thesis by (simp add: hourRows_def rows)
  qed
  have fresh: "rollBytes r = total (map sampleBytes (filter (\<lambda>x. rollupKey ''hourly'' (hourOf x) r) (hd_samples t)))"
    if "r \<in> set new" for r
  proof -
    from newE [OF that] obtain k where k: "rollKeyOf r = (''hourly'', k)" "rollBytes r = hourSum s k" by blast
    then have "rollupKey ''hourly'' (hourOf x) r \<longleftrightarrow> hourOf x = k" for x by (auto simp: rollupKey_iff)
    then show ?thesis using k(2) by (simp add: hourSum_def samples)
  qed
  have part: "rollBytes r = total (map rollBytes (hourRows t (ro_deviceId r, ro_bucketStart r)))"
    if "r \<in> set (hd_rollups t)" "ro_granularity r = ''daily''" "hourRows t (ro_deviceId r, ro_bucketStart r) \<noteq> []" for r
  proof -
    have r: "r \<in> set (hd_rollups s)" using that(1,2) newRow(1) by (auto simp: rows)
    with assms(4) that(2) have "ro_bucketStart r < hc" by (simp add: consistent_def)
    with old [of "(ro_deviceId r, ro_bucketStart r)"] assms(4) r that(2,3) show ?thesis by (simp add: consistent_def)
  qed
  show "consistent hc t"
    unfolding consistent_def
  proof (intro conjI ballI impI)
    fix r assume r: "r \<in> set (hd_rollups t)"
    { assume g: "ro_granularity r = ''hourly''" and x: "\<exists>x \<in> set (hd_samples t). rollupKey ''hourly'' (hourOf x) r"
      show "rollBytes r = total (map sampleBytes (filter (\<lambda>x. rollupKey ''hourly'' (hourOf x) r) (hd_samples t)))"
        using r fresh assms(4) g x unfolding consistent_def rows samples by auto }
    { assume "ro_granularity r = ''daily''" "hourRows t (ro_deviceId r, ro_bucketStart r) \<noteq> []"
      with part r show "rollBytes r = total (map rollBytes (hourRows t (ro_deviceId r, ro_bucketStart r)))" by blast }
    { assume "ro_granularity r = ''daily''"
      with r newRow(1) assms(4) show "ro_bucketStart r < hc" by (auto simp: rows consistent_def) }
    { assume "ro_granularity r = ''hourly''"
      with r newRow(3) assms(4) show "floorToHour (ro_bucketStart r) = ro_bucketStart r" by (auto simp: rows consistent_def) }
  qed
  show "rolledUp rc t"
    unfolding rolledUp_def samples
  proof (intro ballI impI)
    fix x assume x: "x \<in> set (hd_samples s)" "ts_timestamp x < rc"
    show "hasRollup t ''hourly'' (hourOf x) \<or> hasRollup t ''daily'' (ts_deviceId x, floorToDay (ts_timestamp x))"
    proof (cases "ts_timestamp x < hc")
      case True
      with assms(5) x(1) show ?thesis unfolding rolledUp_def has by blast
    next
      case False
      with x have "hourOf x \<in> set (hourKeys hc rc s)" by (auto simp: hourKeys_def)
      then show ?thesis unfolding has by auto
    qed
  qed
  show "dayBytes t = dayBytes s"
  proof (rule ext)
    fix k
    let ?day = "\<lambda>h. (fst h, floorToDay (snd h)) = k" and ?K = "filter (\<lambda>h. (fst h, floorToDay (snd h)) = k) ?ks"
    let ?Q = "\<lambda>(g, h). g = ''hourly'' \<and> (fst h, floorToDay (snd h)) = k"
    have "find (rollupKey ''daily'' k) new = None"
      using newRow(1) by (fastforce simp: find_None_iff rollupKey_def)
    then have find: "find (rollupKey ''daily'' k) (hd_rollups t) = find (rollupKey ''daily'' k) (hd_rollups s)"
      by (simp add: rows find_append_case split: option.split)
    have n: "filter (\<lambda>r. ro_granularity r = ''hourly'' \<and> dayOfHour r = k) new = filter (\<lambda>r. ?Q (rollKeyOf r)) new"
      by (auto simp: rollKeyOf_def dayOfHour_def)
    have "map rollBytes (filter (\<lambda>r. ?Q (rollKeyOf r)) new) =
        map snd (filter (\<lambda>p. ?Q (fst p)) (map (\<lambda>r. (rollKeyOf r, rollBytes r)) new))"
      by (simp add: filter_map comp_def)
    also have "\<dots> = map (hourSum s) ?K" unfolding new by (simp add: filter_map comp_def)
    finally have rowsOf: "map rollBytes (hourRows t k) = map rollBytes (hourRows s k) @ map (hourSum s) ?K"
      by (simp add: hourRows_def rows n)
    have K: "total (map (hourSum s) ?K) = total (map sampleBytes (filter (\<lambda>x. hourOf x \<in> set ?K) (hd_samples s)))"
      using total_by_key [of ?K sampleBytes hourOf "hd_samples s"] by (simp add: hourSum_def [abs_def] hourKeys_def)
    let ?P = "\<lambda>x. (ts_deviceId x, floorToDay (ts_timestamp x)) = k \<and> \<not> hasRollup s ''hourly'' (hourOf x)"
    have loose: "looseSamples t k = filter (\<lambda>x. ?P x \<and> hourOf x \<notin> set ?ks) (hd_samples s)"
      unfolding looseSamples_def samples by (rule filter_cong) (use has in auto)
    have hit: "filter (\<lambda>x. ?P x \<and> hourOf x \<in> set ?ks) (hd_samples s) = filter (\<lambda>x. hourOf x \<in> set ?K) (hd_samples s)"
      by (rule filter_cong) (auto simp: hourOf_def floor_facts)
    have "total (map sampleBytes (looseSamples s k)) =
        plus2 (total (map sampleBytes (looseSamples t k))) (total (map (hourSum s) ?K))"
      unfolding K hit [symmetric] loose unfolding looseSamples_def by (rule total_split)
    then show "dayBytes t k = dayBytes s k"
      by (simp add: dayBytes_def find rowsOf plus2_def split: option.split)
  qed
qed


definition dayKeys :: "int \<Rightarrow> HistoryDb \<Rightarrow> (int \<times> int) list" where
  "dayKeys hc s = remdups (map dayOfHour (filter (\<lambda>r. ro_granularity r = ''hourly'' \<and> ro_bucketStart r < hc) (hd_rollups s)))"

definition daySum :: "HistoryDb \<Rightarrow> int \<times> int \<Rightarrow> int \<times> int" where
  "daySum s k = total (map rollBytes (hourRows s k))"

definition rolledDays :: "int \<Rightarrow> HistoryDb \<Rightarrow> HistoryDb" where
  "rolledDays hc s = fold (upsertRollup ''daily'') (map (\<lambda>k. (k, daySum s k)) (dayKeys hc s)) s"

lemma dayKeys_before:
  assumes "floorToDay hc = hc" "k \<in> set (dayKeys hc s)"
  shows "snd k < hc" "dayOfHour r = k \<Longrightarrow> ro_bucketStart r < hc"
proof -
  from assms(2) obtain y where "dayOfHour y = k" "ro_bucketStart y < hc" by (auto simp: dayKeys_def)
  with below_day [OF assms(1), of "ro_bucketStart y"] show k: "snd k < hc" by (auto simp: dayOfHour_def)
  from k below_day [OF assms(1), of "ro_bucketStart r"] show "dayOfHour r = k \<Longrightarrow> ro_bucketStart r < hc"
    by (auto simp: dayOfHour_def)
qed

lemma rollDays_step:
  assumes "floorToDay hc = hc"
  shows "rollDays hc = histQuery (\<lambda>s. (Inr (), rolledDays hc s))"
proof -
  have sums: "groupSums (\<lambda>r. (ro_deviceId r, floorToDay (ro_bucketStart r))) ro_downloadBytes ro_uploadBytes
       (filter (\<lambda>r. ro_granularity r = ''hourly'' \<and> ro_bucketStart r < hc) (hd_rollups s)) =
      map (\<lambda>k. (k, daySum s k)) (dayKeys hc s)" for s
  proof -
    have "filter (\<lambda>r. dayOfHour r = k) (filter (\<lambda>r. ro_granularity r = ''hourly'' \<and> ro_bucketStart r < hc) (hd_rollups s)) =
        hourRows s k" if "k \<in> set (dayKeys hc s)" for k
      using dayKeys_before(2) [OF assms that] by (auto simp: hourRows_def intro!: filter_cong)
    then show ?thesis
      unfolding groupSums_total dayOfHour_def [symmetric] rollBytes_def [symmetric] dayKeys_def [symmetric]
      by (simp add: daySum_def)
  qed
  show ?thesis by (simp add: rollDays_def rolledDays_def sums)
qed

lemma hasRollup_find: "hasRollup s g k \<longleftrightarrow> find (rollupKey g k) (hd_rollups s) \<noteq> None"
  by (auto simp: hasRollup_def find_None_iff)

lemma rollDays_ok:
  assumes "floorToDay hc = hc" "hc \<le> rc" "consistent hc s" "rolledUp rc s"
  defines "t \<equiv> rolledDays hc s"
  shows "consistent hc t" "rolledUp rc t" "dayBytes t = dayBytes s"
    "r \<in> set (hd_rollups t) \<Longrightarrow> ro_granularity r = ''hourly'' \<Longrightarrow> ro_bucketStart r < hc \<Longrightarrow> hasRollup t ''daily'' (dayOfHour r)"
proof -
  let ?ks = "filter (\<lambda>k. \<not> hasRollup s ''daily'' k) (dayKeys hc s)"
  have "rollBytes r = daySum s k" if "r \<in> set (hd_rollups s)" "k \<in> set (dayKeys hc s)" "rollupKey ''daily'' k r" for r k
  proof -
    from that(3) have r: "ro_granularity r = ''daily''" "(ro_deviceId r, ro_bucketStart r) = k" by (auto simp: rollupKey_def)
    from that(2) have "hourRows s k \<noteq> []" by (auto simp: dayKeys_def hourRows_def filter_empty_conv)
    with assms(3) that(1) r show ?thesis by (auto simp: consistent_def daySum_def)
  qed
  moreover have "distinct (dayKeys hc s)" by (simp add: dayKeys_def)
  ultimately obtain new where rows: "hd_rollups t = hd_rollups s @ new" and
    new: "map (\<lambda>r. (rollKeyOf r, rollBytes r)) new = map (\<lambda>k. ((''daily'', k), daySum s k)) ?ks" and
    samples: "hd_samples t = hd_samples s"
    using fold_upsert [of "dayKeys hc s" s "''daily''" "daySum s"] unfolding t_def rolledDays_def by blast
  have newE: "\<exists>k \<in> set ?ks. rollKeyOf r = (''daily'', k) \<and> rollBytes r = daySum s k" if "r \<in> set new" for r
  proof -
    have "(rollKeyOf r, rollBytes r) \<in> set (map (\<lambda>r. (rollKeyOf r, rollBytes r)) new)" using that by simp
    then show ?thesis unfolding new by auto
  qed
  have newI: "\<exists>r \<in> set new. rollKeyOf r = (''daily'', k)" if "k \<in> set ?ks" for k
  proof -
    have "((''daily'', k), daySum s k) \<in> set (map (\<lambda>k. ((''daily'', k), daySum s k)) ?ks)" using that by simp
    then show ?thesis unfolding new [symmetric] by auto
  qed
  have newRow: "ro_granularity r = ''daily''" "ro_bucketStart r < hc" if r: "r \<in> set new" for r
    using newE [OF r] dayKeys_before(1) [OF assms(1)] by (auto simp: rollKeyOf_def)
  have hours: "hourRows t = hourRows s"
    using newRow(1) by (force simp: hourRows_def rows filter_empty_conv fun_eq_iff)
  have hourly: "hasRollup t ''hourly'' k = hasRollup s ''hourly'' k" for k
    using newRow(1) by (force simp: hasRollup_def rows rollupKey_def)
  have daily: "hasRollup t ''daily'' k \<longleftrightarrow> hasRollup s ''daily'' k \<or> k \<in> set ?ks" for k
  proof -
    have "(\<exists>r \<in> set new. rollKeyOf r = (''daily'', k)) \<longleftrightarrow> k \<in> set ?ks"
    proof
      assume "\<exists>r \<in> set new. rollKeyOf r = (''daily'', k)"
      then obtain r where "r \<in> set new" "rollKeyOf r = (''daily'', k)" by blast
      moreover from newE [OF this(1)] obtain k' where "k' \<in> set ?ks" "rollKeyOf r = (''daily'', k')" by blast
      ultimately show "k \<in> set ?ks" by simp
    qed (use newI in blast)
    then show ?thesis unfolding hasRollup_def rollupKey_iff rows set_append bex_Un by blast
  qed
  show "rolledUp rc t" using assms(4) unfolding rolledUp_def samples hourly daily by blast
  show "hasRollup t ''daily'' (dayOfHour r)"
    if "r \<in> set (hd_rollups t)" "ro_granularity r = ''hourly''" "ro_bucketStart r < hc"
  proof -
    from that newRow(1) [of r] have "r \<in> set (hd_rollups s)" by (auto simp: rows)
    with that have "dayOfHour r \<in> set (dayKeys hc s)" by (auto simp: dayKeys_def)
    then show ?thesis unfolding daily by auto
  qed
  have fresh: "rollBytes r = total (map rollBytes (hourRows s (ro_deviceId r, ro_bucketStart r)))" if "r \<in> set new" for r
    using newE [OF that] by (auto simp: rollKeyOf_def daySum_def)
  show "consistent hc t"
    unfolding consistent_def hours samples
  proof (intro conjI ballI impI)
    fix r assume r: "r \<in> set (hd_rollups t)"
    { assume g: "ro_granularity r = ''hourly''" and x: "\<exists>x \<in> set (hd_samples s). rollupKey ''hourly'' (hourOf x) r"
      from r g newRow(1) [of r] have "r \<in> set (hd_rollups s)" by (auto simp: rows)
      with assms(3) g x show "rollBytes r = total (map sampleBytes (filter (\<lambda>x. rollupKey ''hourly'' (hourOf x) r) (hd_samples s)))"
        unfolding consistent_def by blast }
    { assume "ro_granularity r = ''daily''" "hourRows s (ro_deviceId r, ro_bucketStart r) \<noteq> []"
      with r fresh assms(3) show "rollBytes r = total (map rollBytes (hourRows s (ro_deviceId r, ro_bucketStart r)))"
        by (auto simp: rows consistent_def) }
    { assume "ro_granularity r = ''daily''"
      with r newRow(2) assms(3) show "ro_bucketStart r < hc" by (auto simp: rows consistent_def) }
    { assume "ro_granularity r = ''hourly''"
      with r newRow(1) assms(3) show "floorToHour (ro_bucketStart r) = ro_bucketStart r" by (force simp: rows consistent_def) }
  qed
  show "dayBytes t = dayBytes s"
  proof (rule ext)
    fix k
    have loose: "looseSamples t k = looseSamples s k" by (simp add: looseSamples_def samples hourly)
    show "dayBytes t k = dayBytes s k"
    proof (cases "hasRollup s ''daily'' k \<or> k \<notin> set ?ks")
      case True
      have "find (rollupKey ''daily'' k) (hd_rollups t) = find (rollupKey ''daily'' k) (hd_rollups s)"
      proof (cases "hasRollup s ''daily'' k")
        case True
        then show ?thesis by (auto simp: rows find_append_case hasRollup_find)
      next
        case False
        with True daily [of k] have "\<not> hasRollup t ''daily'' k" by simp
        with False show ?thesis unfolding hasRollup_find by simp
      qed
      then show ?thesis by (simp add: dayBytes_def hours loose split: option.split)
    next
      case False
      then have none: "find (rollupKey ''daily'' k) (hd_rollups s) = None" and k: "k \<in> set ?ks" by (auto simp: hasRollup_find)
      from daily [of k] k have "hasRollup t ''daily'' k" by simp
      then obtain r where r: "find (rollupKey ''daily'' k) (hd_rollups t) = Some r" by (auto simp: hasRollup_find)
      with none have "find (rollupKey ''daily'' k) new = Some r" by (simp add: rows find_append_case)
      then have "r \<in> set new" "rollupKey ''daily'' k r" by (auto simp: find_Some_iff)
      with fresh have b: "rollBytes r = total (map rollBytes (hourRows s k))" by (auto simp: rollupKey_def)
      have "looseSamples s k = []"
      proof -
        have "hasRollup s ''hourly'' (hourOf x)" if x: "x \<in> set (hd_samples s)" "(ts_deviceId x, floorToDay (ts_timestamp x)) = k" for x
        proof -
          have "snd k < hc" using dayKeys_before(1) [OF assms(1), of k s] k by simp
          with x(2) have "ts_timestamp x < hc" using below_day [OF assms(1), of "ts_timestamp x"] by auto
          with assms(2,4) x False show ?thesis by (auto simp: rolledUp_def)
        qed
        then show ?thesis by (auto simp: looseSamples_def filter_empty_conv)
      qed
      with none r b show ?thesis by (simp add: dayBytes_def)
    qed
  qed
qed


lemma deleteSamples_ok:
  assumes "floorToHour rc = rc" "consistent hc s" "rolledUp rc s"
  defines "t \<equiv> s\<lparr>hd_samples := filter (\<lambda>r. \<not> ts_timestamp r < rc) (hd_samples s)\<rparr>"
  shows "consistent hc t" "dayBytes t = dayBytes s" "\<forall>x \<in> set (hd_samples t). rc \<le> ts_timestamp x"
proof -
  have rows: "hd_rollups t = hd_rollups s" "hourRows t = hourRows s" "hasRollup t = hasRollup s"
    by (simp_all add: t_def hourRows_def hasRollup_def fun_eq_iff)
  have whole: "filter (\<lambda>x. hourOf x = hourOf y) (hd_samples t) = filter (\<lambda>x. hourOf x = hourOf y) (hd_samples s)"
    if "y \<in> set (hd_samples t)" for y
  proof -
    from that have "\<not> ts_timestamp y < rc" by (simp add: t_def)
    then have "\<not> floorToHour (ts_timestamp y) < rc" using below_hour [OF assms(1), of "ts_timestamp y"] by simp
    then have "hourOf x = hourOf y \<Longrightarrow> \<not> ts_timestamp x < rc" for x
      using below_hour [OF assms(1), of "ts_timestamp x"] by (auto simp: hourOf_def)
    then show ?thesis by (auto simp: t_def intro!: filter_cong)
  qed
  show "consistent hc t"
    unfolding consistent_def rows
  proof (intro conjI ballI impI)
    fix r assume r: "r \<in> set (hd_rollups s)"
    { assume g: "ro_granularity r = ''hourly''" and x: "\<exists>x \<in> set (hd_samples t). rollupKey ''hourly'' (hourOf x) r"
      then obtain y where y: "y \<in> set (hd_samples t)" "rollupKey ''hourly'' (hourOf y) r" by blast
      then have "y \<in> set (hd_samples s)" by (simp add: t_def)
      with assms(2) r g y(2)
      have "rollBytes r = total (map sampleBytes (filter (\<lambda>x. rollupKey ''hourly'' (hourOf x) r) (hd_samples s)))"
        unfolding consistent_def by blast
      moreover have "rollupKey ''hourly'' (hourOf x) r \<longleftrightarrow> hourOf x = hourOf y" for x using y(2) by (auto simp: rollupKey_iff)
      ultimately show "rollBytes r = total (map sampleBytes (filter (\<lambda>x. rollupKey ''hourly'' (hourOf x) r) (hd_samples t)))"
        using whole [OF y(1)] by simp }
  qed (use assms(2) in \<open>auto simp: consistent_def\<close>)
  show "dayBytes t = dayBytes s"
  proof (rule ext)
    fix k
    have "looseSamples t k = looseSamples s k" if "\<not> hasRollup s ''daily'' k"
    proof -
      have "hasRollup s ''hourly'' (hourOf x)"
        if "x \<in> set (hd_samples s)" "(ts_deviceId x, floorToDay (ts_timestamp x)) = k" "ts_timestamp x < rc" for x
        using assms(3) that \<open>\<not> hasRollup s ''daily'' k\<close> by (auto simp: rolledUp_def)
      then show ?thesis unfolding looseSamples_def rows by (auto simp: t_def intro!: filter_cong)
    qed
    then show "dayBytes t k = dayBytes s k"
      unfolding hasRollup_find by (auto simp: dayBytes_def rows split: option.split)
  qed
  show "\<forall>x \<in> set (hd_samples t). rc \<le> ts_timestamp x" by (auto simp: t_def)
qed

lemma find_filter: "(\<And>x. P x \<Longrightarrow> Q x) \<Longrightarrow> find P (filter Q xs) = find P xs"
  by (induction xs) auto

lemma deleteHours_ok:
  assumes "floorToDay hc = hc" "floorToHour hc = hc" "hc \<le> rc" "consistent hc s" "\<forall>x \<in> set (hd_samples s). rc \<le> ts_timestamp x"
    and "\<And>r. r \<in> set (hd_rollups s) \<Longrightarrow> ro_granularity r = ''hourly'' \<Longrightarrow> ro_bucketStart r < hc \<Longrightarrow> hasRollup s ''daily'' (dayOfHour r)"
  defines "t \<equiv> s\<lparr>hd_rollups := filter (\<lambda>r. \<not> (ro_granularity r = ''hourly'' \<and> ro_bucketStart r < hc)) (hd_rollups s)\<rparr>"
  shows "consistent hc t" "dayBytes t = dayBytes s"
proof -
  have samples: "hd_samples t = hd_samples s" by (simp add: t_def)
  have find: "find (rollupKey ''daily'' k) (hd_rollups t) = find (rollupKey ''daily'' k) (hd_rollups s)" for k
    by (auto simp: t_def rollupKey_def intro!: find_filter)
  have keep: "hasRollup t ''hourly'' (hourOf x) = hasRollup s ''hourly'' (hourOf x)" if "x \<in> set (hd_samples s)" for x
  proof -
    have "\<not> floorToHour (ts_timestamp x) < hc" using assms(3,5) that below_hour [OF assms(2), of "ts_timestamp x"] by fastforce
    then show ?thesis by (auto simp: hasRollup_def t_def rollupKey_def hourOf_def)
  qed
  have hours: "hourRows t k = hourRows s k" if "\<not> hasRollup s ''daily'' k" for k
    using that assms(6) by (auto simp: hourRows_def t_def intro!: filter_cong)
  show "consistent hc t"
    unfolding consistent_def samples
  proof (intro conjI ballI impI)
    fix r assume "r \<in> set (hd_rollups t)"
    then have r: "r \<in> set (hd_rollups s)" by (simp add: t_def)
    { assume "ro_granularity r = ''hourly''" "\<exists>x \<in> set (hd_samples s). rollupKey ''hourly'' (hourOf x) r"
      with r assms(4) show "rollBytes r = total (map sampleBytes (filter (\<lambda>x. rollupKey ''hourly'' (hourOf x) r) (hd_samples s)))"
        by (simp add: consistent_def) }
    { assume g: "ro_granularity r = ''daily''" and n: "hourRows t (ro_deviceId r, ro_bucketStart r) \<noteq> []"
      from r g assms(4) have "ro_bucketStart r < hc" by (simp add: consistent_def)
      moreover from n obtain h where h: "\<not> ro_bucketStart h < hc" "dayOfHour h = (ro_deviceId r, ro_bucketStart r)"
        by (auto simp: hourRows_def t_def filter_empty_conv)
      then have "\<not> ro_bucketStart r < hc" using below_day [OF assms(1), of "ro_bucketStart h"] by (simp add: dayOfHour_def)
      ultimately show "rollBytes r = total (map rollBytes (hourRows t (ro_deviceId r, ro_bucketStart r)))" by simp }
    { assume "ro_granularity r = ''daily''"
      with r assms(4) show "ro_bucketStart r < hc" by (simp add: consistent_def) }
    { assume "ro_granularity r = ''hourly''"
      with r assms(4) show "floorToHour (ro_bucketStart r) = ro_bucketStart r" by (simp add: consistent_def) }
  qed
  show "dayBytes t = dayBytes s"
  proof (rule ext)
    fix k
    have "looseSamples t k = looseSamples s k"
      unfolding looseSamples_def samples by (rule filter_cong) (use keep in auto)
    with hours [of k] show "dayBytes t k = dayBytes s k"
      unfolding hasRollup_find by (auto simp: dayBytes_def find split: option.split)
  qed
qed


section \<open>The run\<close>

lemma consistent_tick [simp]:
  "consistent hc (s\<lparr>hd_tick := n\<rparr>) = consistent hc s" "dayBytes (s\<lparr>hd_tick := n\<rparr>) = dayBytes s"
  "rolledUp t (s\<lparr>hd_tick := n\<rparr>) = rolledUp t s" "hasRollup (s\<lparr>hd_tick := n\<rparr>) = hasRollup s"
  by (simp_all add: consistent_def dayBytes_def hourRows_def looseSamples_def rolledUp_def hasRollup_def fun_eq_iff split: option.split)

text \<open>A query that does \<open>g\<close> unless the database does not answer.\<close>

lemma histQuery_spec:
  assumes "P s" "\<And>s n. P (s\<lparr>hd_tick := n\<rparr>) = P s" "\<And>s. P s \<Longrightarrow> Q (g s)" "\<And>s. Q s \<Longrightarrow> K s" "\<And>s. P s \<Longrightarrow> K s"
  shows "spec (histQuery (\<lambda>s. (Inr (), g s))) s (\<lambda>r t. K t \<and> (r = Inr () \<longrightarrow> Q t))"
proof -
  have "P (s\<lparr>hd_tick := Suc (hd_tick s)\<rparr>)" using assms(1,2) by simp
  with assms(3-5) show ?thesis by (simp add: spec_def histQuery_def Let_def)
qed

lemma floorToDay_hour: "floorToDay t = t \<Longrightarrow> floorToHour t = t"
  using floor_facts(6) [of t] by simp



text \<open>Sixty days after the epoch: a sample of three days ago and an hourly row of day ten.\<close>

definition demoHistory :: HistoryDb where
  "demoHistory = \<lparr>hd_tick = 0, hd_fault = (\<lambda>n. False), hd_now = 60 * DAY_MS, hd_devices = [1], hd_nextSample = 2,
     hd_samples = [\<lparr>ts_id = 1, ts_deviceId = 1, ts_timestamp = 57 * DAY_MS + 60000, ts_downloadBytes = 5,
       ts_uploadBytes = 7, ts_downloadRate = None, ts_uploadRate = None\<rparr>], hd_nextRollup = 2,
     hd_rollups = [\<lparr>ro_id = 1, ro_deviceId = 1, ro_bucketStart = 10 * DAY_MS, ro_granularity = ''hourly'',
       ro_downloadBytes = 100, ro_uploadBytes = 200\<rparr>]\<rparr>"



text \<open>
  The hypothesis matters: after a longer pause of the service, samples older than the hourly window
  are deleted although nothing was rolled up from them.
\<close>

lemma stale_sample_lost:
  "dayBytes (demoHistory\<lparr>hd_now := 100 * DAY_MS\<rparr>) (1, 57 * DAY_MS) = (5, 7) \<and>
   dayBytes (snd (retention_run (48 * HOUR_MS) (30 * DAY_MS) (demoHistory\<lparr>hd_now := 100 * DAY_MS\<rparr>))) (1, 57 * DAY_MS) = (0, 0)"
  by code_simp

end
