(* ===== verification/Notifications.thy ===== *)
theory Notifications
  imports Entities
begin

text \<open>
  The delivery of notifications: \<open>infrastructure/notifications/NotificationDeliveryWorker.ts\<close>
  over the notification table. The webhook is a script of replies: the time a request takes and
  either the status of the response or the message of the error (a refused connection, the five
  second timeout). Every query may fail.
\<close>

section \<open>The table and the webhook\<close>

record Notification =
  nt_id :: int
  nt_deviceId :: "int option"
  nt_type :: string
  nt_message :: string
  nt_createdAt :: int
  nt_deliveryAttempts :: nat
  nt_nextAttemptAt :: int
  nt_deliveredAt :: "int option"
  nt_lastDeliveryError :: "string option"

text \<open>What a request carries: id, device, type, message and time of creation.\<close>

type_synonym post = "int \<times> int option \<times> string \<times> string \<times> int"

record NotifyWorld =
  nw_tick :: nat
  nw_fault :: "nat \<Rightarrow> bool"
  nw_now :: int
  nw_rows :: "Notification list"
  nw_nextId :: int
  nw_reply :: "nat \<Rightarrow> nat \<times> (string + nat)"
  nw_posts :: "(int \<times> post \<times> (string + nat)) list"
  nw_running :: bool

definition notifyQuery :: "(NotifyWorld \<Rightarrow> (js_error + 'a) \<times> NotifyWorld) \<Rightarrow> (NotifyWorld, 'a) prog" where
  "notifyQuery f = (\<lambda>w. let t = w\<lparr>nw_tick := Suc (nw_tick w)\<rparr>
     in if nw_fault w (nw_tick w) then (Inl (Error ''Can't reach database server''), t) else f t)"

text \<open>\<open>update({ where: { id } })\<close> needs the row.\<close>

definition notificationUpdate :: "int \<Rightarrow> (Notification \<Rightarrow> Notification) \<Rightarrow> (NotifyWorld, unit) prog" where
  "notificationUpdate i f = notifyQuery (\<lambda>w.
     if i \<in> nt_id ` set (nw_rows w)
     then (Inr (), w\<lparr>nw_rows := map (\<lambda>r. if nt_id r = i then f r else r) (nw_rows w)\<rparr>)
     else (Inl (Error ''No record was found for an update''), w))"

definition postOf :: "Notification \<Rightarrow> post" where
  "postOf row = (nt_id row, nt_deviceId row, nt_type row, nt_message row, nt_createdAt row)"

definition fetch :: "Notification \<Rightarrow> (NotifyWorld, nat) prog" where
  "fetch row = (\<lambda>w. case nw_reply w (length (nw_posts w)) of (ms, reply) \<Rightarrow>
     ((case reply of Inl e \<Rightarrow> Inl (Error e) | Inr st \<Rightarrow> Inr st),
      w\<lparr>nw_now := nw_now w + int ms, nw_posts := nw_posts w @ [(nw_now w, postOf row, reply)]\<rparr>))"

section \<open>NotificationDeliveryWorker\<close>

definition responseOk :: "nat \<Rightarrow> bool" where
  "responseOk st \<longleftrightarrow> 200 \<le> st \<and> st \<le> 299"

definition deliveryDelay :: "nat \<Rightarrow> int" where
  "deliveryDelay attempt = min (60 * 60 * 1000) (1000 * 2 ^ min attempt 10)"

definition dueNotifications :: "(NotifyWorld, Notification list) prog" where
  "dueNotifications = bnd (gets nw_now) (\<lambda>now. notifyQuery (\<lambda>w.
     (Inr (take 20 (sort_key nt_id (filter (\<lambda>r. nt_deliveredAt r = None \<and> nt_nextAttemptAt r \<le> now \<and>
        nt_deliveryAttempts r < 8) (nw_rows w)))), w)))"

definition deliverOne :: "Notification \<Rightarrow> (NotifyWorld, unit) prog" where
  "deliverOne row =
     (let attempt = nt_deliveryAttempts row + 1
      in tryCatch
        (bnd (fetch row) (\<lambda>st.
          if \<not> responseOk st then throw (Error (''notification delivery HTTP '' @ showNat st))
          else bnd (gets nw_now) (\<lambda>now. notificationUpdate (nt_id row) (\<lambda>r.
            r\<lparr>nt_deliveryAttempts := attempt, nt_deliveredAt := Some now, nt_lastDeliveryError := None\<rparr>))))
        (\<lambda>error. bnd (gets nw_now) (\<lambda>now. notificationUpdate (nt_id row) (\<lambda>r.
            r\<lparr>nt_deliveryAttempts := attempt, nt_nextAttemptAt := now + deliveryDelay attempt,
              nt_lastDeliveryError := Some (errorMessage error)\<rparr>))))"

definition processNotifications :: "string option \<Rightarrow> (NotifyWorld, unit) prog" where
  "processNotifications webhookUrl = bnd (gets nw_running) (\<lambda>running.
     if running \<or> \<not> truthy webhookUrl then skip
     else thn (modify (\<lambda>w. w\<lparr>nw_running := True\<rparr>))
       (tryFinally (bnd dueNotifications (\<lambda>rows. forEach rows deliverOne))
         (\<lambda>w. w\<lparr>nw_running := False\<rparr>)))"

text \<open>\<open>PrismaNotificationRepository.create\<close>, with the defaults of the columns.\<close>

definition createNotification :: "int option \<Rightarrow> string \<Rightarrow> string \<Rightarrow> (NotifyWorld, unit) prog" where
  "createNotification deviceId ty message = notifyQuery (\<lambda>w. (Inr (),
     w\<lparr>nw_rows := nw_rows w @ [\<lparr>nt_id = nw_nextId w, nt_deviceId = deviceId, nt_type = ty, nt_message = message,
         nt_createdAt = nw_now w, nt_deliveryAttempts = 0, nt_nextAttemptAt = nw_now w, nt_deliveredAt = None,
         nt_lastDeliveryError = None\<rparr>], nw_nextId := nw_nextId w + 1\<rparr>))"

section \<open>One delivery\<close>

text \<open>
  The posts of a notification that were sent, and how far its row has got: a row counts its posts,
  apart from those whose outcome could not be written down.
\<close>

definition postsOf :: "int \<Rightarrow> NotifyWorld \<Rightarrow> nat" where
  "postsOf i w = length (filter (\<lambda>(t, p, reply). fst p = i) (nw_posts w))"

definition isAcknowledgement :: "int \<Rightarrow> int \<times> post \<times> (string + nat) \<Rightarrow> bool" where
  "isAcknowledgement i x \<longleftrightarrow> (case x of (t, p, reply) \<Rightarrow> fst p = i \<and>
     (case reply of Inl e \<Rightarrow> False | Inr st \<Rightarrow> responseOk st))"

definition acknowledged :: "int \<Rightarrow> NotifyWorld \<Rightarrow> bool" where
  "acknowledged i w \<longleftrightarrow> list_ex (isAcknowledgement i) (nw_posts w)"

text \<open>\<open>lost i\<close> is how many posts of \<open>i\<close> the table does not know of; ids from \<open>next\<close> on are unused.\<close>

definition bookkept :: "(int \<Rightarrow> nat) \<Rightarrow> NotifyWorld \<Rightarrow> bool" where
  "bookkept lost w \<longleftrightarrow> distinct (map nt_id (nw_rows w)) \<and>
     (\<forall>r \<in> set (nw_rows w). postsOf (nt_id r) w = nt_deliveryAttempts r + lost (nt_id r) \<and> nt_deliveryAttempts r \<le> 8 \<and>
        (nt_deliveredAt r \<noteq> None \<longrightarrow> acknowledged (nt_id r) w) \<and> nt_id r < nw_nextId w) \<and>
     (\<forall>i \<ge> nw_nextId w. postsOf i w = 0 \<and> lost i = 0)"

lemma posts_fetch: "fetch row w = (r, w1) \<Longrightarrow>
    nw_rows w1 = nw_rows w \<and> nw_nextId w1 = nw_nextId w \<and>
    (\<forall>i. postsOf i w1 = postsOf i w + (if i = nt_id row then 1 else 0)) \<and>
    (\<forall>i. acknowledged i w \<longrightarrow> acknowledged i w1) \<and>
    (\<forall>st. r = Inr st \<longrightarrow> responseOk st \<longrightarrow> acknowledged (nt_id row) w1)"
  by (auto simp: fetch_def postsOf_def acknowledged_def postOf_def isAcknowledgement_def split: prod.splits sum.splits)

lemma same_posts: "nw_posts u = nw_posts w \<Longrightarrow> postsOf i u = postsOf i w \<and> acknowledged i u = acknowledged i w"
  by (simp add: postsOf_def acknowledged_def)

text \<open>What a delivery does to the table and the posts, depending on how it ends.\<close>

definition deliveryEffect :: "Notification \<Rightarrow> NotifyWorld \<Rightarrow> js_error + unit \<Rightarrow> NotifyWorld \<Rightarrow> bool" where
  "deliveryEffect row w r w1 \<longleftrightarrow> nw_nextId w1 = nw_nextId w \<and>
    (\<forall>i. postsOf i w1 = postsOf i w + (if i = nt_id row then 1 else 0)) \<and>
    (\<forall>i. acknowledged i w \<longrightarrow> acknowledged i w1) \<and>
    (if r = Inr () then \<exists>f. nw_rows w1 = map (\<lambda>x. if nt_id x = nt_id row then f x else x) (nw_rows w) \<and>
       (\<forall>x. nt_id (f x) = nt_id x \<and> nt_deliveryAttempts (f x) = nt_deliveryAttempts row + 1 \<and>
          (nt_deliveredAt (f x) = nt_deliveredAt x \<or> acknowledged (nt_id row) w1))
     else nw_rows w1 = nw_rows w)"

lemma update_effect:
  assumes "notificationUpdate (nt_id row) f v = (q, u)" "nw_rows v = nw_rows w" "nw_nextId v = nw_nextId w"
    and "\<forall>i. postsOf i v = postsOf i w + (if i = nt_id row then 1 else 0)" "\<forall>i. acknowledged i w \<longrightarrow> acknowledged i v"
    and "\<forall>x. nt_id (f x) = nt_id x \<and> nt_deliveryAttempts (f x) = nt_deliveryAttempts row + 1 \<and>
      (nt_deliveredAt (f x) = nt_deliveredAt x \<or> acknowledged (nt_id row) v)"
  shows "deliveryEffect row w q u"
proof -
  have U: "nw_posts u = nw_posts v" "nw_nextId u = nw_nextId v" "nw_rows u = (if q = Inr () then map (\<lambda>x. if nt_id x = nt_id row then f x else x) (nw_rows v) else nw_rows v)"
    using assms(1) by (auto simp: notificationUpdate_def notifyQuery_def Let_def split: if_splits)
  note P = same_posts [OF U(1)]
  show ?thesis
    unfolding deliveryEffect_def using assms(2-6) U(2,3) P by (auto intro!: exI [of _ f])
qed

lemma deliverOne_effect:
  assumes "deliverOne row w = (r, w1)"
  shows "deliveryEffect row w r w1"
proof -
  obtain r1 wf where f: "fetch row w = (r1, wf)" by fastforce
  note F = posts_fetch [OF f]
  define failed where "failed = (\<lambda>error. bnd (gets nw_now) (\<lambda>now. notificationUpdate (nt_id row) (\<lambda>r.
      r\<lparr>nt_deliveryAttempts := nt_deliveryAttempts row + 1, nt_nextAttemptAt := now + deliveryDelay (nt_deliveryAttempts row + 1),
        nt_lastDeliveryError := Some (errorMessage error)\<rparr>)))"
  have failed: "deliveryEffect row w q u" if "failed e v = (q, u)" "nw_rows v = nw_rows w" "nw_nextId v = nw_nextId w" "nw_posts v = nw_posts wf" for e v q u
    by (rule update_effect [where v = v]) (use that F same_posts [OF that(4)] in \<open>auto simp: failed_def bnd_def\<close>)
  define good where "good = (\<exists>st. r1 = Inr st \<and> responseOk st)"
  show ?thesis
  proof (cases good)
    case False
    then obtain e where "failed e wf = (r, w1)"
      using assms f unfolding good_def deliverOne_def failed_def [symmetric] Let_def
      by (cases r1) (auto simp: tryCatch_def bnd_def)
    with failed F show ?thesis by blast
  next
    case True
    then have ack: "acknowledged (nt_id row) wf" using F unfolding good_def by blast
    obtain q u where u: "notificationUpdate (nt_id row) (\<lambda>r. r\<lparr>nt_deliveryAttempts := nt_deliveryAttempts row + 1,
        nt_deliveredAt := Some (nw_now wf), nt_lastDeliveryError := None\<rparr>) wf = (q, u)" by fastforce
    have U: "nw_posts u = nw_posts wf \<and> nw_nextId u = nw_nextId wf \<and> (q \<noteq> Inr () \<longrightarrow> nw_rows u = nw_rows wf)"
      using u by (auto simp: notificationUpdate_def notifyQuery_def Let_def split: if_splits)
    show ?thesis
    proof (cases q)
      case (Inl e)
      with True assms f u have "failed e u = (r, w1)"
        unfolding good_def deliverOne_def failed_def [symmetric] Let_def by (auto simp: tryCatch_def bnd_def)
      with failed U F Inl show ?thesis by simp
    next
      case (Inr y)
      with True assms f u have "(r, w1) = (q, u)"
        unfolding good_def deliverOne_def Let_def by (auto simp: tryCatch_def bnd_def)
      moreover have "deliveryEffect row w q u"
        by (rule update_effect [OF u]) (use F ack in auto)
      ultimately show ?thesis by simp
    qed
  qed
qed

section \<open>A run of the worker\<close>

lemma delivery_bookkept:
  assumes "bookkept lost w" "row \<in> set (nw_rows w)" "nt_deliveryAttempts row < 8" "deliveryEffect row w r u"
  shows "bookkept (if r = Inr () then lost else lost(nt_id row := Suc (lost (nt_id row)))) u \<and>
    (r = Inr () \<longrightarrow> (\<forall>y \<in> set (nw_rows w). nt_id y \<noteq> nt_id row \<longrightarrow> y \<in> set (nw_rows u)))"
proof (cases "r = Inr ()")
  case True
  with assms(4) obtain f where f: "nw_rows u = map (\<lambda>x. if nt_id x = nt_id row then f x else x) (nw_rows w)"
    "\<forall>x. nt_id (f x) = nt_id x \<and> nt_deliveryAttempts (f x) = nt_deliveryAttempts row + 1 \<and>
      (nt_deliveredAt (f x) = nt_deliveredAt x \<or> acknowledged (nt_id row) u)"
    by (auto simp: deliveryEffect_def)
  have ids: "map nt_id (nw_rows u) = map nt_id (nw_rows w)" using f by (auto simp: comp_def)
  have only: "x = row" if "x \<in> set (nw_rows w)" "nt_id x = nt_id row" for x
    using assms(1,2) that by (auto simp: bookkept_def distinct_map dest: inj_onD)
  have eff: "nw_nextId u = nw_nextId w" "\<And>i. postsOf i u = postsOf i w + (if i = nt_id row then 1 else 0)"
    "\<And>i. acknowledged i w \<Longrightarrow> acknowledged i u"
    using assms(4) by (auto simp: deliveryEffect_def)
  have row: "nt_deliveredAt (f row) \<noteq> None \<longrightarrow> acknowledged (nt_id row) u" "postsOf (nt_id row) u = Suc (nt_deliveryAttempts row) + lost (nt_id row)"
    "nt_id row < nw_nextId w"
    using f(2) assms(1,2) eff(2,3) unfolding bookkept_def by force+
  have each: "postsOf (nt_id y) u = nt_deliveryAttempts y + lost (nt_id y) \<and> nt_deliveryAttempts y \<le> 8 \<and>
      (nt_deliveredAt y \<noteq> None \<longrightarrow> acknowledged (nt_id y) u) \<and> nt_id y < nw_nextId u" if y: "y \<in> set (nw_rows u)" for y
  proof -
    obtain x where x: "x \<in> set (nw_rows w)" "y = (if nt_id x = nt_id row then f x else x)" using y f(1) by auto
    show ?thesis
    proof (cases "nt_id x = nt_id row")
      case True
      with only [OF x(1)] x(2) have "y = f row" by simp
      with f(2) row assms(3) eff(1) show ?thesis by simp
    next
      case False
      with x assms(1) eff show ?thesis by (simp add: bookkept_def)
    qed
  qed
  have "\<forall>i \<ge> nw_nextId u. postsOf i u = 0 \<and> lost i = 0"
    using assms(1) eff(1,2) row(3) by (auto simp: bookkept_def)
  moreover have "distinct (map nt_id (nw_rows u))" using assms(1) unfolding ids by (simp add: bookkept_def)
  ultimately have "bookkept lost u" using each unfolding bookkept_def by blast
  moreover have "\<forall>y \<in> set (nw_rows w). nt_id y \<noteq> nt_id row \<longrightarrow> y \<in> set (nw_rows u)" using f(1) by auto
  ultimately show ?thesis using True by simp
next
  case False
  with assms show ?thesis by (auto simp: bookkept_def deliveryEffect_def)
qed

lemma deliveries_bookkept:
  assumes "forEach rows deliverOne w = (r, u)" "bookkept lost w" "distinct (map nt_id rows)"
    and "\<forall>x \<in> set rows. x \<in> set (nw_rows w) \<and> nt_deliveryAttempts x < 8"
  shows "\<exists>lost'. bookkept lost' u \<and> (\<forall>i. lost' i \<le> lost i + (if r = Inr () then 0 else 1))"
  using assms
proof (induction rows arbitrary: w lost)
  case (Cons x rows)
  obtain r1 v where one: "deliverOne x w = (r1, v)" by fastforce
  have x: "x \<in> set (nw_rows w)" "nt_deliveryAttempts x < 8" using Cons.prems(4) by simp_all
  note B = delivery_bookkept [OF Cons.prems(2) x deliverOne_effect [OF one]]
  show ?case
  proof (cases "r1 = Inr ()")
    case True
    with one Cons.prems(1) have "forEach rows deliverOne v = (r, u)" by (simp add: thn_Inr)
    moreover have "\<forall>y \<in> set rows. y \<in> set (nw_rows v) \<and> nt_deliveryAttempts y < 8"
      using Cons.prems(3,4) B True by (auto simp: image_iff)
    ultimately show ?thesis using Cons.IH [of v lost] B True Cons.prems(3) by simp
  next
    case False
    then obtain e where "r1 = Inl e" by (cases r1) auto
    with one Cons.prems(1) have "r = Inl e" "u = v" by (simp_all add: thn_Inl)
    with B False show ?thesis by (intro exI [of _ "lost(nt_id x := Suc (lost (nt_id x)))"]) (simp add: fun_upd_def)
  qed
qed auto

lemma due_facts:
  assumes "dueNotifications w = (Inr rows, u)"
  shows "u = w\<lparr>nw_tick := Suc (nw_tick w)\<rparr>" "set rows \<subseteq> set (nw_rows w)" "\<forall>x \<in> set rows. nt_deliveryAttempts x < 8"
    and "distinct (map nt_id (nw_rows w)) \<Longrightarrow> distinct (map nt_id rows)"
proof -
  let ?due = "filter (\<lambda>r. nt_deliveredAt r = None \<and> nt_nextAttemptAt r \<le> nw_now w \<and> nt_deliveryAttempts r < 8) (nw_rows w)"
  from assms have e: "u = w\<lparr>nw_tick := Suc (nw_tick w)\<rparr>" "rows = take 20 (sort_key nt_id ?due)"
    by (auto simp: dueNotifications_def notifyQuery_def Let_def bnd_def split: if_splits)
  have "set rows \<subseteq> set ?due" unfolding e using set_take_subset [of 20 "sort_key nt_id ?due"] by simp
  then show "u = w\<lparr>nw_tick := Suc (nw_tick w)\<rparr>" "set rows \<subseteq> set (nw_rows w)" "\<forall>x \<in> set rows. nt_deliveryAttempts x < 8"
    using e by auto
  assume "distinct (map nt_id (nw_rows w))"
  then have "distinct (map nt_id ?due)" by (simp add: distinct_map_filter)
  then have "distinct (map nt_id (sort_key nt_id ?due))" by (simp add: distinct_map)
  then show "distinct (map nt_id rows)" unfolding e take_map [symmetric] by (rule distinct_take)
qed

lemma bookkept_fields [simp]:
  "bookkept lost (w\<lparr>nw_running := b\<rparr>) = bookkept lost w" "bookkept lost (w\<lparr>nw_tick := n\<rparr>) = bookkept lost w"
  "bookkept lost (w\<lparr>nw_now := t\<rparr>) = bookkept lost w"
  by (simp_all add: bookkept_def postsOf_def acknowledged_def)

lemma process_bookkept:
  assumes "processNotifications url w = (r, u)" "bookkept lost w"
  shows "\<exists>lost'. bookkept lost' u \<and> (\<forall>i. lost' i \<le> lost i + (if r = Inr () then 0 else 1))"
proof (cases "nw_running w \<or> \<not> truthy url")
  case True
  with assms have "r = Inr ()" "u = w" by (auto simp: processNotifications_def bnd_def)
  with assms show ?thesis by auto
next
  case False
  let ?w = "w\<lparr>nw_running := True\<rparr>"
  obtain q v where body: "bnd dueNotifications (\<lambda>rows. forEach rows deliverOne) ?w = (q, v)" by fastforce
  with assms(1) False have r: "r = q" "u = v\<lparr>nw_running := False\<rparr>"
    by (auto simp: processNotifications_def bnd_def thn_def tryFinally_def)
  obtain d w1 where due: "dueNotifications ?w = (d, w1)" by fastforce
  show ?thesis
  proof (cases d)
    case (Inl e)
    with due body have "v = ?w\<lparr>nw_tick := Suc (nw_tick w)\<rparr>"
      by (auto simp: dueNotifications_def notifyQuery_def bnd_def Let_def split: if_splits)
    with r assms(2) show ?thesis by auto
  next
    case (Inr rows)
    note D = due_facts [OF due [unfolded Inr]]
    have "forEach rows deliverOne w1 = (q, v)" using body due Inr by (simp add: bnd_def)
    moreover have "bookkept lost w1" using assms(2) D(1) by simp
    moreover have "distinct (map nt_id rows)" using D(4) assms(2) by (simp add: bookkept_def)
    ultimately obtain lost' where "bookkept lost' v" "\<forall>i. lost' i \<le> lost i + (if q = Inr () then 0 else 1)"
      using deliveries_bookkept [of rows w1 q v lost] D(1-3) by auto
    with r show ?thesis by auto
  qed
qed

text \<open>The life of the table: notifications arrive and the timer fires; the count is of the ticks that rejected.\<close>

datatype NotifyEvent = Created "int option" string string | Fired int

fun notifyEvent :: "string option \<Rightarrow> NotifyEvent \<Rightarrow> nat \<times> NotifyWorld \<Rightarrow> nat \<times> NotifyWorld" where
  "notifyEvent url (Created d ty msg) (rejected, w) = (rejected, snd (createNotification d ty msg w))"
| "notifyEvent url (Fired now) (rejected, w) =
     (case processNotifications url (w\<lparr>nw_now := now\<rparr>) of
        (Inr _, u) \<Rightarrow> (rejected, u) | (Inl _, u) \<Rightarrow> (Suc rejected, u))"

lemma create_bookkept:
  assumes "bookkept lost w"
  shows "bookkept lost (snd (createNotification d ty msg w))"
proof -
  have posts: "nw_posts (snd (createNotification d ty msg w)) = nw_posts w"
    by (simp add: createNotification_def notifyQuery_def Let_def)
  have *: "postsOf i (snd (createNotification d ty msg w)) = postsOf i w \<and>
      acknowledged i (snd (createNotification d ty msg w)) = acknowledged i w" for i
    by (rule same_posts [OF posts])
  show ?thesis
    using assms unfolding bookkept_def *[THEN conjunct1] *[THEN conjunct2]
    by (auto simp: createNotification_def notifyQuery_def Let_def)
qed

lemma event_bookkept:
  assumes "bookkept lost w" "\<forall>i. lost i \<le> k" "notifyEvent url e (k, w) = (k', w')"
  shows "\<exists>lost'. bookkept lost' w' \<and> (\<forall>i. lost' i \<le> k')"
proof (cases e)
  case (Created d ty msg)
  with assms create_bookkept [OF assms(1), of d ty msg] show ?thesis by auto
next
  case (Fired now)
  obtain r u where run: "processNotifications url (w\<lparr>nw_now := now\<rparr>) = (r, u)" by fastforce
  obtain lost' where l: "bookkept lost' u" "\<forall>i. lost' i \<le> lost i + (if r = Inr () then 0 else 1)"
    using process_bookkept [OF run, of lost] assms(1) by auto
  have "k' = (if r = Inr () then k else Suc k)" "w' = u" using assms(3) Fired run by (auto split: sum.splits)
  moreover have "lost' i \<le> k'" for i using l(2) [rule_format, of i] assms(2) [rule_format, of i] calculation(1) by (auto split: if_splits)
  ultimately show ?thesis using l(1) by blast
qed


text \<open>A webhook that refuses once and then accepts; one notification.\<close>

definition demoNotify :: NotifyWorld where
  "demoNotify = \<lparr>nw_tick = 0, nw_fault = (\<lambda>n. False), nw_now = 0, nw_rows = [], nw_nextId = 1,
     nw_reply = (\<lambda>n. if n = 0 then (5000, Inl ''timeout'') else (20, Inr 204)), nw_posts = [], nw_running = False\<rparr>"

definition demoNotifyRun :: "nat \<times> NotifyWorld" where
  "demoNotifyRun = fold (notifyEvent (Some ''http://hook'')) [Created None ''quota'' ''50%'', Fired 1000, Fired 6000, Fired 11000] (0, demoNotify)"


text \<open>The wait after attempt \<open>n\<close>: two seconds doubled each time; the limit of an hour is never reached.\<close>

lemma deliveryDelay_exact:
  assumes "n \<le> 8"
  shows "deliveryDelay n = 1000 * 2 ^ n \<and> deliveryDelay n \<le> 256000"
proof -
  have "(2 :: int) ^ n \<le> 2 ^ 8" using assms by (intro power_increasing) simp_all
  with assms show ?thesis by (simp add: deliveryDelay_def)
qed

end
