(* ===== verification/Presence.thy ===== *)
theory Presence
  imports Discovery
begin

text \<open>
  Who is online: \<open>application/monitoring/Reachability.ts\<close>, the hysteresis of
  \<open>PresenceResolver.ts\<close> and the polling loop of \<open>LiveMonitoringService.ts\<close>. A
  \<open>Reachability\<close> is a \<open>bool option\<close> (\<open>None\<close> is null); the resolver's map is an association
  list by MAC, and \<open>Date.now()\<close> is an argument.
\<close>

section \<open>The resolver\<close>

definition ONLINE_STATES :: "string list" where
  "ONLINE_STATES = [''REACHABLE'', ''DELAY'']"

definition OFFLINE_STATES :: "string list" where
  "OFFLINE_STATES = [''FAILED'', ''INCOMPLETE'']"

definition getNeighborState :: "string option \<Rightarrow> bool option" where
  "getNeighborState state =
     (if \<not> truthy state then None
      else let normalized = toUpperCase (the state)
           in if normalized \<in> set ONLINE_STATES then Some True
              else if normalized \<in> set OFFLINE_STATES then Some False else None)"

definition OFFLINE_GRACE_PERIOD_MS :: int where
  "OFFLINE_GRACE_PERIOD_MS = 15000"

definition FAILED_CONFIRMATION_MS :: int where
  "FAILED_CONFIRMATION_MS = 10000"

record PresenceState =
  ps_lastOnlineEvidenceAt :: int
  ps_confirmedOnline :: bool
  ps_offlineCandidateSince :: "int option"

definition newPresence :: PresenceState where
  "newPresence = \<lparr>ps_lastOnlineEvidenceAt = 0, ps_confirmedOnline = False, ps_offlineCandidateSince = None\<rparr>"

text \<open>The two identical branches: the neighbour failed, or has no entry, for a while.\<close>

definition offlineCandidate :: "int \<Rightarrow> int \<Rightarrow> PresenceState \<Rightarrow> bool option \<times> PresenceState" where
  "offlineCandidate limit now presence0 =
     (let presence = (if ps_offlineCandidateSince presence0 = None
            then presence0\<lparr>ps_offlineCandidateSince := Some now\<rparr> else presence0);
          offlineElapsed = now - the (ps_offlineCandidateSince presence)
      in if limit \<le> offlineElapsed then (Some False, presence\<lparr>ps_confirmedOnline := False\<rparr>)
         else (Some (ps_confirmedOnline presence), presence))"

definition PresenceResolver_resolve :: "int \<Rightarrow> string \<Rightarrow> string option \<Rightarrow> bool \<Rightarrow> (string option \<Rightarrow> bool option) \<Rightarrow>
    (string \<times> PresenceState) list \<Rightarrow> bool option \<times> (string \<times> PresenceState) list" where
  "PresenceResolver_resolve now mac neighborState hasNeighborEntry neighborStateOf states =
     (let presence = (case map_of states mac of None \<Rightarrow> newPresence | Some p \<Rightarrow> p);
          (answer, updated) = (case neighborStateOf neighborState of
             Some True \<Rightarrow> (Some True, presence\<lparr>ps_lastOnlineEvidenceAt := now,
               ps_confirmedOnline := True, ps_offlineCandidateSince := None\<rparr>)
           | Some False \<Rightarrow> offlineCandidate FAILED_CONFIRMATION_MS now presence
           | None \<Rightarrow> if \<not> hasNeighborEntry then offlineCandidate OFFLINE_GRACE_PERIOD_MS now presence
                     else (Some (ps_confirmedOnline presence), presence))
      in (answer, AList.update mac updated states))"

section \<open>The live devices\<close>

record LiveDevice =
  ld_ip :: string
  ld_mac :: string
  ld_hostname :: "string option"
  ld_state :: string
  ld_online :: "bool option"
  ld_blocked :: bool
  ld_identityValidated :: bool
  ld_identitySource :: IdentitySource
  ld_l2Visible :: bool
  ld_proxyMac :: "string option"

text \<open>The state of the service; \<open>lm_sent\<close> records the calls of the listeners.\<close>

record LiveMonitor =
  lm_presence :: "(string \<times> PresenceState) list"
  lm_devices :: "(string \<times> LiveDevice) list"
  lm_running :: bool
  lm_listeners :: "nat list"
  lm_sent :: "(nat \<times> LiveDevice list) list"

record 's LiveDeps =
  lv_readNeighbors :: "('s, NeighborEntry list) prog"
  lv_discover :: "('s, ValidatedDeviceIdentity list) prog"
  lv_getBlockedMacs :: "('s, string list) prog"
  lv_activeBindings :: "('s, (int \<times> string) list) prog option"
  lv_findAllDevices :: "('s, Device list) prog"

definition subscribe :: "nat \<Rightarrow> LiveMonitor \<Rightarrow> LiveMonitor" where
  "subscribe listener m = m\<lparr>lm_listeners := setAdd listener (lm_listeners m)\<rparr>"

definition unsubscribe :: "nat \<Rightarrow> LiveMonitor \<Rightarrow> LiveMonitor" where
  "unsubscribe listener m = m\<lparr>lm_listeners := remove1 listener (lm_listeners m)\<rparr>"

definition getLiveDevices :: "LiveMonitor \<Rightarrow> LiveDevice list" where
  "getLiveDevices m = map snd (lm_devices m)"

definition sameLiveDevice :: "LiveDevice \<Rightarrow> LiveDevice \<Rightarrow> bool" where
  "sameLiveDevice p n \<longleftrightarrow> ld_ip p = ld_ip n \<and> ld_hostname p = ld_hostname n \<and> ld_online p = ld_online n \<and>
     ld_blocked p = ld_blocked n \<and> ld_identityValidated p = ld_identityValidated n \<and>
     ld_identitySource p = ld_identitySource n \<and> ld_l2Visible p = ld_l2Visible n \<and> ld_proxyMac p = ld_proxyMac n"

definition haveLiveDevicesChanged :: "(string \<times> LiveDevice) list \<Rightarrow> (string \<times> LiveDevice) list \<Rightarrow> bool" where
  "haveLiveDevicesChanged previous nxt \<longleftrightarrow> length previous \<noteq> length nxt \<or>
     list_ex (\<lambda>(mac, n). case map_of previous mac of None \<Rightarrow> True | Some p \<Rightarrow> \<not> sameLiveDevice p n) nxt"

text \<open>What one discovered device contributes to the map of live devices.\<close>

definition collectOne :: "int \<Rightarrow> string list \<Rightarrow> string list \<Rightarrow> string list \<Rightarrow> (string \<times> Device) list \<Rightarrow>
    (string \<times> NeighborEntry) list \<Rightarrow> ValidatedDeviceIdentity \<Rightarrow>
    (string \<times> LiveDevice) list \<times> (string \<times> PresenceState) list \<Rightarrow>
    (string \<times> LiveDevice) list \<times> (string \<times> PresenceState) list" where
  "collectOne now proxies blockedMacs blockedIps knownByMac neighborByIp discovered = (\<lambda>(live, states).
     let mac = toLowerCase (v_mac discovered)
     in if mac \<in> set proxies then (live, states)
        else let reconciled = reconcileIdentityObservation (map_of knownByMac mac) discovered;
                 neighbor = map_of neighborByIp (v_ip reconciled);
                 (online, states') = PresenceResolver_resolve now mac (map_option n_state neighbor) (neighbor \<noteq> None)
                    getNeighborState states
             in (AList.update mac \<lparr>ld_ip = v_ip reconciled, ld_mac = mac, ld_hostname = v_hostname reconciled,
                   ld_state = (case neighbor of Some n \<Rightarrow> n_state n
                     | None \<Rightarrow> if v_deferred discovered = Some True then ''DEFERRED'' else ''UNKNOWN''),
                   ld_online = online, ld_blocked = (mac \<in> set blockedMacs \<or> v_ip reconciled \<in> set blockedIps),
                   ld_identityValidated = v_identityValidated reconciled,
                   ld_identitySource = v_identitySource reconciled, ld_l2Visible = v_l2Visible reconciled,
                   ld_proxyMac = v_proxyMac reconciled\<rparr> live, states'))"

definition liveEnv :: "('s, 'a) prog \<Rightarrow> ('s \<times> LiveMonitor, 'a) prog" where
  "liveEnv p = (\<lambda>(s, m). case p s of (r, t) \<Rightarrow> (r, t, m))"

definition liveModify :: "(LiveMonitor \<Rightarrow> LiveMonitor) \<Rightarrow> ('s \<times> LiveMonitor, unit) prog" where
  "liveModify f = modify (\<lambda>(s, m). (s, f m))"

definition collectLiveDevices :: "'s LiveDeps \<Rightarrow> int \<Rightarrow> ('s \<times> LiveMonitor, (string \<times> LiveDevice) list) prog" where
  "collectLiveDevices deps now =
     bnd (liveEnv (lv_readNeighbors deps)) (\<lambda>neighbors.
     bnd (liveEnv (lv_discover deps)) (\<lambda>discoveredDevices.
     bnd (liveEnv (lv_getBlockedMacs deps)) (\<lambda>blockedMacs.
     bnd (liveEnv (case lv_activeBindings deps of None \<Rightarrow> ret [] | Some p \<Rightarrow> p)) (\<lambda>activeBindings.
     bnd (liveEnv (lv_findAllDevices deps)) (\<lambda>knownDevices.
       let knownByMac = mapOfList (map (\<lambda>d. (toLowerCase (d_mac d), d)) knownDevices);
           neighborByIp = mapOfList (map (\<lambda>n. (n_ip n, n)) neighbors)
       in bnd (gets (\<lambda>(s, m). fold (collectOne now (knownProxyMacs knownDevices) blockedMacs (map snd activeBindings)
                 knownByMac neighborByIp) discoveredDevices ([], lm_presence m))) (\<lambda>(live, states).
          thn (liveModify (\<lambda>m. m\<lparr>lm_presence := states\<rparr>)) (ret live)))))))"

text \<open>One tick of the timer. A listener that throws is only logged.\<close>

definition monitor :: "'s LiveDeps \<Rightarrow> int \<Rightarrow> ('s \<times> LiveMonitor, unit) prog" where
  "monitor deps now = bnd (gets (lm_running \<circ> snd)) (\<lambda>running.
     if running then skip
     else thn (liveModify (\<lambda>m. m\<lparr>lm_running := True\<rparr>))
       (tryFinally (tryCatch
         (bnd (collectLiveDevices deps now) (\<lambda>nextLiveDevices.
          bnd (gets (\<lambda>(s, m). haveLiveDevicesChanged (lm_devices m) nextLiveDevices)) (\<lambda>changed.
          thn (liveModify (\<lambda>m. m\<lparr>lm_devices := nextLiveDevices\<rparr>))
            (whenP changed (liveModify (\<lambda>m. m\<lparr>lm_sent := lm_sent m @ map (\<lambda>l. (l, getLiveDevices m)) (lm_listeners m)\<rparr>))))))
         (\<lambda>_. skip))
       (\<lambda>(s, m). (s, m\<lparr>lm_running := False\<rparr>))))"

section \<open>Hysteresis\<close>

text \<open>What the resolver is asked: time, MAC, state of the entry, whether there is an entry.\<close>

type_synonym sighting = "int \<times> string \<times> string option \<times> bool"

fun askResolver :: "sighting \<Rightarrow> (string \<times> PresenceState) list \<Rightarrow> bool option \<times> (string \<times> PresenceState) list" where
  "askResolver (now, mac, st, entry) states = PresenceResolver_resolve now mac st entry getNeighborState states"

definition afterSightings :: "sighting list \<Rightarrow> (string \<times> PresenceState) list \<Rightarrow> (string \<times> PresenceState) list" where
  "afterSightings = fold (\<lambda>o' states. snd (askResolver o' states))"

text \<open>Evidence about a device that it is there, and that it is not.\<close>

fun onlineEvidence :: "string \<Rightarrow> sighting \<Rightarrow> bool" where
  "onlineEvidence mac (now, m, st, entry) \<longleftrightarrow> m = mac \<and> getNeighborState st = Some True"

fun offlineEvidence :: "string \<Rightarrow> sighting \<Rightarrow> bool" where
  "offlineEvidence mac (now, m, st, entry) \<longleftrightarrow> m = mac \<and>
     (getNeighborState st = Some False \<or> getNeighborState st = None \<and> \<not> entry)"

definition firstTime :: "(sighting \<Rightarrow> bool) \<Rightarrow> sighting list \<Rightarrow> int option" where
  "firstTime P obs = map_option fst (find P obs)"

lemma firstTime_snoc: "firstTime P (obs @ [x]) =
    (case firstTime P obs of None \<Rightarrow> if P x then Some (fst x) else None | Some t \<Rightarrow> Some t)"
  by (induction obs) (auto simp: firstTime_def)

lemma firstTime_in: "firstTime P obs = Some t \<Longrightarrow> \<exists>x \<in> set obs. P x \<and> fst x = t"
  unfolding firstTime_def by (metis (mono_tags, lifting) find_Some_iff map_option_eq_Some nth_mem)

lemma firstTime_first:
  assumes "sorted (map fst obs)" "x \<in> set obs" "P x"
  shows "\<exists>t. firstTime P obs = Some t \<and> t \<le> fst x"
  using assms by (induction obs) (auto simp: firstTime_def)

lemma map_of_update: "map_of (AList.update k v xs) = (map_of xs)(k \<mapsto> v)"
  by (rule update_conv')

text \<open>
  The entry of a device since its latest online evidence: the candidate time is that of the first
  offline evidence, and a device that is not confirmed any more has waited ten seconds from it.
\<close>

definition waited :: "sighting list \<Rightarrow> int \<Rightarrow> bool" where
  "waited obs c \<longleftrightarrow> (\<exists>x \<in> set obs. c + FAILED_CONFIRMATION_MS \<le> fst x)"

lemma waited_snoc: "waited (obs @ [x]) c \<longleftrightarrow> waited obs c \<or> c + FAILED_CONFIRMATION_MS \<le> fst x"
  by (auto simp: waited_def)

definition sinceOnline :: "string \<Rightarrow> sighting list \<Rightarrow> (string \<times> PresenceState) list \<Rightarrow> bool" where
  "sinceOnline mac obs states \<longleftrightarrow> (\<exists>p. map_of states mac = Some p \<and>
     ps_offlineCandidateSince p = firstTime (offlineEvidence mac) obs \<and>
     (ps_confirmedOnline p \<or> (\<exists>c. ps_offlineCandidateSince p = Some c \<and> waited obs c)))"

lemma online_starts:
  "onlineEvidence mac x \<Longrightarrow> sinceOnline mac [] (snd (askResolver x states))"
  by (cases x) (auto simp: sinceOnline_def PresenceResolver_resolve_def Let_def map_of_update firstTime_def)

lemma sighting_step:
  assumes "sinceOnline mac obs states" "\<not> onlineEvidence mac x"
  shows "sinceOnline mac (obs @ [x]) (snd (askResolver x states))"
proof -
  obtain now m st entry where x: "x = (now, m, st, entry)" by (cases x)
  from assms(1) obtain p where p: "map_of states mac = Some p"
    "ps_offlineCandidateSince p = firstTime (offlineEvidence mac) obs"
    "ps_confirmedOnline p \<or> (\<exists>c. ps_offlineCandidateSince p = Some c \<and> waited obs c)"
    unfolding sinceOnline_def by blast
  show ?thesis
  proof (cases "m = mac")
    case False
    with p show ?thesis
      by (auto simp: x sinceOnline_def PresenceResolver_resolve_def Let_def map_of_update firstTime_snoc waited_snoc split: option.split prod.split)
  next
    case True
    show ?thesis
    proof (cases "offlineEvidence mac x")
      case False
      with True assms(2) have "getNeighborState st = None" "entry" by (auto simp: x) (metis (full_types) option.exhaust)+
      with True p False show ?thesis
        by (auto simp: x sinceOnline_def PresenceResolver_resolve_def map_of_update firstTime_snoc waited_snoc split: option.split)
    next
      case off: True
      define limit where "limit = (if getNeighborState st = None then OFFLINE_GRACE_PERIOD_MS else FAILED_CONFIRMATION_MS)"
      have "snd (askResolver x states) = AList.update mac (snd (offlineCandidate limit now p)) states"
        using off True p(1) by (auto simp: x limit_def PresenceResolver_resolve_def Let_def split: prod.split)
      moreover have "FAILED_CONFIRMATION_MS \<le> limit"
        by (simp add: limit_def FAILED_CONFIRMATION_MS_def OFFLINE_GRACE_PERIOD_MS_def)
      ultimately show ?thesis using p off
        by (cases "ps_offlineCandidateSince p")
          (fastforce simp: x sinceOnline_def map_of_update firstTime_snoc waited_snoc offlineCandidate_def Let_def)+
    qed
  qed
qed

lemma sightings_run:
  assumes "\<forall>x \<in> set obs. \<not> onlineEvidence mac x" "sinceOnline mac [] states"
  shows "sinceOnline mac obs (afterSightings obs states)"
  using assms
proof (induction obs rule: rev_induct)
  case (snoc x obs)
  then have "sinceOnline mac obs (afterSightings obs states)" by simp
  from sighting_step [OF this] snoc.prems(1) show ?case by (simp add: afterSightings_def)
qed (simp add: afterSightings_def)



section \<open>The polling loop\<close>

text \<open>
  A tick never throws and lowers the flag, also when one of the five sources throws; an
  unchanged picture is not sent.
\<close>

lemma monitor_recovers:
  assumes "monitor deps now (s, m) = (r, t, m')" "\<not> lm_running m"
  shows "r = Inr () \<and> \<not> lm_running m'"
  using assms
  by (auto simp: monitor_def liveModify_def prog_defs comp_def split: prod.splits sum.splits)

end
