(* ===== verification/Vpn.thy ===== *)
theory Vpn
  imports Executor Tc
begin

text \<open>
  The VPN: \<open>infrastructure/enforcement/SingleInterfaceVpnController.ts\<close> (service, NAT and the
  kill switch), \<open>PrismaVpnRepository.ts\<close> and \<open>application/vpn/VpnService.ts\<close>. The clock is the one
  of the world; the timer of the readiness loop moves it.
\<close>

section \<open>SingleInterfaceVpnController\<close>

record 'k VpnEnv =
  ve_execute :: "'k world Exec"
  ve_setGuard :: "bool \<Rightarrow> ('k world, unit) prog"
  ve_tunnelInterface :: string
  ve_uplinkInterface :: string
  ve_clientSubnet :: string

definition vpn_safe :: "'k VpnEnv \<Rightarrow> string \<Rightarrow> string list \<Rightarrow> ('k world, bool) prog" where
  "vpn_safe env command args = tryCatch (bnd (ve_execute env command args) (\<lambda>_. ret True)) (\<lambda>_. ret False)"

text \<open>\<open>Array.isArray(links) && links.some((link) => link?.ifname === tunnel)\<close>\<close>

definition listsInterface :: "string \<Rightarrow> json \<Rightarrow> bool" where
  "listsInterface tunnel links \<longleftrightarrow> (case links of
     JArr xs \<Rightarrow> list_ex (\<lambda>link. member ''ifname'' link = Some (JStr tunnel)) xs | _ \<Rightarrow> False)"

definition hasTunnelInterface :: "'k VpnEnv \<Rightarrow> ('k world, bool) prog" where
  "hasTunnelInterface env = tryCatch
     (bnd (ve_execute env ''ip'' [''-j'', ''link'', ''show'']) (\<lambda>(stdout, stderr).
      case parseJson stdout of None \<Rightarrow> throw (Error ''Unexpected token in JSON'')
      | Some links \<Rightarrow> ret (listsInterface (ve_tunnelInterface env) links)))
     (\<lambda>_. ret False)"

definition serviceReady :: "'k VpnEnv \<Rightarrow> ('k world, bool) prog" where
  "serviceReady env = bnd (vpn_safe env ''systemctl'' [''is-active'', ''--quiet'', ''sing-box'']) (\<lambda>serviceActive.
     if serviceActive then hasTunnelInterface env else ret False)"

text \<open>Both parts of the status, \<open>(enabled, connected)\<close>.\<close>

definition vpn_getStatus :: "'k VpnEnv \<Rightarrow> ('k world, bool \<times> bool) prog" where
  "vpn_getStatus env = bnd (vpn_safe env ''systemctl'' [''is-active'', ''--quiet'', ''sing-box'']) (\<lambda>serviceActive.
     bnd (if serviceActive then hasTunnelInterface env else ret False) (\<lambda>tunnelPresent.
     ret (serviceActive, serviceActive \<and> tunnelPresent)))"

definition VPN_READINESS_TIMEOUT_MS :: int where
  "VPN_READINESS_TIMEOUT_MS = 5000"

definition VPN_READINESS_POLL_MS :: int where
  "VPN_READINESS_POLL_MS = 250"

text \<open>The loop, with fuel: every round moves the clock, so twenty rounds reach the deadline.\<close>

fun pollReady :: "nat \<Rightarrow> 'k VpnEnv \<Rightarrow> int \<Rightarrow> ('k world, bool option) prog" where
  "pollReady 0 env deadline = ret None"
| "pollReady (Suc n) env deadline = bnd (gets w_now) (\<lambda>now.
     if now < deadline then
       bnd (serviceReady env) (\<lambda>ready.
       if ready then ret (Some True)
       else thn (modify (\<lambda>w. w\<lparr>w_now := w_now w + VPN_READINESS_POLL_MS\<rparr>)) (pollReady n env deadline))
     else ret (Some False))"

definition waitForReadiness :: "'k VpnEnv \<Rightarrow> ('k world, bool) prog" where
  "waitForReadiness env = bnd (gets w_now) (\<lambda>now.
     bnd (pollReady 21 env (now + VPN_READINESS_TIMEOUT_MS)) (\<lambda>r. ret (r = Some True)))"

subsection \<open>Rules\<close>

record VpnRule =
  vr_handle :: "rat option"
  vr_comment :: "string option"

fun truthyJson :: "json \<Rightarrow> bool" where
  "truthyJson JNull = False"
| "truthyJson (JBool b) = b"
| "truthyJson (JNum n) = (n \<noteq> 0)"
| "truthyJson (JStr s) = (s \<noteq> [])"
| "truthyJson (JArr xs) = True"
| "truthyJson (JObj ms) = True"

fun vpnRuleItems :: "json list \<Rightarrow> js_error + VpnRule list" where
  "vpnRuleItems [] = Inr []"
| "vpnRuleItems (item # items) =
     (if item = JNull then Inl (Error ''Cannot read properties of null (reading 'rule')'')
      else case vpnRuleItems items of Inl e \<Rightarrow> Inl e
        | Inr rest \<Rightarrow> (case member ''rule'' item of
            None \<Rightarrow> Inr rest
          | Some rule \<Rightarrow> if \<not> truthyJson rule then Inr rest
              else Inr (\<lparr>vr_handle = jsonNum (member ''handle'' rule), vr_comment = jsonString (member ''comment'' rule)\<rparr> # rest)))"

definition parseVpnRules :: "string \<Rightarrow> js_error + VpnRule list" where
  "parseVpnRules stdout = (case parseJson stdout of
       None \<Rightarrow> Inl (Error ''Unexpected token in JSON'')
     | Some JNull \<Rightarrow> Inl (Error ''Cannot read properties of null (reading 'nftables')'')
     | Some document \<Rightarrow> (case member ''nftables'' document of
           None \<Rightarrow> Inr []
         | Some JNull \<Rightarrow> Inr []
         | Some (JArr items) \<Rightarrow> vpnRuleItems items
         | Some _ \<Rightarrow> Inl (Error ''document.nftables.flatMap is not a function'')))"

definition listChainArgs :: "string \<Rightarrow> string \<Rightarrow> string list" where
  "listChainArgs table chain = [''-j'', ''-a'', ''list'', ''chain'', ''ip'', table, chain]"

definition vpn_rules :: "'k VpnEnv \<Rightarrow> string \<Rightarrow> string \<Rightarrow> ('k world, VpnRule list) prog" where
  "vpn_rules env table chain = bnd (ve_execute env ''nft'' (listChainArgs table chain)) (\<lambda>(stdout, stderr).
     case parseVpnRules stdout of Inl e \<Rightarrow> throw e | Inr rules \<Rightarrow> ret rules)"

definition vpnDeleteArgs :: "string \<Rightarrow> string \<Rightarrow> rat \<Rightarrow> string list" where
  "vpnDeleteArgs table chain handle = [''delete'', ''rule'', ''ip'', table, chain, ''handle'', showInt \<lfloor>handle\<rfloor>]"

definition deleteRules :: "'k VpnEnv \<Rightarrow> string \<Rightarrow> string \<Rightarrow> string list \<Rightarrow> VpnRule list \<Rightarrow> ('k world, unit) prog" where
  "deleteRules env table chain comments rules = forEach rules (\<lambda>rule.
     case vr_handle rule of None \<Rightarrow> skip
     | Some h \<Rightarrow> whenP (vr_comment rule \<in> set (map Some comments))
         (bnd (ve_execute env ''nft'' (vpnDeleteArgs table chain h)) (\<lambda>_. skip)))"

definition natComments :: "string list" where
  "natComments = [''ayad_nm_single_interface_nat'', ''ayad_nm_vpn_nat'']"

definition natExpr :: "'k VpnEnv \<Rightarrow> bool \<Rightarrow> string list" where
  "natExpr env vpnConnected = [''ip'', ''saddr'', ve_clientSubnet env, ''oifname'',
     if vpnConnected then ve_tunnelInterface env else ve_uplinkInterface env, ''masquerade'']"

definition natComment :: "bool \<Rightarrow> string" where
  "natComment vpnConnected = (if vpnConnected then ''ayad_nm_vpn_nat'' else ''ayad_nm_single_interface_nat'')"

definition vpnNatArgs :: "'k VpnEnv \<Rightarrow> bool \<Rightarrow> string list" where
  "vpnNatArgs env vpnConnected = [''add'', ''rule'', ''ip'', ''nat'', ''POSTROUTING''] @ natExpr env vpnConnected @
     [''comment'', natComment vpnConnected]"

definition dropExpr :: "'k VpnEnv \<Rightarrow> string list" where
  "dropExpr env = [''ip'', ''saddr'', ve_clientSubnet env, ''oifname'', ve_uplinkInterface env, ''drop'']"

definition failClosedArgs :: "'k VpnEnv \<Rightarrow> string list" where
  "failClosedArgs env = [''insert'', ''rule'', ''ip'', ''filter'', ''ayad_nm_forward'', ''position'', ''3''] @ dropExpr env @
     [''comment'', ''ayad_nm_vpn_fail_closed'']"

definition vpn_nft :: "'k VpnEnv \<Rightarrow> string list \<Rightarrow> ('k world, unit) prog" where
  "vpn_nft env args = bnd (ve_execute env ''nft'' args) (\<lambda>_. skip)"

definition setNat :: "'k VpnEnv \<Rightarrow> bool \<Rightarrow> bool \<Rightarrow> ('k world, unit) prog" where
  "setNat env vpnConnected vpnEnabled =
     bnd (vpn_rules env ''nat'' ''POSTROUTING'') (\<lambda>natRules.
     thn (deleteRules env ''nat'' ''POSTROUTING'' natComments natRules)
    (thn (vpn_nft env (''-c'' # vpnNatArgs env vpnConnected))
    (thn (vpn_nft env (vpnNatArgs env vpnConnected))
    (bnd (vpn_rules env ''filter'' ''ayad_nm_forward'') (\<lambda>forwardRules.
     thn (deleteRules env ''filter'' ''ayad_nm_forward'' [''ayad_nm_vpn_fail_closed''] forwardRules)
         (whenP (vpnEnabled \<and> \<not> vpnConnected)
           (thn (vpn_nft env (''-c'' # failClosedArgs env)) (vpn_nft env (failClosedArgs env)))))))))"

definition vpn_apply :: "'k VpnEnv \<Rightarrow> bool \<Rightarrow> ('k world, bool) prog" where
  "vpn_apply env enabled =
     (if \<not> enabled then
        thn (ve_setGuard env False)
       (bnd (vpn_safe env ''systemctl'' [''stop'', ''sing-box'']) (\<lambda>_.
        thn (setNat env False False) (ret False)))
      else
        bnd (vpn_safe env ''systemctl'' [''restart'', ''sing-box'']) (\<lambda>_.
        bnd (waitForReadiness env) (\<lambda>connected.
        thn (ve_setGuard env True)
       (thn (setNat env connected True) (ret connected)))))"

definition vpn_syncConnectionState :: "'k VpnEnv \<Rightarrow> bool \<Rightarrow> bool \<Rightarrow> ('k world, unit) prog" where
  "vpn_syncConnectionState env enabled isConnected =
     thn (ve_setGuard env enabled) (setNat env isConnected enabled)"

text \<open>The environment \<open>server.ts\<close> builds: an audited executor over the socket, and the guard of \<open>NftEnforcer\<close>.\<close>

definition auditedExec :: "'k Machine \<Rightarrow> string \<Rightarrow> 'k world Exec" where
  "auditedExec m actor = AuditedExecutor_execute (LinuxExecutor_execute m) PrismaOperations_audit actor"

definition vpnEnvOf :: "'k Machine \<Rightarrow> string \<Rightarrow> nat \<Rightarrow> nat \<Rightarrow> string \<Rightarrow> string \<Rightarrow> string \<Rightarrow> 'k VpnEnv" where
  "vpnEnvOf m actor sshPort dashboardPort tunnel uplink clientSubnet = \<lparr>ve_execute = auditedExec m actor,
     ve_setGuard = setVpnBlockedIpGuardEnabled (nftEnvOf m sshPort dashboardPort uplink),
     ve_tunnelInterface = tunnel, ve_uplinkInterface = uplink, ve_clientSubnet = clientSubnet\<rparr>"

section \<open>PrismaVpnRepository\<close>

record VpnRow =
  vc_vmessLink :: string
  vc_enabled :: bool
  vc_connected :: bool
  vc_lastConnectedAt :: "int option"

record VpnState =
  vs_vmessLink :: "string option"
  vs_enabled :: bool
  vs_connected :: bool
  vs_lastConnectedAt :: "int option"

definition toState :: "VpnRow option \<Rightarrow> VpnState" where
  "toState r = (case r of
       None \<Rightarrow> \<lparr>vs_vmessLink = None, vs_enabled = False, vs_connected = False, vs_lastConnectedAt = None\<rparr>
     | Some v \<Rightarrow> \<lparr>vs_vmessLink = Some (vc_vmessLink v), vs_enabled = vc_enabled v, vs_connected = vc_connected v,
         vs_lastConnectedAt = vc_lastConnectedAt v\<rparr>)"

text \<open>The row with id 1, the flag of the monitor, and the rest of the world.\<close>

record 'k Vpn =
  vp_row :: "VpnRow option"
  vp_monitoring :: bool
  vp_world :: "'k world"

definition inWorld :: "('k world, 'a) prog \<Rightarrow> ('k Vpn, 'a) prog" where
  "inWorld p = (\<lambda>s. case p (vp_world s) of (r, w) \<Rightarrow> (r, s\<lparr>vp_world := w\<rparr>))"

definition vpnUpsert :: "(VpnRow \<Rightarrow> VpnRow) \<Rightarrow> ('k Vpn, VpnState) prog" where
  "vpnUpsert f = thn (inWorld (select (\<lambda>_. ())))
     (bnd (gets vp_row) (\<lambda>r. let row = f (case r of Some v \<Rightarrow> v
          | None \<Rightarrow> \<lparr>vc_vmessLink = [], vc_enabled = False, vc_connected = False, vc_lastConnectedAt = None\<rparr>)
        in thn (modify (\<lambda>s. s\<lparr>vp_row := Some row\<rparr>)) (ret (toState (Some row)))))"

definition PrismaVpn_get :: "('k Vpn, VpnState) prog" where
  "PrismaVpn_get = thn (inWorld (select (\<lambda>_. ()))) (gets (\<lambda>s. toState (vp_row s)))"

definition PrismaVpn_saveLink :: "string \<Rightarrow> ('k Vpn, VpnState) prog" where
  "PrismaVpn_saveLink link = vpnUpsert (\<lambda>v. v\<lparr>vc_vmessLink := link\<rparr>)"

definition PrismaVpn_setEnabled :: "bool \<Rightarrow> ('k Vpn, VpnState) prog" where
  "PrismaVpn_setEnabled enabled = vpnUpsert (\<lambda>v. v\<lparr>vc_enabled := enabled\<rparr>)"

definition PrismaVpn_setConnected :: "bool \<Rightarrow> ('k Vpn, VpnState) prog" where
  "PrismaVpn_setConnected isConnected = bnd (gets (w_now \<circ> vp_world)) (\<lambda>now.
     vpnUpsert (\<lambda>v. v\<lparr>vc_connected := isConnected,
       vc_lastConnectedAt := (if isConnected then Some now else vc_lastConnectedAt v)\<rparr>))"

section \<open>VpnService\<close>

record 'k VpnDeps =
  vd_apply :: "bool \<Rightarrow> ('k world, bool) prog"
  vd_configure :: "(string \<Rightarrow> ('k world, unit) prog) option"
  vd_getStatus :: "('k world, bool \<times> bool) prog option"
  vd_syncConnectionState :: "(bool \<Rightarrow> bool \<Rightarrow> ('k world, unit) prog) option"
  vd_audit :: "(AuditData \<Rightarrow> ('k world, unit) prog) option"

text \<open>The service of \<open>server.ts\<close>; \<open>configure\<close> of the controller is a parameter.\<close>

definition vpnDepsOf :: "'k VpnEnv \<Rightarrow> (string \<Rightarrow> ('k world, unit) prog) \<Rightarrow> 'k VpnDeps" where
  "vpnDepsOf env configure = \<lparr>vd_apply = vpn_apply env, vd_configure = Some configure,
     vd_getStatus = Some (vpn_getStatus env), vd_syncConnectionState = Some (vpn_syncConnectionState env),
     vd_audit = Some PrismaOperations_audit\<rparr>"

definition showBool :: "bool \<Rightarrow> string" where
  "showBool b = (if b then ''true'' else ''false'')"

definition vpnAudit :: "'k VpnDeps \<Rightarrow> string \<Rightarrow> (string \<times> string) list \<Rightarrow> ('k Vpn, unit) prog" where
  "vpnAudit deps action details = optCall (vd_audit deps) (\<lambda>a. inWorld (a
     \<lparr>a_action = action, a_mac = None, a_deviceId = None, a_actor = None, a_details = details\<rparr>))"

definition optConfigure :: "'k VpnDeps \<Rightarrow> string \<Rightarrow> ('k Vpn, unit) prog" where
  "optConfigure deps link = optCall (vd_configure deps) (\<lambda>c. inWorld (c link))"

definition VpnService_status :: "'k VpnDeps \<Rightarrow> ('k Vpn, VpnState) prog" where
  "VpnService_status deps = bnd PrismaVpn_get (\<lambda>state.
     if \<not> vs_enabled state then ret state
     else case vd_getStatus deps of None \<Rightarrow> ret state
       | Some getStatus \<Rightarrow> tryCatch
           (bnd (inWorld getStatus) (\<lambda>(enabled, connected). ret (state\<lparr>vs_enabled := True, vs_connected := connected\<rparr>)))
           (\<lambda>_. ret (state\<lparr>vs_enabled := True, vs_connected := False\<rparr>)))"

text \<open>\<open>/^(vmess|vless):\/\//i\<close>\<close>

definition supportedLink :: "string \<Rightarrow> bool" where
  "supportedLink link \<longleftrightarrow> startsWith ''vmess://'' (toLowerCase link) \<or> startsWith ''vless://'' (toLowerCase link)"

definition VpnService_configure :: "'k VpnDeps \<Rightarrow> string \<Rightarrow> ('k Vpn, VpnState) prog" where
  "VpnService_configure deps link =
     (let normalized = trim link in
      if \<not> supportedLink normalized then throw (Error ''Only vmess and vless links are supported'')
      else tryCatch
        (bnd PrismaVpn_get (\<lambda>current.
         thn (optConfigure deps normalized)
        (thn (whenP (vs_enabled current) (bnd (inWorld (vd_apply deps True)) (\<lambda>connected.
            whenP (\<not> connected) (throw (Error ''VPN configuration was installed but the tunnel did not become ready'')))))
        (bnd (PrismaVpn_saveLink normalized) (\<lambda>result.
         thn (whenP (vs_enabled current) (bnd (PrismaVpn_setConnected True) (\<lambda>_. skip)))
        (thn (vpnAudit deps ''configure-vpn'' [(''result'', ''success''), (''reactivated'', showBool (vs_enabled current))])
             (ret result)))))))
        (\<lambda>error. thn (vpnAudit deps ''configure-vpn'' [(''result'', ''failure''), (''error'', errorMessage error)])
            (throw error)))"

definition hasLink :: "VpnState \<Rightarrow> bool" where
  "hasLink state \<longleftrightarrow> (case vs_vmessLink state of None \<Rightarrow> False | Some l \<Rightarrow> trim l \<noteq> [])"

definition VpnService_setEnabled :: "'k VpnDeps \<Rightarrow> bool \<Rightarrow> ('k Vpn, VpnState) prog" where
  "VpnService_setEnabled deps enabled = bnd PrismaVpn_get (\<lambda>state.
     if enabled \<and> \<not> hasLink state then throw (Error ''Configure a VMess or VLESS link first'')
     else let action = (if enabled then ''enable-vpn'' else ''disable-vpn'') in tryCatch
        (bnd (inWorld (vd_apply deps enabled)) (\<lambda>connected.
         bnd (PrismaVpn_setEnabled enabled) (\<lambda>_.
         bnd (PrismaVpn_setConnected (enabled \<and> connected)) (\<lambda>result.
         thn (vpnAudit deps action [(''connected'', showBool (vs_connected result)), (''result'', ''success'')])
             (ret result)))))
        (\<lambda>error. thn (vpnAudit deps action [(''result'', ''failure''), (''error'', errorMessage error)]) (throw error)))"

definition VpnService_reconcile :: "'k VpnDeps \<Rightarrow> ('k Vpn, VpnState) prog" where
  "VpnService_reconcile deps = bnd PrismaVpn_get (\<lambda>state.
     let audited = (\<lambda>connected outcome. vpnAudit deps ''reconcile-vpn'' [(''desiredEnabled'', showBool (vs_enabled state)),
            (''connected'', showBool connected), (''result'', outcome)]) in tryCatch
       (if \<not> vs_enabled state then
          bnd (inWorld (vd_apply deps False)) (\<lambda>_.
          bnd (PrismaVpn_setConnected False) (\<lambda>result. thn (audited False ''success'') (ret result)))
        else if \<not> hasLink state then
          bnd (inWorld (vd_apply deps False)) (\<lambda>_.
          bnd (PrismaVpn_setEnabled False) (\<lambda>_.
          bnd (PrismaVpn_setConnected False) (\<lambda>result. thn (audited False ''missing-vpn-link'') (ret result))))
        else
          thn (optConfigure deps (the (vs_vmessLink state)))
         (bnd (inWorld (vd_apply deps True)) (\<lambda>connected.
          bnd (PrismaVpn_setConnected connected) (\<lambda>result. thn (audited connected ''success'') (ret result)))))
       (\<lambda>error. bnd (PrismaVpn_setConnected False) (\<lambda>_.
          thn (vpnAudit deps ''reconcile-vpn'' [(''desiredEnabled'', showBool (vs_enabled state)), (''connected'', ''false''),
                 (''result'', ''failure''), (''error'', errorMessage error)])
            (throw error))))"

text \<open>One tick of the monitor.\<close>

definition checkBody :: "'k VpnDeps \<Rightarrow> ('k world, bool \<times> bool) prog \<Rightarrow> ('k Vpn, unit) prog" where
  "checkBody deps getStatus = bnd PrismaVpn_get (\<lambda>desired.
     whenP (vs_enabled desired)
       (bnd (inWorld getStatus) (\<lambda>(_, connected).
        if connected then
          thn (optCall (vd_syncConnectionState deps) (\<lambda>sync. inWorld (sync True True)))
            (whenP (\<not> vs_connected desired)
              (bnd (PrismaVpn_setConnected True) (\<lambda>_.
               vpnAudit deps ''vpn-state-change'' [(''from'', ''false''), (''to'', ''true''), (''result'', ''connected'')])))
        else
          bnd (inWorld (vd_apply deps True)) (\<lambda>recovered.
          bnd (PrismaVpn_setConnected recovered) (\<lambda>_.
          whenP (vs_connected desired \<noteq> recovered)
            (vpnAudit deps ''vpn-state-change'' [(''from'', showBool (vs_connected desired)), (''to'', showBool recovered),
               (''result'', if recovered then ''reconnected'' else ''disconnected'')]))))))"

definition checkConnection :: "'k VpnDeps \<Rightarrow> ('k Vpn, unit) prog" where
  "checkConnection deps = bnd (gets vp_monitoring) (\<lambda>monitoring.
     case vd_getStatus deps of None \<Rightarrow> skip
     | Some getStatus \<Rightarrow> if monitoring then skip
       else thn (modify (\<lambda>s. s\<lparr>vp_monitoring := True\<rparr>))
         (tryFinally (tryCatch (checkBody deps getStatus)
            (\<lambda>error. bnd (PrismaVpn_setConnected False) (\<lambda>_.
               vpnAudit deps ''vpn-state-change'' [(''to'', ''false''), (''result'', ''monitor-error''), (''error'', errorMessage error)])))
           (\<lambda>s. s\<lparr>vp_monitoring := False\<rparr>)))"

end
