(* ===== verification/VpnFacts.thy ===== *)
theory VpnFacts
  imports Vpn
begin

text \<open>
  What the VPN controller leaves in the kernel: the NAT rule of the clients and the kill switch, for
  a machine whose nft treats rules as documented (\<open>chain_tool\<close>), through the audited executor, whatever
  commands fail and however often the socket makes a command run; and what the service stores
  about it.
\<close>

section \<open>The chains\<close>

datatype VpnChain = NatChain | ForwardChain

primrec chainTable :: "VpnChain \<Rightarrow> string" where
  "chainTable NatChain = ''nat''" | "chainTable ForwardChain = ''filter''"

primrec chainName :: "VpnChain \<Rightarrow> string" where
  "chainName NatChain = ''POSTROUTING''" | "chainName ForwardChain = ''ayad_nm_forward''"

text \<open>A rule is seen as its handle, its comment and its expression.\<close>

type_synonym vpnRule = "int \<times> string option \<times> string list"

text \<open>The rules of a chain that carry one of the comments, and the others.\<close>

definition ours :: "string list \<Rightarrow> vpnRule \<Rightarrow> bool" where
  "ours comments r \<longleftrightarrow> fst (snd r) \<in> Some ` set comments"

definition ownRules :: "string list \<Rightarrow> vpnRule list \<Rightarrow> (string option \<times> string list) set" where
  "ownRules comments rs = snd ` set (filter (ours comments) rs)"

definition foreignRules :: "string list \<Rightarrow> vpnRule list \<Rightarrow> vpnRule list" where
  "foreignRules comments rs = filter (\<lambda>r. \<not> ours comments r) rs"

text \<open>Commands that leave the rules of the two chains alone.\<close>

definition quietArgs :: "string list \<Rightarrow> bool" where
  "quietArgs args \<longleftrightarrow> argIs args 0 ''-c'' \<or>
     (case dropWhile (\<lambda>a. a = ''-j'' \<or> a = ''-a'') args of [] \<Rightarrow> False | a # rest \<Rightarrow> a = ''list'') \<or>
     (argIs args 0 ''add'' \<and> argIn args 1 [''table'', ''set'', ''chain'', ''element'']) \<or>
     (argIs args 0 ''delete'' \<and> argIs args 1 ''element'') \<or>
     (argIs args 0 ''add'' \<and> argIs args 1 ''rule'' \<and> argIs args 3 ''ayad_nm'')"

definition addRuleArgs :: "string list \<Rightarrow> string \<Rightarrow> string list" where
  "addRuleArgs expr comment = [''add'', ''rule'', ''ip'', ''nat'', ''POSTROUTING''] @ expr @ [''comment'', comment]"

definition insertRuleArgs :: "string \<Rightarrow> string list \<Rightarrow> string \<Rightarrow> string list" where
  "insertRuleArgs position expr comment =
     [''insert'', ''rule'', ''ip'', ''filter'', ''ayad_nm_forward'', ''position'', position] @ expr @ [''comment'', comment]"

text \<open>A rule was added to a chain: the others are as they were and it is there.\<close>

definition added :: "string \<Rightarrow> string list \<Rightarrow> vpnRule list \<Rightarrow> vpnRule list \<Rightarrow> bool" where
  "added comment expr rs rs' \<longleftrightarrow> filter (\<lambda>r. snd r \<noteq> (Some comment, expr)) rs' = filter (\<lambda>r. snd r \<noteq> (Some comment, expr)) rs \<and>
     (Some comment, expr) \<in> snd ` set rs'"

definition seenRule :: "vpnRule \<Rightarrow> VpnRule" where
  "seenRule r = \<lparr>vr_handle = Some (of_int (fst r)), vr_comment = fst (snd r)\<rparr>"

locale chain_tool =
  fixes m :: "'k Machine"
    and chain :: "VpnChain \<Rightarrow> 'k \<Rightarrow> vpnRule list"
  assumes handles_distinct: "distinct (map fst (chain c k))"
    and tool_quiet: "quietArgs args \<Longrightarrow> chain c (snd (nftTool m args k)) = chain c k"
    and tool_list: "nftTool m (listChainArgs (chainTable c) (chainName c)) k = (Inr (out, err), k') \<Longrightarrow>
      parseVpnRules out = Inr (map seenRule (chain c k))"
    and tool_delete: "nftTool m (vpnDeleteArgs (chainTable c) (chainName c) (of_int h)) k = (r, k') \<Longrightarrow>
      (c' \<noteq> c \<longrightarrow> chain c' k' = chain c' k) \<and> chain c k' \<in> {chain c k, filter (\<lambda>x. fst x \<noteq> h) (chain c k)} \<and>
      (\<forall>out. r = Inr out \<longrightarrow> chain c k' = filter (\<lambda>x. fst x \<noteq> h) (chain c k))"
    and tool_add: "nftTool m (addRuleArgs expr comment) k = (r, k') \<Longrightarrow> chain ForwardChain k' = chain ForwardChain k \<and>
      (chain NatChain k' = chain NatChain k \<or> added comment expr (chain NatChain k) (chain NatChain k')) \<and>
      (\<forall>out. r = Inr out \<longrightarrow> added comment expr (chain NatChain k) (chain NatChain k'))"
    and tool_insert: "nftTool m (insertRuleArgs position expr comment) k = (r, k') \<Longrightarrow> chain NatChain k' = chain NatChain k \<and>
      (chain ForwardChain k' = chain ForwardChain k \<or> added comment expr (chain ForwardChain k) (chain ForwardChain k')) \<and>
      (\<forall>out. r = Inr out \<longrightarrow> added comment expr (chain ForwardChain k) (chain ForwardChain k'))"
    and other_commands: "command \<in> {''systemctl'', ''ip''} \<Longrightarrow> chain c (snd (m_exec m command args t k)) = chain c k"

section \<open>The executor\<close>

text \<open>A command may run several times; what every run keeps, the whole request keeps, and a success was seen by a run.\<close>

lemma attempts_run:
  assumes "\<And>k. R k (snd (executeRequest m c args k))" "\<And>k. R k k" "\<And>k k' k''. R k k' \<Longrightarrow> R k' k'' \<Longrightarrow> R k k''"
    and "\<And>k out k'. executeRequest m c args k = (Inr out, k') \<Longrightarrow> G k out k'"
  shows "remoteAttempts m c args n w = (r, w') \<Longrightarrow> R (w_kernel w) (w_kernel w') \<and>
    (\<forall>out. r = Inr out \<longrightarrow> (\<exists>k. R (w_kernel w) k \<and> G k out (w_kernel w')))"
proof (induction n arbitrary: w)
  case 0
  then show ?case using assms(2) by auto
next
  case (Suc n)
  obtain q w1 where one: "executeRemoteOnce m c args w = (q, w1)" by fastforce
  have kernel: "R (w_kernel w) (w_kernel w1)"
    using one assms(1,2) by (auto simp: executeRemoteOnce_def Let_def split: link.splits sum.splits)
  have ok: "G (w_kernel w) out (w_kernel w1)" if "q = Inr out" for out
  proof -
    obtain r0 k' where run: "executeRequest m c args (w_kernel w) = (r0, k')" by fastforce
    with one that have "r0 = Inr out" "w_kernel w1 = k'"
      by (auto simp: executeRemoteOnce_def Let_def split: link.splits sum.splits)
    with run assms(4) show ?thesis by simp
  qed
  show ?case
  proof (cases q)
    case (Inr out)
    with Suc.prems one have "r = Inr out" "w' = w1" by simp_all
    with kernel ok [OF Inr] assms(2) show ?thesis by blast
  next
    case (Inl f)
    show ?thesis
    proof (cases "\<not> isTransientSocketError f \<or> n = 0")
      case True
      with Suc.prems one Inl have "w' = w1" "r = Inl (Error (rf_message f))" by (auto split: if_splits)
      with kernel show ?thesis by simp
    next
      case False
      with Suc.prems one Inl have "remoteAttempts m c args n w1 = (r, w')" by simp
      from Suc.IH [OF this] kernel assms(3) show ?thesis by blast
    qed
  qed
qed

lemma execute_run:
  assumes "LinuxExecutor_execute m c args w = (r, w')"
    and "\<And>k. R k (snd (executeRequest m c args k))" "\<And>k. R k k" "\<And>k k' k''. R k k' \<Longrightarrow> R k' k'' \<Longrightarrow> R k k''"
    and "\<And>k out k'. executeRequest m c args k = (Inr out, k') \<Longrightarrow> G k out k'"
  shows "R (w_kernel w) (w_kernel w') \<and> (\<forall>out. r = Inr out \<longrightarrow> (\<exists>k. R (w_kernel w) k \<and> G k out (w_kernel w')))"
proof (cases "truthy (m_socketPath m)")
  case True
  with assms(1) have "remoteAttempts m c args REMOTE_CONNECT_RETRIES w = (r, w')" by (simp add: LinuxExecutor_execute_def)
  then show ?thesis by (rule attempts_run [of R, rotated 4]) (fact assms)+
next
  case False
  with assms(1,3) show ?thesis by (auto simp: LinuxExecutor_execute_def)
qed

lemma audit_keeps: "frame (\<lambda>w. f (w_kernel w)) (PrismaOperations_audit d)"
  using frame_comp [OF audit_kernel, of "\<lambda>x. f (snd (snd x))" d] by simp

text \<open>
  \<open>T\<close> relates the view of the kernel before, the result and the view after. It must allow a failure
  that changes nothing, and it must not depend on a success being reported.
\<close>

lemma audited_spec:
  assumes dry: "c = ''nft'' \<Longrightarrow> \<not> argIs args 0 ''-c'' \<Longrightarrow> isNftMutationCommand args \<Longrightarrow>
      frame (\<lambda>w. f (w_kernel w)) (LinuxExecutor_execute m ''nft'' (''-c'' # args))"
    and run: "\<And>w. spec (LinuxExecutor_execute m c args) w (\<lambda>r w'. T (f (w_kernel w)) r (f (w_kernel w')))"
    and T: "\<And>a e. T a (Inl e) a" "\<And>a b r e. T a r b \<Longrightarrow> T a (Inl e) b"
  shows "spec (auditedExec m actor c args) w (\<lambda>r w'. T (f (w_kernel w)) r (f (w_kernel w')))"
  unfolding auditedExec_def AuditedExecutor_execute_def Let_def
  apply (rule spec_thn [where R = "\<lambda>r u. f (w_kernel u) = f (w_kernel w)"])
    apply (rule spec_frame [OF audit_keeps])
   apply (simp add: T(1))
  apply (rule spec_tryCatch [where R = "\<lambda>r u. T (f (w_kernel w)) r (f (w_kernel u))"])
    apply (rule spec_thn [where R = "\<lambda>r u. f (w_kernel u) = f (w_kernel w)"])
      apply (rule spec_whenP)
       apply (rule spec_mono, rule spec_frame [where v = "\<lambda>w. f (w_kernel w)"])
        apply (rule frame_bnd, rule dry, simp, simp, simp, rule frame_skip, simp)
      apply simp
     apply (simp add: T(1))
    apply (rule spec_bnd)
      apply (rule run)
     apply simp
    apply (clarsimp split: prod.split)
    subgoal for out err v
      by (rule spec_thn [where R = "\<lambda>r u. f (w_kernel u) = f (w_kernel v)"], rule spec_frame [OF audit_keeps])
        (auto intro: T(2))
   subgoal for x u e v
     by (rule spec_thn [where R = "\<lambda>r u. f (w_kernel u) = f (w_kernel v)"], rule spec_frame [OF audit_keeps])
       (auto intro: T(2))
  apply simp
  done

section \<open>The commands\<close>

lemma quiet_check [simp]: "quietArgs (''-c'' # args)"
  by (simp add: quietArgs_def argIs_def arg_def)

lemma added_trans: "added cm e a b \<Longrightarrow> added cm e b c \<Longrightarrow> added cm e a c"
  by (simp add: added_def)

definition chainView :: "(VpnChain \<Rightarrow> 'k \<Rightarrow> vpnRule list) \<Rightarrow> 'k world \<Rightarrow> VpnChain \<Rightarrow> vpnRule list" where
  "chainView chain w = (\<lambda>c. chain c (w_kernel w))"

lemma executeRequest_other:
  assumes "command = ''systemctl'' \<or> command = ''ip''"
  shows "snd (executeRequest m command args k) = k \<or> (\<exists>t. snd (executeRequest m command args k) = snd (m_exec m command args t k))"
proof -
  have "snd (executeLocal m 30000 command args k) = snd (m_exec m command args 30000 k)"
    using assms by (elim disjE) (simp_all add: executeLocal_def split: prod.split sum.split)
  with assms show ?thesis unfolding executeRequest_def by (elim disjE) auto
qed

lemma added_own:
  assumes "added cm e rs rs'" "cm \<in> set C"
  shows "foreignRules C rs' = foreignRules C rs \<and> ownRules C rs' = insert (Some cm, e) (ownRules C rs)"
proof
  let ?P = "\<lambda>r. snd r \<noteq> (Some cm, e)"
  have eq: "filter ?P rs' = filter ?P rs" and mem: "(Some cm, e) \<in> snd ` set rs'" using assms(1) by (simp_all add: added_def)
  have "filter (\<lambda>r. \<not> ours C r) (filter ?P xs) = filter (\<lambda>r. \<not> ours C r) xs" for xs
    using assms(2) by (auto simp: filter_filter ours_def intro!: filter_cong)
  with eq show "foreignRules C rs' = foreignRules C rs" unfolding foreignRules_def by metis
  have sets: "{r \<in> set rs'. ?P r} = {r \<in> set rs. ?P r}" using arg_cong [OF eq, of set] by simp
  have "ownRules C rs' - {(Some cm, e)} = ownRules C rs - {(Some cm, e)}" (is "?A = ?B")
  proof -
    have own: "ownRules C xs - {(Some cm, e)} = snd ` ({r \<in> set xs. ?P r} \<inter> {r. ours C r})" for xs by (auto simp: ownRules_def)
    show ?thesis unfolding own sets ..
  qed
  moreover have "(Some cm, e) \<in> ownRules C rs'" using mem assms(2) by (force simp: ownRules_def ours_def)
  ultimately show "ownRules C rs' = insert (Some cm, e) (ownRules C rs)" by blast
qed

text \<open>
  What the program wants in the kernel: the clients leave through the tunnel or through the uplink, and the kill
  switch is on exactly when the VPN is wanted but not there.
\<close>

definition killComments :: "string list" where
  "killComments = [''ayad_nm_vpn_fail_closed'']"

definition vpnKernel :: "'k VpnEnv \<Rightarrow> bool \<Rightarrow> bool \<Rightarrow> (VpnChain \<Rightarrow> vpnRule list) \<Rightarrow> bool" where
  "vpnKernel env isConnected enabled v \<longleftrightarrow>
     ownRules natComments (v NatChain) = {(Some (natComment isConnected), natExpr env isConnected)} \<and>
     ownRules killComments (v ForwardChain) =
       (if enabled \<and> \<not> isConnected then {(Some ''ayad_nm_vpn_fail_closed'', dropExpr env)} else {})"

definition foreignKept :: "(VpnChain \<Rightarrow> vpnRule list) \<Rightarrow> (VpnChain \<Rightarrow> vpnRule list) \<Rightarrow> bool" where
  "foreignKept v v' \<longleftrightarrow> foreignRules natComments (v' NatChain) = foreignRules natComments (v NatChain) \<and>
     foreignRules killComments (v' ForwardChain) = foreignRules killComments (v ForwardChain)"

lemma own_none: "ownRules C rs = {} \<longleftrightarrow> foreignRules C rs = rs"
  by (auto simp: ownRules_def foreignRules_def filter_empty_conv filter_id_conv)

lemma foreign_idem [simp]: "foreignRules C (foreignRules C rs) = foreignRules C rs"
  by (simp add: foreignRules_def)

lemma own_foreign [simp]: "ownRules C (foreignRules C rs) = {}"
  by (simp add: own_none)

context chain_tool
begin

abbreviation view :: "'k world \<Rightarrow> VpnChain \<Rightarrow> vpnRule list" where
  "view \<equiv> chainView chain"

lemmas view_def = chainView_def [of chain]

lemma quiet_frame: "quietArgs args \<Longrightarrow> frame view (LinuxExecutor_execute m ''nft'' args)"
  unfolding frame_def view_def
  by (intro allI, rule execute_rel [where R = "\<lambda>k k'. (\<lambda>c. chain c k') = (\<lambda>c. chain c k)"])
    (simp_all add: executeRequest_nft tool_quiet)

lemma other_frame:
  assumes "command \<in> {''systemctl'', ''ip''}"
  shows "frame view (LinuxExecutor_execute m command args)"
  unfolding frame_def view_def
proof (intro allI, rule execute_rel [where R = "\<lambda>k k'. (\<lambda>c. chain c k') = (\<lambda>c. chain c k)"])
  fix k
  show "(\<lambda>c. chain c (snd (executeRequest m command args k))) = (\<lambda>c. chain c k)"
    using executeRequest_other [of command m args k] assms other_commands [OF assms] by auto
qed simp_all

lemma nft_spec:
  assumes tool: "\<And>k r k'. nftTool m args k = (r, k') \<Longrightarrow> R (\<lambda>c. chain c k) (\<lambda>c. chain c k') \<and>
      (\<forall>out. r = Inr out \<longrightarrow> G (\<lambda>c. chain c k) out (\<lambda>c. chain c k'))"
    and R: "\<And>a. R a a" "\<And>a b c. R a b \<Longrightarrow> R b c \<Longrightarrow> R a c" "\<And>a b out c. R a b \<Longrightarrow> G b out c \<Longrightarrow> G a out c"
  shows "spec (auditedExec m actor ''nft'' args) w (\<lambda>r w'. R (view w) (view w') \<and> (\<forall>out. r = Inr out \<longrightarrow> G (view w) out (view w')))"
  unfolding view_def
proof (rule audited_spec [where f = "\<lambda>k c. chain c k" and T = "\<lambda>a r b. R a b \<and> (\<forall>out. r = Inr out \<longrightarrow> G a out b)"])
  show "frame (\<lambda>w c. chain c (w_kernel w)) (LinuxExecutor_execute m ''nft'' (''-c'' # args))"
    using quiet_frame [of "''-c'' # args"] by (simp add: view_def [abs_def])
  show "spec (LinuxExecutor_execute m ''nft'' args) w (\<lambda>r w'. R (\<lambda>c. chain c (w_kernel w)) (\<lambda>c. chain c (w_kernel w')) \<and>
      (\<forall>out. r = Inr out \<longrightarrow> G (\<lambda>c. chain c (w_kernel w)) out (\<lambda>c. chain c (w_kernel w'))))" for w
  proof (rule specI)
    fix r w' assume run: "LinuxExecutor_execute m ''nft'' args w = (r, w')"
    have "R (\<lambda>c. chain c (w_kernel w)) (\<lambda>c. chain c (w_kernel w')) \<and> (\<forall>out. r = Inr out \<longrightarrow>
        (\<exists>k. R (\<lambda>c. chain c (w_kernel w)) (\<lambda>c. chain c k) \<and> G (\<lambda>c. chain c k) out (\<lambda>c. chain c (w_kernel w'))))"
    proof (rule execute_run [OF run, where R = "\<lambda>k k'. R (\<lambda>c. chain c k) (\<lambda>c. chain c k')" and
          G = "\<lambda>k out k'. G (\<lambda>c. chain c k) out (\<lambda>c. chain c k')"])
      fix k
      obtain r k' where "nftTool m args k = (r, k')" by fastforce
      with tool [OF this] R(1) show "R (\<lambda>c. chain c k) (\<lambda>c. chain c (snd (executeRequest m ''nft'' args k)))"
        by (simp add: executeRequest_nft)
    next
      fix k out k' assume "executeRequest m ''nft'' args k = (Inr out, k')"
      then have "nftTool m args k = (Inr out, k')"
        by (cases "nftTool m args k") (auto simp: executeRequest_nft map_sum_def split: if_splits sum.splits)
      with tool show "G (\<lambda>c. chain c k) out (\<lambda>c. chain c k')" by blast
    qed (use R in blast)+
    with R(3) show "R (\<lambda>c. chain c (w_kernel w)) (\<lambda>c. chain c (w_kernel w')) \<and>
        (\<forall>out. r = Inr out \<longrightarrow> G (\<lambda>c. chain c (w_kernel w)) out (\<lambda>c. chain c (w_kernel w')))" by blast
  qed
qed (use R in auto)

lemma audited_frame: "quietArgs args \<Longrightarrow> frame view (auditedExec m actor ''nft'' args)"
  unfolding auditedExec_def AuditedExecutor_execute_def Let_def view_def [abs_def]
  using quiet_frame [unfolded view_def [abs_def]] audit_keeps [where f = "\<lambda>k c. chain c k"]
  by (intro prog_rules) (auto intro!: prog_rules split: prod.split)

lemma audited_other:
  assumes "command \<in> {''systemctl'', ''ip''}"
  shows "frame view (auditedExec m actor command args)"
  unfolding auditedExec_def AuditedExecutor_execute_def Let_def view_def [abs_def]
  using assms other_frame [OF assms, unfolded view_def [abs_def]] audit_keeps [where f = "\<lambda>k c. chain c k"]
  by (intro prog_rules) (auto intro!: prog_rules split: prod.split)

lemma delete_spec:
  "spec (auditedExec m actor ''nft'' (vpnDeleteArgs (chainTable c) (chainName c) (of_int h))) w (\<lambda>r w'.
     (\<forall>c'. c' \<noteq> c \<longrightarrow> view w' c' = view w c') \<and> view w' c \<in> {view w c, filter (\<lambda>x. fst x \<noteq> h) (view w c)} \<and>
     (\<forall>out. r = Inr out \<longrightarrow> view w' c = filter (\<lambda>x. fst x \<noteq> h) (view w c)))"
  by (rule spec_mono, rule nft_spec [where R = "\<lambda>a b. (\<forall>c'. c' \<noteq> c \<longrightarrow> b c' = a c') \<and> b c \<in> {a c, filter (\<lambda>x. fst x \<noteq> h) (a c)}" and
      G = "\<lambda>a out b. b c = filter (\<lambda>x. fst x \<noteq> h) (a c)"])
    (use tool_delete in \<open>auto simp: filter_filter cong: conj_cong\<close>)


lemma list_spec:
  "spec (auditedExec m actor ''nft'' (listChainArgs (chainTable c) (chainName c))) w (\<lambda>r w'. view w' = view w \<and>
     (\<forall>out err. r = Inr (out, err) \<longrightarrow> parseVpnRules out = Inr (map seenRule (view w c))))"
proof (rule spec_mono, rule nft_spec [where R = "\<lambda>a b. b = a" and
      G = "\<lambda>a out b. parseVpnRules (fst out) = Inr (map seenRule (a c))"])
  fix k r k' assume run: "nftTool m (listChainArgs (chainTable c) (chainName c)) k = (r, k')"
  have "quietArgs (listChainArgs (chainTable c) (chainName c))" by (simp add: quietArgs_def listChainArgs_def)
  from tool_quiet [OF this, of _ k] have "(\<lambda>c. chain c k') = (\<lambda>c. chain c k)" using run by (simp add: fun_eq_iff)
  moreover have "parseVpnRules (fst out) = Inr (map seenRule (chain c k))" if "r = Inr out" for out
    using run that tool_list [of c k "fst out" "snd out" k'] by simp
  ultimately show "(\<lambda>c. chain c k') = (\<lambda>c. chain c k) \<and> (\<forall>out. r = Inr out \<longrightarrow> parseVpnRules (fst out) = Inr (map seenRule (chain c k)))"
    by blast
qed auto

lemma add_spec:
  "spec (auditedExec m actor ''nft'' (addRuleArgs expr cm)) w (\<lambda>r w'. view w' ForwardChain = view w ForwardChain \<and>
     (view w' NatChain = view w NatChain \<or> added cm expr (view w NatChain) (view w' NatChain)) \<and>
     (\<forall>out. r = Inr out \<longrightarrow> added cm expr (view w NatChain) (view w' NatChain)))"
  by (rule spec_mono, rule nft_spec [where R = "\<lambda>a b. b ForwardChain = a ForwardChain \<and> (b NatChain = a NatChain \<or> added cm expr (a NatChain) (b NatChain))" and
      G = "\<lambda>a out b. added cm expr (a NatChain) (b NatChain)"])
    (use tool_add added_trans in \<open>blast, auto\<close>)

lemma insert_spec:
  "spec (auditedExec m actor ''nft'' (insertRuleArgs pos expr cm)) w (\<lambda>r w'. view w' NatChain = view w NatChain \<and>
     (view w' ForwardChain = view w ForwardChain \<or> added cm expr (view w ForwardChain) (view w' ForwardChain)) \<and>
     (\<forall>out. r = Inr out \<longrightarrow> added cm expr (view w ForwardChain) (view w' ForwardChain)))"
  by (rule spec_mono, rule nft_spec [where R = "\<lambda>a b. b NatChain = a NatChain \<and> (b ForwardChain = a ForwardChain \<or> added cm expr (a ForwardChain) (b ForwardChain))" and
      G = "\<lambda>a out b. added cm expr (a ForwardChain) (b ForwardChain)"])
    (use tool_insert added_trans in \<open>blast, auto\<close>)


lemma guard_frame: "frame view (setVpnBlockedIpGuardEnabled (nftEnvOf m sshPort dashboardPort uplink) b)"
proof -
  let ?env = "nftEnvOf m sshPort dashboardPort uplink"
  have exec: "frame view (execNft ?env args)" if "quietArgs args" for args
    unfolding execNft_def Let_def view_def [abs_def]
    using quiet_frame [OF that] quiet_frame [of "''-c'' # args"] audit_keeps [where f = "\<lambda>k c. chain c k"]
    by (intro prog_rules) (auto simp: nftEnvOf_def view_def [abs_def] intro!: prog_rules split: prod.split)
  have quiet: "quietArgs (elementArgs ''add'' t n v)" "quietArgs (elementArgs ''delete'' t n v)" "quietArgs (listSetArgs t n)"
    "quietArgs (setArgs t n ty)" "quietArgs (chainArgs t n h pr)" "quietArgs vpnRuleArgs" "quietArgs [''add'', ''table'', ''ip'', ''ayad_nm'']"
    "quietArgs [''-a'', ''list'', ''chain'', ''ip'', ''ayad_nm'', ''blocked_devices_prerouting'']" for t n v ty h pr
    by (simp_all add: quietArgs_def elementArgs_def listSetArgs_def setArgs_def chainArgs_def vpnRuleArgs_def argIs_def argIn_def arg_def)
  have tolerant: "frame view (execUnless h ?env args)" if "quietArgs args" for h args
    unfolding execUnless_def using exec [OF that] by (auto intro!: prog_rules)
  have ensure: "frame view (ensureVpnEnforcementState ?env)"
    unfolding ensureVpnEnforcementState_def runNft_def by (auto intro!: prog_rules tolerant exec quiet)
  have elems: "frame view (addElement ?env t n v)" "frame view (deleteElement ?env t n v)" for t n v
    unfolding addElement_def deleteElement_def by (auto intro!: tolerant quiet)
  have flag: "frame view (modify (\<lambda>w. w\<lparr>w_vpnGuard := x\<rparr>))" for x by (simp add: frame_def view_def)
  show ?thesis
    unfolding setVpnBlockedIpGuardEnabled_def clearVpnBlockedIps_def nft_getBlockedIps_def syncVpnBlockedIp_def
    by (auto intro!: prog_rules ensure elems exec quiet flag)
qed

text \<open>Deleting the rules that carry one of the comments.\<close>

lemma deleteRules_spec:
  assumes env: "ve_execute env = auditedExec m actor"
  shows "spec (deleteRules env (chainTable c) (chainName c) C (map seenRule (view w c))) w (\<lambda>r w'.
     (\<forall>c'. c' \<noteq> c \<longrightarrow> view w' c' = view w c') \<and> foreignRules C (view w' c) = foreignRules C (view w c) \<and>
     (\<forall>u. r = Inr u \<longrightarrow> view w' c = foreignRules C (view w c)))"
proof -
  let ?rs = "view w c"
  define left where "left = (\<lambda>pre. filter (\<lambda>x. \<not> (ours C x \<and> x \<in> set pre)) ?rs)"
  have distinct: "distinct (map fst ?rs)" by (simp add: view_def handles_distinct)
  have left_foreign: "foreignRules C (left pre) = foreignRules C ?rs" for pre
    by (auto simp: left_def foreignRules_def intro: filter_cong)
  have step: "filter (\<lambda>y. fst y \<noteq> fst x) (left pre) = left (pre @ [x])" if "x \<in> set ?rs" "ours C x" for pre x
  proof -
    have "fst y = fst x \<longleftrightarrow> y = x" if "y \<in> set ?rs" for y
      using that \<open>x \<in> set ?rs\<close> distinct by (auto simp: distinct_map inj_on_def)
    with that(2) show ?thesis by (auto simp: left_def intro!: filter_cong)
  qed
  have skip: "left (pre @ [x]) = left pre" if "\<not> ours C x" for pre x
    using that by (auto simp: left_def intro!: filter_cong)
  have "spec (forEach (map seenRule ?rs) (\<lambda>rule. case vr_handle rule of None \<Rightarrow> skip
       | Some h \<Rightarrow> whenP (vr_comment rule \<in> set (map Some C))
         (bnd (ve_execute env ''nft'' (vpnDeleteArgs (chainTable c) (chainName c) h)) (\<lambda>_. skip)))) w (\<lambda>r w'.
     (\<forall>c'. c' \<noteq> c \<longrightarrow> view w' c' = view w c') \<and> foreignRules C (view w' c) = foreignRules C (view w c) \<and>
     (\<forall>u. r = Inr u \<longrightarrow> view w' c = foreignRules C (view w c)))"
  proof (rule spec_forEach [where I = "\<lambda>done w'. (\<forall>c'. c' \<noteq> c \<longrightarrow> view w' c' = view w c') \<and>
      (\<exists>pre post. ?rs = pre @ post \<and> done = map seenRule pre \<and> view w' c = left pre)"])
    show "(\<forall>c'. c' \<noteq> c \<longrightarrow> view w c' = view w c') \<and> (\<exists>pre post. ?rs = pre @ post \<and> [] = map seenRule pre \<and> view w c = left pre)"
      by (auto simp: left_def intro!: exI [of _ "[]"] filter_True [symmetric])
  next
    fix "done" s rest t
    assume split: "map seenRule ?rs = done @ s # rest"
      and inv: "(\<forall>c'. c' \<noteq> c \<longrightarrow> view t c' = view w c') \<and>
        (\<exists>pre post. ?rs = pre @ post \<and> done = map seenRule pre \<and> view t c = left pre)"
    from inv obtain pre post where p: "?rs = pre @ post" "done = map seenRule pre" "view t c = left pre" by blast
    with split obtain x post' where x: "post = x # post'" "s = seenRule x" by (cases post) auto
    let ?Q = "\<lambda>(r :: js_error + unit) u. case r of
        Inl e \<Rightarrow> (\<forall>c'. c' \<noteq> c \<longrightarrow> view u c' = view w c') \<and> foreignRules C (view u c) = foreignRules C (view w c) \<and>
          (\<forall>v. (Inl e :: js_error + unit) = Inr v \<longrightarrow> view u c = foreignRules C (view w c))
      | Inr _ \<Rightarrow> (\<forall>c'. c' \<noteq> c \<longrightarrow> view u c' = view w c') \<and>
          (\<exists>pre post. ?rs = pre @ post \<and> done @ [s] = map seenRule pre \<and> view u c = left pre)"
    have next_ok: "?rs = (pre @ [x]) @ post'" "done @ [s] = map seenRule (pre @ [x])" using p x by simp_all
    have advance: "\<exists>pre post. ?rs = pre @ post \<and> done @ [s] = map seenRule pre \<and> view u c = left pre"
      if "view u c = left (pre @ [x])" for u
      using next_ok that by blast
    from inv have others: "\<forall>c'. c' \<noteq> c \<longrightarrow> view t c' = view w c'" by blast
    show "spec (case vr_handle s of None \<Rightarrow> skip
        | Some h \<Rightarrow> whenP (vr_comment s \<in> set (map Some C))
          (bnd (ve_execute env ''nft'' (vpnDeleteArgs (chainTable c) (chainName c) h)) (\<lambda>_. skip))) t
        (\<lambda>r u. case r of Inl e \<Rightarrow> (\<forall>c'. c' \<noteq> c \<longrightarrow> view u c' = view w c') \<and> foreignRules C (view u c) = foreignRules C (view w c) \<and>
          (\<forall>v. (Inl e :: js_error + unit) = Inr v \<longrightarrow> view u c = foreignRules C (view w c))
        | Inr _ \<Rightarrow> (\<forall>c'. c' \<noteq> c \<longrightarrow> view u c' = view w c') \<and>
          (\<exists>pre post. ?rs = pre @ post \<and> done @ [s] = map seenRule pre \<and> view u c = left pre))"
    proof (cases "ours C x")
      case False
      then have "vr_comment s \<notin> set (map Some C)" by (simp add: x(2) seenRule_def ours_def)
      moreover have "view t c = left (pre @ [x])" using p(3) skip [OF False] by simp
      ultimately show ?thesis using others advance by (simp add: x(2) seenRule_def)
    next
      case True
      then have mem: "vr_comment s \<in> set (map Some C)" by (simp add: x(2) seenRule_def ours_def)
      have "x \<in> set ?rs" using p(1) x(1) by simp
      note st = step [OF this True, of pre]
      have "spec (bnd (ve_execute env ''nft'' (vpnDeleteArgs (chainTable c) (chainName c) (of_int (fst x)))) (\<lambda>_. skip)) t ?Q"
        unfolding env
      proof (rule spec_bnd [OF delete_spec])
        fix e :: js_error and u assume d: "(\<forall>c'. c' \<noteq> c \<longrightarrow> view u c' = view t c') \<and> view u c \<in> {view t c, filter (\<lambda>y. fst y \<noteq> fst x) (view t c)} \<and>
            (\<forall>out :: string \<times> string. Inl e = Inr out \<longrightarrow> view u c = filter (\<lambda>y. fst y \<noteq> fst x) (view t c))"
        then have "view u c = left pre \<or> view u c = left (pre @ [x])" using p(3) st by simp
        then have "foreignRules C (view u c) = foreignRules C ?rs" using left_foreign by metis
        with d inv show "?Q (Inl e) u" by simp
      next
        fix out :: "string \<times> string" and u assume d: "(\<forall>c'. c' \<noteq> c \<longrightarrow> view u c' = view t c') \<and> view u c \<in> {view t c, filter (\<lambda>y. fst y \<noteq> fst x) (view t c)} \<and>
            (\<forall>out'. (Inr out :: js_error + string \<times> string) = Inr out' \<longrightarrow> view u c = filter (\<lambda>y. fst y \<noteq> fst x) (view t c))"
        then have "view u c = left (pre @ [x])" using p(3) st by simp
        from advance [OF this] d others show "spec skip u ?Q" by simp
      qed
      with mem show ?thesis by (simp add: x(2) seenRule_def)
    qed
  next
    fix t assume "(\<forall>c'. c' \<noteq> c \<longrightarrow> view t c' = view w c') \<and>
        (\<exists>pre post. ?rs = pre @ post \<and> map seenRule ?rs = map seenRule pre \<and> view t c = left pre)"
    then obtain pre post where a: "\<forall>c'. c' \<noteq> c \<longrightarrow> view t c' = view w c'" "?rs = pre @ post" "map seenRule ?rs = map seenRule pre"
      "view t c = left pre" by blast
    then have "length ?rs = length pre" by (metis length_map)
    with a(2) have "pre = ?rs" by simp
    with a(4) have "view t c = foreignRules C ?rs" by (auto simp: left_def foreignRules_def intro: filter_cong)
    with a(1) show "(\<forall>c'. c' \<noteq> c \<longrightarrow> view t c' = view w c') \<and> foreignRules C (view t c) = foreignRules C (view w c) \<and>
        (\<forall>u. Inr () = Inr u \<longrightarrow> view t c = foreignRules C (view w c))"
      by (simp add: foreignRules_def)
  qed
  then show ?thesis unfolding deleteRules_def .
qed


lemma rules_spec:
  assumes "ve_execute env = auditedExec m actor"
  shows "spec (vpn_rules env (chainTable c) (chainName c)) w (\<lambda>r w'. view w' = view w \<and> (\<forall>rules. r = Inr rules \<longrightarrow> rules = map seenRule (view w c)))"
  unfolding vpn_rules_def assms
  by (rule spec_bnd [OF list_spec]) (auto split: sum.split)

lemma check_nft:
  assumes "ve_execute env = auditedExec m actor"
  shows "spec (vpn_nft env (''-c'' # args)) w (\<lambda>r w'. view w' = view w)"
  unfolding vpn_nft_def assms by (rule spec_frame) (intro prog_rules audited_frame quiet_check)

text \<open>Listing a chain and deleting our rules from it.\<close>

lemma clear_spec:
  assumes env: "ve_execute env = auditedExec m actor"
  shows "spec (bnd (vpn_rules env (chainTable c) (chainName c)) (deleteRules env (chainTable c) (chainName c) C)) w (\<lambda>r w'.
     (\<forall>c'. c' \<noteq> c \<longrightarrow> view w' c' = view w c') \<and> foreignRules C (view w' c) = foreignRules C (view w c) \<and>
     (\<forall>u. r = Inr u \<longrightarrow> ownRules C (view w' c) = {}))"
proof (rule spec_bnd [OF rules_spec [OF env]])
  fix rules t assume "view t = view w \<and> (\<forall>rules'. Inr rules = Inr rules' \<longrightarrow> rules' = map seenRule (view w c))"
  then have t: "view t = view w" "rules = map seenRule (view t c)" by simp_all
  show "spec (deleteRules env (chainTable c) (chainName c) C rules) t (\<lambda>r w'.
     (\<forall>c'. c' \<noteq> c \<longrightarrow> view w' c' = view w c') \<and> foreignRules C (view w' c) = foreignRules C (view w c) \<and>
     (\<forall>u. r = Inr u \<longrightarrow> ownRules C (view w' c) = {}))"
    unfolding t(2) t(1) [symmetric] by (rule spec_mono [OF deleteRules_spec [OF env]]) auto
qed simp

lemma setNat_parts: "setNat env isConnected enabled =
    thn (bnd (vpn_rules env ''nat'' ''POSTROUTING'') (deleteRules env ''nat'' ''POSTROUTING'' natComments))
   (thn (vpn_nft env (''-c'' # addRuleArgs (natExpr env isConnected) (natComment isConnected)))
   (thn (vpn_nft env (addRuleArgs (natExpr env isConnected) (natComment isConnected)))
   (thn (bnd (vpn_rules env ''filter'' ''ayad_nm_forward'') (deleteRules env ''filter'' ''ayad_nm_forward'' killComments))
        (whenP (enabled \<and> \<not> isConnected)
          (thn (vpn_nft env (''-c'' # insertRuleArgs ''3'' (dropExpr env) ''ayad_nm_vpn_fail_closed''))
               (vpn_nft env (insertRuleArgs ''3'' (dropExpr env) ''ayad_nm_vpn_fail_closed'')))))))"
  by (simp add: setNat_def thn_def bnd_assoc vpnNatArgs_def addRuleArgs_def failClosedArgs_def insertRuleArgs_def killComments_def)

lemma add_nft:
  assumes "ve_execute env = auditedExec m actor"
  shows "spec (vpn_nft env (addRuleArgs expr cm)) w (\<lambda>r w'. view w' ForwardChain = view w ForwardChain \<and>
     (view w' NatChain = view w NatChain \<or> added cm expr (view w NatChain) (view w' NatChain)) \<and>
     (\<forall>u. r = Inr u \<longrightarrow> added cm expr (view w NatChain) (view w' NatChain)))"
  unfolding vpn_nft_def assms by (rule spec_bnd [OF add_spec]) auto

lemma insert_nft:
  assumes "ve_execute env = auditedExec m actor"
  shows "spec (vpn_nft env (insertRuleArgs pos expr cm)) w (\<lambda>r w'. view w' NatChain = view w NatChain \<and>
     (view w' ForwardChain = view w ForwardChain \<or> added cm expr (view w ForwardChain) (view w' ForwardChain)) \<and>
     (\<forall>u. r = Inr u \<longrightarrow> added cm expr (view w ForwardChain) (view w' ForwardChain)))"
  unfolding vpn_nft_def assms by (rule spec_bnd [OF insert_spec]) auto

lemma setNat_spec:
  assumes env: "ve_execute env = auditedExec m actor"
  shows "spec (setNat env isConnected enabled) w (\<lambda>r w'. foreignKept (view w) (view w') \<and>
    (\<forall>u. r = Inr u \<longrightarrow> vpnKernel env isConnected enabled (view w')))"
proof -
  let ?K = "foreignKept (view w)"
  let ?nat = "{(Some (natComment isConnected), natExpr env isConnected)}"
  let ?post = "\<lambda>r w'. ?K (view w') \<and> (\<forall>u. r = Inr u \<longrightarrow> vpnKernel env isConnected enabled (view w'))"
  have member: "natComment isConnected \<in> set natComments" "''ayad_nm_vpn_fail_closed'' \<in> set killComments"
    by (simp_all add: natComment_def natComments_def killComments_def)
  have kill: "spec (whenP (enabled \<and> \<not> isConnected)
      (thn (vpn_nft env (''-c'' # insertRuleArgs ''3'' (dropExpr env) ''ayad_nm_vpn_fail_closed''))
           (vpn_nft env (insertRuleArgs ''3'' (dropExpr env) ''ayad_nm_vpn_fail_closed'')))) t ?post"
    if "?K (view t)" "ownRules natComments (view t NatChain) = ?nat" "ownRules killComments (view t ForwardChain) = {}" for t
  proof (rule spec_whenP)
    assume c: "enabled \<and> \<not> isConnected"
    show "spec (thn (vpn_nft env (''-c'' # insertRuleArgs ''3'' (dropExpr env) ''ayad_nm_vpn_fail_closed''))
           (vpn_nft env (insertRuleArgs ''3'' (dropExpr env) ''ayad_nm_vpn_fail_closed''))) t ?post"
    proof (rule spec_thn [OF check_nft [OF env]])
      fix u :: unit and t1 assume t1: "view t1 = view t"
      show "spec (vpn_nft env (insertRuleArgs ''3'' (dropExpr env) ''ayad_nm_vpn_fail_closed'')) t1 ?post"
      proof (rule spec_mono [OF insert_nft [OF env]])
        fix r :: "js_error + unit" and t2
        assume a: "view t2 NatChain = view t1 NatChain \<and> (view t2 ForwardChain = view t1 ForwardChain \<or>
            added ''ayad_nm_vpn_fail_closed'' (dropExpr env) (view t1 ForwardChain) (view t2 ForwardChain)) \<and>
          (\<forall>u. r = Inr u \<longrightarrow> added ''ayad_nm_vpn_fail_closed'' (dropExpr env) (view t1 ForwardChain) (view t2 ForwardChain))"
        note own = added_own [OF _ member(2), of "dropExpr env" "view t1 ForwardChain" "view t2 ForwardChain"]
        have "foreignRules killComments (view t2 ForwardChain) = foreignRules killComments (view t1 ForwardChain)"
          using a own by (elim conjE disjE) simp_all
        moreover have "ownRules killComments (view t2 ForwardChain) = {(Some ''ayad_nm_vpn_fail_closed'', dropExpr env)}" if "r = Inr u" for u
          using a own that \<open>ownRules killComments (view t ForwardChain) = {}\<close> t1 by simp
        ultimately show "?post r t2" using a c that t1 by (simp add: vpnKernel_def foreignKept_def)
      qed
    qed (use that in simp)
  qed (use that in \<open>auto simp: vpnKernel_def\<close>)
  let ?forward = "thn (bnd (vpn_rules env ''filter'' ''ayad_nm_forward'') (deleteRules env ''filter'' ''ayad_nm_forward'' killComments))
        (whenP (enabled \<and> \<not> isConnected)
          (thn (vpn_nft env (''-c'' # insertRuleArgs ''3'' (dropExpr env) ''ayad_nm_vpn_fail_closed''))
               (vpn_nft env (insertRuleArgs ''3'' (dropExpr env) ''ayad_nm_vpn_fail_closed''))))"
  let ?add = "vpn_nft env (addRuleArgs (natExpr env isConnected) (natComment isConnected))"
  have forward: "spec ?forward t ?post" if "?K (view t)" "ownRules natComments (view t NatChain) = ?nat" for t
    using clear_spec [OF env, of ForwardChain killComments t] that
    by (intro spec_thn [OF clear_spec [OF env, of ForwardChain killComments t, simplified]] kill) (auto simp: foreignKept_def)
  have add: "spec ?add t (\<lambda>r t'. ?K (view t') \<and> (\<forall>u. r = Inr u \<longrightarrow> ownRules natComments (view t' NatChain) = ?nat))"
    if t: "?K (view t)" "ownRules natComments (view t NatChain) = {}" for t
  proof (rule spec_mono [OF add_nft [OF env]])
    fix r :: "js_error + unit" and t'
    assume a: "view t' ForwardChain = view t ForwardChain \<and> (view t' NatChain = view t NatChain \<or>
        added (natComment isConnected) (natExpr env isConnected) (view t NatChain) (view t' NatChain)) \<and>
      (\<forall>u. r = Inr u \<longrightarrow> added (natComment isConnected) (natExpr env isConnected) (view t NatChain) (view t' NatChain))"
    note own = added_own [OF _ member(1), of "natExpr env isConnected" "view t NatChain" "view t' NatChain"]
    have "foreignRules natComments (view t' NatChain) = foreignRules natComments (view t NatChain)"
      using a own by (elim conjE disjE) simp_all
    moreover have "ownRules natComments (view t' NatChain) = ?nat" if "r = Inr u" for u
      using a own that t(2) by simp
    ultimately show "?K (view t') \<and> (\<forall>u. r = Inr u \<longrightarrow> ownRules natComments (view t' NatChain) = ?nat)"
      using a t(1) by (simp add: foreignKept_def)
  qed
  have "spec (thn (vpn_nft env (''-c'' # addRuleArgs (natExpr env isConnected) (natComment isConnected))) (thn ?add ?forward)) t ?post"
    if t: "?K (view t)" "ownRules natComments (view t NatChain) = {}" for t
  proof (rule spec_thn [OF check_nft [OF env]])
    fix u :: unit and t1 assume t1: "view t1 = view t"
    show "spec (thn ?add ?forward) t1 ?post"
      by (rule spec_thn [OF add [of t1]]) (use t t1 forward in auto)
  qed (use t in simp)
  then show ?thesis
    unfolding setNat_parts
    by (intro spec_thn [OF clear_spec [OF env, of NatChain natComments w, simplified]]) (auto simp: foreignKept_def)
qed


subsection \<open>Switching the VPN\<close>

lemma safe_frame: "ve_execute env = auditedExec m actor \<Longrightarrow> command \<in> {''systemctl'', ''ip''} \<Longrightarrow> frame view (vpn_safe env command args)"
  unfolding vpn_safe_def by (auto intro!: prog_rules audited_other)

lemma ready_frame: "ve_execute env = auditedExec m actor \<Longrightarrow> frame view (serviceReady env)"
  unfolding serviceReady_def hasTunnelInterface_def
  by (auto intro!: prog_rules safe_frame audited_other split: prod.split)

lemma poll_frame:
  assumes "ve_execute env = auditedExec m actor"
  shows "frame view (pollReady n env deadline)"
proof (induction n)
  case (Suc n)
  have "frame view (modify (\<lambda>w. w\<lparr>w_now := f w\<rparr>))" for f by (simp add: frame_def view_def)
  with Suc show ?case by (auto intro!: prog_rules ready_frame [OF assms])
qed (unfold pollReady.simps, intro prog_rules)

lemma wait_frame: "ve_execute env = auditedExec m actor \<Longrightarrow> frame view (waitForReadiness env)"
  unfolding waitForReadiness_def by (auto intro!: prog_rules poll_frame)

lemma apply_spec:
  fixes actor tunnel uplink clientSubnet :: string and sshPort dashboardPort :: nat
  defines "env \<equiv> vpnEnvOf m actor sshPort dashboardPort tunnel uplink clientSubnet"
  shows "spec (vpn_apply env enabled) w (\<lambda>r w'. foreignKept (view w) (view w') \<and>
    (\<forall>b. r = Inr b \<longrightarrow> (b \<longrightarrow> enabled) \<and> vpnKernel env b enabled (view w')))"
proof -
  have env: "ve_execute env = auditedExec m actor" and guard: "frame view (ve_setGuard env b)" for b
    by (simp_all add: env_def vpnEnvOf_def guard_frame)
  have nat: "spec (thn (setNat env c e) (ret c)) t (\<lambda>r w'. foreignKept (view w) (view w') \<and>
      (\<forall>b. r = Inr b \<longrightarrow> b = c \<and> vpnKernel env c e (view w')))" if "view t = view w" for t c e
    unfolding that [symmetric] by (rule spec_thn [OF setNat_spec [OF env]]) auto
  have same: "foreignKept v v" for v by (simp add: foreignKept_def)
  show ?thesis
  proof (cases enabled)
    case False
    then show ?thesis
      unfolding vpn_apply_def
      using same
      by (simp, intro spec_thn [OF spec_frame [OF guard]] spec_bnd [OF spec_frame [OF safe_frame [OF env]]] spec_mono [OF nat]) auto
  next
    case True
    have "spec (thn (ve_setGuard env True) (thn (setNat env c True) (ret c))) t (\<lambda>r w'. foreignKept (view w) (view w') \<and>
        (\<forall>b. r = Inr b \<longrightarrow> b = c \<and> vpnKernel env c True (view w')))" if "view t = view w" for t c
      using that same by (intro spec_thn [OF spec_frame [OF guard]] spec_mono [OF nat]) auto
    with True show ?thesis
      unfolding vpn_apply_def
      using same
      by (simp, intro spec_bnd [OF spec_frame [OF safe_frame [OF env]]] spec_bnd [OF spec_frame [OF wait_frame [OF env]]])
        (auto intro: spec_mono)
  qed
qed

lemma sync_spec:
  fixes actor tunnel uplink clientSubnet :: string and sshPort dashboardPort :: nat
  defines "env \<equiv> vpnEnvOf m actor sshPort dashboardPort tunnel uplink clientSubnet"
  shows "spec (vpn_syncConnectionState env enabled isConnected) w (\<lambda>r w'. \<forall>u. r = Inr u \<longrightarrow> vpnKernel env isConnected enabled (view w'))"
proof -
  have env: "ve_execute env = auditedExec m actor" and guard: "frame view (ve_setGuard env b)" for b
    by (simp_all add: env_def vpnEnvOf_def guard_frame)
  show ?thesis
    unfolding vpn_syncConnectionState_def
    by (intro spec_thn [OF spec_frame [OF guard]] spec_mono [OF setNat_spec [OF env]]) auto
qed


subsection \<open>What the service stores\<close>

lemma inWorld_spec:
  "spec p (vp_world s) Q \<Longrightarrow> spec (inWorld p) s (\<lambda>r t. Q r (vp_world t) \<and> vp_row t = vp_row s \<and> vp_monitoring t = vp_monitoring s)"
  by (auto simp: spec_def inWorld_def split: prod.splits)

lemma select_view: "frame view (select f)"
  by (auto simp: frame_def select_def query_def view_def Let_def)

lemma audit_view: "frame view (PrismaOperations_audit d)"
  unfolding view_def [abs_def] by (rule audit_keeps)

text \<open>A write of the row changes only the row, if anything.\<close>

lemma upsert_spec:
  "spec (vpnUpsert f) s (\<lambda>r t. view (vp_world t) = view (vp_world s) \<and>
     (case r of Inl _ \<Rightarrow> vp_row t = vp_row s | Inr st \<Rightarrow> (\<exists>v. vp_row t = Some v \<and> st = toState (Some v) \<and>
        v = f (case vp_row s of Some v \<Rightarrow> v
          | None \<Rightarrow> \<lparr>vc_vmessLink = [], vc_enabled = False, vc_connected = False, vc_lastConnectedAt = None\<rparr>))))"
  unfolding vpnUpsert_def
  by (rule spec_thn [OF inWorld_spec [OF spec_frame [OF select_view]]])
    (auto simp: spec_def bnd_def thn_def Let_def)

lemma setConnected_spec:
  "spec (PrismaVpn_setConnected b) s (\<lambda>r t. view (vp_world t) = view (vp_world s) \<and>
     (case r of Inl _ \<Rightarrow> vp_row t = vp_row s | Inr st \<Rightarrow> (\<exists>v. vp_row t = Some v \<and> st = toState (Some v) \<and>
        vc_connected v = b \<and> vc_enabled v = vs_enabled (toState (vp_row s)))))"
  unfolding PrismaVpn_setConnected_def
  by (rule spec_bnd [OF spec_gets [where Q = "\<lambda>r t. t = s"]])
    (auto intro!: spec_mono [OF upsert_spec] simp: toState_def split: sum.splits option.splits)

lemma setEnabled_row_spec:
  "spec (PrismaVpn_setEnabled e) s (\<lambda>r t. view (vp_world t) = view (vp_world s) \<and>
     (case r of Inl _ \<Rightarrow> vp_row t = vp_row s | Inr st \<Rightarrow> (\<exists>v. vp_row t = Some v \<and> vc_enabled v = e)))"
  unfolding PrismaVpn_setEnabled_def
  by (auto intro!: spec_mono [OF upsert_spec] split: sum.splits)

lemma get_spec: "spec PrismaVpn_get s (\<lambda>r t. view (vp_world t) = view (vp_world s) \<and> vp_row t = vp_row s \<and>
    vp_monitoring t = vp_monitoring s \<and> (\<forall>st. r = Inr st \<longrightarrow> st = toState (vp_row s)))"
  unfolding PrismaVpn_get_def
  by (rule spec_thn [OF inWorld_spec [OF spec_frame [OF select_view]]]) (auto simp: spec_def)

lemma vpnAudit_spec:
  "spec (vpnAudit deps action details) s (\<lambda>r t. vp_row t = vp_row s \<and>
     (vd_audit deps = Some PrismaOperations_audit \<longrightarrow> view (vp_world t) = view (vp_world s)))"
proof (cases "vd_audit deps")
  case (Some a)
  have "spec (inWorld p) s (\<lambda>r t. vp_row t = vp_row s)" for p :: "('k world, unit) prog"
    by (auto simp: spec_def inWorld_def split: prod.splits)
  moreover have "spec (inWorld (PrismaOperations_audit d)) s (\<lambda>r t. view (vp_world t) = view (vp_world s))" for d
    by (rule spec_mono [OF inWorld_spec [OF spec_frame [OF audit_view]]]) simp
  ultimately show ?thesis unfolding vpnAudit_def Some by (cases "a = PrismaOperations_audit") (auto intro: spec_conj)
qed (simp add: vpnAudit_def)

lemma service_setEnabled_spec:
  fixes actor tunnel uplink clientSubnet :: string and sshPort dashboardPort :: nat
  defines "env \<equiv> vpnEnvOf m actor sshPort dashboardPort tunnel uplink clientSubnet"
  shows "spec (VpnService_setEnabled (vpnDepsOf env conf) enabled) s (\<lambda>r t.
    foreignKept (view (vp_world s)) (view (vp_world t)) \<and>
    (\<forall>st. r = Inr st \<longrightarrow> (\<exists>v. vp_row t = Some v \<and> st = toState (Some v) \<and> vc_enabled v = enabled \<and>
       (vc_connected v \<longrightarrow> enabled) \<and> vpnKernel env (vc_connected v) enabled (view (vp_world t)))))"
proof -
  let ?deps = "vpnDepsOf env conf"
  let ?K = "\<lambda>t. foreignKept (view (vp_world s)) (view (vp_world t))"
  let ?post = "\<lambda>r t. ?K t \<and> (\<forall>st. r = Inr st \<longrightarrow> (\<exists>v. vp_row t = Some v \<and> st = toState (Some v) \<and> vc_enabled v = enabled \<and>
       (vc_connected v \<longrightarrow> enabled) \<and> vpnKernel env (vc_connected v) enabled (view (vp_world t))))"
  have audit: "vd_audit ?deps = Some PrismaOperations_audit" and app: "vd_apply ?deps = vpn_apply env" by (simp_all add: vpnDepsOf_def)
  have same: "foreignKept x x" for x by (simp add: foreignKept_def)
  have body: "spec (bnd (inWorld (vpn_apply env enabled)) (\<lambda>connected.
         bnd (PrismaVpn_setEnabled enabled) (\<lambda>_.
         bnd (PrismaVpn_setConnected (enabled \<and> connected)) (\<lambda>result.
         thn (vpnAudit ?deps action [(''connected'', showBool (vs_connected result)), (''result'', ''success'')])
             (ret result))))) t ?post" if t: "view (vp_world t) = view (vp_world s)" for t action
    apply (rule spec_bnd [OF inWorld_spec [OF apply_spec [of actor sshPort dashboardPort tunnel uplink clientSubnet, folded env_def]]])
     apply (use t in simp)
    apply (rule spec_bnd [OF setEnabled_row_spec])
     apply (use t in simp)
    apply (rule spec_bnd [OF setConnected_spec])
     apply (use t in simp)
    apply (rule spec_thn [OF vpnAudit_spec])
     apply (use t in \<open>auto simp: audit\<close>)[1]
    using t by (auto simp: audit toState_def)
  have fail: "spec (thn (vpnAudit ?deps action details) (throw e)) t ?post" if "?K t" for t action details e
    by (rule spec_thn [OF vpnAudit_spec]) (use that in \<open>auto simp: audit\<close>)
  show ?thesis
    unfolding VpnService_setEnabled_def Let_def app
    apply (rule spec_bnd [OF get_spec])
     apply (simp add: same)
    apply (rule spec_if)
     apply (simp add: same)
    apply (rule spec_tryCatch [OF body])
      apply simp
     apply (rule fail)
     apply simp
    apply simp
    done
qed


text \<open>A tick of the monitor that does not reject: what is stored as connected is what the kernel does.\<close>

lemma status_frame: "ve_execute env = auditedExec m actor \<Longrightarrow> frame view (vpn_getStatus env)"
  unfolding vpn_getStatus_def hasTunnelInterface_def
  by (auto intro!: prog_rules safe_frame audited_other split: prod.split)

lemma checkBody_spec:
  fixes actor tunnel uplink clientSubnet :: string and sshPort dashboardPort :: nat
  defines "env \<equiv> vpnEnvOf m actor sshPort dashboardPort tunnel uplink clientSubnet"
  assumes "vs_enabled (toState (vp_row s))"
  shows "spec (checkBody (vpnDepsOf env conf) (vpn_getStatus env)) s (\<lambda>r t.
    r = Inr () \<longrightarrow> vs_connected (toState (vp_row t)) \<longrightarrow> vpnKernel env True True (view (vp_world t)))"
proof -
  let ?deps = "vpnDepsOf env conf"
  let ?ok = "\<lambda>t. vs_connected (toState (vp_row t)) \<longrightarrow> vpnKernel env True True (view (vp_world t))"
  have deps [simp]: "vd_audit ?deps = Some PrismaOperations_audit" "vd_apply ?deps = vpn_apply env"
    "vd_syncConnectionState ?deps = Some (vpn_syncConnectionState env)" by (simp_all add: vpnDepsOf_def)
  have env: "ve_execute env = auditedExec m actor" by (simp add: env_def vpnEnvOf_def)
  have audited: "spec (vpnAudit ?deps action details) t (\<lambda>r t. r = Inr () \<longrightarrow> ?ok t)" if "?ok t" for t action details
    by (rule spec_mono [OF vpnAudit_spec]) (use that in auto)
  have stay: "spec (thn (inWorld (vpn_syncConnectionState env True True)) (whenP (\<not> vs_connected desired)
              (bnd (PrismaVpn_setConnected True) (\<lambda>_. vpnAudit ?deps ''vpn-state-change'' details)))) t (\<lambda>r t. r = Inr () \<longrightarrow> ?ok t)"
    for t desired details
    apply (rule spec_thn [OF inWorld_spec [OF sync_spec [of actor sshPort dashboardPort tunnel uplink clientSubnet, folded env_def]]])
     apply simp
    apply (rule spec_whenP)
     apply (rule spec_bnd [OF setConnected_spec])
      apply simp
     apply (rule audited)
     apply auto
    done
  have recover: "spec (bnd (inWorld (vpn_apply env True)) (\<lambda>recovered.
          bnd (PrismaVpn_setConnected recovered) (\<lambda>_.
          whenP (vs_connected desired \<noteq> recovered) (vpnAudit ?deps action (details recovered))))) t (\<lambda>r t. r = Inr () \<longrightarrow> ?ok t)"
    for t desired action details
    apply (rule spec_bnd [OF inWorld_spec [OF apply_spec [of actor sshPort dashboardPort tunnel uplink clientSubnet, folded env_def]]])
     apply simp
    apply (rule spec_bnd [OF setConnected_spec])
     apply simp
    apply (rule spec_whenP)
     apply (rule audited)
     apply (auto simp: toState_def)
    done
  show ?thesis
    unfolding checkBody_def
    apply (rule spec_bnd [OF get_spec])
     apply simp
    apply (rule spec_whenP)
     apply (rule spec_bnd [OF inWorld_spec [OF spec_frame [OF status_frame [OF env]]]])
      apply simp
     subgoal for desired t v u
       by (cases v) (simp only: prod.case deps optCall_simps, intro spec_if stay recover)
    using assms(2) apply simp
    done
qed

lemma checkConnection_spec:
  fixes actor tunnel uplink clientSubnet :: string and sshPort dashboardPort :: nat
  defines "env \<equiv> vpnEnvOf m actor sshPort dashboardPort tunnel uplink clientSubnet"
  assumes "vs_enabled (toState (vp_row s))" "\<not> vp_monitoring s"
  shows "spec (checkConnection (vpnDepsOf env conf)) s (\<lambda>r t. \<not> vp_monitoring t \<and>
    (r = Inr () \<longrightarrow> vs_connected (toState (vp_row t)) \<longrightarrow> vpnKernel env True True (view (vp_world t))))"
proof -
  let ?deps = "vpnDepsOf env conf"
  let ?catch = "\<lambda>error. bnd (PrismaVpn_setConnected False) (\<lambda>_.
               vpnAudit ?deps ''vpn-state-change'' [(''to'', ''false''), (''result'', ''monitor-error''), (''error'', errorMessage error)])"
  let ?s = "s\<lparr>vp_monitoring := True\<rparr>"
  let ?ok = "\<lambda>t. vs_connected (toState (vp_row t)) \<longrightarrow> vpnKernel env True True (view (vp_world t))"
  have "spec (?catch e) t (\<lambda>r t. r = Inr () \<longrightarrow> ?ok t)" for e and t :: "'k Vpn"
  proof (rule spec_bnd [OF setConnected_spec])
    fix st and u :: "'k Vpn" assume "view (vp_world u) = view (vp_world t) \<and> (case Inr st of Inl _ \<Rightarrow> vp_row u = vp_row t
       | Inr st \<Rightarrow> \<exists>v. vp_row u = Some v \<and> st = toState (Some v) \<and> vc_connected v = False \<and> vc_enabled v = vs_enabled (toState (vp_row t)))"
    then have "\<not> vs_connected (toState (vp_row u))" by (auto simp: toState_def)
    then show "spec (vpnAudit ?deps ''vpn-state-change'' [(''to'', ''false''), (''result'', ''monitor-error''), (''error'', errorMessage e)]) u
        (\<lambda>r t. r = Inr () \<longrightarrow> ?ok t)"
      by (intro spec_mono [OF vpnAudit_spec]) auto
  qed simp
  then have body: "spec (tryCatch (checkBody ?deps (vpn_getStatus env)) ?catch) ?s (\<lambda>r t. r = Inr () \<longrightarrow> ?ok t)"
    using assms(2) by (intro spec_tryCatch [OF checkBody_spec [of ?s actor sshPort dashboardPort tunnel uplink clientSubnet, folded env_def]]) auto
  obtain r t where run: "tryCatch (checkBody ?deps (vpn_getStatus env)) ?catch ?s = (r, t)" by fastforce
  have "checkConnection ?deps s = (r, t\<lparr>vp_monitoring := False\<rparr>)"
    using assms(3) run by (simp add: checkConnection_def vpnDepsOf_def bnd_def thn_def tryFinally_def)
  moreover have "r = Inr () \<longrightarrow> ?ok t" using specD [OF body run] .
  ultimately show ?thesis by (simp add: spec_def)
qed

end

section \<open>A machine with rules\<close>

text \<open>
  A machine for closed examples: it knows the three rules of this program, one of somebody else, and
  answers every command of the controller. The tunnel may be there or not.
\<close>

record VpnKernel =
  vk_foreign :: bool
  vk_uplinkNat :: bool
  vk_vpnNat :: bool
  vk_kill :: bool
  vk_tunnel :: bool

definition simUplink :: vpnRule where
  "simUplink = (11, Some ''ayad_nm_single_interface_nat'', [''ip'', ''saddr'', ''10.0.0.0/24'', ''oifname'', ''wan0'', ''masquerade''])"

definition simVpnNat :: vpnRule where
  "simVpnNat = (12, Some ''ayad_nm_vpn_nat'', [''ip'', ''saddr'', ''10.0.0.0/24'', ''oifname'', ''tun0'', ''masquerade''])"

definition simKill :: vpnRule where
  "simKill = (13, Some ''ayad_nm_vpn_fail_closed'', [''ip'', ''saddr'', ''10.0.0.0/24'', ''oifname'', ''wan0'', ''drop''])"

definition simForeign :: vpnRule where
  "simForeign = (14, Some ''somebody'', [''counter''])"

definition simChain :: "VpnChain \<Rightarrow> VpnKernel \<Rightarrow> vpnRule list" where
  "simChain c k = (case c of
     NatChain \<Rightarrow> filter (\<lambda>r. (r = simForeign \<and> vk_foreign k) \<or> (r = simUplink \<and> vk_uplinkNat k) \<or> (r = simVpnNat \<and> vk_vpnNat k))
       [simForeign, simUplink, simVpnNat]
   | ForwardChain \<Rightarrow> filter (\<lambda>r. vk_kill k) [simKill])"

definition simRuleJson :: "vpnRule \<Rightarrow> string" where
  "simRuleJson r = ''{'' @ [CHR 0x22] @ ''rule'' @ [CHR 0x22] @ '':{'' @ [CHR 0x22] @ ''comment'' @ [CHR 0x22, CHR '':'', CHR 0x22] @
     the (fst (snd r)) @ [CHR 0x22] @ '','' @ [CHR 0x22] @ ''handle'' @ [CHR 0x22, CHR '':''] @ showInt (fst r) @ ''}}''"

definition simChainListing :: "vpnRule list \<Rightarrow> string" where
  "simChainListing rs = ''{'' @ [CHR 0x22] @ ''nftables'' @ [CHR 0x22] @ '':['' @ joinWith '','' (map simRuleJson rs) @ '']}''"

definition simVpnNft :: "string list \<Rightarrow> VpnKernel \<Rightarrow> (ExecFailure + string \<times> string) \<times> VpnKernel" where
  "simVpnNft args k =
     (let done = (\<lambda>k. (Inr ([], []), k)) in
      if args = listChainArgs ''nat'' ''POSTROUTING'' then (Inr (simChainListing (simChain NatChain k), []), k)
      else if args = listChainArgs ''filter'' ''ayad_nm_forward'' then (Inr (simChainListing (simChain ForwardChain k), []), k)
      else if args = vpnDeleteArgs ''nat'' ''POSTROUTING'' 11 then done (k\<lparr>vk_uplinkNat := False\<rparr>)
      else if args = vpnDeleteArgs ''nat'' ''POSTROUTING'' 12 then done (k\<lparr>vk_vpnNat := False\<rparr>)
      else if args = vpnDeleteArgs ''nat'' ''POSTROUTING'' 14 then done (k\<lparr>vk_foreign := False\<rparr>)
      else if args = vpnDeleteArgs ''filter'' ''ayad_nm_forward'' 13 then done (k\<lparr>vk_kill := False\<rparr>)
      else if args = addRuleArgs (snd (snd simUplink)) ''ayad_nm_single_interface_nat'' then done (k\<lparr>vk_uplinkNat := True\<rparr>)
      else if args = addRuleArgs (snd (snd simVpnNat)) ''ayad_nm_vpn_nat'' then done (k\<lparr>vk_vpnNat := True\<rparr>)
      else if args = insertRuleArgs ''3'' (snd (snd simKill)) ''ayad_nm_vpn_fail_closed'' then done (k\<lparr>vk_kill := True\<rparr>)
      else if quietArgs args then done k
      else (Inl \<lparr>xf_message = ''Command failed'', xf_stderr = None\<rparr>, k))"

definition vpnAgent :: AgentConfig where
  "vpnAgent = \<lparr>g_cwd = ''/opt/ayad-nm'', g_client = ''lan0'', g_uplink = ''wan0'', g_tun = ''tun0'',
     g_snapshotDir = ''/var/lib/ayad-nm/snapshots'', g_nftablesPath = ''/etc/nftables.conf'',
     g_vpnConfig = ''/etc/sing-box/config.json'', g_vpnStage = ''/run/ayad-nm/sing-box.json'',
     g_vpnInstallUnit = ''ayad-nm-vpn-install.service''\<rparr>"

definition simLinks :: "bool \<Rightarrow> string" where
  "simLinks tunnel = (if tunnel then ''[{'' @ [CHR 0x22] @ ''ifname'' @ [CHR 0x22, CHR '':'', CHR 0x22] @ ''tun0'' @ [CHR 0x22] @ ''}]'' else ''[]'')"

definition vpnMachine :: "VpnKernel Machine" where
  "vpnMachine = \<lparr>m_exec = (\<lambda>command args timeout k.
       if command = ''/usr/sbin/nft'' then simVpnNft args k
       else (Inr (simLinks (vk_tunnel k), []), k)),
     m_writeFile = (\<lambda>path content k. (Inr (), k)), m_unlink = (\<lambda>path k. (Inr (), k)),
     m_agent = vpnAgent, m_socketPath = Some ''/run/ayad-nm/enforcement.sock''\<rparr>"

lemma nftTool_vpn: "nftTool vpnMachine args k = simVpnNft args k"
  by (simp add: nftTool_def vpnMachine_def)

lemma showInt_inject [simp]: "showInt a = showInt b \<longleftrightarrow> a = b"
proof
  have digits: "CHR ''-'' \<notin> set (showNat n)" for n using showNat_digits [of n] by (auto simp: isDigit_def)
  have nats: "showNat x = showNat y \<Longrightarrow> x = y" for x y by (metis readNat_showNat)
  assume "showInt a = showInt b"
  with digits [of "nat a"] digits [of "nat b"] show "a = b"
    by (auto simp: showInt_def split: if_splits dest!: nats) (metis list.set_intros(1))+
qed simp

lemma quiet_not:
  "\<not> quietArgs (vpnDeleteArgs t c h)" "\<not> quietArgs (addRuleArgs e cm)" "\<not> quietArgs (insertRuleArgs p e cm)"
  by (simp_all add: quietArgs_def vpnDeleteArgs_def addRuleArgs_def insertRuleArgs_def argIs_def argIn_def arg_def)

lemma ruleArgs_eq [simp]:
  "vpnDeleteArgs t c (of_int h) = vpnDeleteArgs t' c' (numeral n) \<longleftrightarrow> t = t' \<and> c = c' \<and> h = numeral n"
  "addRuleArgs e cm = addRuleArgs e' cm' \<longleftrightarrow> e = e' \<and> cm = cm'"
  "insertRuleArgs p e cm = insertRuleArgs p' e' cm' \<longleftrightarrow> p = p' \<and> e = e' \<and> cm = cm'"
  by (auto simp: vpnDeleteArgs_def addRuleArgs_def insertRuleArgs_def)

lemma ruleArgs_differ [simp]:
  "vpnDeleteArgs t c q \<noteq> addRuleArgs e cm" "vpnDeleteArgs t c q \<noteq> insertRuleArgs p e cm" "addRuleArgs e cm \<noteq> insertRuleArgs p e' cm'"
  "addRuleArgs e cm \<noteq> vpnDeleteArgs t c q" "insertRuleArgs p e cm \<noteq> vpnDeleteArgs t c q" "insertRuleArgs p e' cm' \<noteq> addRuleArgs e cm"
  "listChainArgs t c \<noteq> vpnDeleteArgs t' c' q" "listChainArgs t c \<noteq> addRuleArgs e cm" "listChainArgs t c \<noteq> insertRuleArgs p e cm"
  "vpnDeleteArgs t' c' q \<noteq> listChainArgs t c" "addRuleArgs e cm \<noteq> listChainArgs t c" "insertRuleArgs p e cm \<noteq> listChainArgs t c"
  by (simp_all add: vpnDeleteArgs_def addRuleArgs_def insertRuleArgs_def listChainArgs_def)

lemma listing_parsed: "list_all (\<lambda>rs. parseVpnRules (simChainListing rs) = Inr (map seenRule rs))
    ([] # [simKill] # subseqs [simForeign, simUplink, simVpnNat])"
  by code_simp

lemma simChain_listed: "parseVpnRules (simChainListing (simChain c k)) = Inr (map seenRule (simChain c k))"
proof -
  have "simChain c k \<in> set ([] # [simKill] # subseqs [simForeign, simUplink, simVpnNat])"
    by (cases c; cases "vk_kill k"; cases "vk_foreign k"; cases "vk_uplinkNat k"; cases "vk_vpnNat k")
      (simp_all add: simChain_def Let_def)
  with listing_parsed show ?thesis unfolding list_all_iff by blast
qed

lemma simChain_upd [simp]:
  "simChain ForwardChain (k\<lparr>vk_foreign := b\<rparr>) = simChain ForwardChain k"
  "simChain ForwardChain (k\<lparr>vk_uplinkNat := b\<rparr>) = simChain ForwardChain k"
  "simChain ForwardChain (k\<lparr>vk_vpnNat := b\<rparr>) = simChain ForwardChain k"
  "simChain NatChain (k\<lparr>vk_kill := b\<rparr>) = simChain NatChain k"
  by (simp_all add: simChain_def)

lemma sim_delete:
  "simVpnNft (vpnDeleteArgs ''nat'' ''POSTROUTING'' (of_int h)) k =
     (if h = 11 then (Inr ([], []), k\<lparr>vk_uplinkNat := False\<rparr>) else if h = 12 then (Inr ([], []), k\<lparr>vk_vpnNat := False\<rparr>)
      else if h = 14 then (Inr ([], []), k\<lparr>vk_foreign := False\<rparr>) else (Inl \<lparr>xf_message = ''Command failed'', xf_stderr = None\<rparr>, k))"
  "simVpnNft (vpnDeleteArgs ''filter'' ''ayad_nm_forward'' (of_int h)) k =
     (if h = 13 then (Inr ([], []), k\<lparr>vk_kill := False\<rparr>) else (Inl \<lparr>xf_message = ''Command failed'', xf_stderr = None\<rparr>, k))"
  by (simp_all add: simVpnNft_def quiet_not)

lemma sim_add:
  "simVpnNft (addRuleArgs expr comment) k =
     (if (Some comment, expr) = snd simUplink then (Inr ([], []), k\<lparr>vk_uplinkNat := True\<rparr>)
      else if (Some comment, expr) = snd simVpnNat then (Inr ([], []), k\<lparr>vk_vpnNat := True\<rparr>)
      else (Inl \<lparr>xf_message = ''Command failed'', xf_stderr = None\<rparr>, k))"
  by (auto simp: simVpnNft_def quiet_not simUplink_def simVpnNat_def)

lemma sim_insert:
  "simVpnNft (insertRuleArgs position expr comment) k =
     (if position = ''3'' \<and> (Some comment, expr) = snd simKill then (Inr ([], []), k\<lparr>vk_kill := True\<rparr>)
      else (Inl \<lparr>xf_message = ''Command failed'', xf_stderr = None\<rparr>, k))"
  by (auto simp: simVpnNft_def quiet_not simKill_def)

lemma simChain_without:
  "filter (\<lambda>x. fst x \<noteq> 11) (simChain NatChain k) = simChain NatChain (k\<lparr>vk_uplinkNat := False\<rparr>)"
  "filter (\<lambda>x. fst x \<noteq> 12) (simChain NatChain k) = simChain NatChain (k\<lparr>vk_vpnNat := False\<rparr>)"
  "filter (\<lambda>x. fst x \<noteq> 14) (simChain NatChain k) = simChain NatChain (k\<lparr>vk_foreign := False\<rparr>)"
  "filter (\<lambda>x. fst x \<noteq> 13) (simChain ForwardChain k) = simChain ForwardChain (k\<lparr>vk_kill := False\<rparr>)"
  by (simp_all add: simChain_def simForeign_def simUplink_def simVpnNat_def simKill_def)

lemma simChain_with:
  "added ''ayad_nm_single_interface_nat'' (snd (snd simUplink)) (simChain NatChain k) (simChain NatChain (k\<lparr>vk_uplinkNat := True\<rparr>))"
  "added ''ayad_nm_vpn_nat'' (snd (snd simVpnNat)) (simChain NatChain k) (simChain NatChain (k\<lparr>vk_vpnNat := True\<rparr>))"
  "added ''ayad_nm_vpn_fail_closed'' (snd (snd simKill)) (simChain ForwardChain k) (simChain ForwardChain (k\<lparr>vk_kill := True\<rparr>))"
  by (simp_all add: added_def simChain_def simForeign_def simUplink_def simVpnNat_def simKill_def)

lemma simRule_names: "fst (snd simUplink) = Some ''ayad_nm_single_interface_nat''" "fst (snd simVpnNat) = Some ''ayad_nm_vpn_nat''"
  "fst (snd simKill) = Some ''ayad_nm_vpn_fail_closed''"
  by (simp_all add: simUplink_def simVpnNat_def simKill_def)

lemma simRule_eq: "(Some comment, expr) = snd r \<longleftrightarrow> Some comment = fst (snd r) \<and> expr = snd (snd r)" for r :: vpnRule
  by (cases r) auto

interpretation simVpn: chain_tool vpnMachine simChain
proof
  fix c k
  show "distinct (map fst (simChain c k))"
    by (cases c) (auto simp: simChain_def simForeign_def simUplink_def simVpnNat_def)
next
  fix args c k assume "quietArgs args"
  then show "simChain c (snd (nftTool vpnMachine args k)) = simChain c k"
    using quiet_not by (auto simp: nftTool_vpn simVpnNft_def Let_def)
next
  fix c k out err k' assume "nftTool vpnMachine (listChainArgs (chainTable c) (chainName c)) k = (Inr (out, err), k')"
  then have "out = simChainListing (simChain c k)" by (cases c) (auto simp: nftTool_vpn simVpnNft_def listChainArgs_def)
  then show "parseVpnRules out = Inr (map seenRule (simChain c k))" by (simp add: simChain_listed)
next
  fix c h k r k' c' assume run: "nftTool vpnMachine (vpnDeleteArgs (chainTable c) (chainName c) (of_int h)) k = (r, k')"
  show "(c' \<noteq> c \<longrightarrow> simChain c' k' = simChain c' k) \<and> simChain c k' \<in> {simChain c k, filter (\<lambda>x. fst x \<noteq> h) (simChain c k)} \<and>
      (\<forall>out. r = Inr out \<longrightarrow> simChain c k' = filter (\<lambda>x. fst x \<noteq> h) (simChain c k))"
  proof (cases c)
    case NatChain
    show ?thesis using run [symmetric] unfolding NatChain
      by (cases c') (simp_all add: nftTool_vpn sim_delete simChain_without split: if_split_asm)
  next
    case ForwardChain
    show ?thesis using run [symmetric] unfolding ForwardChain
      by (cases c') (simp_all add: nftTool_vpn sim_delete simChain_without split: if_split_asm)
  qed
next
  fix expr comment k r k' assume "nftTool vpnMachine (addRuleArgs expr comment) k = (r, k')"
  from this [symmetric] show "simChain ForwardChain k' = simChain ForwardChain k \<and>
      (simChain NatChain k' = simChain NatChain k \<or> added comment expr (simChain NatChain k) (simChain NatChain k')) \<and>
      (\<forall>out. r = Inr out \<longrightarrow> added comment expr (simChain NatChain k) (simChain NatChain k'))"
    by (simp add: nftTool_vpn sim_add simRule_eq simRule_names simChain_with split: if_split_asm)
next
  fix position expr comment k r k' assume "nftTool vpnMachine (insertRuleArgs position expr comment) k = (r, k')"
  from this [symmetric] show "simChain NatChain k' = simChain NatChain k \<and>
      (simChain ForwardChain k' = simChain ForwardChain k \<or> added comment expr (simChain ForwardChain k) (simChain ForwardChain k')) \<and>
      (\<forall>out. r = Inr out \<longrightarrow> added comment expr (simChain ForwardChain k) (simChain ForwardChain k'))"
    by (simp add: nftTool_vpn sim_insert simRule_eq simRule_names simChain_with split: if_split_asm)
next
  fix command c args t k assume "command \<in> {''systemctl'', ''ip''}"
  then show "simChain c (snd (m_exec vpnMachine command args t k)) = simChain c k" by (auto simp: vpnMachine_def)
qed

end
