(* ===== verification/VpnControl.thy ===== *)
theory VpnControl
  imports Progress VpnFacts
begin

text \<open>
  The properties of the VPN service composed with its repository, the controller, the audited executor
  and the socket, and runs of it that succeed: on the machine of \<open>VpnFacts\<close> with a healthy world every
  operation returns.
\<close>

section \<open>The machine answers\<close>

lemma healthy_now [simp]: "healthy D (w\<lparr>w_now := t\<rparr>) = healthy D w"
  by (simp add: healthy_def)

lemma alive_modify: "(\<And>s. P s \<Longrightarrow> P (f s)) \<Longrightarrow> alive P (modify f)"
  by (auto simp: yields_def)

lemma vpn_attempt:
  assumes "agent_valid vpnAgent c args" "c \<noteq> ''write-sing-box-config''"
    and "\<And>k. \<exists>out k'. executeLocal vpnMachine 30000 c args k = (Inr out, k') \<and> V out"
  shows "yields (healthy D) (remoteAttempts vpnMachine c args (Suc n)) V"
  unfolding yields_def
proof (intro allI impI)
  fix w :: "VpnKernel world" assume h: "healthy D w"
  obtain out k' where run: "executeLocal vpnMachine 30000 c args (w_kernel w) = (Inr out, k')" and V: "V out"
    using assms(3) by blast
  have agent: "m_agent vpnMachine = vpnAgent" by (simp add: vpnMachine_def)
  from h assms(1,2) run have "executeRemoteOnce vpnMachine c args w =
      (Inr out, w\<lparr>w_attempt := Suc (w_attempt w), w_kernel := k'\<rparr>)"
    by (simp add: executeRemoteOnce_def executeRequest_def agent healthy_def Let_def)
  with h V show "\<exists>x t. remoteAttempts vpnMachine c args (Suc n) w = (Inr x, t) \<and> healthy D t \<and> V x" by simp
qed

lemma vpn_yields:
  assumes "agent_valid vpnAgent c args" "c \<noteq> ''write-sing-box-config''"
    and "\<And>k. \<exists>out k'. executeLocal vpnMachine 30000 c args k = (Inr out, k') \<and> V out"
  shows "yields (healthy D) (LinuxExecutor_execute vpnMachine c args) V"
  using vpn_attempt [OF assms, of D 19] by (simp add: LinuxExecutor_execute_def vpnMachine_def truthy_def
      REMOTE_CONNECT_RETRIES_def numeral_eq_Suc del: remoteAttempts.simps)

text \<open>A command of nft that the machine carries out, and its check.\<close>

definition answered :: "string list \<Rightarrow> bool" where
  "answered args \<longleftrightarrow> agent_valid vpnAgent ''nft'' args \<and> agent_valid vpnAgent ''nft'' (''-c'' # args) \<and>
     (\<forall>k. \<exists>out k'. simVpnNft args k = (Inr out, k'))"

lemma sim_quiet:
  assumes "quietArgs args" "args \<noteq> listChainArgs ''nat'' ''POSTROUTING''" "args \<noteq> listChainArgs ''filter'' ''ayad_nm_forward''"
  shows "simVpnNft args k = (Inr ([], []), k)"
  using assms quiet_not by (auto simp: simVpnNft_def Let_def)

lemma sim_check: "simVpnNft (''-c'' # args) k = (Inr ([], []), k)"
  by (rule sim_quiet) (simp_all add: quiet_check listChainArgs_def)

lemma nft_local: "executeLocal vpnMachine 30000 ''nft'' args k = (Inr out, k') \<longleftrightarrow> simVpnNft args k = (Inr out, k')"
  by (auto simp: executeLocal_def vpnMachine_def split: prod.splits sum.splits)

lemma answered_alive:
  assumes "answered args"
  shows "alive (healthy D) (LinuxExecutor_execute vpnMachine ''nft'' args)"
    "alive (healthy D) (LinuxExecutor_execute vpnMachine ''nft'' (''-c'' # args))"
  using assms sim_check by (auto simp: answered_def nft_local intro!: vpn_yields)

lemma answered_execNft:
  assumes "answered args"
  shows "alive (healthy D) (execNft (nftEnvOf vpnMachine ssh dash uplink) args)"
  unfolding execNft_def Let_def nftEnvOf_def optCall_simps NftEnv.simps
  by (intro alive_rules answered_alive [OF assms] audit_alive) (simp_all add: nftAuditData_def)

lemma audited_yields:
  assumes "yields (healthy D) (LinuxExecutor_execute vpnMachine c args) V"
    and "c = ''nft'' \<Longrightarrow> \<not> argIs args 0 ''-c'' \<Longrightarrow> isNftMutationCommand args \<Longrightarrow>
      alive (healthy D) (LinuxExecutor_execute vpnMachine ''nft'' (''-c'' # args))"
  shows "yields (healthy D) (auditedExec vpnMachine actor c args) V"
  unfolding auditedExec_def AuditedExecutor_execute_def Let_def
  by (intro yields_thn [where V = "\<lambda>_. True"] yields_tryCatch yields_bnd [OF assms(1)] alive_whenP alive_bnd assms(2) alive_skip)
    (auto intro!: audit_alive yields_thn [where V = "\<lambda>_. True"] yields_ret)

lemma answered_audited: "answered args \<Longrightarrow> alive (healthy D) (auditedExec vpnMachine actor ''nft'' args)"
  by (intro audited_yields answered_alive)

lemma check_audited: "answered args \<Longrightarrow> alive (healthy D) (auditedExec vpnMachine actor ''nft'' (''-c'' # args))"
  by (intro audited_yields answered_alive) (auto simp: argIs_def arg_def)


section \<open>The guard\<close>

lemma guard_answered: "args \<in> blockingCommands \<Longrightarrow> answered args"
  unfolding answered_def
proof (intro conjI allI)
  assume args: "args \<in> blockingCommands"
  show "agent_valid vpnAgent ''nft'' args" "agent_valid vpnAgent ''nft'' (''-c'' # args)"
    using args blocking_accepted by blast+
  have "quietArgs args" "args \<noteq> listChainArgs ''nat'' ''POSTROUTING''" "args \<noteq> listChainArgs ''filter'' ''ayad_nm_forward''"
    using args by (auto simp: blockingCommands_def quietArgs_def argIs_def argIn_def arg_def chainArgs_def setArgs_def listSetArgs_def
        vpnRuleArgs_def elementArgs_def listChainArgs_def)
  then show "\<exists>out k'. simVpnNft args k = (Inr out, k')" for k by (simp add: sim_quiet)
qed

lemma list_vpn_answered: "answered (listSetArgs ''ayad_nm'' ''vpn_blocked_ips'')"
proof -
  have "agent_valid vpnAgent ''nft'' (listSetArgs ''ayad_nm'' ''vpn_blocked_ips'')"
    "agent_valid vpnAgent ''nft'' (''-c'' # listSetArgs ''ayad_nm'' ''vpn_blocked_ips'')"
    "quietArgs (listSetArgs ''ayad_nm'' ''vpn_blocked_ips'')" by code_simp+
  then show ?thesis by (simp add: answered_def sim_quiet listSetArgs_def listChainArgs_def)
qed

lemma empty_listing:
  assumes "answered (listSetArgs table name)"
  shows "yields (healthy D) (execNft (nftEnvOf vpnMachine ssh dash uplink) (listSetArgs table name)) (\<lambda>out. out = [])"
proof -
  have "quietArgs (listSetArgs table name)" by (simp add: quietArgs_def listSetArgs_def)
  then have "simVpnNft (listSetArgs table name) k = (Inr ([], []), k)" for k
    by (rule sim_quiet) (simp_all add: listSetArgs_def listChainArgs_def)
  with assms have "yields (healthy D) (LinuxExecutor_execute vpnMachine ''nft'' (listSetArgs table name)) (\<lambda>out. out = ([], []))"
    by (auto simp: answered_def nft_local intro!: vpn_yields)
  then show ?thesis unfolding execNft_def Let_def nftEnvOf_def optCall_simps NftEnv.simps
    by (intro yields_thn [where V = "\<lambda>_. True"] yields_tryCatch alive_if alive_bnd answered_alive [OF assms] alive_skip audit_alive)
      (auto simp: nftAuditData_def intro!: yields_bnd yields_thn [where V = "\<lambda>_. True"] yields_ret audit_alive)
qed

lemma guard_alive: "alive (healthy D) (setVpnBlockedIpGuardEnabled (nftEnvOf vpnMachine ssh dash uplink) enabled)"
proof -
  have unless: "alive (healthy D) (execUnless isAlreadyExists (nftEnvOf vpnMachine ssh dash uplink) args)" if "args \<in> blockingCommands" for args
    unfolding execUnless_def by (intro alive_rules answered_execNft guard_answered that)
  have ensure: "alive (healthy D) (ensureVpnEnforcementState (nftEnvOf vpnMachine ssh dash uplink))"
    unfolding ensureVpnEnforcementState_def runNft_def
    by (intro alive_rules unless answered_execNft guard_answered) (simp_all add: blockingCommands_def)
  have none: "listedValues trim IPV4_RE [] = []" by (simp add: listedValues_def)
  have clear: "alive (healthy D) (clearVpnBlockedIps (nftEnvOf vpnMachine ssh dash uplink))"
    unfolding clearVpnBlockedIps_def
    by (intro alive_thn ensure yields_bnd [OF empty_listing [OF list_vpn_answered]]) (simp add: none alive_skip)
  have list: "yields (healthy D) (nft_getBlockedIps (nftEnvOf vpnMachine ssh dash uplink)) (\<lambda>ips. ips = [])"
    unfolding nft_getBlockedIps_def
    by (rule yields_bnd [OF empty_listing [OF guard_answered]]) (simp_all add: none blockingCommands_def yields_ret setOfList_def)
  show ?thesis unfolding setVpnBlockedIpGuardEnabled_def
    by (intro alive_thn alive_if ensure clear yields_bnd [OF list] alive_modify) (auto simp: alive_skip intro!: alive_thn alive_modify)
qed

section \<open>The controller\<close>

definition demoEnv :: "VpnKernel VpnEnv" where
  "demoEnv = vpnEnvOf vpnMachine ''system'' 22 80 ''tun0'' ''wan0'' ''10.0.0.0/24''"

lemma demo_commands:
  "answered (vpnNatArgs demoEnv True)" "answered (vpnNatArgs demoEnv False)" "answered (failClosedArgs demoEnv)"
  "answered (vpnDeleteArgs ''nat'' ''POSTROUTING'' 11)" "answered (vpnDeleteArgs ''nat'' ''POSTROUTING'' 12)"
  "answered (vpnDeleteArgs ''filter'' ''ayad_nm_forward'' 13)"
proof -
  have "agent_valid vpnAgent ''nft'' (vpnNatArgs demoEnv True)" "agent_valid vpnAgent ''nft'' (''-c'' # vpnNatArgs demoEnv True)"
    "agent_valid vpnAgent ''nft'' (vpnNatArgs demoEnv False)" "agent_valid vpnAgent ''nft'' (''-c'' # vpnNatArgs demoEnv False)"
    "agent_valid vpnAgent ''nft'' (failClosedArgs demoEnv)" "agent_valid vpnAgent ''nft'' (''-c'' # failClosedArgs demoEnv)"
    "agent_valid vpnAgent ''nft'' (vpnDeleteArgs ''nat'' ''POSTROUTING'' 11)" "agent_valid vpnAgent ''nft'' (''-c'' # vpnDeleteArgs ''nat'' ''POSTROUTING'' 11)"
    "agent_valid vpnAgent ''nft'' (vpnDeleteArgs ''nat'' ''POSTROUTING'' 12)" "agent_valid vpnAgent ''nft'' (''-c'' # vpnDeleteArgs ''nat'' ''POSTROUTING'' 12)"
    "agent_valid vpnAgent ''nft'' (vpnDeleteArgs ''filter'' ''ayad_nm_forward'' 13)"
    "agent_valid vpnAgent ''nft'' (''-c'' # vpnDeleteArgs ''filter'' ''ayad_nm_forward'' 13)"
    by code_simp+
  moreover have "vpnNatArgs demoEnv True = addRuleArgs (snd (snd simVpnNat)) ''ayad_nm_vpn_nat''"
    "vpnNatArgs demoEnv False = addRuleArgs (snd (snd simUplink)) ''ayad_nm_single_interface_nat''"
    "failClosedArgs demoEnv = insertRuleArgs ''3'' (snd (snd simKill)) ''ayad_nm_vpn_fail_closed''" by code_simp+
  ultimately show "answered (vpnNatArgs demoEnv True)" "answered (vpnNatArgs demoEnv False)" "answered (failClosedArgs demoEnv)"
    "answered (vpnDeleteArgs ''nat'' ''POSTROUTING'' 11)" "answered (vpnDeleteArgs ''nat'' ''POSTROUTING'' 12)"
    "answered (vpnDeleteArgs ''filter'' ''ayad_nm_forward'' 13)"
    using sim_delete(1) [of 11] sim_delete(1) [of 12] sim_delete(2) [of 13]
    by (simp_all add: answered_def sim_add sim_insert simRule_eq simRule_names)
qed

text \<open>The parts of the controller over the sample environment.\<close>

lemma demo_exec: "ve_execute demoEnv = auditedExec vpnMachine ''system''"
  by (simp add: demoEnv_def vpnEnvOf_def)

lemma demo_nft_alive:
  assumes "answered args"
  shows "alive (healthy D) (vpn_nft demoEnv args)" "alive (healthy D) (vpn_nft demoEnv (''-c'' # args))"
  unfolding vpn_nft_def demo_exec by (intro alive_rules answered_audited check_audited assms)+

lemma demo_rules_yield:
  "yields (healthy D) (vpn_rules demoEnv (chainTable c) (chainName c)) (\<lambda>rules. \<exists>k. rules = map seenRule (simChain c k))"
proof -
  let ?args = "listChainArgs (chainTable c) (chainName c)"
  let ?V = "\<lambda>out. \<exists>k. out = (simChainListing (simChain c k), [])"
  have "agent_valid vpnAgent ''nft'' (listChainArgs (chainTable NatChain) (chainName NatChain))"
    "agent_valid vpnAgent ''nft'' (listChainArgs (chainTable ForwardChain) (chainName ForwardChain))" by code_simp+
  then have "agent_valid vpnAgent ''nft'' ?args" by (cases c) simp_all
  moreover have "\<exists>out k'. executeLocal vpnMachine 30000 ''nft'' ?args k = (Inr out, k') \<and> ?V out" for k
    by (cases c) (auto simp: nft_local simVpnNft_def listChainArgs_def)
  ultimately have "yields (healthy D) (LinuxExecutor_execute vpnMachine ''nft'' ?args) ?V" by (intro vpn_yields) auto
  then have "yields (healthy D) (auditedExec vpnMachine ''system'' ''nft'' ?args) ?V"
    by (rule audited_yields) (simp add: isNftMutationCommand_def argIn_def arg_def listChainArgs_def)
  then show ?thesis unfolding vpn_rules_def demo_exec
    by (rule yields_bnd) (auto simp: simChain_listed intro!: yields_ret)
qed

lemma demo_deleteNat:
  "alive (healthy D) (deleteRules demoEnv ''nat'' ''POSTROUTING'' natComments (map seenRule (simChain NatChain k)))"
  unfolding deleteRules_def demo_exec
proof (intro alive_forEach alive_option alive_skip alive_whenP alive_bnd)
  fix r h assume r: "r \<in> set (map seenRule (simChain NatChain k))" "vr_handle r = Some h" "vr_comment r \<in> set (map Some natComments)"
  then have "h = 11 \<or> h = 12"
    by (auto simp: simChain_def seenRule_def simForeign_def simUplink_def simVpnNat_def natComments_def split: if_splits)
  then show "alive (healthy D) (auditedExec vpnMachine ''system'' ''nft'' (vpnDeleteArgs ''nat'' ''POSTROUTING'' h))"
    using demo_commands(4,5) by (auto intro: answered_audited)
qed

lemma demo_deleteKill:
  "alive (healthy D) (deleteRules demoEnv ''filter'' ''ayad_nm_forward'' comments (map seenRule (simChain ForwardChain k)))"
  unfolding deleteRules_def demo_exec
proof (intro alive_forEach alive_option alive_skip alive_whenP alive_bnd)
  fix r h assume r: "r \<in> set (map seenRule (simChain ForwardChain k))" "vr_handle r = Some h"
  then have "h = 13" by (auto simp: simChain_def seenRule_def simKill_def split: if_splits)
  then show "alive (healthy D) (auditedExec vpnMachine ''system'' ''nft'' (vpnDeleteArgs ''filter'' ''ayad_nm_forward'' h))"
    using demo_commands(6) by (auto intro: answered_audited)
qed

lemma demo_setNat: "alive (healthy D) (setNat demoEnv isConnected enabled)"
proof -
  have nat: "answered (vpnNatArgs demoEnv isConnected)" using demo_commands(1,2) by (cases isConnected) auto
  have lists: "yields (healthy D) (vpn_rules demoEnv ''nat'' ''POSTROUTING'') (\<lambda>rules. \<exists>k. rules = map seenRule (simChain NatChain k))"
    "yields (healthy D) (vpn_rules demoEnv ''filter'' ''ayad_nm_forward'') (\<lambda>rules. \<exists>k. rules = map seenRule (simChain ForwardChain k))"
    using demo_rules_yield [of D NatChain] demo_rules_yield [of D ForwardChain] by simp_all
  have kill: "alive (healthy D) (thn (deleteRules demoEnv ''filter'' ''ayad_nm_forward'' [''ayad_nm_vpn_fail_closed''] rules)
         (whenP c (thn (vpn_nft demoEnv (''-c'' # failClosedArgs demoEnv)) (vpn_nft demoEnv (failClosedArgs demoEnv)))))"
    if "\<exists>k. rules = map seenRule (simChain ForwardChain k)" for rules c
    using that by (auto intro!: alive_thn alive_whenP demo_deleteKill demo_nft_alive demo_commands)
  have del: "alive (healthy D) (deleteRules demoEnv ''nat'' ''POSTROUTING'' natComments rules)"
    if "\<exists>k. rules = map seenRule (simChain NatChain k)" for rules
    using that demo_deleteNat by auto
  show ?thesis unfolding setNat_def
    by (rule yields_bnd [OF lists(1)], intro alive_thn del demo_nft_alive nat yields_bnd [OF lists(2)] kill)
qed

lemma systemctl_alive:
  assumes "args \<in> {[''stop'', ''sing-box''], [''restart'', ''sing-box''], [''is-active'', ''--quiet'', ''sing-box'']}"
  shows "alive (healthy D) (vpn_safe demoEnv ''systemctl'' args)"
proof -
  have "agent_valid vpnAgent ''systemctl'' [''stop'', ''sing-box'']" "agent_valid vpnAgent ''systemctl'' [''restart'', ''sing-box'']"
    "agent_valid vpnAgent ''systemctl'' [''is-active'', ''--quiet'', ''sing-box'']" by code_simp+
  with assms have "agent_valid vpnAgent ''systemctl'' args" by auto
  then have "alive (healthy D) (LinuxExecutor_execute vpnMachine ''systemctl'' args)"
    by (intro vpn_yields) (auto simp: executeLocal_def vpnMachine_def)
  then show ?thesis unfolding vpn_safe_def demo_exec by (intro alive_rules audited_yields) auto
qed

lemma links_parsed: "\<exists>links. parseJson (simLinks b) = Some links"
proof -
  have "parseJson (simLinks True) \<noteq> None" "parseJson (simLinks False) \<noteq> None" by code_simp+
  then show ?thesis by (cases b) auto
qed

lemma demo_tunnel: "alive (healthy D) (hasTunnelInterface demoEnv)"
proof -
  let ?V = "\<lambda>out. \<exists>b. out = (simLinks b, [])"
  have "agent_valid vpnAgent ''ip'' [''-j'', ''link'', ''show'']" by code_simp
  then have "yields (healthy D) (LinuxExecutor_execute vpnMachine ''ip'' [''-j'', ''link'', ''show'']) ?V"
    by (intro vpn_yields) (auto simp: executeLocal_def vpnMachine_def)
  then have "yields (healthy D) (auditedExec vpnMachine ''system'' ''ip'' [''-j'', ''link'', ''show'']) ?V"
    by (rule audited_yields) simp
  then show ?thesis unfolding hasTunnelInterface_def demo_exec
  proof (intro yields_tryCatch, elim yields_bnd)
    fix out assume "\<exists>b. out = (simLinks b, [])"
    then obtain b where out: "out = (simLinks b, [])" ..
    obtain links where "parseJson (simLinks b) = Some links" using links_parsed by blast
    then show "alive (healthy D) (case out of (stdout, stderr) \<Rightarrow> case parseJson stdout of
        None \<Rightarrow> throw (Error ''Unexpected token in JSON'') | Some links \<Rightarrow> ret (listsInterface (ve_tunnelInterface demoEnv) links))"
      by (simp add: out alive_ret del: ret_def)
  qed
qed

lemma demo_ready: "alive (healthy D) (serviceReady demoEnv)"
  unfolding serviceReady_def by (intro alive_rules systemctl_alive demo_tunnel) simp

lemma demo_wait: "alive (healthy D) (waitForReadiness demoEnv)"
proof -
  have "alive (healthy D) (pollReady n demoEnv deadline)" for n deadline
  proof (induction n)
    case 0
    show ?case unfolding pollReady.simps by (rule alive_ret)
  next
    case (Suc n)
    then show ?case unfolding pollReady.simps by (intro alive_rules demo_ready alive_modify) auto
  qed
  then show ?thesis unfolding waitForReadiness_def by (intro alive_rules)
qed

lemma demo_guard: "alive (healthy D) (ve_setGuard demoEnv enabled)"
  using guard_alive by (simp add: demoEnv_def vpnEnvOf_def)

lemma demo_apply: "alive (healthy D) (vpn_apply demoEnv enabled)"
  unfolding vpn_apply_def by (intro alive_rules demo_guard systemctl_alive demo_setNat demo_wait) simp_all

lemma demo_sync: "alive (healthy D) (vpn_syncConnectionState demoEnv enabled isConnected)"
  unfolding vpn_syncConnectionState_def by (intro alive_rules demo_guard demo_setNat)

lemma demo_status: "alive (healthy D) (vpn_getStatus demoEnv)"
  unfolding vpn_getStatus_def by (intro alive_rules systemctl_alive demo_tunnel) simp

section \<open>The service\<close>

definition demoVpnDeps :: "VpnKernel VpnDeps" where
  "demoVpnDeps = vpnDepsOf demoEnv (\<lambda>link. skip)"

text \<open>A configured link, the VPN off or on, our NAT rule for the uplink and a rule of somebody else.\<close>

definition demoVpn :: "bool \<Rightarrow> VpnKernel Vpn" where
  "demoVpn enabled = \<lparr>vp_row = Some \<lparr>vc_vmessLink = ''vless://x'', vc_enabled = enabled, vc_connected = False, vc_lastConnectedAt = None\<rparr>,
     vp_monitoring = False,
     vp_world = \<lparr>w_tick = 0, w_fault = (\<lambda>n. False), w_now = 0, w_nextDevice = 1, w_devices = [],
       w_nextPolicy = 1, w_policies = [], w_blocked = \<lparr>bt_nextRecord = 1, bt_records = [], bt_nextBinding = 1, bt_bindings = []\<rparr>,
       w_nextQuota = 1, w_quota = [], w_notifications = [], w_audit = [], w_vpnGuard = False,
       w_attempt = 0, w_link = (\<lambda>n. Delivered),
       w_kernel = \<lparr>vk_foreign = True, vk_uplinkNat = True, vk_vpnNat = False, vk_kill = False, vk_tunnel = True\<rparr>\<rparr>\<rparr>"

abbreviation healthyVpn :: "'k Vpn \<Rightarrow> bool" where
  "healthyVpn s \<equiv> healthy [] (vp_world s)"

lemma demo_vpn_healthy: "healthyVpn (demoVpn enabled)"
  by (simp add: healthy_def demoVpn_def recordKeys_def)

lemma inWorld_yields: "yields (healthy []) p V \<Longrightarrow> yields healthyVpn (inWorld p) V"
  by (fastforce simp: yields_def inWorld_def)

lemma select_alive: "alive healthyVpn (inWorld (select f))"
  by (intro inWorld_yields select_yields) simp

lemma upsert_alive: "alive healthyVpn (vpnUpsert f)"
  unfolding vpnUpsert_def Let_def by (intro alive_rules select_alive alive_modify) simp

lemma repository_alive:
  "alive healthyVpn (PrismaVpn_setEnabled e)" "alive healthyVpn (PrismaVpn_setConnected e)" "alive healthyVpn PrismaVpn_get"
  unfolding PrismaVpn_setEnabled_def PrismaVpn_setConnected_def PrismaVpn_get_def
  by (intro alive_rules upsert_alive select_alive)+

lemma vpnAudit_alive: "alive healthyVpn (vpnAudit demoVpnDeps action details)"
  unfolding vpnAudit_def demoVpnDeps_def vpnDepsOf_def by (auto intro!: inWorld_yields audit_alive)

lemma demo_deps: "vd_apply demoVpnDeps = vpn_apply demoEnv" "vd_getStatus demoVpnDeps = Some (vpn_getStatus demoEnv)"
  "vd_syncConnectionState demoVpnDeps = Some (vpn_syncConnectionState demoEnv)"
  by (simp_all add: demoVpnDeps_def vpnDepsOf_def)

lemma get_linked: "yields (\<lambda>s. healthyVpn s \<and> hasLink (toState (vp_row s))) PrismaVpn_get hasLink"
  by (auto simp: yields_def PrismaVpn_get_def thn_def bnd_def inWorld_def select_def query_def healthy_def Let_def gets_def recordKeys_def)

lemma demo_toggles: "\<exists>st t. VpnService_setEnabled demoVpnDeps enabled (demoVpn b) = (Inr st, t)"
proof -
  have linked: "hasLink (toState (vp_row (demoVpn b)))" by (cases b) code_simp+
  with get_linked demo_vpn_healthy obtain st s where
    get: "PrismaVpn_get (demoVpn b) = (Inr st, s)" "healthyVpn s" "hasLink st"
    unfolding yields_def by blast
  have "alive healthyVpn (tryCatch
        (bnd (inWorld (vd_apply demoVpnDeps enabled)) (\<lambda>connected.
         bnd (PrismaVpn_setEnabled enabled) (\<lambda>_.
         bnd (PrismaVpn_setConnected (enabled \<and> connected)) (\<lambda>result.
         thn (vpnAudit demoVpnDeps action [(''connected'', showBool (vs_connected result)), (''result'', ''success'')])
             (ret result))))) h)" for action h
    unfolding demo_deps by (intro alive_rules inWorld_yields demo_apply repository_alive vpnAudit_alive)
  with get show ?thesis unfolding VpnService_setEnabled_def yields_def Let_def by (fastforce simp: bnd_Inr)
qed

lemma alive_finally: "alive P m \<Longrightarrow> (\<And>s. P s \<Longrightarrow> P (f s)) \<Longrightarrow> alive P (tryFinally m f)"
  by (fastforce simp: yields_def tryFinally_def)

lemma demo_checks: "\<exists>t. checkConnection demoVpnDeps (demoVpn b) = (Inr (), t)"
proof -
  have "alive healthyVpn (checkBody demoVpnDeps (vpn_getStatus demoEnv))"
    unfolding checkBody_def demo_deps optCall_simps
    by (intro alive_rules inWorld_yields demo_apply demo_sync demo_status repository_alive vpnAudit_alive)
  then have "alive healthyVpn (checkConnection demoVpnDeps)"
    unfolding checkConnection_def demo_deps option.case
    by (intro alive_rules alive_modify alive_finally) simp_all
  from alive_run [OF this demo_vpn_healthy] show ?thesis by blast
qed

section \<open>Properties\<close>

text \<open>
  C32. Turning the VPN on or off leaves the database and the kernel in agreement: whatever happens on
  the way, no rule of somebody else in the two chains changes, and when the operation returns, the row
  holds the wish, is connected only when enabled, and the NAT chain has exactly the one rule of this
  program that goes with the connection, through the tunnel or the uplink, and the forward chain has the
  kill switch exactly when the VPN is wanted and not connected.
\<close>

theorem vpn_toggle_agrees_with_kernel:
  assumes "chain_tool m chain"
    and "VpnService_setEnabled (vpnDepsOf (vpnEnvOf m actor sshPort dashboardPort tunnel uplink subnet) configure) enabled s = (r, t)"
  shows "foreignKept (chainView chain (vp_world s)) (chainView chain (vp_world t)) \<and>
    (\<forall>st. r = Inr st \<longrightarrow> (\<exists>v. vp_row t = Some v \<and> st = toState (Some v) \<and> vc_enabled v = enabled \<and>
       (vc_connected v \<longrightarrow> enabled) \<and>
       vpnKernel (vpnEnvOf m actor sshPort dashboardPort tunnel uplink subnet) (vc_connected v) enabled (chainView chain (vp_world t))))"
  using specD [OF chain_tool.service_setEnabled_spec [OF assms(1)] assms(2)] by blast

theorem vpn_toggle_agrees_with_kernel_witness:
  "\<exists>st t v. VpnService_setEnabled demoVpnDeps True (demoVpn False) = (Inr st, t) \<and> vp_row t = Some v \<and> vc_enabled v \<and>
     foreignKept (chainView simChain (vp_world (demoVpn False))) (chainView simChain (vp_world t)) \<and>
     vpnKernel demoEnv (vc_connected v) True (chainView simChain (vp_world t))"
proof -
  obtain st t where run: "VpnService_setEnabled demoVpnDeps True (demoVpn False) = (Inr st, t)" using demo_toggles by blast
  with vpn_toggle_agrees_with_kernel [OF simVpn.chain_tool_axioms run [unfolded demoVpnDeps_def demoEnv_def]]
  show ?thesis unfolding demoEnv_def by blast
qed

text \<open>
  C33. The monitor tells the truth: when the VPN is wanted and a tick of the monitor completes, a VPN
  that is stored as connected has its NAT rule through the tunnel and no kill switch in the kernel, and
  the monitor is free for the next tick however this one ended.
\<close>

theorem vpn_connected_is_truthful:
  assumes "chain_tool m chain" "vs_enabled (toState (vp_row s))" "\<not> vp_monitoring s"
    and "checkConnection (vpnDepsOf (vpnEnvOf m actor sshPort dashboardPort tunnel uplink subnet) configure) s = (r, t)"
  shows "\<not> vp_monitoring t \<and> (r = Inr () \<longrightarrow> vs_connected (toState (vp_row t)) \<longrightarrow>
    vpnKernel (vpnEnvOf m actor sshPort dashboardPort tunnel uplink subnet) True True (chainView chain (vp_world t)))"
  using specD [OF chain_tool.checkConnection_spec [OF assms(1-3)] assms(4)] .

theorem vpn_connected_is_truthful_witness:
  "\<exists>t. checkConnection demoVpnDeps (demoVpn True) = (Inr (), t) \<and> \<not> vp_monitoring t \<and>
     (if vs_connected (toState (vp_row t)) then vpnKernel demoEnv True True (chainView simChain (vp_world t)) else True)"
proof -
  obtain t where run: "checkConnection demoVpnDeps (demoVpn True) = (Inr (), t)" using demo_checks by blast
  moreover have "vs_enabled (toState (vp_row (demoVpn True)))" "\<not> vp_monitoring (demoVpn True)" by (simp_all add: demoVpn_def toState_def)
  ultimately show ?thesis
    using vpn_connected_is_truthful [OF simVpn.chain_tool_axioms _ _ run [unfolded demoVpnDeps_def demoEnv_def]]
    unfolding demoEnv_def by simp
qed

end
