(* ===== verification/Scheduling.thy ===== *)
theory Scheduling
  imports Prelude
begin

text \<open>
  The two places where this program orders operations itself: the lock that keeps the two passes over
  bindings apart (\<open>application/enforcement/IpBindingMutationLock.ts\<close>) and the queues of the
  enforcement agent (\<open>schedule\<close> and \<open>drain\<close> of \<open>infrastructure/enforcement/EnforcementAgent.ts\<close>).
  Both are machines over the events of the event loop; a run is a sequence of events.
\<close>

section \<open>The lock\<close>

text \<open>
  A promise is its number; promise 0 is \<open>Promise.resolve()\<close>. A call of \<open>withIpBindingMutationLock\<close>
  keeps the promise it waits for and the one it resolves.
\<close>

datatype Phase = Waiting | Running | Settled bool

record LockCall =
  lc_previous :: nat
  lc_promise :: nat
  lc_phase :: Phase

record Lock =
  lk_tail :: nat
  lk_next :: nat
  lk_resolved :: "nat list"
  lk_calls :: "LockCall list"

definition initialLock :: Lock where
  "initialLock = \<lparr>lk_tail = 0, lk_next = 1, lk_resolved = [0], lk_calls = []\<rparr>"

text \<open>The synchronous part of a call: take the tail, put a promise of its own in its place.\<close>

definition withIpBindingMutationLock :: "Lock \<Rightarrow> Lock" where
  "withIpBindingMutationLock s = s\<lparr>lk_tail := lk_next s, lk_next := Suc (lk_next s),
     lk_calls := lk_calls s @ [\<lparr>lc_previous = lk_tail s, lc_promise = lk_next s, lc_phase = Waiting\<rparr>]\<rparr>"

text \<open>\<open>previous.then(operation)\<close>\<close>

definition canBegin :: "Lock \<Rightarrow> nat \<Rightarrow> bool" where
  "canBegin s i \<longleftrightarrow> i < length (lk_calls s) \<and> lc_phase (lk_calls s ! i) = Waiting \<and>
     lc_previous (lk_calls s ! i) \<in> set (lk_resolved s)"

definition beginCall :: "nat \<Rightarrow> Lock \<Rightarrow> Lock" where
  "beginCall i s = s\<lparr>lk_calls := (lk_calls s)[i := (lk_calls s ! i)\<lparr>lc_phase := Running\<rparr>]\<rparr>"

text \<open>\<open>.finally(release)\<close>, whether the operation succeeded or threw.\<close>

definition canSettle :: "Lock \<Rightarrow> nat \<Rightarrow> bool" where
  "canSettle s i \<longleftrightarrow> i < length (lk_calls s) \<and> lc_phase (lk_calls s ! i) = Running"

definition settleCall :: "nat \<Rightarrow> bool \<Rightarrow> Lock \<Rightarrow> Lock" where
  "settleCall i ok s = s\<lparr>lk_calls := (lk_calls s)[i := (lk_calls s ! i)\<lparr>lc_phase := Settled ok\<rparr>],
     lk_resolved := lc_promise (lk_calls s ! i) # lk_resolved s\<rparr>"

inductive lock_step :: "Lock \<Rightarrow> Lock \<Rightarrow> bool" where
  Enter: "lock_step s (withIpBindingMutationLock s)"
| Begin: "canBegin s i \<Longrightarrow> lock_step s (beginCall i s)"
| Settle: "canSettle s i \<Longrightarrow> lock_step s (settleCall i ok s)"

inductive lock_reachable :: "Lock \<Rightarrow> bool" where
  Start: "lock_reachable initialLock"
| Step: "lock_reachable s \<Longrightarrow> lock_step s t \<Longrightarrow> lock_reachable t"

inductive_cases lock_stepE: "lock_step s t"

definition settled :: "LockCall \<Rightarrow> bool" where
  "settled c \<longleftrightarrow> (case lc_phase c of Settled _ \<Rightarrow> True | _ \<Rightarrow> False)"

text \<open>
  The invariant: the promises form a chain in the order of the calls, exactly those of the settled
  calls are resolved, and a call that is not waiting comes after settled calls only.
\<close>

definition lockInv :: "Lock \<Rightarrow> bool" where
  "lockInv s \<longleftrightarrow> lk_tail s = length (lk_calls s) \<and> lk_next s = Suc (length (lk_calls s)) \<and>
     (\<forall>i < length (lk_calls s). lc_previous (lk_calls s ! i) = i \<and> lc_promise (lk_calls s ! i) = Suc i) \<and>
     (\<forall>p. p \<in> set (lk_resolved s) \<longleftrightarrow> p = 0 \<or> (\<exists>i < length (lk_calls s). p = Suc i \<and> settled (lk_calls s ! i))) \<and>
     (\<forall>j < length (lk_calls s). lc_phase (lk_calls s ! j) \<noteq> Waiting \<longrightarrow> (\<forall>i < j. settled (lk_calls s ! i)))"

lemma lockInv_initial: "lockInv initialLock"
  by (simp add: lockInv_def initialLock_def)

lemma lockInv_enter: "lockInv s \<Longrightarrow> lockInv (withIpBindingMutationLock s)"
  by (auto simp: lockInv_def withIpBindingMutationLock_def nth_append less_Suc_eq settled_def)

lemma lockInv_begin:
  assumes inv: "lockInv s" and b: "canBegin s i"
  shows "lockInv (beginCall i s)"
proof -
  have i: "i < length (lk_calls s)" "lc_phase (lk_calls s ! i) = Waiting" "i \<in> set (lk_resolved s)"
    using inv b by (auto simp: lockInv_def canBegin_def)
  have before: "settled (lk_calls s ! j)" if "j < i" for j
  proof -
    have "settled (lk_calls s ! (i - 1))"
      using inv i(3) that unfolding lockInv_def by (metis Suc_diff_1 diff_Suc_1 gr_implies_not0 neq0_conv less_nat_zero_code)
    moreover have "i - 1 < length (lk_calls s)" using i(1) by simp
    moreover from calculation(1) have "lc_phase (lk_calls s ! (i - 1)) \<noteq> Waiting" by (auto simp: settled_def)
    ultimately show ?thesis using inv that unfolding lockInv_def by (metis Suc_diff_1 gr_implies_not0 less_Suc_eq neq0_conv)
  qed
  have keep: "settled (lk_calls (beginCall i s) ! j) \<longleftrightarrow> settled (lk_calls s ! j)" if "j < length (lk_calls s)" for j
    using i that by (cases "j = i") (simp_all add: beginCall_def settled_def)
  have len: "length (lk_calls (beginCall i s)) = length (lk_calls s)" by (simp add: beginCall_def)
  have phase: "lc_phase (lk_calls (beginCall i s) ! j) \<noteq> Waiting \<Longrightarrow> j = i \<or> lc_phase (lk_calls s ! j) \<noteq> Waiting" for j
    by (cases "j = i") (simp_all add: beginCall_def)
  have ids: "lc_previous (lk_calls (beginCall i s) ! j) = lc_previous (lk_calls s ! j)"
      "lc_promise (lk_calls (beginCall i s) ! j) = lc_promise (lk_calls s ! j)" for j
    using i(1) by (cases "j = i"; simp add: beginCall_def)+
  have rest: "lk_tail (beginCall i s) = lk_tail s" "lk_next (beginCall i s) = lk_next s" "lk_resolved (beginCall i s) = lk_resolved s"
    by (simp_all add: beginCall_def)
  show ?thesis unfolding lockInv_def len rest ids
  proof (intro conjI allI impI)
    fix j k assume "j < length (lk_calls s)" "lc_phase (lk_calls (beginCall i s) ! j) \<noteq> Waiting" "k < j"
    then show "settled (lk_calls (beginCall i s) ! k)" using phase [of j] before inv keep [of k] by (auto simp: lockInv_def)
  qed (use inv keep in \<open>auto simp: lockInv_def\<close>)
qed

lemma lockInv_settle:
  assumes inv: "lockInv s" and b: "canSettle s i"
  shows "lockInv (settleCall i ok s)"
proof -
  let ?t = "settleCall i ok s"
  have i: "i < length (lk_calls s)" "lc_phase (lk_calls s ! i) = Running"
    using b by (auto simp: canSettle_def)
  have keep: "settled (lk_calls ?t ! j) \<longleftrightarrow> j = i \<or> settled (lk_calls s ! j)" if "j < length (lk_calls s)" for j
    using i that by (cases "j = i") (simp_all add: settleCall_def settled_def)
  have len: "length (lk_calls ?t) = length (lk_calls s)" by (simp add: settleCall_def)
  have phase: "lc_phase (lk_calls ?t ! j) \<noteq> Waiting \<longleftrightarrow> lc_phase (lk_calls s ! j) \<noteq> Waiting" if "j < length (lk_calls s)" for j
    using i that by (cases "j = i") (simp_all add: settleCall_def)
  have ids: "lc_previous (lk_calls ?t ! j) = lc_previous (lk_calls s ! j)" "lc_promise (lk_calls ?t ! j) = lc_promise (lk_calls s ! j)" for j
    using i(1) by (cases "j = i"; simp add: settleCall_def)+
  have promise: "lc_promise (lk_calls s ! i) = Suc i" using inv i(1) by (simp add: lockInv_def)
  have rest: "lk_tail ?t = lk_tail s" "lk_next ?t = lk_next s" "set (lk_resolved ?t) = insert (Suc i) (set (lk_resolved s))"
    by (simp_all add: settleCall_def promise)
  show ?thesis unfolding lockInv_def len rest ids
  proof (intro conjI allI impI)
    fix j k assume "j < length (lk_calls s)" "lc_phase (lk_calls ?t ! j) \<noteq> Waiting" "k < j"
    then show "settled (lk_calls ?t ! k)" using phase [of j] keep [of k] inv by (auto simp: lockInv_def)
  next
    fix p show "p \<in> insert (Suc i) (set (lk_resolved s)) \<longleftrightarrow> p = 0 \<or> (\<exists>k < length (lk_calls s). p = Suc k \<and> settled (lk_calls ?t ! k))"
      using inv i(1) keep by (auto simp: lockInv_def)
  qed (use inv in \<open>auto simp: lockInv_def\<close>)
qed

lemma lock_reachable_inv: "lock_reachable s \<Longrightarrow> lockInv s"
proof (induction rule: lock_reachable.induct)
  case (Step s t)
  from Step.hyps(2) Step.IH show ?case
    by (elim lock_stepE) (auto intro: lockInv_enter lockInv_begin lockInv_settle)
qed (rule lockInv_initial)

text \<open>
  C34. The binding lock is a fair mutual exclusion that cannot wedge: in every state that calls,
  operations that succeed and operations that throw can lead to, at most one operation runs, every
  earlier call has settled when it runs, and while a call has not settled either its operation is
  running or one can begin.
\<close>

theorem binding_lock_is_fair:
  assumes "lock_reachable s"
  shows "(\<forall>i j. canSettle s i \<longrightarrow> canSettle s j \<longrightarrow> i = j) \<and>
    (\<forall>i j. canSettle s j \<longrightarrow> i < j \<longrightarrow> settled (lk_calls s ! i)) \<and>
    ((\<forall>c \<in> set (lk_calls s). settled c) \<or> (\<exists>i. canSettle s i \<or> canBegin s i))"
proof (intro conjI allI impI)
  have inv: "lockInv s" using assms by (rule lock_reachable_inv)
  show earlier: "settled (lk_calls s ! i)" if "canSettle s j" "i < j" for i j
    using inv that by (auto simp: lockInv_def canSettle_def)
  show "i = j" if "canSettle s i" "canSettle s j" for i j
  proof (rule ccontr)
    assume "i \<noteq> j"
    with earlier [of j i] earlier [of i j] that have "settled (lk_calls s ! i) \<or> settled (lk_calls s ! j)" by (auto simp: neq_iff)
    with that show False by (auto simp: canSettle_def settled_def)
  qed
  show "(\<forall>c \<in> set (lk_calls s). settled c) \<or> (\<exists>i. canSettle s i \<or> canBegin s i)"
  proof (cases "\<exists>i < length (lk_calls s). \<not> settled (lk_calls s ! i)")
    case True
    then obtain i where i: "i < length (lk_calls s)" "\<not> settled (lk_calls s ! i)"
      "\<forall>k < i. k < length (lk_calls s) \<longrightarrow> settled (lk_calls s ! k)"
      using exists_least_iff [of "\<lambda>i. i < length (lk_calls s) \<and> \<not> settled (lk_calls s ! i)"] by blast
    have "i \<in> set (lk_resolved s)" using inv i by (cases i) (auto simp: lockInv_def)
    with inv i show ?thesis
      by (cases "lc_phase (lk_calls s ! i)") (auto simp: lockInv_def canBegin_def canSettle_def settled_def)
  qed (auto simp: in_set_conv_nth)
qed

theorem binding_lock_is_fair_witness:
  "let s = beginCall 1 (settleCall 0 False (beginCall 0 (withIpBindingMutationLock (withIpBindingMutationLock initialLock))))
   in canSettle s 1 \<and> settled (lk_calls s ! 0) \<and> \<not> canSettle s 0"
proof -
  let ?a = "withIpBindingMutationLock (withIpBindingMutationLock initialLock)"
  let ?b = "settleCall 0 False (beginCall 0 ?a)"
  have can: "canBegin ?a 0" "canSettle (beginCall 0 ?a) 0" "canBegin ?b 1" "canSettle (beginCall 1 ?b) 1" by code_simp+
  have "lock_reachable ?a"
    by (rule lock_reachable.Step [OF lock_reachable.Step [OF lock_reachable.Start lock_step.Enter] lock_step.Enter])
  from lock_reachable.Step [OF this lock_step.Begin [OF can(1)]] have "lock_reachable (beginCall 0 ?a)" .
  from lock_reachable.Step [OF this lock_step.Settle [OF can(2)]] have "lock_reachable ?b" .
  from lock_reachable.Step [OF this lock_step.Begin [OF can(3)]] have "lock_reachable (beginCall 1 ?b)" .
  moreover define t where "t = beginCall 1 ?b"
  ultimately have t: "lock_reachable t" "canSettle t 1" using can(4) by simp_all
  have "settled (lk_calls t ! 0)" using binding_lock_is_fair [OF t(1)] t(2) by (blast intro: zero_less_one)
  moreover have "\<not> canSettle t 0" using binding_lock_is_fair [OF t(1)] t(2) by (metis zero_neq_one)
  ultimately show ?thesis using t(2) unfolding t_def Let_def by blast
qed

section \<open>The queues of the agent\<close>

text \<open>
  \<open>aq_job\<close> is the job that \<open>drain\<close> awaits. \<open>drain\<close> runs synchronously up to its first await, so
  the next job starts in the same event that makes it possible.
\<close>

record 'j AgentQueue =
  aq_priority :: "'j list"
  aq_background :: "'j list"
  aq_running :: bool
  aq_job :: "'j option"

definition maxBackgroundQueue :: nat where
  "maxBackgroundQueue = 8"

text \<open>One turn of the loop of \<open>drain\<close>.\<close>

definition drainLoop :: "'j AgentQueue \<Rightarrow> 'j AgentQueue" where
  "drainLoop q = (case aq_priority q of
       job # rest \<Rightarrow> q\<lparr>aq_priority := rest, aq_job := Some job\<rparr>
     | [] \<Rightarrow> (case aq_background q of
           job # rest \<Rightarrow> q\<lparr>aq_background := rest, aq_job := Some job\<rparr>
         | [] \<Rightarrow> q\<lparr>aq_running := False, aq_job := None\<rparr>))"

definition drain :: "'j AgentQueue \<Rightarrow> 'j AgentQueue" where
  "drain q = (if aq_running q then q else drainLoop (q\<lparr>aq_running := True\<rparr>))"

definition schedule :: "'j \<Rightarrow> bool \<Rightarrow> ('j AgentQueue, unit) prog" where
  "schedule job isBackground q =
     (if isBackground then
        if maxBackgroundQueue \<le> length (aq_background q) then (Inl (Error ''background enforcement queue overloaded''), q)
        else (Inr (), drain (q\<lparr>aq_background := aq_background q @ [job]\<rparr>))
      else (Inr (), drain (q\<lparr>aq_priority := aq_priority q @ [job]\<rparr>)))"

text \<open>The awaited job has settled; a rejection leaves the loop through its \<open>finally\<close>.\<close>

definition jobSettled :: "bool \<Rightarrow> 'j AgentQueue \<Rightarrow> 'j AgentQueue" where
  "jobSettled ok q = (if ok then drainLoop q else q\<lparr>aq_running := False, aq_job := None\<rparr>)"

text \<open>
  Jobs of a run are requests with their class, \<open>True\<close> for background reads. A run keeps the
  accepted requests and those that were started, in order.
\<close>

type_synonym request = "nat \<times> bool"

datatype AgentEvent = Arrives request | Settles bool

fun afterEvent :: "AgentEvent \<Rightarrow> request AgentQueue \<Rightarrow> request AgentQueue" where
  "afterEvent (Arrives job) q = snd (schedule job (snd job) q)"
| "afterEvent (Settles ok) q = (if aq_job q = None then q else jobSettled ok q)"

fun acceptedBy :: "AgentEvent \<Rightarrow> request AgentQueue \<Rightarrow> request list" where
  "acceptedBy (Arrives job) q = (if fst (schedule job (snd job) q) = Inr () then [job] else [])"
| "acceptedBy (Settles ok) q = []"

definition startedBy :: "AgentEvent \<Rightarrow> request AgentQueue \<Rightarrow> request list" where
  "startedBy e q = (case (e, aq_job q) of
       (Arrives job, Some _) \<Rightarrow> []
     | (Settles _, None) \<Rightarrow> []
     | _ \<Rightarrow> (case aq_job (afterEvent e q) of None \<Rightarrow> [] | Some job \<Rightarrow> [job]))"

fun agentRun :: "AgentEvent list \<Rightarrow> request list \<times> request list \<times> request AgentQueue \<Rightarrow>
    request list \<times> request list \<times> request AgentQueue" where
  "agentRun [] s = s"
| "agentRun (e # es) (accepted, started, q) = agentRun es (accepted @ acceptedBy e q, started @ startedBy e q, afterEvent e q)"

definition idleAgent :: "'j AgentQueue" where
  "idleAgent = \<lparr>aq_priority = [], aq_background = [], aq_running = False, aq_job = None\<rparr>"

definition agentInv :: "bool \<Rightarrow> request list \<times> request list \<times> request AgentQueue \<Rightarrow> bool" where
  "agentInv rejected s \<longleftrightarrow> (case s of (accepted, started, q) \<Rightarrow>
     length (aq_background q) \<le> maxBackgroundQueue \<and> (aq_running q \<longleftrightarrow> aq_job q \<noteq> None) \<and>
     list_all snd (aq_background q) \<and> list_all (Not \<circ> snd) (aq_priority q) \<and>
     filter snd accepted = filter snd started @ aq_background q \<and>
     filter (Not \<circ> snd) accepted = filter (Not \<circ> snd) started @ aq_priority q \<and>
     (aq_running q \<or> rejected \<or> aq_priority q = [] \<and> aq_background q = []))"

lemma agentInv_step:
  assumes "agentInv rejected (accepted, started, q)"
  shows "agentInv (rejected \<or> e = Settles False) (accepted @ acceptedBy e q, started @ startedBy e q, afterEvent e q)"
proof (cases e)
  case (Arrives job)
  then show ?thesis using assms
    by (cases "aq_job q"; cases "snd job"; cases "aq_priority q"; cases "aq_background q")
      (auto simp: agentInv_def startedBy_def schedule_def drain_def drainLoop_def maxBackgroundQueue_def split: if_splits)
next
  case (Settles ok)
  then show ?thesis using assms
    by (cases "aq_job q"; cases ok; cases "aq_priority q"; cases "aq_background q")
      (auto simp: agentInv_def startedBy_def jobSettled_def drainLoop_def)
qed

lemma agentInv_run:
  "agentInv rejected s \<Longrightarrow> agentInv (rejected \<or> Settles False \<in> set es) (agentRun es s)"
proof (induction es s arbitrary: rejected rule: agentRun.induct)
  case (2 e es accepted started q)
  from "2.IH" [OF agentInv_step [OF "2.prems"]] show ?case by (simp add: disj_ac eq_commute [of "Settles False"])
qed simp

text \<open>
  C35. The agent serves its requests in order, one at a time: in every run, the background queue
  holds at most eight requests, the requests of each class that were started are the accepted ones in
  the order of their arrival without the still queued ones, so none is lost, repeated or overtaken
  within its class; a background read starts only when no other request waits; and when the agent is
  idle and no job has rejected, nothing is queued.
\<close>

theorem agent_queue_serves_in_order:
  assumes "agentRun events ([], [], idleAgent) = (accepted, started, q)"
  shows "length (aq_background q) \<le> 8 \<and>
    filter snd accepted = filter snd started @ aq_background q \<and>
    filter (Not \<circ> snd) accepted = filter (Not \<circ> snd) started @ aq_priority q \<and>
    (\<forall>e job. startedBy e q = [job] \<longrightarrow> snd job \<longrightarrow> aq_priority (afterEvent e q) = []) \<and>
    (Settles False \<notin> set events \<longrightarrow> \<not> aq_running q \<longrightarrow> aq_priority q = [] \<and> aq_background q = [])"
proof -
  have "agentInv False ([], [], idleAgent)" by (simp add: agentInv_def idleAgent_def)
  from agentInv_run [OF this, of events] assms
  have inv: "agentInv (Settles False \<in> set events) (accepted, started, q)" by simp
  have "aq_priority (afterEvent e q) = []" if "startedBy e q = [job]" "snd job" for e job
  proof (cases e)
    case (Arrives j)
    then show ?thesis using that inv
      by (cases "aq_job q"; cases "snd j"; cases "aq_priority q"; cases "aq_background q")
        (auto simp: agentInv_def startedBy_def schedule_def drain_def drainLoop_def split: if_splits)
  next
    case (Settles ok)
    then show ?thesis using that inv
      by (cases "aq_job q"; cases ok; cases "aq_priority q"; cases "aq_background q")
        (auto simp: agentInv_def startedBy_def jobSettled_def drainLoop_def)
  qed
  with inv show ?thesis by (auto simp: agentInv_def maxBackgroundQueue_def)
qed

theorem agent_queue_serves_in_order_witness:
  "\<exists>accepted q. agentRun [Arrives (1, True), Arrives (2, True), Arrives (3, False), Settles True] ([], [], idleAgent) =
     (accepted, [(1, True), (3, False)], q) \<and> aq_background q = [(2, True)] \<and> filter snd accepted = [(1, True), (2, True)]"
proof -
  obtain accepted started q where
    run: "agentRun [Arrives (1, True), Arrives (2, True), Arrives (3, False), Settles True] ([], [], idleAgent) = (accepted, started, q)"
    by (cases "agentRun [Arrives (1, True), Arrives (2, True), Arrives (3, False), Settles True] ([], [], idleAgent)") auto
  moreover from run have "started = [(1, True), (3, False)]" "aq_background q = [(2, True)]"
    by (auto simp: idleAgent_def schedule_def drain_def drainLoop_def startedBy_def jobSettled_def maxBackgroundQueue_def)
  ultimately show ?thesis using agent_queue_serves_in_order [OF run] by auto
qed

end
