(* ===== verification/SetupConfig.thy ===== *)
theory SetupConfig
  imports Ipv4 Readers "HOL-Library.AList"
begin

text \<open>
  The configuration file of the set-up wizard: its readers and the writer of its flag in
  \<open>interfaces/http/routes/setup.ts\<close>, and the reader in \<open>interfaces/http/auth.ts\<close> that decides
  whether the set-up API is public.
\<close>

section \<open>Lines\<close>

text \<open>\<open>content.split(/\r?\n/)\<close>: a carriage return before a line feed goes with it.\<close>

definition dropCR :: "string \<Rightarrow> string" where
  "dropCR line = (if line \<noteq> [] \<and> last line = CHR 0x0D then butlast line else line)"

definition splitLines :: "string \<Rightarrow> string list" where
  "splitLines content = (let parts = splitOn (CHR 0x0A) content in map dropCR (butlast parts) @ [last parts])"

section \<open>Reading\<close>

definition isQuote :: "char \<Rightarrow> bool" where
  "isQuote c \<longleftrightarrow> c = CHR 0x27 \<or> c = CHR 0x22"

text \<open>One quote at the start and one at the end go.\<close>

definition stripQuotes :: "string \<Rightarrow> string" where
  "stripQuotes raw = (let s = (if raw \<noteq> [] \<and> isQuote (hd raw) then tl raw else raw)
     in if s \<noteq> [] \<and> isQuote (last s) then butlast s else s)"

text \<open>
  The key and value of a line. An assignment to \<open>__proto__\<close> with a text value does nothing.
\<close>

definition configEntry :: "string \<Rightarrow> (string \<times> string) option" where
  "configEntry line =
     (let trimmed = trim line;
          key = takeWhile (\<lambda>c. c \<noteq> CHR ''='') trimmed
      in if trimmed = [] \<or> startsWith ''#'' trimmed then None
         else if CHR ''='' \<notin> set trimmed \<or> key = [] then None
         else if trim key = ''__proto__'' then None
         else Some (trim key, stripQuotes (trim (drop (Suc (length key)) trimmed))))"

definition assign :: "(string \<times> string) option \<Rightarrow> (string \<times> string) list \<Rightarrow> (string \<times> string) list" where
  "assign e values = (case e of None \<Rightarrow> values | Some (key, v) \<Rightarrow> AList.update key v values)"

definition parseConfig :: "string \<Rightarrow> (string \<times> string) list" where
  "parseConfig content = fold (\<lambda>line. assign (configEntry line)) (splitLines content) []"

definition setupFlag :: string where
  "setupFlag = ''SETUP_COMPLETED''"

record RuntimeConfig =
  rc_setupComplete :: bool
  rc_clientInterface :: string
  rc_uplinkInterface :: string
  rc_clientSubnet :: string
  rc_clientGatewayIp :: string
  rc_uplinkBandwidthMbps :: string
  rc_dashboardPort :: string
  rc_sshPort :: string
  rc_dnsServers :: "string list"
  rc_networkMode :: string

text \<open>\<open>None\<close> is a file that cannot be read.\<close>

definition readRuntimeConfig :: "string option \<Rightarrow> RuntimeConfig" where
  "readRuntimeConfig file = (case file of
       None \<Rightarrow> \<lparr>rc_setupComplete = False, rc_clientInterface = [], rc_uplinkInterface = [], rc_clientSubnet = [],
          rc_clientGatewayIp = [], rc_uplinkBandwidthMbps = [], rc_dashboardPort = [], rc_sshPort = [],
          rc_dnsServers = [], rc_networkMode = ''SINGLE_IFACE_IFB''\<rparr>
     | Some content \<Rightarrow>
        (let values = parseConfig content;
             text = (\<lambda>key. case map_of values key of None \<Rightarrow> [] | Some v \<Rightarrow> v)
         in \<lparr>rc_setupComplete = (case map_of values setupFlag of None \<Rightarrow> False | Some v \<Rightarrow> toLowerCase v = ''true''),
            rc_clientInterface = text ''CLIENT_INTERFACE'', rc_uplinkInterface = text ''UPLINK_INTERFACE'',
            rc_clientSubnet = text ''CLIENT_SUBNET'', rc_clientGatewayIp = text ''CLIENT_GATEWAY_IP'',
            rc_uplinkBandwidthMbps = text ''UPLINK_BANDWIDTH_MBPS'', rc_dashboardPort = text ''DASHBOARD_PORT'',
            rc_sshPort = text ''SSH_PORT'',
            rc_dnsServers = filter (\<lambda>v. v \<noteq> []) (map trim (splitOn (CHR '','') (text ''DNS_SERVERS''))),
            rc_networkMode = (case map_of values ''NETWORK_MODE'' of None \<Rightarrow> ''SINGLE_IFACE_IFB'' | Some v \<Rightarrow> v)\<rparr>))"

definition readSetupComplete :: "string option \<Rightarrow> bool" where
  "readSetupComplete file = rc_setupComplete (readRuntimeConfig file)"

text \<open>\<open>isSetupComplete\<close> of the authentication hook reads the same file in its own way.\<close>

definition isSetupComplete :: "string option \<Rightarrow> bool" where
  "isSetupComplete file = (case file of None \<Rightarrow> False
     | Some content \<Rightarrow> list_ex (\<lambda>line. trim line = ''SETUP_COMPLETED=true'') (splitLines content))"

section \<open>Writing the flag\<close>

text \<open>\<open>.replace(/\n*$/, "")\<close>\<close>

definition stripNewlines :: "string \<Rightarrow> string" where
  "stripNewlines s = rev (dropWhile (\<lambda>c. c = CHR 0x0A) (rev s))"

definition withoutFlag :: "string \<Rightarrow> string" where
  "withoutFlag content = stripNewlines (joinWith [CHR 0x0A]
     (filter (\<lambda>line. \<not> startsWith (setupFlag @ ''='') (trim line)) (splitLines content)))"

definition flagLine :: "bool \<Rightarrow> string" where
  "flagLine v = setupFlag @ ''='' @ (if v then ''true'' else ''false'')"

text \<open>The content of the file after \<open>markSetupComplete\<close>; a file that cannot be read makes it throw.\<close>

definition markSetupComplete :: "bool \<Rightarrow> string option \<Rightarrow> js_error + string" where
  "markSetupComplete v file = (case file of
       None \<Rightarrow> Inl (Error ''ENOENT: no such file or directory'')
     | Some content \<Rightarrow> Inr (withoutFlag content @ [CHR 0x0A] @ flagLine v @ [CHR 0x0A]))"

section \<open>The lines that count\<close>

text \<open>Trimmed, without the empty ones: every reader looks at nothing else.\<close>

definition plainLines :: "string list \<Rightarrow> string list" where
  "plainLines ls = filter (\<lambda>l. l \<noteq> []) (map trim ls)"

lemma plainLines_append [simp]: "plainLines (a @ b) = plainLines a @ plainLines b"
  by (simp add: plainLines_def)

lemma plainLines_Nil [simp]: "plainLines [] = []"
  by (simp add: plainLines_def)

lemma plainLines_blank: "plainLines (replicate n []) = []"
  by (induction n) (simp_all add: plainLines_def trim_def trimEnd_def trimStart_def)

lemma trim_dropCR: "trim (dropCR line) = trim line"
proof (cases "line = [] \<or> last line \<noteq> CHR 0x0D")
  case False
  then obtain a where "line = a @ [CHR 0x0D]" by (metis append_butlast_last_id)
  moreover have "isSpace (CHR 0x0D)" by (simp add: isSpace_def)
  moreover have "dropWhile isSpace a = [] \<longleftrightarrow> (\<forall>c \<in> set a. isSpace c)" by (rule dropWhile_eq_Nil_conv)
  ultimately show ?thesis by (auto simp: dropCR_def trim_def trimEnd_def trimStart_def dropWhile_append dest: set_dropWhileD)
qed (auto simp: dropCR_def)

lemma plainLines_splitLines: "plainLines (splitLines content) = plainLines (splitOn (CHR 0x0A) content)"
proof -
  obtain ls l where parts: "splitOn (CHR 0x0A) content = ls @ [l]" by (metis append_butlast_last_id splitOn_nonempty)
  show ?thesis unfolding splitLines_def parts by (simp add: plainLines_def trim_dropCR comp_def)
qed

lemma trim_blank: "configEntry [] = None" "trim [] = []"
  by (simp_all add: configEntry_def trim_def trimEnd_def trimStart_def)

lemma configEntry_trim: "configEntry (trim line) = configEntry line"
  by (simp add: configEntry_def)

lemma parseConfig_plain: "parseConfig content = fold (\<lambda>l. assign (configEntry l)) (plainLines (splitLines content)) []"
proof -
  have "fold (\<lambda>l. assign (configEntry l)) ls vs = fold (\<lambda>l. assign (configEntry l)) (plainLines ls) vs" for ls vs
  proof (induction ls arbitrary: vs)
    case (Cons l ls)
    have "trim l = [] \<Longrightarrow> configEntry l = None" using configEntry_trim [of l] by (simp add: trim_blank)
    then show ?case using Cons configEntry_trim [of l] by (auto simp: plainLines_def assign_def)
  qed simp
  then show ?thesis by (simp add: parseConfig_def)
qed

lemma isSetupComplete_plain:
  "isSetupComplete (Some content) \<longleftrightarrow> ''SETUP_COMPLETED=true'' \<in> set (plainLines (splitLines content))"
  by (auto simp: isSetupComplete_def list_ex_iff plainLines_def image_iff eq_commute [of "''SETUP_COMPLETED=true''"])

section \<open>After the flag was written\<close>

lemma splitOn_blank: "splitOn c (replicate n c) = replicate (Suc n) []"
  by (induction n) simp_all

lemma plainLines_stripNewlines:
  "plainLines (splitOn (CHR 0x0A) (stripNewlines s)) = plainLines (splitOn (CHR 0x0A) s)"
proof -
  let ?nl = "CHR 0x0A"
  have "takeWhile (\<lambda>c. c = ?nl) (rev s) = replicate (length (takeWhile (\<lambda>c. c = ?nl) (rev s))) ?nl"
    by (rule replicate_length_same [symmetric]) (auto dest: set_takeWhileD)
  moreover have "s = stripNewlines s @ rev (takeWhile (\<lambda>c. c = ?nl) (rev s))"
    unfolding stripNewlines_def by (metis rev_append rev_rev_ident takeWhile_dropWhile_id)
  ultimately obtain n where s: "s = stripNewlines s @ replicate n ?nl" by (metis rev_replicate)
  obtain ls l where parts: "splitOn ?nl (stripNewlines s) = ls @ [l]" by (metis append_butlast_last_id splitOn_nonempty)
  have "?nl \<notin> set l" using splitOn_parts [of l ?nl "stripNewlines s"] by (simp add: parts)
  then have "splitOn ?nl (l @ replicate n ?nl) = l # replicate n []"
    by (cases n) (simp_all add: splitOn_no_sep splitOn_append splitOn_blank)
  then have "plainLines (splitOn ?nl (l @ replicate n ?nl)) = plainLines [l]"
    using plainLines_append [of "[l]" "replicate n []"] by (simp add: plainLines_blank)
  then have "plainLines (splitOn ?nl (stripNewlines s @ replicate n ?nl)) = plainLines (splitOn ?nl (stripNewlines s))"
    using splitOn_chunks [of ?nl "stripNewlines s" "replicate n ?nl"] by (simp add: parts)
  with s show ?thesis by metis
qed

lemma splitLines_parts: "l \<in> set (splitLines content) \<Longrightarrow> CHR 0x0A \<notin> set l"
proof -
  assume l: "l \<in> set (splitLines content)"
  let ?ws = "splitOn (CHR 0x0A) content"
  have drop: "set (dropCR w) \<subseteq> set w" for w by (auto simp: dropCR_def dest: in_set_butlastD)
  have "CHR 0x0A \<notin> set w" if "w \<in> set (butlast ?ws)" for w using splitOn_parts [OF in_set_butlastD [OF that]] .
  moreover have "CHR 0x0A \<notin> set (last ?ws)" by (rule splitOn_parts [of _ _ content]) simp
  moreover have "l \<in> dropCR ` set (butlast ?ws) \<or> l = last ?ws" using l by (auto simp: splitLines_def Let_def)
  ultimately show ?thesis using drop by blast
qed

definition isFlagLine :: "string \<Rightarrow> bool" where
  "isFlagLine line \<longleftrightarrow> startsWith (setupFlag @ ''='') (trim line)"

lemma plainLines_filter: "plainLines (filter (\<lambda>l. \<not> isFlagLine l) ls) = filter (\<lambda>l. \<not> isFlagLine l) (plainLines ls)"
  by (induction ls) (simp_all add: plainLines_def isFlagLine_def)

lemma plainLines_withoutFlag:
  "plainLines (splitOn (CHR 0x0A) (withoutFlag content)) = filter (\<lambda>l. \<not> isFlagLine l) (plainLines (splitLines content))"
proof -
  let ?ls = "filter (\<lambda>l. \<not> isFlagLine l) (splitLines content)"
  have "plainLines (splitOn (CHR 0x0A) (joinWith [CHR 0x0A] ?ls)) = plainLines ?ls"
  proof (cases "?ls = []")
    case False
    have "\<forall>w \<in> set ?ls. CHR 0x0A \<notin> set w" using splitLines_parts by auto
    from splitOn_joinWith [OF False this] show ?thesis by simp
  qed (simp add: plainLines_def trim_blank)
  then show ?thesis unfolding withoutFlag_def plainLines_stripNewlines isFlagLine_def [symmetric] plainLines_filter [symmetric] .
qed

lemma markSetupComplete_lines:
  assumes "markSetupComplete v (Some content) = Inr content'"
  shows "plainLines (splitLines content') = filter (\<lambda>l. \<not> isFlagLine l) (plainLines (splitLines content)) @ [flagLine v]"
proof -
  obtain ls l where parts: "splitOn (CHR 0x0A) (withoutFlag content) = ls @ [l]" by (metis append_butlast_last_id splitOn_nonempty)
  have flag: "CHR 0x0A \<notin> set (flagLine v)" "trim (flagLine v) = flagLine v" "flagLine v \<noteq> []"
    by (cases v; simp add: flagLine_def setupFlag_def trim_def trimEnd_def trimStart_def isSpace_def)+
  have "CHR 0x0A \<notin> set l" using splitOn_parts [of l "CHR 0x0A" "withoutFlag content"] by (simp add: parts)
  then have "splitOn (CHR 0x0A) (l @ CHR 0x0A # flagLine v @ [CHR 0x0A]) = [l, flagLine v, []]"
    using flag(1) by (simp add: splitOn_append)
  then have "splitOn (CHR 0x0A) content' = splitOn (CHR 0x0A) (withoutFlag content) @ [flagLine v, []]"
    using assms by (auto simp: markSetupComplete_def splitOn_chunks [of _ "withoutFlag content"] parts)
  then show ?thesis unfolding plainLines_splitLines [of content'] using flag plainLines_withoutFlag [of content]
    by (simp add: plainLines_def trim_blank)
qed

lemma flag_entry: "configEntry (flagLine v) = Some (setupFlag, if v then ''true'' else ''false'')"
proof -
  have "configEntry (flagLine True) = Some (setupFlag, ''true'')" "configEntry (flagLine False) = Some (setupFlag, ''false'')"
    by code_simp+
  then show ?thesis by (cases v) simp_all
qed

lemma isFlagLine_entry:
  assumes "isFlagLine l" "configEntry l = Some (key, w)"
  shows "key = setupFlag"
proof -
  from assms(1) obtain r where t: "trim l = setupFlag @ CHR ''='' # r" by (auto simp: isFlagLine_def startsWith_iff)
  have "takeWhile (\<lambda>c. c \<noteq> CHR ''='') (setupFlag @ CHR ''='' # r) = setupFlag" by (simp add: setupFlag_def)
  moreover have "trim setupFlag = setupFlag" by code_simp
  ultimately show ?thesis using assms(2) unfolding configEntry_def t Let_def by (auto split: if_splits)
qed

lemma fold_assign_other:
  assumes "key \<noteq> setupFlag" "map_of vs key = map_of vs' key"
  shows "map_of (fold (\<lambda>l. assign (configEntry l)) ls vs) key =
     map_of (fold (\<lambda>l. assign (configEntry l)) (filter (\<lambda>l. \<not> isFlagLine l) ls) vs') key"
  using assms(2)
proof (induction ls arbitrary: vs vs')
  case (Cons l ls)
  have same: "map_of (assign (configEntry l) vs) key = map_of (assign (configEntry l) vs') key"
    using Cons.prems by (auto simp: assign_def update_conv' split: option.split)
  have skip: "isFlagLine l \<Longrightarrow> map_of (assign (configEntry l) vs) key = map_of vs' key"
    using Cons.prems isFlagLine_entry [of l] assms(1) by (auto simp: assign_def update_conv' split: option.split)
  show ?case using Cons.IH [OF same] Cons.IH [OF skip] by simp
qed simp

lemma marked_flag:
  assumes "markSetupComplete v (Some content) = Inr content'"
  shows "readSetupComplete (Some content') = v" "isSetupComplete (Some content') = v"
proof -
  note lines = markSetupComplete_lines [OF assms]
  have "map_of (parseConfig content') setupFlag = Some (if v then ''true'' else ''false'')"
    unfolding parseConfig_plain lines by (simp add: flag_entry assign_def update_conv')
  moreover have "toLowerCase ''true'' = ''true''" "toLowerCase ''false'' \<noteq> ''true''" by code_simp+
  ultimately show "readSetupComplete (Some content') = v"
    by (cases v) (simp_all add: readSetupComplete_def readRuntimeConfig_def Let_def)
  have "isFlagLine ''SETUP_COMPLETED=true''" "flagLine True = ''SETUP_COMPLETED=true''" "flagLine False \<noteq> ''SETUP_COMPLETED=true''"
    by code_simp+
  then show "isSetupComplete (Some content') = v"
    unfolding isSetupComplete_plain lines by (cases v) auto
qed

text \<open>
  C38. Writing the set-up flag is read back by every reader of the file: after the flag was set to a
  value, the status route and the authentication hook both see that value, and every other setting reads
  as before, whatever lines, quotes, comments, duplicates and line ends the file had.
\<close>

theorem setup_flag_roundtrip:
  assumes "markSetupComplete v (Some content) = Inr content'"
  shows "readSetupComplete (Some content') = v \<and> isSetupComplete (Some content') = v \<and>
    (\<forall>key. key \<noteq> setupFlag \<longrightarrow> map_of (parseConfig content') key = map_of (parseConfig content) key)"
proof (intro conjI allI impI)
  show "readSetupComplete (Some content') = v" "isSetupComplete (Some content') = v" using marked_flag [OF assms] .
  fix key assume "key \<noteq> setupFlag"
  then show "map_of (parseConfig content') key = map_of (parseConfig content) key"
    unfolding parseConfig_plain markSetupComplete_lines [OF assms] using fold_assign_other [of key "[]" "[]"]
    by (simp add: flag_entry assign_def update_conv')
qed

theorem setup_flag_roundtrip_witness:
  "\<exists>content'. markSetupComplete False (Some (''SETUP_COMPLETED=true'' @ [CHR 0x0D, CHR 0x0A] @ ''SSH_PORT=22'')) = Inr content' \<and>
     \<not> readSetupComplete (Some content') \<and> \<not> isSetupComplete (Some content') \<and>
     map_of (parseConfig content') ''SSH_PORT'' = Some ''22''"
proof -
  let ?c = "''SETUP_COMPLETED=true'' @ [CHR 0x0D, CHR 0x0A] @ ''SSH_PORT=22''"
  obtain content' where run: "markSetupComplete False (Some ?c) = Inr content'" by (simp add: markSetupComplete_def)
  moreover have "map_of (parseConfig ?c) ''SSH_PORT'' = Some ''22''" "''SSH_PORT'' \<noteq> setupFlag" by code_simp+
  ultimately show ?thesis using setup_flag_roundtrip [OF run] by auto
qed

text \<open>
  Files that were not written by \<open>markSetupComplete\<close> are read differently: a quoted flag is complete
  for the status route, while the authentication hook still leaves the set-up API open.
\<close>

lemma quoted_flag_diverges:
  "readSetupComplete (Some (''SETUP_COMPLETED='' @ [CHR 0x22] @ ''true'' @ [CHR 0x22]))"
  "\<not> isSetupComplete (Some (''SETUP_COMPLETED='' @ [CHR 0x22] @ ''true'' @ [CHR 0x22]))"
  by code_simp+

end
