(* ===== verification/Auth.thy ===== *)
theory Auth
  imports SetupConfig Agent
begin

text \<open>
  Authentication, \<open>interfaces/http/auth.ts\<close>: the hook in front of every route, the login route with
  its throttle, and the logout route. The hash functions and the source of random tokens are
  parameters; the table of sessions is part of the state and its queries may fail.
\<close>

section \<open>State\<close>

definition SESSION_TTL_MS :: int where
  "SESSION_TTL_MS = 8 * 60 * 60 * 1000"

definition SESSION_COOKIE :: string where
  "SESSION_COOKIE = ''nm_session''"

definition LOGIN_WINDOW_MS :: int where
  "LOGIN_WINDOW_MS = 5 * 60 * 1000"

definition LOGIN_MAX_FAILURES :: nat where
  "LOGIN_MAX_FAILURES = 10"

record AuthSession =
  as_id :: nat
  as_tokenHash :: string
  as_expiresAt :: int

record LoginFailure =
  lf_count :: nat
  lf_resetAt :: int

record AuthEnv =
  ae_username :: "string option"
  ae_passwordHash :: "string option"
  ae_passwordSalt :: "string option"
  ae_password :: "string option"
  ae_nodeEnv :: "string option"
  ae_sha256 :: "string \<Rightarrow> string"
  ae_scrypt :: "string \<Rightarrow> string \<Rightarrow> string"

record AuthState =
  au_now :: int
  au_tick :: nat
  au_fault :: "nat \<Rightarrow> bool"
  au_sessions :: "AuthSession list"
  au_nextSession :: nat
  au_failures :: "(string \<times> LoginFailure) list"
  au_config :: "string option"
  au_random :: "nat \<Rightarrow> string"
  au_drawn :: nat

definition authQuery :: "(AuthState \<Rightarrow> 'a \<times> AuthState) \<Rightarrow> (AuthState, 'a) prog" where
  "authQuery f = (\<lambda>s. let s1 = s\<lparr>au_tick := Suc (au_tick s)\<rparr>
     in if au_fault s (au_tick s) then (Inl (Error ''Can't reach database server''), s1) else (case f s1 of (x, t) \<Rightarrow> (Inr x, t)))"

section \<open>Passwords\<close>

definition configured :: "string option \<Rightarrow> string \<Rightarrow> string \<Rightarrow> js_error + string" where
  "configured value name fallback = (let v = (case value of None \<Rightarrow> fallback | Some x \<Rightarrow> x)
     in if v = [] then Inl (Error (''Missing required environment variable: '' @ name)) else Inr v)"

text \<open>\<open>Buffer.from(hash, "hex")\<close>: whole pairs of hexadecimal digits, up to the first other character.\<close>

fun hexBytes :: "string \<Rightarrow> string" where
  "hexBytes (a # b # rest) = (if isHex a \<and> isHex b then char_of (16 * hexVal (lowerChar a) + hexVal (lowerChar b)) # hexBytes rest else [])"
| "hexBytes _ = []"

definition passwordMatches :: "AuthEnv \<Rightarrow> string \<Rightarrow> string \<Rightarrow> bool" where
  "passwordMatches env candidate expected \<longleftrightarrow> ae_sha256 env candidate = ae_sha256 env expected"

definition passwordIsValid :: "AuthEnv \<Rightarrow> string \<Rightarrow> bool" where
  "passwordIsValid env candidate \<longleftrightarrow>
     (if truthy (ae_passwordHash env) \<and> truthy (ae_passwordSalt env) then
        (let actual = ae_scrypt env candidate (the (ae_passwordSalt env)); expected = hexBytes (the (ae_passwordHash env))
         in length expected = length actual \<and> actual = expected)
      else if ae_nodeEnv env = Some ''production'' then False
      else if \<not> truthy (ae_password env) \<or> ae_password env = Some ''change-me'' then False
      else passwordMatches env candidate (the (ae_password env)))"

section \<open>Tokens\<close>

definition tokenHash :: "AuthEnv \<Rightarrow> string \<Rightarrow> string" where
  "tokenHash env token = ae_sha256 env token"

record Request =
  rq_url :: string
  rq_ip :: string
  rq_authorization :: "string option"
  rq_cookie :: "string option"

fun cookieParts :: "string list \<Rightarrow> string option" where
  "cookieParts [] = None"
| "cookieParts (part # parts) =
     (if CHR ''='' \<notin> set part then cookieParts parts
      else let name = trim (takeWhile (\<lambda>c. c \<noteq> CHR ''='') part)
       in if name \<noteq> SESSION_COOKIE then cookieParts parts
          else let v = trim (tl (dropWhile (\<lambda>c. c \<noteq> CHR ''='') part)) in if v = [] then None else Some v)"

definition cookieTokenFrom :: "Request \<Rightarrow> string option" where
  "cookieTokenFrom request = (case rq_cookie request of None \<Rightarrow> None
     | Some header \<Rightarrow> if header = [] then None else cookieParts (splitOn (CHR '';'') header))"

definition tokenFrom :: "Request \<Rightarrow> string option" where
  "tokenFrom request = (case rq_authorization request of
       Some header \<Rightarrow> if startsWith ''Bearer '' header
          then (let v = trim (drop 7 header) in if v = [] then None else Some v)
          else cookieTokenFrom request
     | None \<Rightarrow> cookieTokenFrom request)"

section \<open>The hook\<close>

text \<open>An expired row is deleted as far as that is possible.\<close>

definition validateSessionToken :: "AuthEnv \<Rightarrow> string option \<Rightarrow> (AuthState, bool) prog" where
  "validateSessionToken env token = (case token of None \<Rightarrow> ret False
     | Some tok \<Rightarrow> if tok = [] then ret False
       else bnd (authQuery (\<lambda>s. (find (\<lambda>r. as_tokenHash r = tokenHash env tok) (au_sessions s), s))) (\<lambda>session.
         case session of None \<Rightarrow> ret False
         | Some r \<Rightarrow> bnd (gets au_now) (\<lambda>now.
             if as_expiresAt r \<le> now then
               thn (tryCatch (authQuery (\<lambda>s. ((), s\<lparr>au_sessions := filter (\<lambda>q. as_id q \<noteq> as_id r) (au_sessions s)\<rparr>))) (\<lambda>_. skip))
                 (ret False)
             else ret True)))"

text \<open>The path without the query, not decoded.\<close>

definition pathnameOf :: "Request \<Rightarrow> string" where
  "pathnameOf request = takeWhile (\<lambda>c. c \<noteq> CHR ''?'') (rq_url request)"

definition alwaysPublic :: "string list" where
  "alwaysPublic = [''/api/auth/login'', ''/api/health'', ''/api/setup/status'']"

text \<open>\<open>True\<close>: the request goes on to its route; \<open>False\<close>: it is answered with 401.\<close>

definition preHandler :: "AuthEnv \<Rightarrow> Request \<Rightarrow> (AuthState, bool) prog" where
  "preHandler env request = (let pathname = pathnameOf request in
     if \<not> startsWith ''/api/'' pathname then ret True
     else if pathname \<in> set alwaysPublic then ret True
     else bnd (gets au_config) (\<lambda>file.
       if startsWith ''/api/setup/'' pathname \<and> \<not> isSetupComplete file then ret True
       else validateSessionToken env (tokenFrom request)))"

section \<open>Login and logout\<close>

datatype LoginReply = TooManyAttempts | InvalidCredentials | LoggedIn string

definition activeFailure :: "int \<Rightarrow> LoginFailure option \<Rightarrow> LoginFailure option" where
  "activeFailure now failure = (case failure of None \<Rightarrow> None | Some f \<Rightarrow> if now < lf_resetAt f then Some f else None)"

text \<open>The column of the hashes is unique.\<close>

definition createSession :: "string \<Rightarrow> (AuthState, unit) prog" where
  "createSession hash = bnd (authQuery (\<lambda>s.
     if list_ex (\<lambda>r. as_tokenHash r = hash) (au_sessions s) then (False, s)
     else (True, s\<lparr>au_sessions := au_sessions s @ [\<lparr>as_id = au_nextSession s, as_tokenHash = hash,
            as_expiresAt = au_now s + SESSION_TTL_MS\<rparr>], au_nextSession := Suc (au_nextSession s)\<rparr>)))
     (\<lambda>created. if created then skip else throw (Error ''Unique constraint failed on the fields: (tokenHash)''))"

text \<open>The schema of the route lets only texts through.\<close>

definition login :: "AuthEnv \<Rightarrow> string \<Rightarrow> string \<Rightarrow> string \<Rightarrow> (AuthState, LoginReply) prog" where
  "login env source username password =
     bnd (gets au_now) (\<lambda>now.
     bnd (gets (\<lambda>s. activeFailure now (map_of (au_failures s) source))) (\<lambda>failure.
     if (case failure of None \<Rightarrow> False | Some f \<Rightarrow> LOGIN_MAX_FAILURES \<le> lf_count f) then ret TooManyAttempts
     else bnd (liftE (configured (ae_username env) ''ADMIN_USERNAME'' ''admin'')) (\<lambda>admin.
       if username \<noteq> admin \<or> \<not> passwordIsValid env password then
         (let current = (case failure of Some f \<Rightarrow> f | None \<Rightarrow> \<lparr>lf_count = 0, lf_resetAt = now + LOGIN_WINDOW_MS\<rparr>)
          in thn (modify (\<lambda>s. s\<lparr>au_failures := AList.update source (current\<lparr>lf_count := lf_count current + 1\<rparr>) (au_failures s)\<rparr>))
               (ret InvalidCredentials))
       else thn (modify (\<lambda>s. s\<lparr>au_failures := AList.delete source (au_failures s)\<rparr>))
         (bnd (\<lambda>s. (Inr (au_random s (au_drawn s)), s\<lparr>au_drawn := Suc (au_drawn s)\<rparr>)) (\<lambda>token.
          thn (createSession (tokenHash env token)) (ret (LoggedIn token)))))))"

definition logout :: "AuthEnv \<Rightarrow> Request \<Rightarrow> (AuthState, unit) prog" where
  "logout env request = (case tokenFrom request of None \<Rightarrow> skip
     | Some token \<Rightarrow> authQuery (\<lambda>s. ((), s\<lparr>au_sessions := filter (\<lambda>r. as_tokenHash r \<noteq> tokenHash env token) (au_sessions s)\<rparr>)))"

section \<open>Runs\<close>

text \<open>
  What happens to the service, with a log: the sessions that were granted and not ended by their
  holder, as hash and end of life, and the logins that were answered with 401 and those
  that were let through the throttle and the password check, or that rejected, with their source.
  A logout passes the hook like every other request.
\<close>

datatype AuthEvent = Advance nat | SignIn string string string | SignOut Request | Visit Request | Reconfigure "string option"

record AuthLog =
  al_granted :: "(string \<times> int) list"
  al_failed :: "string list"
  al_passed :: "string list"

fun authEvent :: "AuthEnv \<Rightarrow> AuthEvent \<Rightarrow> AuthLog \<times> AuthState \<Rightarrow> AuthLog \<times> AuthState" where
  "authEvent env (Advance n) (l, s) = (l, s\<lparr>au_now := au_now s + int n\<rparr>)"
| "authEvent env (SignIn source username password) (l, s) = (case login env source username password s of
     (Inr (LoggedIn token), t) \<Rightarrow> (l\<lparr>al_granted := al_granted l @ [(tokenHash env token, au_now s + SESSION_TTL_MS)],
         al_passed := al_passed l @ [source]\<rparr>, t)
   | (Inr InvalidCredentials, t) \<Rightarrow> (l\<lparr>al_failed := al_failed l @ [source]\<rparr>, t)
   | (Inr TooManyAttempts, t) \<Rightarrow> (l, t)
   | (Inl e, t) \<Rightarrow> (l\<lparr>al_passed := al_passed l @ [source]\<rparr>, t))"
| "authEvent env (SignOut request) (l, s) = (case preHandler env request s of
     (Inr True, t) \<Rightarrow> (case (logout env request t, tokenFrom request) of
         ((Inr _, u), Some token) \<Rightarrow> (l\<lparr>al_granted := filter (\<lambda>g. fst g \<noteq> tokenHash env token) (al_granted l)\<rparr>, u)
       | ((_, u), _) \<Rightarrow> (l, u))
   | (_, t) \<Rightarrow> (l, t))"
| "authEvent env (Visit request) (l, s) = (l, snd (preHandler env request s))"
| "authEvent env (Reconfigure file) (l, s) = (l, s\<lparr>au_config := file\<rparr>)"

definition emptyLog :: AuthLog where
  "emptyLog = \<lparr>al_granted = [], al_failed = [], al_passed = []\<rparr>"

text \<open>The requests that need a session: API paths that are not public.\<close>

definition protected :: "Request \<Rightarrow> AuthState \<Rightarrow> bool" where
  "protected request s \<longleftrightarrow> startsWith ''/api/'' (pathnameOf request) \<and> pathnameOf request \<notin> set alwaysPublic \<and>
     \<not> (startsWith ''/api/setup/'' (pathnameOf request) \<and> \<not> isSetupComplete (au_config s))"

definition granted :: "AuthEnv \<Rightarrow> Request \<Rightarrow> AuthLog \<Rightarrow> int \<Rightarrow> bool" where
  "granted env request l now \<longleftrightarrow> (case tokenFrom request of None \<Rightarrow> False
     | Some token \<Rightarrow> list_ex (\<lambda>g. fst g = tokenHash env token \<and> now < snd g) (al_granted l))"

subsection \<open>The table against the log\<close>

definition sessionOf :: "AuthSession \<Rightarrow> string \<times> int" where
  "sessionOf r = (as_tokenHash r, as_expiresAt r)"

definition sessionsInv :: "AuthLog \<Rightarrow> AuthState \<Rightarrow> bool" where
  "sessionsInv l s \<longleftrightarrow> distinct (map as_tokenHash (au_sessions s)) \<and> distinct (map as_id (au_sessions s)) \<and>
     (\<forall>r \<in> set (au_sessions s). as_id r < au_nextSession s) \<and>
     sessionOf ` set (au_sessions s) \<subseteq> set (al_granted l) \<and>
     (\<forall>g \<in> set (al_granted l). au_now s < snd g \<longrightarrow> g \<in> sessionOf ` set (au_sessions s))"

text \<open>What a query sees and what the clock and the other fields cannot change.\<close>

lemma sessionsInv_same:
  "sessionsInv l s \<Longrightarrow> au_sessions t = au_sessions s \<Longrightarrow> au_nextSession t = au_nextSession s \<Longrightarrow> au_now s \<le> au_now t \<Longrightarrow>
    al_granted k = al_granted l \<Longrightarrow> sessionsInv k t"
  by (auto simp: sessionsInv_def)

lemma sessionsInv_remove:
  assumes "sessionsInv l s" "au_sessions t = filter P (au_sessions s)" "au_nextSession t = au_nextSession s" "au_now t = au_now s"
    and "set (al_granted k) = {g \<in> set (al_granted l). Q g}" 
    and "\<And>r. r \<in> set (au_sessions s) \<Longrightarrow> P r \<longleftrightarrow> Q (sessionOf r) \<and> \<not> X r" "\<And>r. r \<in> set (au_sessions s) \<Longrightarrow> X r \<Longrightarrow> as_expiresAt r \<le> au_now s"
  shows "sessionsInv k t"
  unfolding sessionsInv_def assms(2-5)
proof (intro conjI)
  show "distinct (map as_tokenHash (filter P (au_sessions s)))" "distinct (map as_id (filter P (au_sessions s)))"
    using assms(1) by (simp_all add: sessionsInv_def distinct_map_filter)
  show "\<forall>r \<in> set (filter P (au_sessions s)). as_id r < au_nextSession s" using assms(1) by (simp add: sessionsInv_def)
  show "sessionOf ` set (filter P (au_sessions s)) \<subseteq> {g \<in> set (al_granted l). Q g}"
    using assms(1,6) by (auto simp: sessionsInv_def)
  show "\<forall>g \<in> {g \<in> set (al_granted l). Q g}. au_now s < snd g \<longrightarrow> g \<in> sessionOf ` set (filter P (au_sessions s))"
  proof (intro ballI impI)
    fix g assume g: "g \<in> {g \<in> set (al_granted l). Q g}" "au_now s < snd g"
    with assms(1) obtain r where r: "r \<in> set (au_sessions s)" "g = sessionOf r" by (auto simp: sessionsInv_def)
    with g assms(6,7) have "P r" by (fastforce simp: sessionOf_def)
    with r show "g \<in> sessionOf ` set (filter P (au_sessions s))" by auto
  qed
qed

text \<open>The effect of the hook: nothing but an expired row may go, and its answer is what the table says.\<close>

lemma find_hash:
  "distinct (map as_tokenHash rs) \<Longrightarrow> r \<in> set rs \<Longrightarrow> find (\<lambda>q. as_tokenHash q = as_tokenHash r) rs = Some r"
  by (induction rs) (auto simp: image_iff)

lemma cookie_nonempty: "cookieParts ps \<noteq> Some []"
  by (induction ps) (auto simp: Let_def)

lemma token_nonempty: "tokenFrom request \<noteq> Some []"
  using cookie_nonempty by (auto simp: tokenFrom_def cookieTokenFrom_def Let_def split: option.splits)

definition quietHook :: "AuthState \<Rightarrow> AuthState \<Rightarrow> bool" where
  "quietHook s t \<longleftrightarrow> au_now t = au_now s \<and> au_config t = au_config s \<and> au_failures t = au_failures s"

lemma validate_spec:
  assumes "sessionsInv l s" "token \<noteq> Some []"
  shows "spec (validateSessionToken env token) s (\<lambda>r t. sessionsInv l t \<and> quietHook s t \<and>
    (\<forall>ok. r = Inr ok \<longrightarrow> ok = (case token of None \<Rightarrow> False
       | Some tok \<Rightarrow> list_ex (\<lambda>g. fst g = tokenHash env tok \<and> au_now s < snd g) (al_granted l))))"
proof (cases token)
  case None
  then show ?thesis using assms by (simp add: validateSessionToken_def quietHook_def)
next
  case (Some tok)
  let ?h = "tokenHash env tok"
  let ?s = "s\<lparr>au_tick := Suc (au_tick s)\<rparr>"
  have inv: "sessionsInv l ?s" "sessionsInv l (?s\<lparr>au_tick := n\<rparr>)" for n using assms(1) by (auto intro: sessionsInv_same)
  show ?thesis
  proof (cases "find (\<lambda>r. as_tokenHash r = ?h) (au_sessions s)")
    case None
    then have "\<not> list_ex (\<lambda>g. fst g = ?h \<and> au_now s < snd g) (al_granted l)"
      using assms(1) by (fastforce simp: sessionsInv_def list_ex_iff find_None_iff sessionOf_def)
    then show ?thesis using Some assms(2) None inv
      by (auto simp: spec_def validateSessionToken_def authQuery_def bnd_def Let_def quietHook_def)
  next
    case (Some r)
    then have r: "r \<in> set (au_sessions s)" "as_tokenHash r = ?h" by (auto simp: find_Some_iff)
    have live: "list_ex (\<lambda>g. fst g = ?h \<and> au_now s < snd g) (al_granted l) \<longleftrightarrow> au_now s < as_expiresAt r"
    proof
      assume "list_ex (\<lambda>g. fst g = ?h \<and> au_now s < snd g) (al_granted l)"
      with assms(1) obtain q where q: "q \<in> set (au_sessions s)" "as_tokenHash q = ?h" "au_now s < as_expiresAt q"
        by (auto simp: sessionsInv_def list_ex_iff sessionOf_def)
      with r assms(1) have "q = r" by (auto simp: sessionsInv_def distinct_map inj_on_def)
      with q show "au_now s < as_expiresAt r" by simp
    next
      assume "au_now s < as_expiresAt r"
      moreover have "sessionOf r \<in> set (al_granted l)" using assms(1) r(1) by (auto simp: sessionsInv_def)
      ultimately show "list_ex (\<lambda>g. fst g = ?h \<and> au_now s < snd g) (al_granted l)" using r(2) by (force simp: list_ex_iff sessionOf_def)
    qed
    have gone: "sessionsInv l (s\<lparr>au_tick := n, au_sessions := filter (\<lambda>q. as_id q \<noteq> as_id r) (au_sessions s)\<rparr>)"
      if "as_expiresAt r \<le> au_now s" for n
    proof (rule sessionsInv_remove [OF assms(1), where Q = "\<lambda>_. True" and X = "\<lambda>q. as_id q = as_id r"])
      fix q assume "q \<in> set (au_sessions s)" "as_id q = as_id r"
      with r(1) assms(1) have "q = r" by (auto simp: sessionsInv_def distinct_map inj_on_def)
      with that show "as_expiresAt q \<le> au_now s" by simp
    qed simp_all
    show ?thesis using \<open>token = Some tok\<close> assms(2) Some inv live gone
      by (auto simp: spec_def validateSessionToken_def authQuery_def bnd_def thn_def tryCatch_def gets_def skip_def ret_def Let_def quietHook_def
          not_le [symmetric])
  qed
qed

lemma preHandler_spec:
  assumes "sessionsInv l s"
  shows "spec (preHandler env request) s (\<lambda>r t. sessionsInv l t \<and> quietHook s t \<and>
    (\<forall>ok. r = Inr ok \<longrightarrow> ok = (\<not> protected request s \<or> granted env request l (au_now s))))"
  unfolding preHandler_def Let_def
proof (intro spec_if, goal_cases)
  case 3
  show ?case
  proof (rule spec_bnd [OF spec_gets [where Q = "\<lambda>r t. r = Inr (au_config s) \<and> t = s"]])
    fix conf t assume t: "Inr conf = (Inr (au_config s) :: js_error + string option) \<and> t = s"
    show "spec (if startsWith ''/api/setup/'' (pathnameOf request) \<and> \<not> isSetupComplete conf then ret True
        else validateSessionToken env (tokenFrom request)) t (\<lambda>r t. sessionsInv l t \<and> quietHook s t \<and>
        (\<forall>ok. r = Inr ok \<longrightarrow> ok = (\<not> protected request s \<or> granted env request l (au_now s))))"
      using t 3 assms by (intro spec_if spec_mono [OF validate_spec [OF _ token_nonempty]])
        (auto simp: protected_def granted_def quietHook_def)
  qed (simp_all)
qed (use assms in \<open>simp_all add: protected_def quietHook_def\<close>)

lemma login_spec:
  assumes "sessionsInv l s"
  shows "spec (login env source username password) s (\<lambda>r t. au_now t = au_now s \<and> sessionsInv (case r of
      Inr (LoggedIn token) \<Rightarrow> l\<lparr>al_granted := al_granted l @ [(tokenHash env token, au_now s + SESSION_TTL_MS)]\<rparr> | _ \<Rightarrow> l) t \<and>
    (\<forall>token. r = Inr (LoggedIn token) \<longrightarrow> configured (ae_username env) ''ADMIN_USERNAME'' ''admin'' = Inr username \<and>
      passwordIsValid env password))"
proof -
  have keep: "sessionsInv l t" if "au_sessions t = au_sessions s" "au_nextSession t = au_nextSession s" "au_now t = au_now s" for t
    using sessionsInv_same [OF assms] that by simp
  have create: "spec (thn (createSession h) (ret (LoggedIn token))) t (\<lambda>r u. au_now u = au_now s \<and> sessionsInv (case r of
      Inr (LoggedIn token) \<Rightarrow> l\<lparr>al_granted := al_granted l @ [(h, au_now s + SESSION_TTL_MS)]\<rparr> | _ \<Rightarrow> l) u \<and>
      (\<forall>tok. r = Inr (LoggedIn tok) \<longrightarrow> tok = token))"
    if "au_sessions t = au_sessions s" "au_nextSession t = au_nextSession s" "au_now t = au_now s" for t h token
    using that assms keep
    by (auto simp: spec_def createSession_def authQuery_def thn_def bnd_def skip_def throw_def ret_def Let_def
        sessionsInv_def sessionOf_def list_ex_iff less_Suc_eq split: if_splits)
  show ?thesis
  proof (cases "configured (ae_username env) ''ADMIN_USERNAME'' ''admin''")
    case (Inl e)
    then show ?thesis unfolding login_def using keep
      by (auto simp: spec_def bnd_def gets_def ret_def liftE_def throw_def Let_def split: if_splits)
  next
    case (Inr admin)
    let ?s = "s\<lparr>au_failures := AList.delete source (au_failures s), au_drawn := Suc (au_drawn s)\<rparr>"
    let ?token = "au_random s (au_drawn s)"
    have good: "login env source username password s = thn (createSession (tokenHash env ?token)) (ret (LoggedIn ?token)) ?s"
      if "\<not> (case activeFailure (au_now s) (map_of (au_failures s) source) of None \<Rightarrow> False | Some f \<Rightarrow> LOGIN_MAX_FAILURES \<le> lf_count f)"
        "\<not> (username \<noteq> admin \<or> \<not> passwordIsValid env password)"
      using that Inr unfolding login_def
      by (simp add: bnd_def gets_def thn_def modify_def liftE_def ret_def split: prod.split sum.split)
    have bad: "spec (login env source username password) s (\<lambda>r t. au_now t = au_now s \<and> sessionsInv l t \<and>
        (r = Inr TooManyAttempts \<or> r = Inr InvalidCredentials))"
      if "(case activeFailure (au_now s) (map_of (au_failures s) source) of None \<Rightarrow> False | Some f \<Rightarrow> LOGIN_MAX_FAILURES \<le> lf_count f) \<or>
        username \<noteq> admin \<or> \<not> passwordIsValid env password"
      using that Inr keep unfolding login_def
      by (auto simp: spec_def bnd_def gets_def thn_def modify_def liftE_def ret_def Let_def split: if_splits)
    show ?thesis
    proof (cases "(case activeFailure (au_now s) (map_of (au_failures s) source) of None \<Rightarrow> False | Some f \<Rightarrow> LOGIN_MAX_FAILURES \<le> lf_count f) \<or>
        username \<noteq> admin \<or> \<not> passwordIsValid env password")
      case True
      show ?thesis by (rule spec_mono [OF bad [OF True]]) auto
    next
      case False
      obtain r u where run: "thn (createSession (tokenHash env ?token)) (ret (LoggedIn ?token)) ?s = (r, u)" by fastforce
      have "spec (thn (createSession (tokenHash env ?token)) (ret (LoggedIn ?token))) ?s (\<lambda>r u. au_now u = au_now s \<and> sessionsInv (case r of
          Inr (LoggedIn token) \<Rightarrow> l\<lparr>al_granted := al_granted l @ [(tokenHash env ?token, au_now s + SESSION_TTL_MS)]\<rparr> | _ \<Rightarrow> l) u \<and>
          (\<forall>tok. r = Inr (LoggedIn tok) \<longrightarrow> tok = ?token))"
        by (rule create) simp_all
      from specD [OF this run] False good run Inr show ?thesis
        by (auto simp: spec_def split: sum.splits LoginReply.splits)
    qed
  qed
qed

subsection \<open>Sessions over a run\<close>

definition signedIn :: "AuthEnv \<Rightarrow> AuthEvent list \<Rightarrow> bool" where
  "signedIn env events \<longleftrightarrow> list_ex (\<lambda>e. case e of
       SignIn source username password \<Rightarrow> configured (ae_username env) ''ADMIN_USERNAME'' ''admin'' = Inr username \<and> passwordIsValid env password
     | _ \<Rightarrow> False) events"

definition authInv :: "AuthEnv \<Rightarrow> AuthEvent list \<Rightarrow> AuthLog \<times> AuthState \<Rightarrow> bool" where
  "authInv env events x \<longleftrightarrow> (case x of (l, s) \<Rightarrow> sessionsInv l s \<and> (al_granted l \<noteq> [] \<longrightarrow> signedIn env events))"

lemma signedIn_snoc: "signedIn env events \<Longrightarrow> signedIn env (events @ [e])"
  by (simp add: signedIn_def)

lemma logout_inv:
  assumes "sessionsInv l s" "logout env request s = (r, u)"
  shows "sessionsInv (if r = Inr () \<and> tokenFrom request \<noteq> None
    then l\<lparr>al_granted := filter (\<lambda>g. fst g \<noteq> tokenHash env (the (tokenFrom request))) (al_granted l)\<rparr> else l) u"
proof (cases "tokenFrom request")
  case (Some token)
  let ?h = "tokenHash env token"
  have "sessionsInv (l\<lparr>al_granted := filter (\<lambda>g. fst g \<noteq> ?h) (al_granted l)\<rparr>)
      (s\<lparr>au_tick := n, au_sessions := filter (\<lambda>r. as_tokenHash r \<noteq> ?h) (au_sessions s)\<rparr>)" for n
    by (rule sessionsInv_remove [OF assms(1), where Q = "\<lambda>g. fst g \<noteq> ?h" and X = "\<lambda>_. False"]) (auto simp: sessionOf_def)
  moreover have "sessionsInv l (s\<lparr>au_tick := n\<rparr>)" for n using assms(1) by (auto intro: sessionsInv_same)
  ultimately show ?thesis using assms(2) Some by (auto simp: logout_def authQuery_def Let_def split: if_splits)
qed (use assms in \<open>auto simp: logout_def\<close>)

lemma authInv_step:
  assumes "authInv env events x"
  shows "authInv env (events @ [e]) (authEvent env e x)"
proof -
  obtain l s where x: "x = (l, s)" by fastforce
  have inv: "sessionsInv l s" and signed: "al_granted l \<noteq> [] \<Longrightarrow> signedIn env (events @ [e])"
    using assms by (auto simp: x authInv_def signedIn_snoc)
  show ?thesis
  proof (cases e)
    case (Advance n)
    then show ?thesis using signed sessionsInv_same [OF inv] by (auto simp: x authInv_def)
  next
    case (SignIn source username password)
    obtain r t where run: "login env source username password s = (r, t)" by fastforce
    note post = specD [OF login_spec [OF inv] run]
    have now: "signedIn env (events @ [e])" if "r = Inr (LoggedIn token)" for token
      using post that by (auto simp: SignIn signedIn_def)
    show ?thesis using post signed now sessionsInv_same [of l t t "l\<lparr>al_failed := f\<rparr>" for f]
        sessionsInv_same [of l t t "l\<lparr>al_passed := f\<rparr>" for f]
        sessionsInv_same [of "l\<lparr>al_granted := g\<rparr>" t t "l\<lparr>al_granted := g, al_passed := f\<rparr>" for f g]
      by (auto simp: x SignIn run authInv_def split: sum.split LoginReply.split)
  next
    case (SignOut request)
    obtain r t where run: "preHandler env request s = (r, t)" by fastforce
    have t: "sessionsInv l t" using specD [OF preHandler_spec [OF inv] run] by simp
    obtain r' u where out: "logout env request t = (r', u)" by fastforce
    have "signedIn env (events @ [e])" if "filter P (al_granted l) \<noteq> []" for P
      using signed that by (cases "al_granted l = []") auto
    with logout_inv [OF t out] t signed show ?thesis
      by (cases "tokenFrom request"; cases r') (auto simp: x SignOut run out authInv_def split: sum.split bool.split if_splits)
  next
    case (Visit request)
    obtain r t where run: "preHandler env request s = (r, t)" by fastforce
    with specD [OF preHandler_spec [OF inv] run] signed show ?thesis by (auto simp: x Visit authInv_def)
  next
    case (Reconfigure conf)
    then show ?thesis using signed sessionsInv_same [OF inv] by (auto simp: x authInv_def)
  qed
qed

lemma authInv_run: "authInv env [] x \<Longrightarrow> authInv env events (fold (authEvent env) events x)"
proof (induction events rule: rev_induct)
  case (snoc e events)
  from authInv_step [OF snoc.IH [OF snoc.prems]] show ?case by simp
qed simp

text \<open>
  C36. An API route that is not public is reached exactly with a live session. Starting with no
  session, after any run of logins, logouts, requests, changes of the configuration and failures of
  the database: when the hook answers a protected request, it lets it through if and only if the
  request carries a token whose session was granted by a login, has not reached the end of its eight
  hours and was not ended by a logout; and then somebody has signed in with the name and a valid
  password of the administrator.
\<close>

theorem session_admits_iff_granted:
  assumes "fold (authEvent env) events (emptyLog, s0) = (l, s)" "au_sessions s0 = []"
    and "protected request s" "preHandler env request s = (Inr admitted, t)"
  shows "(admitted \<longleftrightarrow> granted env request l (au_now s)) \<and> (admitted \<longrightarrow> signedIn env events)"
proof -
  have "authInv env [] (emptyLog, s0)" using assms(2) by (simp add: authInv_def sessionsInv_def emptyLog_def)
  from authInv_run [OF this, of events] assms(1)
  have inv: "sessionsInv l s" "al_granted l \<noteq> [] \<longrightarrow> signedIn env events" by (simp_all add: authInv_def)
  from specD [OF preHandler_spec [OF inv(1)] assms(4)] assms(3) have "admitted \<longleftrightarrow> granted env request l (au_now s)" by simp
  moreover have "granted env request l (au_now s) \<Longrightarrow> al_granted l \<noteq> []" by (auto simp: granted_def split: option.splits)
  ultimately show ?thesis using inv(2) by blast
qed

subsection \<open>The throttle over a run\<close>

text \<open>
  \<open>windows\<close> is the number of windows of the source that have passed. A window that is open began at
  \<open>lf_resetAt - LOGIN_WINDOW_MS\<close>, not before the windows that have passed could end.
\<close>

definition throttleInv :: "string \<Rightarrow> int \<Rightarrow> nat \<Rightarrow> AuthLog \<Rightarrow> AuthState \<Rightarrow> bool" where
  "throttleInv source t0 windows l s \<longleftrightarrow> t0 \<le> au_now s \<and>
     (case map_of (au_failures s) source of
        None \<Rightarrow> windows = 0 \<and> count_list (al_failed l) source = 0
      | Some f \<Rightarrow> lf_count f \<le> LOGIN_MAX_FAILURES \<and> lf_resetAt f \<le> au_now s + LOGIN_WINDOW_MS \<and>
          t0 + int (Suc windows) * LOGIN_WINDOW_MS \<le> lf_resetAt f \<and>
          count_list (al_failed l) source \<le> windows * LOGIN_MAX_FAILURES + lf_count f)"

lemma throttleInv_same:
  assumes "throttleInv source t0 k l s" "map_of (au_failures t) source = map_of (au_failures s) source" "au_now s \<le> au_now t"
    and "count_list (al_failed l') source = count_list (al_failed l) source"
  shows "throttleInv source t0 k l' t"
  using assms by (auto simp: throttleInv_def split: option.splits)

lemma throttle_login:
  assumes inv: "throttleInv source t0 k l s" and run: "authEvent env (SignIn src username password) (l, s) = (l', t)"
    and others: "source \<notin> set (al_passed l')"
  shows "\<exists>k. throttleInv source t0 k l' t"
proof (cases "src = source")
  case False
  have "map_of (au_failures t) source = map_of (au_failures s) source \<and> au_now t = au_now s \<and>
      count_list (al_failed l') source = count_list (al_failed l) source"
    using run False
    by (auto simp: login_def bnd_def gets_def thn_def modify_def liftE_def throw_def ret_def createSession_def authQuery_def skip_def Let_def
        update_conv' delete_conv' count_list_append split: if_splits sum.splits prod.splits)
  then show ?thesis by (intro exI [of _ k] throttleInv_same [OF inv]) auto
next
  case True
  let ?f = "activeFailure (au_now s) (map_of (au_failures s) source)"
  let ?current = "case ?f of Some f \<Rightarrow> f | None \<Rightarrow> \<lparr>lf_count = 0, lf_resetAt = au_now s + LOGIN_WINDOW_MS\<rparr>"
  consider (same) "l' = l" "t = s" | (failed) "al_failed l' = al_failed l @ [source]"
    "t = s\<lparr>au_failures := AList.update source (?current\<lparr>lf_count := lf_count ?current + 1\<rparr>) (au_failures s)\<rparr>"
    "\<not> (case ?f of None \<Rightarrow> False | Some f \<Rightarrow> LOGIN_MAX_FAILURES \<le> lf_count f)"
    using run others unfolding True
    by (auto simp: login_def bnd_def gets_def thn_def modify_def liftE_def throw_def ret_def createSession_def authQuery_def skip_def Let_def
        split: if_splits sum.splits prod.splits)
  then show ?thesis
  proof cases
    case same
    with inv show ?thesis by blast
  next
    case failed
    show ?thesis
    proof (cases ?f)
      case (Some f)
      then have "map_of (au_failures s) source = Some f" by (auto simp: activeFailure_def split: option.splits if_splits)
      with inv failed Some have "throttleInv source t0 k l' t" by (auto simp: throttleInv_def update_conv' count_list_append)
      then show ?thesis ..
    next
      case None
      have W: "0 < LOGIN_WINDOW_MS" by (simp add: LOGIN_WINDOW_MS_def)
      show ?thesis
      proof (cases "map_of (au_failures s) source")
        case (Some f)
        with None have "lf_resetAt f \<le> au_now s" by (auto simp: activeFailure_def split: if_splits)
        with inv failed Some None have "throttleInv source t0 (Suc k) l' t"
          by (auto simp: throttleInv_def update_conv' count_list_append LOGIN_MAX_FAILURES_def algebra_simps)
        then show ?thesis ..
      next
        case new: None
        with inv failed None have "throttleInv source t0 0 l' t"
          by (auto simp: throttleInv_def update_conv' count_list_append LOGIN_MAX_FAILURES_def)
        then show ?thesis ..
      qed
    qed
  qed
qed

lemma passed_grows: "set (al_passed l) \<subseteq> set (al_passed (fst (authEvent env e (l, s))))"
  by (cases e) (auto split: prod.splits sum.splits LoginReply.splits bool.splits option.splits)

lemma hook_quiet: "quietHook s (snd (preHandler env request s))"
  by (auto simp: preHandler_def validateSessionToken_def authQuery_def bnd_def thn_def gets_def tryCatch_def skip_def ret_def Let_def quietHook_def
      split: option.splits)

lemma throttle_step:
  assumes "throttleInv source t0 k l s" "authEvent env e (l, s) = (l', t)" "source \<notin> set (al_passed l')"
  shows "\<exists>k. throttleInv source t0 k l' t"
proof (cases e)
  case (SignIn src username password)
  with assms show ?thesis by (intro throttle_login) simp_all
next
  case (SignOut request)
  obtain r u where run: "preHandler env request s = (r, u)" by fastforce
  have "quietHook u (snd (logout env request u))"
    by (auto simp: logout_def authQuery_def Let_def skip_def quietHook_def split: option.splits)
  with hook_quiet [of s env request] run have "quietHook s t \<and> al_failed l' = al_failed l"
    using assms(2) by (auto simp: SignOut quietHook_def split: prod.splits sum.splits bool.splits option.splits)
  then show ?thesis by (intro exI [of _ k] throttleInv_same [OF assms(1)]) (auto simp: quietHook_def)
next
  case (Visit request)
  from assms(2) hook_quiet [of s env request] show ?thesis by (intro exI [of _ k] throttleInv_same [OF assms(1)]) (auto simp: Visit quietHook_def)
qed (use assms in \<open>auto intro!: exI [of _ k] throttleInv_same [OF assms(1)]\<close>)

text \<open>
  C37. Guessing the password is throttled per source: in every run that starts without recorded
  failures and in which no login of a source is let through, the source gets an answer to at most ten
  guesses for every five minutes begun, whatever other sources, sessions and the database do.
\<close>

theorem guesses_are_throttled:
  assumes "fold (authEvent env) events (emptyLog, s0) = (l, s)" "au_failures s0 = []" "source \<notin> set (al_passed l)"
  shows "int (count_list (al_failed l) source) \<le> 10 * (1 + (au_now s - au_now s0) div (5 * 60 * 1000))"
proof -
  have "source \<notin> set (al_passed (fst (fold (authEvent env) events (emptyLog, s0)))) \<Longrightarrow>
      \<exists>k. throttleInv source (au_now s0) k (fst (fold (authEvent env) events (emptyLog, s0))) (snd (fold (authEvent env) events (emptyLog, s0)))"
  proof (induction events rule: rev_induct)
    case Nil
    then show ?case using assms(2) by (simp add: throttleInv_def emptyLog_def)
  next
    case (snoc e events)
    obtain m u where mid: "fold (authEvent env) events (emptyLog, s0) = (m, u)" by fastforce
    obtain m' u' where next': "authEvent env e (m, u) = (m', u')" by fastforce
    have "source \<notin> set (al_passed m')" using snoc.prems mid next' by simp
    moreover from this passed_grows [of m env e u] next' have "source \<notin> set (al_passed m)" by auto
    ultimately show ?case using snoc.IH mid next' throttle_step [of source "au_now s0" _ m u env e m' u'] by auto
  qed
  with assms obtain k where inv: "throttleInv source (au_now s0) k l s" by auto
  show ?thesis
  proof (cases "map_of (au_failures s) source")
    case None
    with inv show ?thesis by (simp add: throttleInv_def pos_imp_zdiv_nonneg_iff)
  next
    case (Some f)
    with inv have f: "lf_count f \<le> 10" "lf_resetAt f \<le> au_now s + 300000" "au_now s0 + int (Suc k) * 300000 \<le> lf_resetAt f"
      "count_list (al_failed l) source \<le> k * 10 + lf_count f"
      by (auto simp: throttleInv_def LOGIN_MAX_FAILURES_def LOGIN_WINDOW_MS_def)
    from f(2,3) have "int k * 300000 \<le> au_now s - au_now s0" by simp
    from zdiv_mono1 [OF this, of 300000] have "int k \<le> (au_now s - au_now s0) div 300000" by simp
    with f(1,4) show ?thesis by simp
  qed
qed

section \<open>A service\<close>

definition demoAuthEnv :: AuthEnv where
  "demoAuthEnv = \<lparr>ae_username = None, ae_passwordHash = None, ae_passwordSalt = None, ae_password = Some ''secret'',
     ae_nodeEnv = None, ae_sha256 = (\<lambda>t. ''h'' @ t), ae_scrypt = (\<lambda>p salt. p @ salt)\<rparr>"

definition demoAuth :: AuthState where
  "demoAuth = \<lparr>au_now = 0, au_tick = 0, au_fault = (\<lambda>n. False), au_sessions = [], au_nextSession = 1, au_failures = [],
     au_config = Some ''SETUP_COMPLETED=true'', au_random = (\<lambda>n. ''token''), au_drawn = 0\<rparr>"

definition demoVisit :: Request where
  "demoVisit = \<lparr>rq_url = ''/api/devices?x=1'', rq_ip = ''10.0.0.2'', rq_authorization = None,
     rq_cookie = Some ''a=b; nm_session=token''\<rparr>"

theorem session_admits_iff_granted_witness:
  "\<exists>l s t. fold (authEvent demoAuthEnv) [SignIn ''10.0.0.2'' ''admin'' ''secret'', Advance 1000] (emptyLog, demoAuth) = (l, s) \<and>
     preHandler demoAuthEnv demoVisit s = (Inr True, t) \<and> granted demoAuthEnv demoVisit l (au_now s) \<and>
     signedIn demoAuthEnv [SignIn ''10.0.0.2'' ''admin'' ''secret'', Advance 1000]"
proof -
  let ?events = "[SignIn ''10.0.0.2'' ''admin'' ''secret'', Advance 1000]"
  let ?x = "fold (authEvent demoAuthEnv) ?events (emptyLog, demoAuth)"
  have facts: "protected demoVisit (snd ?x)" "fst (preHandler demoAuthEnv demoVisit (snd ?x)) = Inr True" "au_sessions demoAuth = []"
    by code_simp+
  obtain l s where x: "?x = (l, s)" by fastforce
  obtain t where hook: "preHandler demoAuthEnv demoVisit s = (Inr True, t)" using facts(2) unfolding x by (cases "preHandler demoAuthEnv demoVisit s") simp
  from session_admits_iff_granted [OF x facts(3) _ hook] facts(1) x hook show ?thesis unfolding x by auto
qed

theorem guesses_are_throttled_witness:
  "\<exists>l s. fold (authEvent demoAuthEnv) (replicate 12 (SignIn ''10.0.0.9'' ''admin'' ''guess'')) (emptyLog, demoAuth) = (l, s) \<and>
     count_list (al_failed l) ''10.0.0.9'' \<le> 10"
proof -
  let ?x = "fold (authEvent demoAuthEnv) (replicate 12 (SignIn ''10.0.0.9'' ''admin'' ''guess'')) (emptyLog, demoAuth)"
  have facts: "al_passed (fst ?x) = []" "au_now (snd ?x) = 0" "au_failures demoAuth = []" "au_now demoAuth = 0" by code_simp+
  obtain l s where x: "?x = (l, s)" by fastforce
  from guesses_are_throttled [OF x facts(3), of "''10.0.0.9''"] facts x show ?thesis by auto
qed

text \<open>The hook looks at the path as it was sent: an escaped letter of \<open>/api/\<close> makes every path public.\<close>

lemma escaped_path_is_public: "preHandler env \<lparr>rq_url = ''/%61pi/devices'', rq_ip = ip, rq_authorization = a, rq_cookie = c\<rparr> s = (Inr True, s)"
  by (simp add: preHandler_def pathnameOf_def ret_def)

end
