(* ===== verification/Files.thy ===== *)
theory Files
  imports Prelude "HOL-Library.AList"
begin

text \<open>
  The file operations of \<open>node:fs\<close> this program uses. Any of them may fail; a write or a copy
  that fails may have left a part of the content. Directories are not represented: \<open>mkdir\<close> with
  \<open>recursive\<close> succeeds or fails.
\<close>

record FileState =
  fi_tick :: nat
  fi_fault :: "nat \<Rightarrow> bool"
  fi_torn :: "nat \<Rightarrow> nat"
  fi_files :: "(string \<times> string) list"

definition contentOf :: "FileState \<Rightarrow> string \<Rightarrow> string option" where
  "contentOf s path = map_of (fi_files s) path"

definition tick :: "FileState \<Rightarrow> FileState" where
  "tick s = s\<lparr>fi_tick := Suc (fi_tick s)\<rparr>"

definition fails :: "FileState \<Rightarrow> bool" where
  "fails s \<longleftrightarrow> fi_fault s (fi_tick s)"

definition store :: "string \<Rightarrow> string \<Rightarrow> FileState \<Rightarrow> FileState" where
  "store path content s = s\<lparr>fi_files := AList.update path content (fi_files s)\<rparr>"

definition remove :: "string \<Rightarrow> FileState \<Rightarrow> FileState" where
  "remove path s = s\<lparr>fi_files := AList.delete path (fi_files s)\<rparr>"

abbreviation ioError :: "js_error + 'a" where
  "ioError \<equiv> Inl (Error ''EIO: i/o error'')"

abbreviation noEntry :: "js_error + 'a" where
  "noEntry \<equiv> Inl (Error ''ENOENT: no such file or directory'')"

definition readFile :: "string \<Rightarrow> (FileState, string) prog" where
  "readFile path s = (if fails s then (ioError, tick s)
     else case contentOf s path of None \<Rightarrow> (noEntry, tick s) | Some c \<Rightarrow> (Inr c, tick s))"

definition writeFile :: "string \<Rightarrow> string \<Rightarrow> (FileState, unit) prog" where
  "writeFile path content s = (if fails s then (ioError, store path (take (fi_torn s (fi_tick s)) content) (tick s))
     else (Inr (), store path content (tick s)))"

definition rename :: "string \<Rightarrow> string \<Rightarrow> (FileState, unit) prog" where
  "rename a b s = (if fails s then (ioError, tick s)
     else case contentOf s a of None \<Rightarrow> (noEntry, tick s) | Some c \<Rightarrow> (Inr (), store b c (remove a (tick s))))"

definition copyFile :: "string \<Rightarrow> string \<Rightarrow> (FileState, unit) prog" where
  "copyFile a b s = (case contentOf s a of None \<Rightarrow> (noEntry, tick s)
     | Some c \<Rightarrow> if fails s then (ioError, store b (take (fi_torn s (fi_tick s)) c) (tick s)) else (Inr (), store b c (tick s)))"

definition rmForce :: "string \<Rightarrow> (FileState, unit) prog" where
  "rmForce path s = (if fails s then (ioError, tick s) else (Inr (), remove path (tick s)))"

definition mkdirs :: "(FileState, unit) prog" where
  "mkdirs s = (if fails s then (ioError, tick s) else (Inr (), tick s))"

text \<open>\<open>dirname\<close> is only used for \<open>mkdir\<close>. The usual way of replacing a file:\<close>

definition replaceFile :: "string \<Rightarrow> string \<Rightarrow> string \<Rightarrow> (FileState, unit) prog" where
  "replaceFile temporary path content = thn (writeFile temporary content) (rename temporary path)"

lemma contentOf_simps [simp]:
  "contentOf (tick s) = contentOf s" "contentOf (store p c s) = (contentOf s)(p \<mapsto> c)"
  "contentOf (remove p s) = (contentOf s)(p := None)"
  by (auto simp: contentOf_def tick_def store_def remove_def update_conv' delete_conv' fun_eq_iff)

lemma fault_simps [simp]:
  "fi_fault (tick s) = fi_fault s" "fi_fault (store p c s) = fi_fault s" "fi_fault (remove p s) = fi_fault s"
  by (simp_all add: tick_def store_def remove_def)

text \<open>A file that is replaced this way is never torn.\<close>

lemma replaceFile_spec:
  assumes "temporary \<noteq> path"
  shows "spec (replaceFile temporary path content) s (\<lambda>r t. fi_fault t = fi_fault s \<and>
    (\<forall>p. p \<notin> {temporary, path} \<longrightarrow> contentOf t p = contentOf s p) \<and>
    (case r of Inl _ \<Rightarrow> contentOf t path = contentOf s path \<and> (\<exists>n. fi_fault s n) | Inr _ \<Rightarrow> contentOf t path = Some content))"
  using assms
  by (auto simp: spec_def replaceFile_def writeFile_def rename_def thn_def bnd_def fails_def)

end
