(* ===== verification/Reservations.thy ===== *)
theory Reservations
  imports Files Control
begin

text \<open>
  \<open>application/setup/DhcpReservationService.ts\<close>: the file of DHCP reservations that follows the
  managed devices. The state is the database world together with the files and the flag of the service.
\<close>

record 'k Host =
  ho_world :: "'k world"
  ho_files :: FileState
  ho_running :: bool

definition onWorld :: "('k world, 'a) prog \<Rightarrow> ('k Host, 'a) prog" where
  "onWorld p = (\<lambda>h. case p (ho_world h) of (r, w) \<Rightarrow> (r, h\<lparr>ho_world := w\<rparr>))"

definition onFiles :: "(FileState, 'a) prog \<Rightarrow> ('k Host, 'a) prog" where
  "onFiles p = (\<lambda>h. case p (ho_files h) of (r, f) \<Rightarrow> (r, h\<lparr>ho_files := f\<rparr>))"

definition reservationHeader :: string where
  "reservationHeader = ''# Generated by network-control-system; do not edit.''"

definition reservationRow :: "Device \<Rightarrow> DevicePolicy option \<Rightarrow> string list" where
  "reservationRow device policy = (case (policy, d_ip device) of
       (Some _, Some ip) \<Rightarrow> [''dhcp-host='' @ d_mac device @ '','' @ ip]
     | _ \<Rightarrow> [])"

definition reservationText :: "string list \<Rightarrow> string" where
  "reservationText rows = joinWith [CHR 0x0A] rows @ [CHR 0x0A]"

definition reservationRows :: "('k world, string list) prog" where
  "reservationRows = bnd PrismaDevice_findAll (\<lambda>devices.
     bnd (mapProg (\<lambda>device. bnd (PrismaPolicy_findByDeviceId (d_id device)) (\<lambda>policy. ret (reservationRow device policy))) devices) (\<lambda>rows.
     ret (reservationHeader # concat rows)))"

definition reservations_update :: "string \<Rightarrow> string \<Rightarrow> ('k world, unit) prog option \<Rightarrow> string \<Rightarrow> ('k Host, bool) prog" where
  "reservations_update path pid reloader wanted =
     bnd (onFiles (tryCatch (readFile path) (\<lambda>_. ret []))) (\<lambda>current.
     if current = wanted then ret False
     else thn (onFiles mkdirs)
         (thn (onFiles (tryCatch (copyFile path (path @ ''.bak'')) (\<lambda>_. skip)))
         (thn (onFiles (replaceFile (path @ ''.tmp-'' @ pid) path wanted))
         (thn (optCall reloader onWorld) (ret True)))))"

definition reservations_reconcile :: "string \<Rightarrow> string \<Rightarrow> ('k world, unit) prog option \<Rightarrow> ('k Host, bool) prog" where
  "reservations_reconcile path pid reloader = bnd (gets ho_running) (\<lambda>running.
     if running then ret False
     else thn (modify (\<lambda>h. h\<lparr>ho_running := True\<rparr>))
       (tryFinally (bnd (onWorld reservationRows) (\<lambda>rows. reservations_update path pid reloader (reservationText rows)))
         (\<lambda>h. h\<lparr>ho_running := False\<rparr>)))"

text \<open>The reloader of \<open>server.ts\<close>.\<close>

definition dnsmasqReload :: "'k Machine \<Rightarrow> string \<Rightarrow> ('k world, unit) prog" where
  "dnsmasqReload m actor = bnd (AuditedExecutor_execute (LinuxExecutor_execute m) PrismaOperations_audit actor
     ''systemctl'' [''restart'', ''dnsmasq'']) (\<lambda>_. skip)"

section \<open>What the file holds\<close>

definition wantedReservations :: "'k world \<Rightarrow> string" where
  "wantedReservations w = reservationText (reservationHeader #
     concat (map (\<lambda>d. reservationRow d (findPolicy w (d_id d))) (domainDevices w)))"

lemma onWorld_spec: "spec p (ho_world h) Q \<Longrightarrow>
    spec (onWorld p) h (\<lambda>r t. Q r (ho_world t) \<and> ho_files t = ho_files h \<and> ho_running t = ho_running h)"
  by (auto simp: spec_def onWorld_def split: prod.splits)

lemma onFiles_spec: "spec p (ho_files h) Q \<Longrightarrow>
    spec (onFiles p) h (\<lambda>r t. Q r (ho_files t) \<and> ho_world t = ho_world h \<and> ho_running t = ho_running h)"
  by (auto simp: spec_def onFiles_def split: prod.splits)

lemma rows_spec: "spec reservationRows w (\<lambda>r t. \<forall>rows. r = Inr rows \<longrightarrow> reservationText rows = wantedReservations w)"
proof -
  have rows: "spec (mapProg (\<lambda>device. bnd (PrismaPolicy_findByDeviceId (d_id device)) (\<lambda>policy. ret (reservationRow device policy))) ds) t
      (\<lambda>r u. \<forall>rows. r = Inr rows \<longrightarrow> rows = map (\<lambda>d. reservationRow d (findPolicy t (d_id d))) ds)" for ds and t :: "'a world"
  proof (induction ds arbitrary: t)
    case (Cons d ds)
    have find: "spec (PrismaPolicy_findByDeviceId (d_id d)) t (\<lambda>r u. findPolicy u = findPolicy t \<and> (\<forall>p. r = Inr p \<longrightarrow> p = findPolicy t (d_id d)))"
      using prismaPol.find_frame [of "d_id d"] prismaPol.find_ok [of "d_id d" t]
      by (auto simp: spec_def prismaPolicies_def dest: frameD)
    have one: "spec (bnd (PrismaPolicy_findByDeviceId (d_id d)) (\<lambda>policy. ret (reservationRow d policy))) t
        (\<lambda>r u. findPolicy u = findPolicy t \<and> (\<forall>x. r = Inr x \<longrightarrow> x = reservationRow d (findPolicy t (d_id d))))"
      by (rule spec_bnd [OF find]) (simp_all add: spec_ret)
    show ?case unfolding mapProg.simps
    proof (rule spec_bnd [OF one], goal_cases)
      case (2 x u)
      then show ?case by (intro spec_bnd [OF Cons.IH [of u]]) (simp_all add: spec_ret)
    qed simp
  qed simp
  have "spec PrismaDevice_findAll w (\<lambda>r t. (\<forall>ds. r = Inr ds \<longrightarrow> ds = domainDevices w) \<and> findPolicy t = findPolicy w)"
  proof (rule spec_mono [OF spec_conj [OF spec_frame [OF prismaDev.findAll_frame, unfolded prismaDevices_def DeviceRepository.simps]]])
    show "spec PrismaDevice_findAll w (\<lambda>r t. \<forall>ds. r = Inr ds \<longrightarrow> ds = domainDevices w)"
      using prismaDev.findAll_ok [of w] by (auto simp: spec_def prismaDevices_def)
  qed (auto simp: otherTables_def findPolicy_def)
  then show ?thesis unfolding reservationRows_def wantedReservations_def
  proof (rule spec_bnd, goal_cases)
    case (2 ds u)
    then show ?case by (intro spec_bnd [OF rows [of ds u]]) (simp_all add: spec_ret)
  qed simp
qed

section \<open>The file\<close>

lemma update_spec:
  fixes path pid :: string and reloader :: "('k world, unit) prog option"
  assumes "ho_running h"
  shows "spec (reservations_update path pid reloader wanted) h (\<lambda>r t. ho_running t \<and>
    fi_fault (ho_files t) = fi_fault (ho_files h) \<and>
    contentOf (ho_files t) path \<in> {contentOf (ho_files h) path, Some wanted} \<and>
    (\<forall>p. p \<notin> {path, path @ ''.bak'', path @ ''.tmp-'' @ pid} \<longrightarrow> contentOf (ho_files t) p = contentOf (ho_files h) p) \<and>
    (\<forall>b. r = Inr b \<longrightarrow> wanted = [] \<or> contentOf (ho_files t) path = Some wanted) \<and>
    (r = Inr False \<longrightarrow> contentOf (ho_files t) = contentOf (ho_files h)) \<and>
    (r = Inr True \<longrightarrow> (\<forall>n. \<not> fi_fault (ho_files h) n) \<longrightarrow> contentOf (ho_files h) path \<noteq> Some wanted))"
proof -
  have paths: "path @ ''.tmp-'' @ pid \<noteq> path" "path @ ''.bak'' \<noteq> path" by simp_all
  have read: "spec (tryCatch (readFile path) (\<lambda>_. ret [])) f (\<lambda>r t. contentOf t = contentOf f \<and> fi_fault t = fi_fault f \<and>
      (\<exists>c. r = Inr c \<and> (contentOf f path = Some c \<or> c = [] \<and> (contentOf f path = None \<or> (\<exists>n. fi_fault f n)))))" for f
    by (auto simp: spec_def tryCatch_def readFile_def fails_def split: option.splits)
  have mk: "spec mkdirs f (\<lambda>r t. contentOf t = contentOf f \<and> fi_fault t = fi_fault f)" for f
    by (auto simp: spec_def mkdirs_def)
  have copy: "spec (tryCatch (copyFile path (path @ ''.bak'')) (\<lambda>_. skip)) f (\<lambda>r t. fi_fault t = fi_fault f \<and>
      (\<forall>p. p \<noteq> path @ ''.bak'' \<longrightarrow> contentOf t p = contentOf f p))" for f
    by (auto simp: spec_def tryCatch_def copyFile_def split: option.splits)
  let ?Q = "\<lambda>r t. ho_running t \<and> fi_fault (ho_files t) = fi_fault (ho_files h) \<and>
    contentOf (ho_files t) path \<in> {contentOf (ho_files h) path, Some wanted} \<and>
    (\<forall>p. p \<notin> {path, path @ ''.bak'', path @ ''.tmp-'' @ pid} \<longrightarrow> contentOf (ho_files t) p = contentOf (ho_files h) p) \<and>
    (\<forall>b. r = Inr b \<longrightarrow> b \<and> contentOf (ho_files t) path = Some wanted)"
  have writing: "spec (thn (onFiles mkdirs)
         (thn (onFiles (tryCatch (copyFile path (path @ ''.bak'')) (\<lambda>_. skip)))
         (thn (onFiles (replaceFile (path @ ''.tmp-'' @ pid) path wanted))
         (thn (optCall reloader onWorld) (ret True))))) t ?Q"
    if t: "contentOf (ho_files t) = contentOf (ho_files h)" "fi_fault (ho_files t) = fi_fault (ho_files h)" "ho_running t" for t
  proof -
    have reload: "spec (optCall reloader onWorld) u (\<lambda>r v. ho_files v = ho_files u \<and> ho_running v = ho_running u)" for u :: "'k Host"
      by (cases reloader) (auto simp: spec_def onWorld_def split: prod.splits)
    show ?thesis
      apply (rule spec_thn [OF onFiles_spec [OF mk]])
       apply (use t in simp)
      apply (rule spec_thn [OF onFiles_spec [OF copy]])
       apply (use t paths in simp)
      apply (rule spec_thn [OF onFiles_spec [OF replaceFile_spec [OF paths(1)]]])
       apply (use t paths in \<open>auto simp: fun_eq_iff\<close>)[1]
      apply (rule spec_thn [OF reload])
       apply (use t paths in \<open>auto simp: fun_eq_iff\<close>)
      done
  qed
  show ?thesis unfolding reservations_update_def
  proof (rule spec_bnd [OF onFiles_spec [OF read]], goal_cases)
    case (2 current t)
    then have t: "contentOf (ho_files t) = contentOf (ho_files h)" "fi_fault (ho_files t) = fi_fault (ho_files h)" "ho_running t"
      using assms by simp_all
    from 2 have c: "contentOf (ho_files h) path = Some current \<or> current = [] \<and> (contentOf (ho_files h) path = None \<or> (\<exists>n. fi_fault (ho_files h) n))"
      by auto
    show ?case
    proof (rule spec_if, goal_cases)
      case 1
      with t c show ?case by (intro spec_ret) auto
    next
      case 2
      note post = writing [OF t]
      show ?case
      proof (rule spec_mono [OF post], elim conjE, intro conjI allI impI)
        fix r u assume "r = Inr True" "\<forall>n. \<not> fi_fault (ho_files h) n"
        with 2 c show "contentOf (ho_files h) path \<noteq> Some wanted" by auto
      qed auto
    qed
  qed simp
qed

lemma reconcile_effect:
  assumes "reservations_reconcile path pid reloader h = (r, t)" "\<not> ho_running h"
  shows "\<not> ho_running t \<and>
    contentOf (ho_files t) path \<in> {contentOf (ho_files h) path, Some (wantedReservations (ho_world h))} \<and>
    (\<forall>p. p \<notin> {path, path @ ''.bak'', path @ ''.tmp-'' @ pid} \<longrightarrow> contentOf (ho_files t) p = contentOf (ho_files h) p) \<and>
    (\<forall>b. r = Inr b \<longrightarrow> contentOf (ho_files t) path = Some (wantedReservations (ho_world h))) \<and>
    (r = Inr False \<longrightarrow> contentOf (ho_files t) = contentOf (ho_files h)) \<and>
    (r = Inr True \<longrightarrow> (\<forall>n. \<not> fi_fault (ho_files h) n) \<longrightarrow> contentOf (ho_files h) path \<noteq> Some (wantedReservations (ho_world h)))"
proof -
  let ?h = "h\<lparr>ho_running := True\<rparr>"
  have nonempty: "wantedReservations w \<noteq> []" for w :: "'a world" by (simp add: wantedReservations_def reservationText_def)
  have "spec (bnd (onWorld reservationRows) (\<lambda>rows. reservations_update path pid reloader (reservationText rows))) ?h (\<lambda>r t.
    contentOf (ho_files t) path \<in> {contentOf (ho_files h) path, Some (wantedReservations (ho_world h))} \<and>
    (\<forall>p. p \<notin> {path, path @ ''.bak'', path @ ''.tmp-'' @ pid} \<longrightarrow> contentOf (ho_files t) p = contentOf (ho_files h) p) \<and>
    (\<forall>b. r = Inr b \<longrightarrow> contentOf (ho_files t) path = Some (wantedReservations (ho_world h))) \<and>
    (r = Inr False \<longrightarrow> contentOf (ho_files t) = contentOf (ho_files h)) \<and>
    (r = Inr True \<longrightarrow> (\<forall>n. \<not> fi_fault (ho_files h) n) \<longrightarrow> contentOf (ho_files h) path \<noteq> Some (wantedReservations (ho_world h))))"
  proof (rule spec_bnd [OF onWorld_spec [OF rows_spec]], goal_cases)
    case (2 rows u)
    then have u: "ho_running u" "ho_files u = ho_files h" "reservationText rows = wantedReservations (ho_world h)" by simp_all
    show ?case by (rule spec_mono [OF update_spec [OF u(1)]]) (use u nonempty in auto)
  qed simp
  moreover obtain r' u where run: "bnd (onWorld reservationRows) (\<lambda>rows. reservations_update path pid reloader (reservationText rows)) ?h = (r', u)"
    by fastforce
  moreover have "reservations_reconcile path pid reloader h = (r', u\<lparr>ho_running := False\<rparr>)"
    using assms(2) run unfolding reservations_reconcile_def bnd_Inr [of "gets ho_running" h "ho_running h" h, OF gets_apply]
    by (simp add: thn_Inr [OF modify_apply] tryFinally_def)
  then have "r' = r" "t = u\<lparr>ho_running := False\<rparr>" using assms(1) by simp_all
  ultimately show ?thesis by (auto dest!: specD)
qed

text \<open>
  A reload of dnsmasq that failed is not tried again: the file is already the wanted text, so the next
  pass ends without it.
\<close>

lemma failed_reload_is_forgotten:
  assumes "reservations_reconcile path pid reloader h = (Inl e, t)" "contentOf (ho_files t) path = Some (wantedReservations (ho_world t))"
    and "reservations_reconcile path pid reloader t = (Inr b, u)" "\<not> ho_running h" "\<forall>n. \<not> fi_fault (ho_files t) n"
  shows "\<not> b \<and> contentOf (ho_files u) = contentOf (ho_files t)"
proof -
  have "\<not> ho_running t" using reconcile_effect [OF assms(1,4)] by simp
  from reconcile_effect [OF assms(3) this] assms(2,5) show ?thesis by (cases b) auto
qed

text \<open>
  C39. The reservation file follows the managed devices and is never torn. A pass that is not already
  running ends with its flag down, however it ends; it leaves the file as it was or with the wanted
  text, and no other file than the backup and the temporary one is touched. When it returns, the file is
  the wanted text: exactly one reservation, with its current address, for every device that has a
  policy and an address. It reports no change only when it changed nothing, and while no file
  operation fails it reports a change only when the text was different, so a second pass is idle.
\<close>

theorem reservations_follow_devices:
  assumes "reservations_reconcile path pid reloader h = (r, t)" "\<not> ho_running h"
  shows "\<not> ho_running t \<and>
    contentOf (ho_files t) path \<in> {contentOf (ho_files h) path, Some (wantedReservations (ho_world h))} \<and>
    (\<forall>p. p \<notin> {path, path @ ''.bak'', path @ ''.tmp-'' @ pid} \<longrightarrow> contentOf (ho_files t) p = contentOf (ho_files h) p) \<and>
    (\<forall>b. r = Inr b \<longrightarrow> contentOf (ho_files t) path = Some (wantedReservations (ho_world h))) \<and>
    (r = Inr False \<longrightarrow> contentOf (ho_files t) = contentOf (ho_files h)) \<and>
    (r = Inr True \<longrightarrow> (\<forall>n. \<not> fi_fault (ho_files h) n) \<longrightarrow> contentOf (ho_files h) path \<noteq> Some (wantedReservations (ho_world h)))"
  by (rule reconcile_effect [OF assms])

section \<open>A host\<close>

definition demoHost :: "SimKernel Host" where
  "demoHost = \<lparr>ho_world = demoWorld, ho_files = \<lparr>fi_tick = 0, fi_fault = (\<lambda>n. False), fi_torn = (\<lambda>n. 0),
     fi_files = [(''/leases.conf'', ''old'')]\<rparr>, ho_running = False\<rparr>"

theorem reservations_follow_devices_witness:
  "\<exists>t. reservations_reconcile ''/leases.conf'' ''7'' None demoHost = (Inr True, t) \<and>
     contentOf (ho_files t) ''/leases.conf'' = Some (reservationText
       [reservationHeader, ''dhcp-host=02:00:00:00:00:02,192.168.1.21''])"
proof -
  let ?x = "reservations_reconcile ''/leases.conf'' ''7'' None demoHost"
  have facts: "fst ?x = Inr True" "\<not> ho_running demoHost"
    "wantedReservations demoWorld = reservationText [reservationHeader, ''dhcp-host=02:00:00:00:00:02,192.168.1.21'']"
    by code_simp+
  obtain t where x: "?x = (Inr True, t)" using facts(1) by (cases ?x) simp
  from reservations_follow_devices [OF x facts(2)] x facts(3) show ?thesis by (auto simp: demoHost_def)
qed

end
