(* ===== verification/SetupService.thy ===== *)
theory SetupService
  imports Agent Executor Regex Files
begin

text \<open>
  The set-up wizard: \<open>application/setup/SetupService.ts\<close> on the probe of
  \<open>infrastructure/setup/LinuxSetupProbe.ts\<close>. The state is the file system, the host the commands
  run on and the clock; the three variables of a running \<open>apply\<close> that its catch block reads are
  part of it. A number that is not finite is \<open>None\<close>; the text JavaScript prints for a number is the
  parameter \<open>se_numText\<close>. Paths are in normal form, so \<open>join\<close> puts a slash between its arguments.
  Objects keyed by interface names or paths are association lists: an interface with the name
  of a property that every object inherits is not represented.
\<close>

record SetupInterface =
  sn_name :: string
  sn_mac :: "string option"
  sn_state :: string
  sn_addresses :: "string list"
  sn_kind :: "string option"

record SetupNetworkReport =
  sr_interfaces :: "SetupInterface list"
  sr_defaultUplink :: "string option"
  sr_uplinkSubnets :: "(string \<times> string list) list"
  sr_proposedClientSubnets :: "string list"
  sr_errors :: "string list"

record SetupReport =
  pf_root :: bool
  pf_port53Free :: bool
  pf_ifbAvailable :: bool
  pf_firewallManager :: "string option"
  pf_timeSynchronized :: bool
  pf_errors :: "string list"
  pf_warnings :: "string list"

record SetupPaths =
  sp_configPath :: string
  sp_dnsmasqPath :: string
  sp_nftablesPath :: string
  sp_snapshotDir :: string
  sp_leasePath :: "string option"
  sp_reservationsPath :: "string option"
  sp_modulesLoadPath :: "string option"
  sp_dnsmasqOverridePath :: "string option"
  sp_legacyDnsmasqPath :: "string option"

record SetupApplyInput =
  si_clientInterface :: string
  si_uplinkInterface :: string
  si_clientSubnet :: string
  si_uplinkBandwidthMbps :: "rat option"
  si_dashboardPort :: "rat option"
  si_sshPort :: "rat option"
  si_dnsServers :: "string list"
  si_clientGatewayIp :: "string option"
  si_dhcpReservationsPath :: "string option"
  si_activate :: "bool option"

record SetupHealth =
  sh_clientInterface :: bool
  sh_gatewayReachable :: bool
  sh_dhcpLeaseFile :: bool
  sh_outboundConnectivity :: bool
  sh_errors :: "string list"

record SetupApplyResult =
  ar_applied :: bool
  ar_configPath :: string
  ar_renderedFiles :: "string list"
  ar_health :: SetupHealth
  ar_rolledBack :: bool
  ar_errors :: "string list"

record SetupDiagnostics =
  dg_interface :: "string option"
  dg_linkSpeedMbps :: "nat option"
  dg_duplex :: "string option"
  dg_usbSpeed :: "string option"
  dg_warnings :: "string list"
  dg_errors :: "string list"

record 'k SetupState =
  su_files :: FileState
  su_host :: 'k
  su_clock :: "nat \<Rightarrow> nat"
  su_reads :: nat
  su_gatewayAdded :: bool
  su_dnsmasqActivated :: bool
  su_health :: SetupHealth

record 'k SetupProbe =
  pb_run :: "string \<Rightarrow> string list \<Rightarrow> ('k SetupState, string \<times> string) prog"
  pb_snapshotNft :: "('k SetupState, string) prog option"
  pb_restoreNft :: "(string \<Rightarrow> ('k SetupState, unit) prog) option"

record 'k SetupEnv =
  se_probe :: "'k SetupProbe"
  se_paths :: SetupPaths
  se_isRoot :: bool
  se_pid :: string
  se_numText :: "rat \<Rightarrow> string"

definition onSetupFiles :: "(FileState, 'a) prog \<Rightarrow> ('k SetupState, 'a) prog" where
  "onSetupFiles p = (\<lambda>s. case p (su_files s) of (r, f) \<Rightarrow> (r, s\<lparr>su_files := f\<rparr>))"

definition dateNow :: "('k SetupState, nat) prog" where
  "dateNow = (\<lambda>s. (Inr (su_clock s (su_reads s)), s\<lparr>su_reads := Suc (su_reads s)\<rparr>))"

section \<open>Paths\<close>

definition orDefault :: "string option \<Rightarrow> string \<Rightarrow> string" where
  "orDefault v d = (case v of None \<Rightarrow> d | Some x \<Rightarrow> x)"

definition DEFAULT_LEASES :: string where
  "DEFAULT_LEASES = ''/var/lib/misc/dnsmasq.leases''"

definition DEFAULT_RESERVATIONS :: string where
  "DEFAULT_RESERVATIONS = ''/var/lib/misc/network-control-reservations.conf''"

definition DEFAULT_MODULES :: string where
  "DEFAULT_MODULES = ''/etc/modules-load.d/network-control-system.conf''"

definition DEFAULT_DNSMASQ_OVERRIDE :: string where
  "DEFAULT_DNSMASQ_OVERRIDE = ''/etc/systemd/system/dnsmasq.service.d/network-control-system.conf''"

definition DEFAULT_LEGACY_DNSMASQ :: string where
  "DEFAULT_LEGACY_DNSMASQ = ''/etc/dnsmasq.d/network-control-dns.conf''"

definition leaseFile :: "SetupPaths \<Rightarrow> string" where
  "leaseFile p = orDefault (sp_leasePath p) DEFAULT_LEASES"

definition reservationsFile :: "SetupPaths \<Rightarrow> string" where
  "reservationsFile p = orDefault (sp_reservationsPath p) DEFAULT_RESERVATIONS"

definition modulesFile :: "SetupPaths \<Rightarrow> string" where
  "modulesFile p = orDefault (sp_modulesLoadPath p) DEFAULT_MODULES"

definition overrideFile :: "SetupPaths \<Rightarrow> string" where
  "overrideFile p = orDefault (sp_dnsmasqOverridePath p) DEFAULT_DNSMASQ_OVERRIDE"

definition legacyFile :: "SetupPaths \<Rightarrow> string" where
  "legacyFile p = orDefault (sp_legacyDnsmasqPath p) DEFAULT_LEGACY_DNSMASQ"

definition joinPath :: "string \<Rightarrow> string \<Rightarrow> string" where
  "joinPath dir name = dir @ ''/'' @ name"

section \<open>Commands\<close>

record Outcome =
  oc_ok :: bool
  oc_stdout :: string
  oc_stderr :: string

definition setup_safe :: "'k SetupEnv \<Rightarrow> string \<Rightarrow> string list \<Rightarrow> ('k SetupState, Outcome) prog" where
  "setup_safe env command args = tryCatch
     (bnd (pb_run (se_probe env) command args) (\<lambda>(stdout, stderr).
      ret \<lparr>oc_ok = True, oc_stdout = stdout, oc_stderr = stderr\<rparr>))
     (\<lambda>error. ret \<lparr>oc_ok = False, oc_stdout = [], oc_stderr = errorMessage error\<rparr>)"

definition readJson :: "'k SetupEnv \<Rightarrow> string \<Rightarrow> string list \<Rightarrow> ('k SetupState, json) prog" where
  "readJson env command args = bnd (setup_safe env command args) (\<lambda>result.
     ret (if \<not> oc_ok result then JArr [] else case parseJson (oc_stdout result) of None \<Rightarrow> JArr [] | Some v \<Rightarrow> v))"

section \<open>preflight\<close>

definition statusActive :: "string \<Rightarrow> bool" where
  "statusActive s \<longleftrightarrow> rxTest [liti ''status:'' @ [spaces1] @ liti ''active''] s"

definition preflight :: "'k SetupEnv \<Rightarrow> ('k SetupState, SetupReport) prog" where
  "preflight env =
     bnd (setup_safe env ''ss'' [''-H'', ''-lun'', ''sport'', ''='', '':53'']) (\<lambda>udp53.
     bnd (setup_safe env ''ss'' [''-H'', ''-ltn'', ''sport'', ''='', '':53'']) (\<lambda>tcp53.
     let port53CheckFailed = (\<not> oc_ok udp53 \<or> \<not> oc_ok tcp53);
         port53Occupied = (oc_ok udp53 \<and> trim (oc_stdout udp53) \<noteq> [] \<or> oc_ok tcp53 \<and> trim (oc_stdout tcp53) \<noteq> []);
         port53Free = (\<not> port53CheckFailed \<and> \<not> port53Occupied)
     in
     bnd (setup_safe env ''test'' [''-e'', ''/sys/module/ifb'']) (\<lambda>moduleLoaded.
     bnd (if oc_ok moduleLoaded then ret moduleLoaded else setup_safe env ''modprobe'' [''ifb'']) (\<lambda>ifb.
     bnd (setup_safe env ''ufw'' [''status'']) (\<lambda>ufw.
     let firewallManager = (if oc_ok ufw \<and> statusActive (oc_stdout ufw) then Some ''ufw'' else None) in
     bnd (setup_safe env ''timedatectl'' [''show'', ''-p'', ''NTPSynchronized'', ''--value'']) (\<lambda>timed.
     let timeSynchronized = (trim (oc_stdout timed) = ''yes'') in
     ret \<lparr>pf_root = se_isRoot env, pf_port53Free = port53Free, pf_ifbAvailable = oc_ok ifb,
       pf_firewallManager = firewallManager, pf_timeSynchronized = timeSynchronized,
       pf_errors =
         (if se_isRoot env then [] else [''Root privileges are required. Run the setup service with the required privileges.'']) @
         (if oc_ok ifb then [] else [''The IFB kernel module is unavailable or could not be loaded.'']),
       pf_warnings =
         (if port53CheckFailed then [''Unable to reliably inspect TCP/UDP port 53; dnsmasq will use DHCP-only mode with port=0.'']
          else if port53Occupied then [''TCP/UDP port 53 is occupied; dnsmasq will use DHCP-only mode with port=0.'']
          else []) @
         (if firewallManager = None then [] else [''UFW is active. Review its rules before applying nftables configuration.'']) @
         (if timeSynchronized then [] else [''System clock is not synchronized. Scheduling will require a synchronized clock.''])\<rparr>))))))"

section \<open>inspectNetwork\<close>

text \<open>\<open>String(value)\<close> of a value that came from JSON.\<close>

fun jsText :: "(rat \<Rightarrow> string) \<Rightarrow> json \<Rightarrow> string" where
  "jsText numText JNull = ''null''"
| "jsText numText (JBool b) = (if b then ''true'' else ''false'')"
| "jsText numText (JNum r) = numText r"
| "jsText numText (JStr s) = s"
| "jsText numText (JArr xs) = joinWith '','' (map (\<lambda>x. if x = JNull then [] else jsText numText x) xs)"
| "jsText numText (JObj ms) = ''[object Object]''"

definition textOr :: "(rat \<Rightarrow> string) \<Rightarrow> json option \<Rightarrow> string \<Rightarrow> string" where
  "textOr numText v d = (case v of None \<Rightarrow> d | Some JNull \<Rightarrow> d | Some j \<Rightarrow> jsText numText j)"

definition jsonRows :: "json \<Rightarrow> json list" where
  "jsonRows v = (case v of JArr xs \<Rightarrow> xs | _ \<Rightarrow> [])"

text \<open>Reading a property of null throws.\<close>

definition notNull :: "string \<Rightarrow> json \<Rightarrow> js_error + unit" where
  "notNull property v = (if v = JNull
     then Inl (Error (''Cannot read properties of null (reading '' @ [CHR 0x27] @ property @ [CHR 0x27] @ '')'')) else Inr ())"

definition inetItem :: "json \<Rightarrow> bool" where
  "inetItem v \<longleftrightarrow> member ''family'' v = Some (JStr ''inet'') \<and> jsonString (member ''local'' v) \<noteq> None"

definition itemText :: "(rat \<Rightarrow> string) \<Rightarrow> json \<Rightarrow> string" where
  "itemText numText v = the (jsonString (member ''local'' v)) @ ''/'' @
     (case member ''prefixlen'' v of None \<Rightarrow> ''undefined'' | Some p \<Rightarrow> jsText numText p)"

text \<open>One row of the address listing.\<close>

definition addressRow :: "(rat \<Rightarrow> string) \<Rightarrow> json \<Rightarrow> js_error + string \<times> string list" where
  "addressRow numText row = (case notNull ''ifname'' row of Inl e \<Rightarrow> Inl e
     | Inr _ \<Rightarrow>
        let name = textOr numText (member ''ifname'' row) []; items = jsonArray (member ''addr_info'' row)
        in if JNull \<in> set items then Inl (Error (''Cannot read properties of null (reading '' @ [CHR 0x27] @ ''family'' @ [CHR 0x27] @ '')''))
           else Inr (name, map (itemText numText) (filter inetItem items)))"

definition linkRow :: "(rat \<Rightarrow> string) \<Rightarrow> (string \<times> string list) list \<Rightarrow> json \<Rightarrow> js_error + SetupInterface" where
  "linkRow numText addressMap row = (case notNull ''ifname'' row of Inl e \<Rightarrow> Inl e
     | Inr _ \<Rightarrow>
        let name = textOr numText (member ''ifname'' row) []
        in Inr \<lparr>sn_name = name, sn_mac = jsonString (member ''address'' row),
             sn_state = textOr numText (member ''operstate'' row) ''UNKNOWN'',
             sn_addresses = (case map_of addressMap name of None \<Rightarrow> [] | Some as \<Rightarrow> as),
             sn_kind = jsonString (member ''link_type'' row)\<rparr>)"

fun findDev :: "json list \<Rightarrow> js_error + string option" where
  "findDev [] = Inr None"
| "findDev (row # rows) = (case notNull ''dev'' row of Inl e \<Rightarrow> Inl e
     | Inr _ \<Rightarrow> (case jsonString (member ''dev'' row) of Some d \<Rightarrow> Inr (Some d) | None \<Rightarrow> findDev rows))"

definition subnetsOf :: "string list \<Rightarrow> string list" where
  "subnetsOf addresses = List.map_filter networkOf addresses"

definition networkReport :: "SetupInterface list \<Rightarrow> string option \<Rightarrow> SetupNetworkReport" where
  "networkReport interfaces defaultUplink =
     (let uplinkSubnets = mapOfList (map (\<lambda>item. (sn_name item, subnetsOf (sn_addresses item))) interfaces);
          occupied = setOfList (concat (map snd uplinkSubnets));
          proposedClientSubnets = proposeClientSubnets occupied
      in \<lparr>sr_interfaces = interfaces, sr_defaultUplink = defaultUplink, sr_uplinkSubnets = uplinkSubnets,
          sr_proposedClientSubnets = proposedClientSubnets,
          sr_errors =
            (if truthy defaultUplink then [] else [''No default-route interface detected'']) @
            (if interfaces = [] then [''No usable network interfaces detected''] else []) @
            (if truthy defaultUplink \<and> (case map_of uplinkSubnets (the defaultUplink) of None \<Rightarrow> True | Some ss \<Rightarrow> ss = [])
             then [''No IPv4 subnet found on the default uplink interface''] else []) @
            (if proposedClientSubnets = [] then [''Unable to find a non-overlapping private client subnet''] else [])\<rparr>)"

definition inspectNetwork :: "'k SetupEnv \<Rightarrow> ('k SetupState, SetupNetworkReport) prog" where
  "inspectNetwork env =
     bnd (readJson env ''ip'' [''-j'', ''link'', ''show'']) (\<lambda>links.
     bnd (readJson env ''ip'' [''-j'', ''-4'', ''addr'', ''show'']) (\<lambda>addresses.
     bnd (readJson env ''ip'' [''-j'', ''route'', ''show'', ''default'']) (\<lambda>routes.
     bnd (mapProg (\<lambda>row. liftE (addressRow (se_numText env) row)) (jsonRows addresses)) (\<lambda>entries.
     bnd (mapProg (\<lambda>row. liftE (linkRow (se_numText env) (mapOfList entries) row)) (jsonRows links)) (\<lambda>rows.
     let interfaces = filter (\<lambda>item. sn_name item \<noteq> [] \<and> sn_name item \<noteq> ''lo'') rows in
     bnd (liftE (findDev (jsonRows routes))) (\<lambda>defaultUplink.
     ret (networkReport interfaces defaultUplink)))))))"

section \<open>diagnostics\<close>

definition speedOf :: "string \<Rightarrow> string option" where
  "speedOf s = rxGroup [liti ''speed:'' @ [Rep isSpace 0 None, Open, Rep isDigit 1 None, Close] @ liti ''mb/s''] s"

definition duplexOf :: "string \<Rightarrow> string option" where
  "duplexOf s = rxGroup [liti ''duplex:'' @ [Rep isSpace 0 None, Open, Rep (\<lambda>c. \<not> isSpace c) 1 None, Close]] s"

definition usbSpeedOf :: "string \<Rightarrow> string option" where
  "usbSpeedOf s = rxGroup (map (\<lambda>w. [Bound, Open] @ lit w @ [Close, Bound]) [''12M'', ''480M'', ''5000M'', ''10000M'']) s"

definition diagnostics :: "'k SetupEnv \<Rightarrow> string option \<Rightarrow> ('k SetupState, SetupDiagnostics) prog" where
  "diagnostics env requested = bnd (inspectNetwork env) (\<lambda>network.
     let selected = (case requested of None \<Rightarrow> sr_defaultUplink network | Some i \<Rightarrow> Some i);
         refused = (\<lambda>i es. \<lparr>dg_interface = i, dg_linkSpeedMbps = None, dg_duplex = None, dg_usbSpeed = None, dg_warnings = [], dg_errors = es\<rparr>)
     in case selected of None \<Rightarrow> ret (refused None [''No interface available for diagnostics''])
        | Some i \<Rightarrow>
          if i = [] then ret (refused None [''No interface available for diagnostics''])
          else if \<not> Agent.interfaceName i \<or> \<not> list_ex (\<lambda>item. sn_name item = i) (sr_interfaces network)
          then ret (refused (Some i) [''Interface is not a detected interface''])
          else bnd (setup_safe env ''ethtool'' [i]) (\<lambda>link.
            bnd (setup_safe env ''lsusb'' [''-t'']) (\<lambda>usb.
            let linkSpeedMbps = map_option readNat (speedOf (oc_stdout link)); usbSpeed = usbSpeedOf (oc_stdout usb)
            in ret \<lparr>dg_interface = Some i, dg_linkSpeedMbps = linkSpeedMbps, dg_duplex = duplexOf (oc_stdout link), dg_usbSpeed = usbSpeed,
                 dg_warnings =
                   (case linkSpeedMbps of None \<Rightarrow> [] | Some n \<Rightarrow>
                      if n < 100 then [''Low negotiated link speed: '' @ showNat n @ '' Mbps''] else []) @
                   (if usbSpeed = Some ''12M'' then [''USB adapter is operating at 12M Full-Speed and may cap throughput.''] else []),
                 dg_errors = (if oc_ok link then [] else [''Unable to read ethtool diagnostics for '' @ i])\<rparr>)))"

section \<open>Validation and rendering\<close>

definition portNumber :: "rat option \<Rightarrow> bool" where
  "portNumber v \<longleftrightarrow> (case v of None \<Rightarrow> False | Some r \<Rightarrow> isInteger r \<and> 1 \<le> r \<and> r \<le> 65535)"

definition ipv4Text :: "string \<Rightarrow> bool" where
  "ipv4Text s \<longleftrightarrow> IPV4_RE s \<and> setup_ipToNumber s \<noteq> None"

definition setup_validateInput :: "SetupApplyInput \<Rightarrow> string list" where
  "setup_validateInput input =
     (if Agent.interfaceName (si_clientInterface input) then [] else [''invalid client interface'']) @
     (if Agent.interfaceName (si_uplinkInterface input) then [] else [''invalid uplink interface'']) @
     (if networkOf (si_clientSubnet input) = None then [''invalid client subnet''] else []) @
     (if (case si_uplinkBandwidthMbps input of None \<Rightarrow> True | Some r \<Rightarrow> r \<le> 0) then [''uplink bandwidth must be greater than zero''] else []) @
     (if portNumber (si_dashboardPort input) then [] else [''dashboard port must be between 1 and 65535'']) @
     (if portNumber (si_sshPort input) then [] else [''ssh port must be between 1 and 65535'']) @
     (if si_dnsServers input = [] \<or> list_ex (\<lambda>server. \<not> ipv4Text server) (si_dnsServers input)
      then [''DNS servers must be valid IPv4 addresses''] else []) @
     (if truthy (si_clientGatewayIp input) \<and> \<not> ipv4Text (the (si_clientGatewayIp input))
      then [''invalid client gateway IP''] else [])"

record Rendered =
  re_config :: string
  re_dnsmasq :: string
  re_nftables :: string
  re_reservationsPath :: string

text \<open>The ranges of the DHCP pool: from the tenth address to the last host, without the gateway.\<close>

definition poolRanges :: "int \<Rightarrow> int \<Rightarrow> int \<Rightarrow> (int \<times> int) list" where
  "poolRanges startValue endValue gatewayValue =
     (if startValue \<le> gatewayValue \<and> gatewayValue \<le> endValue then
        (if startValue < gatewayValue then [(startValue, gatewayValue - 1)] else []) @
        (if gatewayValue < endValue then [(gatewayValue + 1, endValue)] else [])
      else [(startValue, endValue)])"

definition ipOfInt :: "int \<Rightarrow> string" where
  "ipOfInt v = numberToIp (word_of_int v)"

definition unlines :: "string list \<Rightarrow> string" where
  "unlines ls = joinWith [CHR 0x0A] ls"

definition numberText :: "'k SetupEnv \<Rightarrow> rat option \<Rightarrow> string" where
  "numberText env v = (case v of None \<Rightarrow> ''NaN'' | Some r \<Rightarrow> se_numText env r)"

definition renderConfig :: "'k SetupEnv \<Rightarrow> SetupApplyInput \<Rightarrow> string \<Rightarrow> string \<Rightarrow> string \<Rightarrow> string" where
  "renderConfig env input gateway start final = unlines
     [''# Generated by network-control-system; do not edit.'',
      ''CLIENT_INTERFACE='' @ si_clientInterface input, ''UPLINK_INTERFACE='' @ si_uplinkInterface input,
      ''CLIENT_SUBNET='' @ si_clientSubnet input, ''CLIENT_GATEWAY_IP='' @ gateway,
      ''DHCP_RANGE_START='' @ start, ''DHCP_RANGE_END='' @ final, ''DNS_SERVERS='' @ joinWith '','' (si_dnsServers input),
      ''DASHBOARD_PORT='' @ numberText env (si_dashboardPort input), ''SSH_PORT='' @ numberText env (si_sshPort input),
      ''UPLINK_BANDWIDTH_MBPS='' @ numberText env (si_uplinkBandwidthMbps input), ''NETWORK_MODE=single-interface-ifb'', []]"

definition renderDnsmasq :: "SetupPaths \<Rightarrow> SetupApplyInput \<Rightarrow> string \<Rightarrow> string \<Rightarrow> (int \<times> int) list \<Rightarrow> string \<Rightarrow> string" where
  "renderDnsmasq paths input gateway netmask pools reservationPath = unlines
     [''# Generated by network-control-system; DHCP only.'', ''port=0'', ''bind-interfaces'', ''interface='' @ si_clientInterface input,
      unlines (map (\<lambda>(a, b). ''dhcp-range='' @ ipOfInt a @ '','' @ ipOfInt b @ '','' @ netmask) pools),
      ''dhcp-option=3,'' @ gateway, ''dhcp-option=6,'' @ joinWith '','' (si_dnsServers input),
      ''dhcp-leasefile='' @ leaseFile paths, ''dhcp-hostsfile='' @ reservationPath, []]"

definition renderNftables :: "SetupApplyInput \<Rightarrow> string" where
  "renderNftables input = unlines
     [''# Generated by network-control-system; do not edit.'', ''# Runtime policy chains are owned by the enforcement layer.'',
      ''table ip filter {'', ''  chain ayad_nm_input {'', ''    type filter hook input priority -300; policy accept;'', ''  }'',
      ''  chain ayad_nm_forward {'', ''    type filter hook forward priority -300; policy accept;'', ''  }'', ''}'',
      ''table ip nat {'', ''  chain POSTROUTING {'', ''    type nat hook postrouting priority srcnat; policy accept;'',
      ''    ip saddr '' @ si_clientSubnet input @ '' oifname '' @ [CHR 0x22] @ si_uplinkInterface input @ [CHR 0x22] @
        '' masquerade comment '' @ [CHR 0x22] @ ''ayad_nm_single_interface_nat'' @ [CHR 0x22], ''  }'', ''}'', []]"

definition render :: "'k SetupEnv \<Rightarrow> SetupApplyInput \<Rightarrow> string \<Rightarrow> js_error + Rendered" where
  "render env input gateway =
     (case prefixOf (si_clientSubnet input) of None \<Rightarrow> Inl (Error ''invalid client subnet prefix'')
      | Some prefix \<Rightarrow> (case subnetRange (si_clientSubnet input) of None \<Rightarrow> Inl (Error ''invalid client subnet range'')
      | Some rng \<Rightarrow>
         let start = ipOfInt (fst rng + 10); final = ipOfInt (snd rng - 1)
         in case setup_ipToNumber gateway of None \<Rightarrow> Inl (Error ''invalid client gateway IP'')
            | Some gatewayValue \<Rightarrow>
               let pools = poolRanges (uint (the (setup_ipToNumber start))) (uint (the (setup_ipToNumber final))) (uint gatewayValue)
               in if pools = [] then Inl (Error ''client gateway leaves no usable DHCP addresses in the configured pool'')
                  else
                    let reservationPath = orDefault (si_dhcpReservationsPath input) (reservationsFile (se_paths env));
                        netmask = (if prefix = 24 then ''255.255.255.0'' else numberToIp (maskForPrefix prefix))
                    in Inr \<lparr>re_config = renderConfig env input gateway start final,
                         re_dnsmasq = renderDnsmasq (se_paths env) input gateway netmask pools reservationPath,
                         re_nftables = renderNftables input, re_reservationsPath = reservationPath\<rparr>))"

section \<open>Gateway address and health\<close>

text \<open>\<open>Number(item.prefixlen) === prefix\<close>, on a value that came from JSON.\<close>

definition jsonIsNumber :: "(rat \<Rightarrow> string) \<Rightarrow> json option \<Rightarrow> nat \<Rightarrow> bool" where
  "jsonIsNumber numText v n \<longleftrightarrow> (case v of None \<Rightarrow> False
     | Some JNull \<Rightarrow> n = 0
     | Some (JBool b) \<Rightarrow> n = (if b then 1 else 0)
     | Some (JNum r) \<Rightarrow> r = of_nat n
     | Some j \<Rightarrow> jsNumber (jsText numText j) = Some (of_nat n))"

text \<open>Whether the listing has the address; a listing that cannot be read has not.\<close>

definition hasAddress :: "(rat \<Rightarrow> string) \<Rightarrow> string \<Rightarrow> nat \<Rightarrow> string \<Rightarrow> bool" where
  "hasAddress numText gateway prefix stdout \<longleftrightarrow> (case parseJson stdout of
       Some (JArr rows) \<Rightarrow> JNull \<notin> set rows \<and>
         (let items = concat (map (\<lambda>row. jsonArray (member ''addr_info'' row)) rows);
              wanted = (\<lambda>item. member ''family'' item = Some (JStr ''inet'') \<and> member ''local'' item = Some (JStr gateway) \<and>
                jsonIsNumber numText (member ''prefixlen'' item) prefix)
          in list_ex wanted (takeWhile (\<lambda>item. item \<noteq> JNull) items))
     | _ \<Rightarrow> False)"

definition gatewayText :: "string \<Rightarrow> nat \<Rightarrow> string" where
  "gatewayText gateway prefix = gateway @ ''/'' @ showNat prefix"

definition ensureGatewayAddress :: "'k SetupEnv \<Rightarrow> string \<Rightarrow> string \<Rightarrow> string \<Rightarrow> ('k SetupState, bool) prog" where
  "ensureGatewayAddress env iface gateway subnet = (case prefixOf subnet of
       None \<Rightarrow> throw (Error ''invalid client subnet prefix'')
     | Some prefix \<Rightarrow>
        bnd (setup_safe env ''ip'' [''-j'', ''-4'', ''addr'', ''show'', ''dev'', iface]) (\<lambda>addresses.
        if oc_ok addresses \<and> hasAddress (se_numText env) gateway prefix (oc_stdout addresses) then ret False
        else bnd (setup_safe env ''ip'' [''addr'', ''add'', gatewayText gateway prefix, ''dev'', iface]) (\<lambda>result.
          if \<not> oc_ok result \<and> \<not> rxTest [liti ''file exists''] (oc_stderr result)
          then throw (Error (''unable to add client gateway address: '' @ trim (oc_stderr result)))
          else ret (oc_ok result))))"

definition removeGatewayAddress :: "'k SetupEnv \<Rightarrow> string \<Rightarrow> string \<Rightarrow> string \<Rightarrow> ('k SetupState, unit) prog" where
  "removeGatewayAddress env iface gateway subnet = (case prefixOf subnet of None \<Rightarrow> skip
     | Some prefix \<Rightarrow> bnd (setup_safe env ''ip'' [''addr'', ''del'', gatewayText gateway prefix, ''dev'', iface]) (\<lambda>_. skip))"

definition setup_health :: "'k SetupEnv \<Rightarrow> string \<Rightarrow> string \<Rightarrow> ('k SetupState, SetupHealth) prog" where
  "setup_health env iface gateway =
     bnd (setup_safe env ''ip'' [''link'', ''show'', ''dev'', iface]) (\<lambda>link.
     bnd (setup_safe env ''ping'' [''-c'', ''1'', ''-W'', ''1'', gateway]) (\<lambda>gatewayPing.
     bnd (setup_safe env ''test'' [''-s'', leaseFile (se_paths env)]) (\<lambda>lease.
     bnd (setup_safe env ''systemctl'' [''is-active'', ''--quiet'', ''dnsmasq'']) (\<lambda>dnsmasqStatus.
     bnd (setup_safe env ''ping'' [''-c'', ''1'', ''-W'', ''2'', ''1.1.1.1'']) (\<lambda>outbound.
     let dhcpLeaseFile = (oc_ok lease \<or> oc_ok dnsmasqStatus) in
     ret \<lparr>sh_clientInterface = oc_ok link, sh_gatewayReachable = oc_ok gatewayPing, sh_dhcpLeaseFile = dhcpLeaseFile,
       sh_outboundConnectivity = oc_ok outbound,
       sh_errors =
         (if oc_ok link then [] else [''Client interface '' @ iface @ '' is not reachable'']) @
         (if oc_ok gatewayPing then [] else [''Client gateway '' @ gateway @ '' is not reachable'']) @
         (if dhcpLeaseFile then [] else [''dnsmasq is not active and no DHCP lease file exists'']) @
         (if oc_ok outbound then [] else [''Outbound connectivity test failed''])\<rparr>)))))"

end
