(* ===== verification/SetupApply.thy ===== *)
theory SetupApply
  imports SetupService
begin

text \<open>
  The part of \<open>SetupService.ts\<close> that changes the machine: \<open>snapshot\<close>, \<open>rollback\<close> and \<open>apply\<close>, and
  the probe of \<open>LinuxSetupProbe.ts\<close>. A command sees the files but changes none of those the wizard
  works with. A failed set-up puts back the files of its snapshot.
\<close>

section \<open>The probe of the machine\<close>

record SpawnFailure =
  sw_message :: "string option"
  sw_stdout :: "string option"
  sw_stderr :: "string option"

record 'k SetupMachine =
  hm_local :: "(string \<Rightarrow> string option) \<Rightarrow> 'k Machine"
  hm_spawn :: "(string \<Rightarrow> string option) \<Rightarrow> string \<Rightarrow> string list \<Rightarrow> 'k \<Rightarrow> (SpawnFailure + string \<times> string) \<times> 'k"

definition onSetupHost :: "((string \<Rightarrow> string option) \<Rightarrow> ('k, 'a) prog) \<Rightarrow> ('k SetupState, 'a) prog" where
  "onSetupHost p = (\<lambda>s. case p (contentOf (su_files s)) (su_host s) of (r, k) \<Rightarrow> (r, s\<lparr>su_host := k\<rparr>))"

definition setupExecute :: "'k SetupMachine \<Rightarrow> string \<Rightarrow> string list \<Rightarrow> ('k SetupState, string \<times> string) prog" where
  "setupExecute m command args = onSetupHost (\<lambda>files. executeLocal (hm_local m files) 30000 command args)"

definition spawnDetail :: "SpawnFailure \<Rightarrow> string" where
  "spawnDetail failure = hd (filter (\<lambda>t. t \<noteq> [])
     [trim (orDefault (sw_stderr failure) []), trim (orDefault (sw_stdout failure) []),
      orDefault (sw_message failure) [], ''command failed''])"

definition validateNftablesConfig :: "'k SetupMachine \<Rightarrow> string \<Rightarrow> ('k SetupState, string \<times> string) prog" where
  "validateNftablesConfig m nftPath = setupExecute m ''nft'' [''-c'', ''-f'', nftPath]"

definition LinuxSetupProbe_run :: "'k SetupMachine \<Rightarrow> string \<Rightarrow> string \<Rightarrow> string list \<Rightarrow> ('k SetupState, string \<times> string) prog" where
  "LinuxSetupProbe_run m nftPath command args =
     (if command = ''nft'' \<and> length args = 3 \<and> args ! 0 = ''-c'' \<and> args ! 1 = ''-f'' \<and> args ! 2 = nftPath
      then validateNftablesConfig m nftPath
      else if command \<in> {''nft'', ''tc'', ''ip''} then setupExecute m command args
      else onSetupHost (\<lambda>files k. case hm_spawn m files command args k of
           (Inr out, k') \<Rightarrow> (Inr out, k')
         | (Inl failure, k') \<Rightarrow> (Inl (Error (command @ '' '' @ joinWith '' '' args @ '' failed: '' @ spawnDetail failure)), k')))"

definition LinuxSetupProbe_snapshotNft :: "'k SetupMachine \<Rightarrow> ('k SetupState, string) prog" where
  "LinuxSetupProbe_snapshotNft m = bnd (setupExecute m ''nft'' [''list'', ''ruleset'']) (\<lambda>(stdout, stderr). ret stdout)"

definition LinuxSetupProbe_restoreNft :: "'k SetupMachine \<Rightarrow> string \<Rightarrow> ('k SetupState, unit) prog" where
  "LinuxSetupProbe_restoreNft m snapshotPath = bnd (setupExecute m ''nft'' [''-f'', snapshotPath]) (\<lambda>_. skip)"

definition LinuxSetupProbe :: "'k SetupMachine \<Rightarrow> string \<Rightarrow> 'k SetupProbe" where
  "LinuxSetupProbe m nftPath = \<lparr>pb_run = LinuxSetupProbe_run m nftPath,
     pb_snapshotNft = Some (LinuxSetupProbe_snapshotNft m), pb_restoreNft = Some (LinuxSetupProbe_restoreNft m)\<rparr>"

section \<open>The text of a snapshot\<close>

text \<open>\<open>JSON.stringify\<close> of a string, with every escape it writes.\<close>

definition shortEscape :: "char \<Rightarrow> char option" where
  "shortEscape c = map_of [(CHR 0x22, CHR 0x22), (CHR 0x5C, CHR 0x5C), (CHR 0x08, CHR ''b''), (CHR 0x0C, CHR ''f''),
     (CHR 0x0A, CHR ''n''), (CHR 0x0D, CHR ''r''), (CHR 0x09, CHR ''t'')] c"

definition jsonEscape :: "char \<Rightarrow> string" where
  "jsonEscape c = (case shortEscape c of Some e \<Rightarrow> [CHR 0x5C, e]
     | None \<Rightarrow> let n = of_char c :: nat
        in if n < 32 then CHR 0x5C # ''u00'' @ [hexChar (n div 16), hexChar (n mod 16)] else [c])"

definition jsonLiteral :: "string \<Rightarrow> string" where
  "jsonLiteral s = CHR 0x22 # concat (map jsonEscape s) @ [CHR 0x22]"

definition fileMember :: "string \<times> string option \<Rightarrow> string" where
  "fileMember m = (case m of (path, content) \<Rightarrow> ''    '' @ jsonLiteral path @ '': '' @
     (case content of None \<Rightarrow> ''null'' | Some t \<Rightarrow> jsonLiteral t))"

text \<open>\<open>JSON.stringify({ files, nft }, null, 2)\<close> of an object that is not empty.\<close>

definition snapshotText :: "(string \<times> string option) list \<Rightarrow> string \<Rightarrow> string" where
  "snapshotText contents nft =
     ''{'' @ [CHR 0x0A] @ ''  '' @ jsonLiteral ''files'' @ '': {'' @ [CHR 0x0A] @
     joinWith ('','' @ [CHR 0x0A]) (map fileMember contents) @ [CHR 0x0A] @ ''  },'' @ [CHR 0x0A] @
     ''  '' @ jsonLiteral ''nft'' @ '': '' @ jsonLiteral nft @ [CHR 0x0A] @ ''}''"

section \<open>snapshot and rollback\<close>

definition snapshotFiles :: "SetupPaths \<Rightarrow> string list" where
  "snapshotFiles p = [sp_configPath p, sp_dnsmasqPath p, sp_nftablesPath p, legacyFile p]"

definition readOrNull :: "string \<Rightarrow> (FileState, string \<times> string option) prog" where
  "readOrNull path = bnd (tryCatch (bnd (readFile path) (\<lambda>c. ret (Some c))) (\<lambda>_. ret None)) (\<lambda>c. ret (path, c))"

definition snapshot :: "'k SetupEnv \<Rightarrow> ('k SetupState, string) prog" where
  "snapshot env =
     thn (onSetupFiles mkdirs)
     (bnd dateNow (\<lambda>id.
      let target = joinPath (sp_snapshotDir (se_paths env)) (showNat id @ ''.json'') in
      bnd (onSetupFiles (mapProg readOrNull (snapshotFiles (se_paths env)))) (\<lambda>contents.
      bnd (case pb_snapshotNft (se_probe env) of None \<Rightarrow> ret [] | Some dump \<Rightarrow> dump) (\<lambda>nft.
      let data = snapshotText (mapOfList contents) nft in
      thn (onSetupFiles (writeFile target data)) (ret data)))))"

text \<open>Writing a value that is not a text throws before the file is touched.\<close>

definition writeJson :: "string \<Rightarrow> json \<Rightarrow> (FileState, unit) prog" where
  "writeJson path v = (case v of JStr t \<Rightarrow> writeFile path t
     | _ \<Rightarrow> throw (Error ''The data argument must be of type string or an instance of Buffer, TypedArray, or DataView.''))"

definition writeAtomic :: "'k SetupEnv \<Rightarrow> string \<Rightarrow> json \<Rightarrow> ('k SetupState, unit) prog" where
  "writeAtomic env path content =
     thn (onSetupFiles mkdirs)
     (bnd dateNow (\<lambda>now.
      let temp = path @ ''.tmp-'' @ se_pid env @ ''-'' @ showNat now in
      thn (onSetupFiles (writeJson temp content)) (onSetupFiles (rename temp path))))"

text \<open>\<open>Object.entries\<close> of a value that came from JSON, null and undefined read as the empty object.\<close>

definition objectEntries :: "json option \<Rightarrow> (string \<times> json) list" where
  "objectEntries v = (case v of
       Some (JObj ms) \<Rightarrow> mapOfList ms
     | Some (JArr xs) \<Rightarrow> zip (map showNat [0..<length xs]) xs
     | Some (JStr s) \<Rightarrow> zip (map showNat [0..<length s]) (map (\<lambda>c. JStr [c]) s)
     | _ \<Rightarrow> [])"

definition jsonTruthy :: "json option \<Rightarrow> bool" where
  "jsonTruthy v \<longleftrightarrow> v \<notin> {None, Some JNull, Some (JBool False), Some (JNum 0), Some (JStr [])}"

definition restoreFile :: "'k SetupEnv \<Rightarrow> string \<times> json \<Rightarrow> ('k SetupState, unit) prog" where
  "restoreFile env m = (case m of (path, content) \<Rightarrow>
     if content = JNull then onSetupFiles (rmForce path) else writeAtomic env path content)"

definition restoreRules :: "'k SetupEnv \<Rightarrow> json option \<Rightarrow> ('k SetupState, unit) prog" where
  "restoreRules env nft = (if \<not> jsonTruthy nft then skip
     else case pb_restoreNft (se_probe env) of None \<Rightarrow> skip
       | Some restore \<Rightarrow> bnd dateNow (\<lambda>now.
          let nftSnapshotPath = joinPath (sp_snapshotDir (se_paths env)) (''.rollback-'' @ se_pid env @ ''-'' @ showNat now @ ''.nft'')
          in tryFinally (thn (onSetupFiles (writeJson nftSnapshotPath (the nft))) (restore nftSnapshotPath))
               (\<lambda>s. snd (onSetupFiles (rmForce nftSnapshotPath) s))))"

definition rollback :: "'k SetupEnv \<Rightarrow> string \<Rightarrow> bool \<Rightarrow> ('k SetupState, unit) prog" where
  "rollback env text dnsmasqActivated = (case parseJson text of
       None \<Rightarrow> throw (Error ''Unexpected token in JSON'')
     | Some parsed \<Rightarrow>
        if parsed = JNull then throw (Error (''Cannot read properties of null (reading '' @ [CHR 0x27] @ ''files'' @ [CHR 0x27] @ '')''))
        else thn (forEach (objectEntries (member ''files'' parsed)) (restoreFile env))
          (thn (restoreRules env (member ''nft'' parsed))
            (whenP dnsmasqActivated (bnd (setup_safe env ''systemctl'' [''restart'', ''dnsmasq'']) (\<lambda>_. skip)))))"

text \<open>The names in a directory; one that cannot be read has none.\<close>

definition readdirOrEmpty :: "string \<Rightarrow> (FileState, string list) prog" where
  "readdirOrEmpty dir s = (if fails s then (Inr [], tick s)
     else (Inr (filter (\<lambda>n. CHR ''/'' \<notin> set n)
       (map (drop (Suc (length dir))) (filter (startsWith (dir @ ''/'')) (map fst (fi_files s))))), tick s))"

definition laterName :: "string \<Rightarrow> string \<Rightarrow> string" where
  "laterName a b = (if lexordp (\<lambda>x y. of_char x < (of_char y :: nat)) a b then b else a)"

definition rollbackLatest :: "'k SetupEnv \<Rightarrow> ('k SetupState, unit) prog" where
  "rollbackLatest env =
     bnd (onSetupFiles (readdirOrEmpty (sp_snapshotDir (se_paths env)))) (\<lambda>entries.
     case filter (endsWith ''.json'') entries of [] \<Rightarrow> skip
     | n # ns \<Rightarrow>
        bnd (onSetupFiles (readFile (joinPath (sp_snapshotDir (se_paths env)) (fold laterName ns n)))) (\<lambda>text.
        rollback env text True))"

section \<open>apply\<close>

definition failed :: "'k SetupEnv \<Rightarrow> string list \<Rightarrow> SetupApplyResult" where
  "failed env errors = \<lparr>ar_applied = False, ar_configPath = sp_configPath (se_paths env), ar_renderedFiles = [],
     ar_health = \<lparr>sh_clientInterface = False, sh_gatewayReachable = False, sh_dhcpLeaseFile = False,
       sh_outboundConnectivity = False, sh_errors = errors\<rparr>, ar_rolledBack = False, ar_errors = errors\<rparr>"

definition noHealth :: SetupHealth where
  "noHealth = \<lparr>sh_clientInterface = False, sh_gatewayReachable = False, sh_dhcpLeaseFile = False,
     sh_outboundConnectivity = False, sh_errors = []\<rparr>"

definition activates :: "SetupApplyInput \<Rightarrow> bool" where
  "activates input \<longleftrightarrow> si_activate input \<noteq> Some False"

text \<open>What the network says against the input, with the subnet and the gateway to use.\<close>

definition gatewayCandidate :: "SetupNetworkReport \<Rightarrow> SetupApplyInput \<Rightarrow> string option" where
  "gatewayCandidate network input = (case si_clientGatewayIp input of Some g \<Rightarrow> Some g
     | None \<Rightarrow> deriveGateway
         (case find (\<lambda>item. sn_name item = si_uplinkInterface input) (sr_interfaces network) of None \<Rightarrow> [] | Some i \<Rightarrow> sn_addresses i)
         (orDefault (networkOf (si_clientSubnet input)) (si_clientSubnet input)))"

definition applyErrors :: "SetupNetworkReport \<Rightarrow> SetupApplyInput \<Rightarrow> string list" where
  "applyErrors network input =
     (let available = map sn_name (sr_interfaces network);
          client = si_clientInterface input; uplink = si_uplinkInterface input;
          requestedNetwork = networkOf (si_clientSubnet input);
          selected = find (\<lambda>item. sn_name item = uplink) (sr_interfaces network);
          occupiedOtherInterfaces = concat (map snd (filter (\<lambda>e. fst e \<noteq> uplink) (sr_uplinkSubnets network)));
          candidate = gatewayCandidate network input
      in (if client \<in> set available then [] else [''client interface not found: '' @ client]) @
         (if uplink \<in> set available then [] else [''uplink interface not found: '' @ uplink]) @
         (if client = uplink then [] else [''Single-Interface + IFB requires CLIENT_INTERFACE and UPLINK_INTERFACE to use the same interface'']) @
         (case requestedNetwork of None \<Rightarrow> [''client subnet is invalid'']
          | Some requested \<Rightarrow>
             if client = uplink then
               (if requested \<in> set (case selected of None \<Rightarrow> [] | Some i \<Rightarrow> subnetsOf (sn_addresses i)) then []
                else [''single-interface client subnet must match an existing subnet on the selected interface''])
             else if subnetOverlapsAny requested occupiedOtherInterfaces
             then [''client subnet overlaps an existing interface subnet; choose a different client subnet''] else []) @
         (if candidate = None then [''unable to derive a usable CLIENT_GATEWAY_IP from CLIENT_SUBNET''] else []) @
         (if candidate \<noteq> None \<and> \<not> usableHost (the candidate) (orDefault requestedNetwork (si_clientSubnet input))
          then [''CLIENT_GATEWAY_IP must be a usable host inside CLIENT_SUBNET''] else []))"

definition ensureParentDirectories :: "'k SetupEnv \<Rightarrow> ('k SetupState, unit) prog" where
  "ensureParentDirectories env = (let p = se_paths env in
     forEach [sp_configPath p, sp_dnsmasqPath p, sp_nftablesPath p, reservationsFile p, modulesFile p, overrideFile p]
       (\<lambda>_. onSetupFiles mkdirs))"

definition renderedFiles :: "'k SetupEnv \<Rightarrow> Rendered \<Rightarrow> (string \<times> string) list" where
  "renderedFiles env rendered = (let p = se_paths env in
     [(sp_configPath p, re_config rendered), (sp_dnsmasqPath p, re_dnsmasq rendered), (sp_nftablesPath p, re_nftables rendered),
      (re_reservationsPath rendered, ''# Generated by network-control-system; do not edit.'' @ [CHR 0x0A]),
      (modulesFile p, ''ifb'' @ [CHR 0x0A]),
      (overrideFile p, unlines [''[Service]'', ''Restart=on-failure'', ''RestartSec=5'', []])])"

definition migrateLegacyDnsmasqConfig :: "'k SetupEnv \<Rightarrow> ('k SetupState, unit) prog" where
  "migrateLegacyDnsmasqConfig env = onSetupFiles (tryCatch (rmForce (legacyFile (se_paths env))) (\<lambda>_. skip))"

text \<open>\<open>/^table\s+ip\s+filter\s*$/m\<close>, at one position and at the start of any line.\<close>

definition lineBreak :: "char \<Rightarrow> bool" where
  "lineBreak c \<longleftrightarrow> c = CHR 0x0A \<or> c = CHR 0x0D"

definition tableAt :: "string \<Rightarrow> bool" where
  "tableAt s \<longleftrightarrow> startsWith ''table'' s \<and>
     (let r = drop 5 s; r' = dropWhile isSpace r in r' \<noteq> r \<and> startsWith ''ip'' r' \<and>
      (let q = drop 2 r'; q' = dropWhile isSpace q in q' \<noteq> q \<and> startsWith ''filter'' q' \<and>
       (let e = dropWhile (\<lambda>c. isSpace c \<and> \<not> lineBreak c) (drop 6 q') in e = [] \<or> lineBreak (hd e))))"

fun filterTableListed :: "bool \<Rightarrow> string \<Rightarrow> bool" where
  "filterTableListed lineStart [] = False"
| "filterTableListed lineStart (c # s) \<longleftrightarrow> lineStart \<and> tableAt (c # s) \<or> filterTableListed (lineBreak c) s"

definition trimmedOr :: "string \<Rightarrow> string \<Rightarrow> string" where
  "trimmedOr a b = (if trim a = [] then trim b else trim a)"

definition activateSetup :: "'k SetupEnv \<Rightarrow> SetupApplyInput \<Rightarrow> string \<Rightarrow> ('k SetupState, unit) prog" where
  "activateSetup env input gateway = (let nftPath = sp_nftablesPath (se_paths env) in
     thn (migrateLegacyDnsmasqConfig env)
     (bnd (setup_safe env ''nft'' [''-c'', ''-f'', nftPath]) (\<lambda>nftCheck.
      if \<not> oc_ok nftCheck then throw (Error (''nftables configuration validation failed: '' @ trimmedOr (oc_stderr nftCheck) (oc_stdout nftCheck)))
      else bnd (setup_safe env ''nft'' [''list'', ''tables'', ''ip'']) (\<lambda>tables.
      if \<not> oc_ok tables then throw (Error (''unable to inspect nftables tables: '' @ trim (oc_stderr tables)))
      else thn (whenP (\<not> filterTableListed True (oc_stdout tables))
          (bnd (setup_safe env ''nft'' [''-f'', nftPath]) (\<lambda>loaded.
           if \<not> oc_ok loaded then throw (Error (''unable to load nftables configuration: '' @ trim (oc_stderr loaded))) else skip)))
     (thn (bnd (pb_run (se_probe env) ''systemctl'' [''daemon-reload'']) (\<lambda>_. skip))
     (thn (bnd (pb_run (se_probe env) ''systemctl'' [''enable'', ''dnsmasq'']) (\<lambda>_. skip))
     (bnd (setup_safe env ''dnsmasq'' [''--test'']) (\<lambda>dnsTest.
      if \<not> oc_ok dnsTest then throw (Error (''dnsmasq configuration validation failed: '' @ trimmedOr (oc_stderr dnsTest) (oc_stdout dnsTest)))
      else thn (bnd (pb_run (se_probe env) ''systemctl'' [''restart'', ''dnsmasq'']) (\<lambda>_. skip))
     (thn (modify (\<lambda>s. s\<lparr>su_dnsmasqActivated := True\<rparr>))
     (bnd (setup_health env (si_clientInterface input) gateway) (\<lambda>health.
      thn (modify (\<lambda>s. s\<lparr>su_health := health\<rparr>))
      (if sh_errors health \<noteq> [] then throw (Error (joinWith ''; '' (sh_errors health))) else skip))))))))))))"

definition applyBody :: "'k SetupEnv \<Rightarrow> SetupApplyInput \<Rightarrow> string \<Rightarrow> string \<Rightarrow> ('k SetupState, SetupApplyResult) prog" where
  "applyBody env input gateway requestedNetwork =
     thn (ensureParentDirectories env)
     (thn (whenP (activates input)
        (bnd (ensureGatewayAddress env (si_clientInterface input) gateway requestedNetwork) (\<lambda>added. modify (\<lambda>s. s\<lparr>su_gatewayAdded := added\<rparr>))))
     (bnd (liftE (render env (input\<lparr>si_clientSubnet := requestedNetwork\<rparr>) gateway)) (\<lambda>rendered.
      thn (forEach (renderedFiles env rendered) (\<lambda>(path, text). writeAtomic env path (JStr text)))
     (thn (whenP (activates input) (activateSetup env input gateway))
     (bnd (gets su_health) (\<lambda>health.
      ret \<lparr>ar_applied = True, ar_configPath = sp_configPath (se_paths env), ar_renderedFiles = map fst (renderedFiles env rendered),
        ar_health = health, ar_rolledBack = False, ar_errors = []\<rparr>))))))"

definition recover :: "'k SetupEnv \<Rightarrow> SetupApplyInput \<Rightarrow> string \<Rightarrow> string \<Rightarrow> string \<Rightarrow> js_error \<Rightarrow> ('k SetupState, SetupApplyResult) prog" where
  "recover env input gateway requestedNetwork text error =
     bnd (gets su_gatewayAdded) (\<lambda>gatewayAdded.
     thn (whenP gatewayAdded (removeGatewayAddress env (si_clientInterface input) gateway requestedNetwork))
     (bnd (gets su_dnsmasqActivated) (\<lambda>dnsmasqActivated.
     thn (whenP (text \<noteq> []) (rollback env text dnsmasqActivated))
     (bnd (gets su_health) (\<lambda>health.
      ret \<lparr>ar_applied = False, ar_configPath = sp_configPath (se_paths env), ar_renderedFiles = [],
        ar_health = (if sh_errors health \<noteq> [] then health else health\<lparr>sh_errors := [errorMessage error]\<rparr>),
        ar_rolledBack = (text \<noteq> []), ar_errors = [errorMessage error]\<rparr>)))))"

definition setup_apply :: "'k SetupEnv \<Rightarrow> SetupApplyInput \<Rightarrow> ('k SetupState, SetupApplyResult) prog" where
  "setup_apply env input =
     (if setup_validateInput input \<noteq> [] then ret (failed env (setup_validateInput input))
      else bnd (inspectNetwork env) (\<lambda>network.
      if applyErrors network input \<noteq> [] then ret (failed env (applyErrors network input))
      else let gateway = the (gatewayCandidate network input); requestedNetwork = the (networkOf (si_clientSubnet input)) in
      bnd (if activates input then bnd (preflight env) (\<lambda>report. ret (pf_errors report)) else ret []) (\<lambda>preflightErrors.
      if preflightErrors \<noteq> [] then ret (failed env preflightErrors)
      else bnd (if activates input then tryCatch (bnd (snapshot env) (\<lambda>text. ret (Inr text))) (\<lambda>error. ret (Inl error)) else ret (Inr [])) (\<lambda>taken.
      case taken of Inl error \<Rightarrow> ret (failed env [errorMessage error])
      | Inr text \<Rightarrow>
         thn (modify (\<lambda>s. s\<lparr>su_gatewayAdded := False, su_dnsmasqActivated := False, su_health := noHealth\<rparr>))
           (tryCatch (applyBody env input gateway requestedNetwork)
             (recover env input gateway requestedNetwork text))))))"

end
