(* ===== verification/SetupFacts.thy ===== *)
theory SetupFacts
  imports SetupApply Control
begin

text \<open>
  A set-up that fails puts back what it had changed: the text of a snapshot is read back as it was
  written, a rollback restores every file of its snapshot, and therefore \<open>apply\<close> is all or nothing
  on the files it takes a snapshot of.
\<close>

section \<open>The text of a snapshot is read back\<close>

lemma escape_parsed: "parseChars (jsonEscape c @ s) = map_option (apfst ((#) c)) (parseChars s)"
proof (cases "shortEscape c")
  case (Some e)
  then have "(c, e) \<in> {(CHR 0x22, CHR 0x22), (CHR 0x5C, CHR 0x5C), (CHR 0x08, CHR ''b''), (CHR 0x0C, CHR ''f''),
      (CHR 0x0A, CHR ''n''), (CHR 0x0D, CHR ''r''), (CHR 0x09, CHR ''t'')}"
    by (auto simp: shortEscape_def split: if_splits)
  then show ?thesis using Some by (auto simp: jsonEscape_def escapeChar_def)
next
  case None
  then have c: "c \<noteq> CHR 0x22" "c \<noteq> CHR 0x5C" by (auto simp: shortEscape_def)
  show ?thesis
  proof (cases "(of_char c :: nat) < 32")
    case True
    let ?n = "of_char c :: nat"
    have d: "?n div 16 < 16" "?n mod 16 < 16" using True by simp_all
    have "readHex [CHR ''0'', CHR ''0'', hexChar (?n div 16), hexChar (?n mod 16)] = ?n"
      using d by (simp add: readHex_def hexVal_hexChar) (simp add: hexVal_def lowerChar_def)
    moreover have "isHex (hexChar (?n div 16))" "isHex (hexChar (?n mod 16))" "isHex (CHR ''0'')"
      using d by (auto simp: isHex_def isHexLower_def isDigit_def hexChar_def)
    ultimately show ?thesis using None c True by (simp add: jsonEscape_def Let_def)
  next
    case False
    then show ?thesis using None c by (simp add: jsonEscape_def Let_def)
  qed
qed

lemma literal_parsed: "parseChars (concat (map jsonEscape s) @ CHR 0x22 # rest) = Some (s, rest)"
  by (induction s) (simp_all add: escape_parsed)

lemma skipWs_blank: "jsonSpace c \<Longrightarrow> skipWs (c # s) = skipWs s"
  by (simp add: skipWs_def)

lemma skipWs_other: "\<not> jsonSpace c \<Longrightarrow> skipWs (c # s) = c # s"
  by (simp add: skipWs_def)

lemma jsonSpace_code: "jsonSpace (CHR 0x0A)" "jsonSpace (CHR '' '')" "\<not> jsonSpace (CHR 0x22)" "\<not> jsonSpace (CHR '':'')"
  "\<not> jsonSpace (CHR '','')" "\<not> jsonSpace (CHR ''{'')" "\<not> jsonSpace (CHR ''}'')" "\<not> jsonSpace (CHR ''n'')"
  by (simp_all add: jsonSpace_def)

lemmas ws = skipWs_blank skipWs_other jsonSpace_code

lemma string_parsed: "parseValue (Suc n) (CHR '' '' # jsonLiteral s @ rest) = Some (JStr s, rest)"
  by (simp add: jsonLiteral_def literal_parsed ws)

lemma null_parsed: "parseValue (Suc n) ('' null'' @ rest) = Some (JNull, rest)"
  by (simp add: ws)

definition contentJson :: "string option \<Rightarrow> json" where
  "contentJson c = (case c of None \<Rightarrow> JNull | Some t \<Rightarrow> JStr t)"

lemma member_parsed:
  "parseMembers (Suc (Suc n)) (fileMember (path, c) @ rest) =
     (case skipWs rest of [] \<Rightarrow> None
      | d # cs \<Rightarrow> if d = CHR '','' then map_option (apfst ((#) (path, contentJson c))) (parseMembers (Suc n) cs)
          else if d = CHR ''}'' then Some ([(path, contentJson c)], cs) else None)"
proof -
  have v: "parseValue (Suc n) (CHR '' '' # (case c of None \<Rightarrow> ''null'' | Some t \<Rightarrow> jsonLiteral t) @ rest) = Some (contentJson c, rest)"
    using string_parsed [of n _ rest] null_parsed [of n rest] by (cases c) (simp_all add: contentJson_def)
  have q: "skipWs (fileMember (path, c) @ rest) =
      CHR 0x22 # concat (map jsonEscape path) @ CHR 0x22 # CHR '':'' # CHR '' '' # (case c of None \<Rightarrow> ''null'' | Some t \<Rightarrow> jsonLiteral t) @ rest"
    by (simp add: fileMember_def jsonLiteral_def ws)
  show ?thesis unfolding parseMembers.simps(2) [of "Suc n"] q
    using v by (simp add: literal_parsed ws del: parseValue.simps parseMembers.simps split: list.split)
qed

lemma members_newline: "parseMembers (Suc k) (CHR 0x0A # s) = parseMembers (Suc k) s"
  by (simp add: ws)

lemma members_parsed:
  assumes "contents \<noteq> []"
  shows "parseMembers (length contents + Suc n) (joinWith ('','' @ [CHR 0x0A]) (map fileMember contents) @ CHR 0x0A # ''  }'' @ rest) =
     Some (map (\<lambda>(p, c). (p, contentJson c)) contents, rest)"
  using assms
proof (induction contents)
  case (Cons m contents)
  obtain p c where m: "m = (p, c)" by fastforce
  show ?case
  proof (cases contents)
    case Nil
    then show ?thesis by (simp add: m member_parsed ws del: parseMembers.simps)
  next
    case (Cons m' ms)
    from Cons.IH Cons show ?thesis by (simp add: m member_parsed members_newline ws del: parseMembers.simps)
  qed
qed simp

lemma key_parsed:
  assumes "parseValue n r = Some (v, r')" "skipWs r' = d # cs"
  shows "parseMembers (Suc n) (CHR 0x0A # ''  '' @ jsonLiteral k @ CHR '':'' # r) =
     (if d = CHR '','' then map_option (apfst ((#) (k, v))) (parseMembers n cs)
      else if d = CHR ''}'' then Some ([(k, v)], cs) else None)"
proof -
  have "skipWs (CHR 0x0A # ''  '' @ jsonLiteral k @ CHR '':'' # r) = CHR 0x22 # concat (map jsonEscape k) @ CHR 0x22 # CHR '':'' # r"
    by (simp add: jsonLiteral_def ws)
  then show ?thesis using assms by (simp add: literal_parsed ws del: parseValue.simps)
qed

lemma object_parsed:
  assumes "parseMembers n cs = Some (ms, rest)" "skipWs cs = CHR 0x22 # q"
  shows "parseValue (Suc n) (CHR ''{'' # cs) = Some (JObj ms, rest)" "parseValue (Suc n) (CHR '' '' # CHR ''{'' # cs) = Some (JObj ms, rest)"
  using assms by (simp_all add: ws del: parseMembers.simps)

lemma length_members: "length contents \<le> length (joinWith sep (map fileMember contents))"
proof (induction contents)
  case (Cons m contents)
  have "1 \<le> length (fileMember m)" by (simp add: fileMember_def split: prod.split)
  with Cons show ?case by (cases contents) simp_all
qed simp

lemma snapshot_parsed:
  assumes "contents \<noteq> []"
  shows "parseJson (snapshotText contents nft) =
     Some (JObj [(''files'', JObj (map (\<lambda>(p, c). (p, contentJson c)) contents)), (''nft'', JStr nft)])"
proof -
  let ?ms = "joinWith ('','' @ [CHR 0x0A]) (map fileMember contents)"
  let ?last = "CHR 0x0A # ''  '' @ jsonLiteral ''nft'' @ CHR '':'' # CHR '' '' # jsonLiteral nft @ [CHR 0x0A, CHR ''}'']"
  let ?inner = "CHR 0x0A # ?ms @ CHR 0x0A # ''  }'' @ CHR '','' # ?last"
  let ?all = "CHR 0x0A # ''  '' @ jsonLiteral ''files'' @ CHR '':'' # CHR '' '' # CHR ''{'' # ?inner"
  let ?files = "map (\<lambda>(p, c). (p, contentJson c)) contents"
  have shape: "snapshotText contents nft = CHR ''{'' # ?all" by (simp add: snapshotText_def)
  have long: "length contents + 10 \<le> 2 * length (snapshotText contents nft) + 4"
    using length_members [of contents "'','' @ [CHR 0x0A]"] unfolding shape by (simp add: jsonLiteral_def)
  obtain k where k: "2 * length (snapshotText contents nft) + 4 = Suc (Suc (Suc (length contents + Suc (Suc k))))"
    by (rule that [of "2 * length (snapshotText contents nft) + 4 - length contents - 5"]) (use long in linarith)
  have fm: "\<exists>q. skipWs (?ms @ rest) = CHR 0x22 # q" for rest
  proof -
    obtain m ms where "contents = m # ms" using assms by (cases contents) auto
    then show ?thesis by (cases ms; cases m) (simp_all add: fileMember_def jsonLiteral_def ws)
  qed
  have "parseMembers (length contents + Suc (Suc k)) ?inner = Some (?files, CHR '','' # ?last)"
    using members_parsed [OF assms, of "Suc k" "CHR '','' # ?last"] members_newline [of "length contents + Suc k"]
    by (simp del: parseMembers.simps)
  moreover obtain q where "skipWs ?inner = CHR 0x22 # q"
    using fm [of "CHR 0x0A # ''  }'' @ CHR '','' # ?last"] by (auto simp: ws)
  ultimately have inner: "parseValue (Suc (length contents + Suc (Suc k))) (CHR '' '' # CHR ''{'' # ?inner) = Some (JObj ?files, CHR '','' # ?last)"
    by (rule object_parsed(2))
  have "parseMembers (Suc (length contents + Suc (Suc k))) ?last = Some ([(''nft'', JStr nft)], [])"
    using key_parsed [OF string_parsed [of "length contents + Suc k" nft "[CHR 0x0A, CHR ''}'']"], of "CHR ''}''" "[]" "''nft''"]
    by (simp add: ws)
  with key_parsed [OF inner, of "CHR '',''" ?last "''files''"]
  have "parseMembers (Suc (Suc (length contents + Suc (Suc k)))) ?all = Some ([(''files'', JObj ?files), (''nft'', JStr nft)], [])"
    by (simp add: ws)
  from object_parsed(1) [OF this, of "concat (map jsonEscape ''files'') @ CHR 0x22 # CHR '':'' # CHR '' '' # CHR ''{'' # ?inner"]
  have "parseValue (2 * length (snapshotText contents nft) + 4) (snapshotText contents nft) = Some (JObj [(''files'', JObj ?files), (''nft'', JStr nft)], [])"
    unfolding k unfolding shape by (simp add: ws jsonLiteral_def)
  then show ?thesis by (simp add: parseJson_def skipWs_def)
qed

section \<open>What a step may do to the files\<close>

definition isTemp :: "string \<Rightarrow> bool" where
  "isTemp p \<longleftrightarrow> hasSubstr ''.tmp-'' p"

lemma isTemp_temp: "isTemp (p @ ''.tmp-'' @ x)"
proof -
  have "hasSubstr w (p @ w @ x)" if "w \<noteq> []" for w
  proof (induction p)
    case Nil
    from that show ?case by (cases w) (simp_all add: startsWith_iff)
  qed simp
  from this [of "''.tmp-''"] show ?thesis by (simp add: isTemp_def)
qed

text \<open>\<open>stepFiles W f g\<close>: from \<open>f\<close> to \<open>g\<close> only files of \<open>W\<close> changed.\<close>

definition stepFiles :: "string set \<Rightarrow> FileState \<Rightarrow> FileState \<Rightarrow> bool" where
  "stepFiles W f g \<longleftrightarrow> fi_fault g = fi_fault f \<and> (\<forall>q. q \<notin> W \<longrightarrow> contentOf g q = contentOf f q)"

lemma stepFiles_refl [simp]: "stepFiles W f f"
  by (simp add: stepFiles_def)

lemma stepFiles_trans: "stepFiles W f g \<Longrightarrow> stepFiles W g h \<Longrightarrow> stepFiles W f h"
  by (simp add: stepFiles_def)

definition confined :: "string set \<Rightarrow> ('k SetupState, 'a) prog \<Rightarrow> bool" where
  "confined W p \<longleftrightarrow> (\<forall>f. preserves (\<lambda>s. stepFiles W f (su_files s)) p)"

lemma confined_spec: "confined W p \<Longrightarrow> spec p s (\<lambda>r t. stepFiles W (su_files s) (su_files t))"
  by (rule specI) (metis confined_def preservesD stepFiles_refl)

lemma confined_frame: "frame su_files p \<Longrightarrow> confined W p"
  by (simp add: confined_def frame_preserves)

lemma confined_files: "(\<And>f. stepFiles W f (snd (p f))) \<Longrightarrow> confined W (onSetupFiles p)"
  unfolding confined_def preserves_def onSetupFiles_def by (auto split: prod.split) (metis snd_conv stepFiles_trans)

lemma frame_dateNow [prog_rules]: "frame su_files dateNow"
  by (simp add: frame_def dateNow_def)

lemma confined_rules:
  "confined W (ret x)" "confined W (throw e)" "confined W skip" "confined W (gets h)" "confined W dateNow"
  "confined W p \<Longrightarrow> (\<And>x. confined W (q x)) \<Longrightarrow> confined W (bnd p q)"
  "confined W p \<Longrightarrow> confined W r \<Longrightarrow> confined W (thn p r)"
  "confined W p \<Longrightarrow> (\<And>e. confined W (h' e)) \<Longrightarrow> confined W (tryCatch p h')"
  "confined W u \<Longrightarrow> confined W (whenP b u)"
  "(\<And>y. y \<in> set ys \<Longrightarrow> confined W (g y)) \<Longrightarrow> confined W (forEach ys g)"
  "(c \<Longrightarrow> confined W p) \<Longrightarrow> (\<not> c \<Longrightarrow> confined W p') \<Longrightarrow> confined W (if c then p else p')"
  using confined_frame [OF frame_dateNow] by (auto simp: confined_def intro!: prog_rules)

lemma gets_spec: "spec (gets f) s (\<lambda>r t. r = Inr (f s) \<and> t = s)"
  by (rule spec_gets) simp

lemma confined_mono:
  assumes "confined W (p :: ('k SetupState, 'a) prog)" "W \<subseteq> W'"
  shows "confined W' p"
  unfolding confined_def preserves_def
proof (intro allI impI)
  fix f and s :: "'k SetupState" assume s: "stepFiles W' f (su_files s)"
  have "stepFiles W (su_files s) (su_files (snd (p s)))" using assms(1) by (simp add: confined_def preserves_def)
  with assms(2) have "stepFiles W' (su_files s) (su_files (snd (p s)))" by (auto simp: stepFiles_def)
  with s show "stepFiles W' f (su_files (snd (p s)))" by (rule stepFiles_trans)
qed

lemma confined_finally:
  assumes "confined W p" "confined W (r :: ('k SetupState, unit) prog)"
  shows "confined W (tryFinally p (\<lambda>s. snd (r s)))"
  using assms by (simp add: confined_def preserves_def tryFinally_def split: prod.split) (metis snd_conv)

lemma onSetupFiles_spec: "spec p (su_files s) Q \<Longrightarrow> spec (onSetupFiles p) s (\<lambda>r t. Q r (su_files t))"
  by (auto simp: spec_def onSetupFiles_def split: prod.splits)

lemma confined_writeAtomic:
  assumes "path \<in> W" "Collect isTemp \<subseteq> W"
  shows "confined W (writeAtomic env path v)"
proof -
  have temp: "path @ ''.tmp-'' @ x \<in> W" for x using assms(2) isTemp_temp by blast
  then have W: "q \<notin> W \<Longrightarrow> q \<noteq> path @ ''.tmp-'' @ x" for q x by blast
  show ?thesis unfolding writeAtomic_def Let_def
    by (intro confined_rules confined_files)
      (use W assms(1) in \<open>auto simp: stepFiles_def mkdirs_def writeJson_def writeFile_def rename_def split: json.split option.split\<close>)
qed

lemma confined_rmForce: "path \<in> W \<Longrightarrow> confined W (onSetupFiles (rmForce path))"
  by (rule confined_files) (auto simp: stepFiles_def rmForce_def)

text \<open>A file that is written back or removed is as wanted, or an operation failed.\<close>

lemma writeAtomic_spec:
  "spec (writeAtomic env path (JStr text)) s (\<lambda>r t. stepFiles (insert path (Collect isTemp)) (su_files s) (su_files t) \<and>
     (case r of Inl _ \<Rightarrow> \<exists>n. fi_fault (su_files s) n | Inr _ \<Rightarrow> contentOf (su_files t) path = Some text))"
proof (rule spec_conj)
  show "spec (writeAtomic env path (JStr text)) s (\<lambda>r t. stepFiles (insert path (Collect isTemp)) (su_files s) (su_files t))"
    by (intro confined_spec confined_writeAtomic) auto
  show "spec (writeAtomic env path (JStr text)) s (\<lambda>r t. case r of Inl _ \<Rightarrow> \<exists>n. fi_fault (su_files s) n | Inr _ \<Rightarrow> contentOf (su_files t) path = Some text)"
    by (auto simp: spec_def writeAtomic_def thn_def bnd_def onSetupFiles_def dateNow_def mkdirs_def writeJson_def writeFile_def rename_def fails_def Let_def
        split: option.splits)
qed

section \<open>A set-up on a probe that leaves the files alone\<close>

lemma mapOfList_keys: "map fst (fold (\<lambda>(k, v) m. AList.update k v m) ps m) = fold setAdd (map fst ps) (map fst m)"
  by (induction ps arbitrary: m) (auto simp: update_keys setAdd_def split: prod.split)

lemma mapOfList_distinct: "distinct (map fst (mapOfList ps))" "fst ` set (mapOfList ps) = fst ` set ps"
proof -
  have keys: "map fst (mapOfList ps) = setOfList (map fst ps)" by (simp add: mapOfList_def mapOfList_keys setOfList_def)
  then show "distinct (map fst (mapOfList ps))" by simp
  have "set (map fst (mapOfList ps)) = set (map fst ps)" unfolding keys by simp
  then show "fst ` set (mapOfList ps) = fst ` set ps" by simp
qed

lemma mapOfList_id: "distinct (map fst ps) \<Longrightarrow> mapOfList ps = ps"
proof -
  have "distinct (map fst (acc @ ps)) \<Longrightarrow> fold (\<lambda>(k, v) m. AList.update k v m) ps acc = acc @ ps" for acc
  proof (induction ps arbitrary: acc)
    case (Cons p ps)
    have "k \<notin> fst ` set m \<Longrightarrow> AList.update k v m = m @ [(k, v)]" for k v and m :: "('a \<times> 'b) list" by (induction m) auto
    with Cons show ?case by (cases p) auto
  qed simp
  from this [of "[]"] show "distinct (map fst ps) \<Longrightarrow> mapOfList ps = ps" by (simp add: mapOfList_def)
qed

locale quiet_probe =
  fixes env :: "'k SetupEnv"
  assumes run_files: "frame su_files (pb_run (se_probe env) command args)"
    and dump_files: "pb_snapshotNft (se_probe env) = Some dump \<Longrightarrow> frame su_files dump"
    and restore_files: "pb_restoreNft (se_probe env) = Some restore \<Longrightarrow> frame su_files (restore path)"
begin

lemma safe_files [prog_rules]: "frame su_files (setup_safe env command args)"
  unfolding setup_safe_def by (intro prog_rules run_files) (simp add: prog_rules split: prod.split)

lemma inspect_files: "frame su_files (inspectNetwork env)"
  unfolding inspectNetwork_def readJson_def liftE_def Let_def
  by (intro prog_rules) (auto intro: prog_rules split: sum.split)

lemma preflight_files: "frame su_files (preflight env)"
  unfolding preflight_def Let_def by (intro prog_rules)

lemma gateway_files: "frame su_files (ensureGatewayAddress env iface gateway subnet)" "frame su_files (removeGatewayAddress env iface gateway subnet)"
  unfolding ensureGatewayAddress_def removeGatewayAddress_def by (intro prog_rules)+

lemma health_files: "frame su_files (setup_health env iface gateway)"
  unfolding setup_health_def Let_def by (intro prog_rules)

lemma flag_files: "frame su_files (modify (\<lambda>s. s\<lparr>su_gatewayAdded := a\<rparr>))" "frame su_files (modify (\<lambda>s. s\<lparr>su_dnsmasqActivated := a\<rparr>))"
  "frame su_files (modify (\<lambda>s. s\<lparr>su_health := h\<rparr>))"
  "frame su_files (modify (\<lambda>s. s\<lparr>su_gatewayAdded := a, su_dnsmasqActivated := b, su_health := h\<rparr>))"
  by (simp_all add: frame_def)

lemma activate_confined: "confined {legacyFile (se_paths env)} (activateSetup env input gateway)"
proof -
  have run: "confined W (bnd (pb_run (se_probe env) c a) (\<lambda>_. skip))" for W c a
    by (intro confined_rules confined_frame run_files)
  have "confined {legacyFile (se_paths env)} (migrateLegacyDnsmasqConfig env)"
    unfolding migrateLegacyDnsmasqConfig_def
    by (rule confined_files) (auto simp: stepFiles_def tryCatch_def rmForce_def)
  then show ?thesis unfolding activateSetup_def Let_def
    by (intro confined_rules run) (simp_all add: confined_frame safe_files health_files flag_files)
qed

end

section \<open>The snapshot holds the files\<close>

lemma readAll_spec:
  assumes "\<And>i. i < length ps \<Longrightarrow> \<not> fi_fault f (fi_tick f + i)"
  shows "spec (mapProg readOrNull ps) f (\<lambda>r g. r = Inr (map (\<lambda>p. (p, contentOf f p)) ps) \<and> contentOf g = contentOf f \<and> fi_fault g = fi_fault f)"
  using assms
proof (induction ps arbitrary: f)
  case (Cons p ps)
  have "\<not> fails f" using Cons.prems [of 0] by (simp add: fails_def)
  then have first: "readOrNull p f = (Inr (p, contentOf f p), tick f)"
    by (auto simp: readOrNull_def readFile_def tryCatch_def bnd_def split: option.split)
  have "\<not> fi_fault (tick f) (fi_tick (tick f) + i)" if "i < length ps" for i
    using Cons.prems [of "Suc i"] that by (simp add: tick_def)
  from Cons.IH [OF this] show ?case
    unfolding mapProg.simps by (auto simp: spec_def first bnd_def split: prod.splits)
qed simp

definition snapshotContents :: "SetupPaths \<Rightarrow> FileState \<Rightarrow> (string \<times> string option) list" where
  "snapshotContents paths f = mapOfList (map (\<lambda>p. (p, contentOf f p)) (snapshotFiles paths))"

lemma snapshotContents_facts:
  "distinct (map fst (snapshotContents paths f))" "fst ` set (snapshotContents paths f) = set (snapshotFiles paths)"
  "(p, c) \<in> set (snapshotContents paths f) \<Longrightarrow> c = contentOf f p" "snapshotContents paths f \<noteq> []"
proof -
  let ?ps = "map (\<lambda>p. (p, contentOf f p)) (snapshotFiles paths)"
  show d: "distinct (map fst (snapshotContents paths f))" by (simp add: snapshotContents_def mapOfList_distinct)
  show k: "fst ` set (snapshotContents paths f) = set (snapshotFiles paths)"
    by (simp add: snapshotContents_def mapOfList_distinct image_image)
  then show "snapshotContents paths f \<noteq> []" by (auto simp: snapshotFiles_def)
  assume "(p, c) \<in> set (snapshotContents paths f)"
  with d have "map_of (snapshotContents paths f) p = Some c" by simp
  then have "(p, c) \<in> set ?ps" unfolding snapshotContents_def map_of_mapOfList by (auto dest: map_of_SomeD)
  then show "c = contentOf f p" by auto
qed

definition readable :: "FileState \<Rightarrow> bool" where
  "readable f \<longleftrightarrow> list_all (\<lambda>i. \<not> fi_fault f (fi_tick f + i)) [1, 2, 3, 4]"

context quiet_probe
begin

lemma snapshot_spec:
  assumes "readable (su_files s)"
  shows "spec (snapshot env) s (\<lambda>r t. stepFiles {p. startsWith (sp_snapshotDir (se_paths env) @ ''/'') p} (su_files s) (su_files t) \<and>
    (\<forall>text. r = Inr text \<longrightarrow> (\<exists>nft. text = snapshotText (snapshotContents (se_paths env) (su_files s)) nft)))"
proof -
  let ?W = "{p. startsWith (sp_snapshotDir (se_paths env) @ ''/'') p}"
  let ?Q = "\<lambda>r t. stepFiles ?W (su_files s) (su_files t) \<and>
    (\<forall>text. r = Inr text \<longrightarrow> (\<exists>nft. text = snapshotText (snapshotContents (se_paths env) (su_files s)) nft))"
  have mk: "spec mkdirs (su_files s) (\<lambda>r g. g = tick (su_files s))" by (simp add: spec_def mkdirs_def)
  have now: "spec dateNow t (\<lambda>r u. su_files u = su_files t \<and> (\<exists>id. r = Inr id))" for t :: "'k SetupState" by (simp add: spec_def dateNow_def)
  have reads: "\<not> fi_fault (tick (su_files s)) (fi_tick (tick (su_files s)) + i)" if "i < length (snapshotFiles (se_paths env))" for i
  proof -
    from that have "i \<in> {0, 1, 2, 3}" by (auto simp: snapshotFiles_def)
    with assms show ?thesis by (auto simp: readable_def tick_def numeral_eq_Suc)
  qed
  show ?thesis unfolding snapshot_def Let_def
  proof (rule spec_thn [OF onSetupFiles_spec [OF mk]], goal_cases)
    case 1
    then show ?case by (simp add: stepFiles_def)
  next
    case (2 x t)
    then have t: "su_files t = tick (su_files s)" by simp
    show ?case
    proof (rule spec_bnd [OF now], goal_cases)
      case (2 id u)
      with t have u: "su_files u = tick (su_files s)" by simp
      have all: "spec (mapProg readOrNull (snapshotFiles (se_paths env))) (su_files u)
          (\<lambda>r g. r = Inr (map (\<lambda>p. (p, contentOf (su_files u) p)) (snapshotFiles (se_paths env))) \<and>
             contentOf g = contentOf (su_files u) \<and> fi_fault g = fi_fault (su_files u))"
        by (rule readAll_spec) (use reads u in simp)
      show ?case
      proof (rule spec_bnd [OF onSetupFiles_spec [OF all]], goal_cases)
        case (2 contents v)
        then have v: "stepFiles ?W (su_files s) (su_files v)"
          and c: "mapOfList contents = snapshotContents (se_paths env) (su_files s)"
          by (simp_all add: stepFiles_def u snapshotContents_def)
        have dump: "frame su_files (case pb_snapshotNft (se_probe env) of None \<Rightarrow> ret [] | Some dump \<Rightarrow> dump)"
          by (auto intro: prog_rules dump_files split: option.split)
        show ?case
        proof (rule spec_bnd [OF spec_frame [OF dump]], goal_cases)
          case (2 nft w)
          then have w: "su_files w = su_files v" by simp
          have written: "confined ?W (onSetupFiles (writeFile (joinPath (sp_snapshotDir (se_paths env)) n) d))" for n d
            by (rule confined_files) (auto simp: stepFiles_def writeFile_def joinPath_def startsWith_iff)
          show ?case
          proof (rule spec_thn [OF confined_spec [OF written]], goal_cases)
            case (1 e z)
            then have "stepFiles ?W (su_files s) (su_files z)" using stepFiles_trans [OF v] w by simp
            then show ?case by simp
          next
            case (2 y z)
            then have "stepFiles ?W (su_files s) (su_files z)" using stepFiles_trans [OF v] w by simp
            then show ?case unfolding c by (intro spec_ret) blast
          qed
        qed (use v in auto)
      qed auto
    qed simp
  qed
qed

end

section \<open>A rollback puts the files back\<close>

lemma restoreFile_spec:
  "spec (restoreFile env (p, contentJson c)) s (\<lambda>r t. stepFiles (insert p (Collect isTemp)) (su_files s) (su_files t) \<and>
     (case r of Inl _ \<Rightarrow> \<exists>n. fi_fault (su_files s) n | Inr _ \<Rightarrow> contentOf (su_files t) p = c))"
proof (cases c)
  case None
  then show ?thesis
    by (auto simp: spec_def restoreFile_def contentJson_def onSetupFiles_def rmForce_def fails_def stepFiles_def)
next
  case (Some t)
  show ?thesis unfolding Some using writeAtomic_spec [of env p t s] by (simp add: restoreFile_def contentJson_def)
qed

lemma restoreFiles_spec:
  assumes "distinct (map fst contents)" "\<forall>p \<in> fst ` set contents. \<not> isTemp p"
  shows "spec (forEach (map (\<lambda>(p, c). (p, contentJson c)) contents) (restoreFile env)) s (\<lambda>r t. fi_fault (su_files t) = fi_fault (su_files s) \<and>
    (r = Inr () \<or> (\<forall>n. \<not> fi_fault (su_files s) n) \<longrightarrow> r = Inr () \<and> (\<forall>(p, c) \<in> set contents. contentOf (su_files t) p = c)))"
  using assms
proof (induction contents arbitrary: s)
  case (Cons m contents)
  obtain p c where m: "m = (p, c)" by fastforce
  show ?case unfolding m list.map prod.case forEach.simps
  proof (rule spec_thn [OF restoreFile_spec], goal_cases)
    case (1 e t)
    then show ?case by (auto simp: stepFiles_def)
  next
    case (2 x t)
    have notTemp: "\<not> isTemp p" "p \<notin> fst ` set contents" using Cons.prems m by auto
    have rest: "confined (- {p}) (forEach (map (\<lambda>(p, c). (p, contentJson c)) contents) (restoreFile env))"
    proof (rule confined_rules(10))
      fix y assume "y \<in> set (map (\<lambda>(p, c). (p, contentJson c)) contents)"
      then obtain q j where y: "y = (q, j)" "q \<in> fst ` set contents" by force
      with notTemp show "confined (- {p}) (restoreFile env y)"
        by (auto simp: restoreFile_def intro!: confined_rmForce confined_writeAtomic)
    qed
    have "distinct (map fst contents)" "\<forall>p \<in> fst ` set contents. \<not> isTemp p" using Cons.prems by simp_all
    from spec_conj [OF Cons.IH [OF this] confined_spec [OF rest]] show ?case
      by (rule spec_mono) (use 2 in \<open>auto simp: stepFiles_def\<close>)
  qed
qed simp

text \<open>\<open>restored\<close>: the files of the snapshot are as they were.\<close>

definition restored :: "SetupPaths \<Rightarrow> FileState \<Rightarrow> FileState \<Rightarrow> bool" where
  "restored paths f g \<longleftrightarrow> list_all (\<lambda>p. contentOf g p = contentOf f p) (snapshotFiles paths)"

lemma restored_contents: "(\<forall>(p, c) \<in> set (snapshotContents paths f). contentOf g p = c) \<Longrightarrow> restored paths f g"
  using snapshotContents_facts(2,3) [where paths = paths and f = f] by (force simp: restored_def list_all_iff)

lemma restored_step: "restored paths f g \<Longrightarrow> stepFiles W g h \<Longrightarrow> W \<inter> set (snapshotFiles paths) = {} \<Longrightarrow> restored paths f h"
  by (fastforce simp: restored_def list_all_iff stepFiles_def)

lemma restored_refl [simp]: "restored paths f f"
  by (simp add: restored_def list_all_iff)

text \<open>The paths of the wizard: different from each other, from temporary files and outside the snapshots.\<close>

definition plainPaths :: "SetupPaths \<Rightarrow> SetupApplyInput \<Rightarrow> bool" where
  "plainPaths paths input \<longleftrightarrow>
     (let ps = snapshotFiles paths @ [orDefault (si_dhcpReservationsPath input) (reservationsFile paths), modulesFile paths, overrideFile paths]
      in distinct ps \<and> list_all (\<lambda>p. \<not> hasSubstr ''.tmp-'' p \<and> \<not> startsWith (sp_snapshotDir paths @ ''/'') p) ps)"

context quiet_probe
begin

lemma restoreRules_confined: "confined {p. startsWith (sp_snapshotDir (se_paths env) @ ''/'') p} (restoreRules env nft)"
proof -
  let ?W = "{p. startsWith (sp_snapshotDir (se_paths env) @ ''/'') p}"
  have names: "joinPath (sp_snapshotDir (se_paths env)) n \<in> ?W" for n by (simp add: joinPath_def startsWith_iff)
  then have outside: "q \<notin> ?W \<Longrightarrow> q \<noteq> joinPath (sp_snapshotDir (se_paths env)) n" for q n by blast
  have wr: "confined ?W (onSetupFiles (writeJson (joinPath (sp_snapshotDir (se_paths env)) n) v))" for n v
    by (rule confined_files) (use outside in \<open>auto simp: stepFiles_def writeJson_def writeFile_def split: json.split\<close>)
  have rm: "confined ?W (onSetupFiles (rmForce (joinPath (sp_snapshotDir (se_paths env)) n)))" for n
    by (rule confined_rmForce [OF names])
  show ?thesis
  proof (cases "pb_restoreNft (se_probe env)")
    case None
    then show ?thesis by (simp add: restoreRules_def confined_rules)
  next
    case (Some restore)
    have "confined ?W (restore n)" for n by (rule confined_frame [OF restore_files [OF Some]])
    then show ?thesis unfolding restoreRules_def Let_def Some option.case
      by (intro confined_rules confined_finally wr rm)
  qed
qed

lemma rollback_spec:
  assumes "plainPaths (se_paths env) input"
  shows "spec (rollback env (snapshotText (snapshotContents (se_paths env) f) nft) activated) s (\<lambda>r t.
    r = Inr () \<or> (\<forall>n. \<not> fi_fault (su_files s) n) \<longrightarrow> restored (se_paths env) f (su_files t))"
proof -
  let ?c = "snapshotContents (se_paths env) f" and ?W = "{p. startsWith (sp_snapshotDir (se_paths env) @ ''/'') p}"
  have paths: "\<forall>p \<in> set (snapshotFiles (se_paths env)). \<not> isTemp p" "?W \<inter> set (snapshotFiles (se_paths env)) = {}"
    using assms by (auto simp: plainPaths_def isTemp_def list_all_iff Let_def)
  let ?entries = "map (\<lambda>(p, c). (p, contentJson c)) ?c"
  have keys: "map fst ?entries = map fst ?c" by auto
  have "distinct (map fst ?entries)" unfolding keys by (rule snapshotContents_facts(1))
  then have entries: "objectEntries (Some (JObj ?entries)) = ?entries" by (simp add: objectEntries_def mapOfList_id)
  have post: "restored (se_paths env) f (su_files u)" if "restored (se_paths env) f (su_files t)" "stepFiles ?W (su_files t) (su_files u)" for t u :: "'k SetupState"
    using that paths(2) by (rule restored_step)
  have rest: "confined ?W (thn (restoreRules env j) (whenP activated (bnd (setup_safe env ''systemctl'' [''restart'', ''dnsmasq'']) (\<lambda>_. skip))))" for j
    by (intro confined_rules restoreRules_confined confined_frame safe_files)
  have loop: "spec (forEach ?entries (restoreFile env)) s (\<lambda>r t. r = Inr () \<or> (\<forall>n. \<not> fi_fault (su_files s) n) \<longrightarrow> r = Inr () \<and> restored (se_paths env) f (su_files t))"
    by (rule spec_mono [OF restoreFiles_spec]) (use snapshotContents_facts [where paths = "se_paths env" and f = f] paths(1) restored_contents in auto)
  show ?thesis unfolding rollback_def snapshot_parsed [OF snapshotContents_facts(4)]
    unfolding member_def
  proof (simp add: entries del: forEach.simps, rule spec_thn [OF loop], goal_cases)
    case (2 x t)
    then show ?case by (intro spec_mono [OF confined_spec [OF rest]]) (auto intro: post)
  qed auto
qed

end

section \<open>apply\<close>

text \<open>The files hold what was rendered, and the legacy file is all that went.\<close>

definition holds :: "(string \<times> string) list \<Rightarrow> FileState \<Rightarrow> bool" where
  "holds wanted f \<longleftrightarrow> list_all (\<lambda>(p, text). contentOf f p = Some text) wanted"

lemma renderedFiles_paths:
  "map fst (renderedFiles env rendered) = [sp_configPath (se_paths env), sp_dnsmasqPath (se_paths env), sp_nftablesPath (se_paths env),
     re_reservationsPath rendered, modulesFile (se_paths env), overrideFile (se_paths env)]"
  by (simp add: renderedFiles_def Let_def)

lemma render_reservations: "render env input gateway = Inr rendered \<Longrightarrow>
    re_reservationsPath rendered = orDefault (si_dhcpReservationsPath input) (reservationsFile (se_paths env))"
  by (auto simp: render_def Let_def split: option.splits if_splits)

lemma rendered_distinct:
  assumes "plainPaths (se_paths env) input" "render env (input\<lparr>si_clientSubnet := n\<rparr>) gateway = Inr rendered"
  shows "distinct (map fst (renderedFiles env rendered))" "legacyFile (se_paths env) \<notin> fst ` set (renderedFiles env rendered)"
    "\<forall>p \<in> fst ` set (renderedFiles env rendered). \<not> isTemp p"
proof -
  have r: "re_reservationsPath rendered = orDefault (si_dhcpReservationsPath input) (reservationsFile (se_paths env))"
    using render_reservations [OF assms(2)] by simp
  show "distinct (map fst (renderedFiles env rendered))"
    unfolding renderedFiles_paths r using assms(1) by (auto simp: plainPaths_def snapshotFiles_def Let_def)
  have "legacyFile (se_paths env) \<notin> set (map fst (renderedFiles env rendered))"
    unfolding renderedFiles_paths r using assms(1) by (auto simp: plainPaths_def snapshotFiles_def Let_def)
  then show "legacyFile (se_paths env) \<notin> fst ` set (renderedFiles env rendered)" by simp
  have "\<forall>p \<in> set (map fst (renderedFiles env rendered)). \<not> isTemp p"
    unfolding renderedFiles_paths r using assms(1) by (auto simp: plainPaths_def snapshotFiles_def isTemp_def Let_def)
  then show "\<forall>p \<in> fst ` set (renderedFiles env rendered). \<not> isTemp p" by simp
qed

lemma writeAll_holds:
  assumes "distinct (map fst wanted)" "\<forall>p \<in> fst ` set wanted. \<not> isTemp p"
  shows "spec (forEach wanted (\<lambda>(path, text). writeAtomic env path (JStr text))) s (\<lambda>r t. r = Inr () \<longrightarrow> holds wanted (su_files t))"
  using assms
proof (induction wanted arbitrary: s)
  case (Cons m wanted)
  obtain p c where m: "m = (p, c)" by fastforce
  show ?case unfolding m forEach.simps prod.case
  proof (rule spec_thn [OF writeAtomic_spec], goal_cases)
    case (2 x t)
    have rest: "confined (- {p}) (forEach wanted (\<lambda>(path, text). writeAtomic env path (JStr text)))"
    proof (rule confined_rules(10))
      fix y assume "y \<in> set wanted"
      then obtain q d where y: "y = (q, d)" "q \<in> fst ` set wanted" by (metis image_eqI prod.collapse)
      with Cons.prems m show "confined (- {p}) (case y of (path, text) \<Rightarrow> writeAtomic env path (JStr text))"
        by (auto intro!: confined_writeAtomic)
    qed
    have "distinct (map fst wanted)" "\<forall>p \<in> fst ` set wanted. \<not> isTemp p" using Cons.prems by simp_all
    from spec_conj [OF Cons.IH [OF this] confined_spec [OF rest]] show ?case
      by (rule spec_mono) (use 2 in \<open>auto simp: stepFiles_def holds_def\<close>)
  qed simp
qed (simp add: holds_def)

lemma holds_step: "holds wanted f \<Longrightarrow> stepFiles W f g \<Longrightarrow> W \<inter> fst ` set wanted = {} \<Longrightarrow> holds wanted g"
  by (fastforce simp: holds_def list_all_iff stepFiles_def)

context quiet_probe
begin

lemma body_spec:
  assumes "plainPaths (se_paths env) input"
  shows "spec (applyBody env input gateway n) s (\<lambda>r t. fi_fault (su_files t) = fi_fault (su_files s) \<and>
    (\<forall>result. r = Inr result \<longrightarrow> ar_applied result \<and>
      (\<exists>rendered. render env (input\<lparr>si_clientSubnet := n\<rparr>) gateway = Inr rendered \<and> holds (renderedFiles env rendered) (su_files t))))"
proof (rule spec_conj)
  have dirs: "confined {} (ensureParentDirectories env)"
    unfolding ensureParentDirectories_def Let_def by (intro confined_rules confined_files) (simp add: stepFiles_def mkdirs_def)
  have gate: "confined {} (whenP (activates input)
      (bnd (ensureGatewayAddress env i gateway n) (\<lambda>added. modify (\<lambda>s. s\<lparr>su_gatewayAdded := added\<rparr>))))" for i
    by (intro confined_rules confined_frame gateway_files flag_files)
  have rend: "confined {} (liftE (render env i gateway))" for i
    by (simp add: liftE_def confined_rules split: sum.split)
  have act: "confined {legacyFile (se_paths env)} (whenP (activates input) (activateSetup env input gateway))"
    by (intro confined_rules activate_confined)
  have writes: "confined UNIV (forEach ws (\<lambda>(path, text). writeAtomic env path (JStr text)))" for ws
    by (rule confined_rules(10)) (auto intro!: confined_writeAtomic)
  have "confined UNIV (applyBody env input gateway n)"
    unfolding applyBody_def
    by (intro confined_rules writes confined_mono [OF dirs] confined_mono [OF gate] confined_mono [OF rend] confined_mono [OF act]) simp_all
  from confined_spec [OF this] show "spec (applyBody env input gateway n) s (\<lambda>r t. fi_fault (su_files t) = fi_fault (su_files s))"
    by (rule spec_mono) (simp add: stepFiles_def)
  show "spec (applyBody env input gateway n) s (\<lambda>r t. \<forall>result. r = Inr result \<longrightarrow> ar_applied result \<and>
      (\<exists>rendered. render env (input\<lparr>si_clientSubnet := n\<rparr>) gateway = Inr rendered \<and> holds (renderedFiles env rendered) (su_files t)))"
    unfolding applyBody_def
  proof (rule spec_thn [OF confined_spec [OF dirs]], goal_cases)
    case 2
    show ?case
    proof (rule spec_thn [OF confined_spec [OF gate]], goal_cases)
      case (2 x u)
      show ?case
      proof (cases "render env (input\<lparr>si_clientSubnet := n\<rparr>) gateway")
        case (Inr rendered)
        let ?ws = "renderedFiles env rendered"
        note d = rendered_distinct [OF assms Inr]
        have post: "spec (thn (forEach ?ws (\<lambda>(path, text). writeAtomic env path (JStr text)))
            (thn (whenP (activates input) (activateSetup env input gateway))
            (bnd (gets su_health) (\<lambda>health. ret \<lparr>ar_applied = True, ar_configPath = sp_configPath (se_paths env),
               ar_renderedFiles = map fst ?ws, ar_health = health, ar_rolledBack = False, ar_errors = []\<rparr>)))) u
          (\<lambda>r t. \<forall>result. r = Inr result \<longrightarrow> ar_applied result \<and> holds ?ws (su_files t))"
        proof (rule spec_thn [OF writeAll_holds [OF d(1,3)]], goal_cases)
          case (2 y v)
          have keep: "stepFiles {legacyFile (se_paths env)} (su_files v) f \<Longrightarrow> holds ?ws f" for f
            using 2 d(2) by (elim holds_step [rotated]) simp_all
          show ?case
          proof (rule spec_thn [OF confined_spec [OF act]], goal_cases)
            case (2 z w)
            from keep [OF this] show ?case by (intro spec_bnd [OF gets_spec]) simp_all
          qed simp
        qed simp
        have eq: "bnd (liftE (render env (input\<lparr>si_clientSubnet := n\<rparr>) gateway)) f = f rendered" for f :: "Rendered \<Rightarrow> ('k SetupState, 'b) prog"
          by (simp add: liftE_def Inr)
        show ?thesis unfolding eq
        proof (rule spec_mono [OF post], intro allI impI)
          fix r t result assume "\<forall>result. r = Inr result \<longrightarrow> ar_applied result \<and> holds ?ws (su_files t)" "r = Inr result"
          with Inr show "ar_applied result \<and> (\<exists>rendered. render env (input\<lparr>si_clientSubnet := n\<rparr>) gateway = Inr rendered \<and>
              holds (renderedFiles env rendered) (su_files t))" by blast
        qed
      qed (simp add: liftE_def)
    qed simp
  qed simp
qed

end

text \<open>\<open>setupOutcome\<close>: the files are as rendered when the set-up was applied, and as before when it was not.\<close>

definition setupOutcome :: "'k SetupEnv \<Rightarrow> SetupApplyInput \<Rightarrow> FileState \<Rightarrow> js_error + SetupApplyResult \<Rightarrow> FileState \<Rightarrow> bool" where
  "setupOutcome env input f r g \<longleftrightarrow> (case r of
       Inl e \<Rightarrow> (\<forall>n. \<not> fi_fault f n) \<longrightarrow> restored (se_paths env) f g
     | Inr result \<Rightarrow> if ar_applied result
         then \<exists>gateway subnet rendered. networkOf (si_clientSubnet input) = Some subnet \<and> usableHost gateway subnet \<and>
           render env (input\<lparr>si_clientSubnet := subnet\<rparr>) gateway = Inr rendered \<and> holds (renderedFiles env rendered) g
         else restored (se_paths env) f g)"

lemma applyErrors_Nil:
  assumes "applyErrors network input = []"
  shows "\<exists>subnet. networkOf (si_clientSubnet input) = Some subnet \<and> usableHost (the (gatewayCandidate network input)) subnet"
  using assms by (auto simp: applyErrors_def Let_def orDefault_def split: option.splits if_splits)

context quiet_probe
begin

lemma safe_spec: "spec (setup_safe env command args) s (\<lambda>r t. su_files t = su_files s \<and> (\<exists>x. r = Inr x))"
proof (rule spec_conj [OF spec_frame [OF safe_files]])
  show "spec (setup_safe env command args) s (\<lambda>r t. \<exists>x. r = Inr x)"
    by (auto simp: spec_def setup_safe_def tryCatch_def bnd_def split: prod.split sum.split)
qed

lemma remove_spec: "spec (whenP added (removeGatewayAddress env i gateway n)) s (\<lambda>r t. su_files t = su_files s \<and> r = Inr ())"
  using safe_spec by (auto simp: removeGatewayAddress_def whenP_def intro!: spec_bnd [OF safe_spec] split: option.split)

lemma recover_spec:
  assumes "plainPaths (se_paths env) input" "fi_fault (su_files u) = fi_fault f"
  shows "spec (recover env input gateway n (snapshotText (snapshotContents (se_paths env) f) nft) e) u (\<lambda>r t. setupOutcome env input f r (su_files t))"
proof -
  let ?text = "snapshotText (snapshotContents (se_paths env) f) nft"
  have nonempty: "?text \<noteq> []" by (simp add: snapshotText_def)
  let ?answer = "bnd (gets su_health) (\<lambda>health. ret \<lparr>ar_applied = False, ar_configPath = sp_configPath (se_paths env), ar_renderedFiles = [],
        ar_health = (if sh_errors health \<noteq> [] then health else health\<lparr>sh_errors := [errorMessage e]\<rparr>),
        ar_rolledBack = (?text \<noteq> []), ar_errors = [errorMessage e]\<rparr>) :: ('k SetupState, SetupApplyResult) prog"
  have rolled: "spec (thn (whenP (?text \<noteq> []) (rollback env ?text activated)) ?answer) v (\<lambda>r t. setupOutcome env input f r (su_files t))"
    if "su_files v = su_files u" for activated and v :: "'k SetupState"
  proof (rule spec_thn [where R = "\<lambda>r t. r = Inr () \<or> (\<forall>n. \<not> fi_fault f n) \<longrightarrow> restored (se_paths env) f (su_files t)"], goal_cases)
    case 1
    from rollback_spec [OF assms(1), of f nft activated v] that assms(2) nonempty show ?case by simp
  next
    case (3 x t)
    then show ?case by (intro spec_bnd [OF gets_spec]) (simp_all add: setupOutcome_def)
  qed (simp add: setupOutcome_def)
  show ?thesis unfolding recover_def
  proof (rule spec_bnd [OF gets_spec], goal_cases)
    case (2 added v)
    show ?case
    proof (rule spec_thn [OF remove_spec], goal_cases)
      case (2 x w)
      with \<open>Inr added = Inr (su_gatewayAdded u) \<and> v = u\<close> show ?case by (intro spec_bnd [OF gets_spec]) (simp_all add: rolled)
    qed simp
  qed simp
qed

end

context quiet_probe
begin

lemma apply_outcome:
  assumes "plainPaths (se_paths env) input" "activates input" "readable (su_files s)"
  shows "spec (setup_apply env input) s (\<lambda>r t. setupOutcome env input (su_files s) r (su_files t))"
proof -
  let ?f = "su_files s" and ?W = "{p. startsWith (sp_snapshotDir (se_paths env) @ ''/'') p}"
  have early: "setupOutcome env input ?f (Inr (failed env es)) (su_files t)" "setupOutcome env input ?f (Inl e) (su_files t)"
    if "restored (se_paths env) ?f (su_files t)" for es e and t :: "'k SetupState"
    using that by (simp_all add: setupOutcome_def failed_def)
  have apart: "?W \<inter> set (snapshotFiles (se_paths env)) = {}"
    using assms(1) by (auto simp: plainPaths_def list_all_iff Let_def)
  have report: "frame su_files (if activates input then bnd (preflight env) (\<lambda>report. ret (pf_errors report)) else ret [])"
    by (intro prog_rules preflight_files)
  have taken: "spec (if activates input then tryCatch (bnd (snapshot env) (\<lambda>text. ret (Inr text))) (\<lambda>error. ret (Inl error)) else ret (Inr [])) t
      (\<lambda>r u. stepFiles ?W ?f (su_files u) \<and> (\<exists>x. r = Inr x \<and>
         (\<forall>d. x = Inr d \<longrightarrow> (\<exists>nft. d = snapshotText (snapshotContents (se_paths env) ?f) nft))))"
    if "su_files t = ?f" for t :: "'k SetupState"
  proof -
    have "spec (snapshot env) t (\<lambda>r u. stepFiles ?W ?f (su_files u) \<and>
        (\<forall>d. r = Inr d \<longrightarrow> (\<exists>nft. d = snapshotText (snapshotContents (se_paths env) ?f) nft)))"
      using snapshot_spec [of t] assms(3) that by simp
    then show ?thesis using assms(2) by (auto simp: spec_def bnd_def tryCatch_def split: prod.splits sum.splits)
  qed
  show ?thesis
  proof (cases "setup_validateInput input = []")
    case False
    then show ?thesis by (simp add: setup_apply_def early)
  next
    case valid: True
    show ?thesis unfolding setup_apply_def Let_def
    proof (simp only: valid simp_thms if_False, rule spec_bnd [OF spec_frame [OF inspect_files]], goal_cases)
      case (1 e t)
      then show ?case by (simp add: early)
    next
      case (2 network t)
      then have t: "su_files t = ?f" by simp
      show ?case
      proof (rule spec_if, goal_cases)
        case 1
        with t show ?case by (simp add: early)
      next
        case ok: 2
        then obtain n where n: "networkOf (si_clientSubnet input) = Some n" "usableHost (the (gatewayCandidate network input)) n"
          using applyErrors_Nil by blast
        show ?case
        proof (rule spec_bnd [OF spec_frame [OF report]], goal_cases)
          case (1 e u)
          with t show ?case by (simp add: early)
        next
          case (2 es u)
          with t have u: "su_files u = ?f" by simp
          show ?case
          proof (rule spec_if, goal_cases)
            case 1
            with u show ?case by (simp add: early)
          next
            case 2
            show ?case
            proof (rule spec_bnd [OF taken [OF u]], goal_cases)
              case (2 x v)
              then have v: "restored (se_paths env) ?f (su_files v)" "fi_fault (su_files v) = fi_fault ?f"
                using restored_step [OF restored_refl _ apart] by (simp_all add: stepFiles_def)
              show ?case
              proof (cases x)
                case (Inl e)
                with v show ?thesis by (simp add: early)
              next
                case (Inr d)
                with 2 obtain nft where d: "d = snapshotText (snapshotContents (se_paths env) ?f) nft" by auto
                show ?thesis unfolding Inr sum.case
                proof (rule spec_thn [OF spec_frame [OF flag_files(4)]], goal_cases)
                  case (2 y w)
                  with v have w: "fi_fault (su_files w) = fi_fault ?f" by simp
                  show ?case
                  proof (rule spec_tryCatch [OF body_spec [OF assms(1)]], goal_cases)
                    case (1 e z)
                    with w show ?case unfolding d by (intro recover_spec [OF assms(1)]) simp
                  next
                    case (2 result z)
                    with n show ?case by (auto simp: setupOutcome_def)
                  qed
                qed (use v in \<open>simp add: early\<close>)
              qed
            qed simp
          qed
        qed
      qed
    qed
  qed
qed

end

text \<open>The set-up service as it runs: on the probe of the machine.\<close>

definition linuxSetup :: "'k SetupMachine \<Rightarrow> SetupPaths \<Rightarrow> bool \<Rightarrow> string \<Rightarrow> (rat \<Rightarrow> string) \<Rightarrow> 'k SetupEnv" where
  "linuxSetup m paths isRoot pid numText = \<lparr>se_probe = LinuxSetupProbe m (sp_nftablesPath paths), se_paths = paths,
     se_isRoot = isRoot, se_pid = pid, se_numText = numText\<rparr>"

lemma host_files: "frame su_files (onSetupHost p)"
  by (auto simp: frame_def onSetupHost_def split: prod.split)

lemma execute_files: "frame su_files (setupExecute m c a)"
  by (simp add: setupExecute_def host_files)

lemma linux_probe_files:
  "frame su_files (LinuxSetupProbe_run m nftPath command args)"
  "frame su_files (LinuxSetupProbe_snapshotNft m)" "frame su_files (LinuxSetupProbe_restoreNft m path)"
proof -
  show "frame su_files (LinuxSetupProbe_run m nftPath command args)"
    by (auto simp: LinuxSetupProbe_run_def validateNftablesConfig_def execute_files host_files)
  show "frame su_files (LinuxSetupProbe_snapshotNft m)"
    unfolding LinuxSetupProbe_snapshotNft_def by (intro prog_rules execute_files) (simp add: prog_rules split: prod.split)
  show "frame su_files (LinuxSetupProbe_restoreNft m path)"
    unfolding LinuxSetupProbe_restoreNft_def by (intro prog_rules execute_files)
qed

interpretation linux_setup: quiet_probe "linuxSetup m paths isRoot pid numText"
  by unfold_locales (auto simp: linuxSetup_def LinuxSetupProbe_def linux_probe_files)

text \<open>
  C40. A set-up that activates is all or nothing on the files of its snapshot. The paths are
  different and in no snapshot directory, and no file operation fails while the snapshot reads the
  files; every other operation, every command and the restoring of the firewall may fail. When
  \<open>apply\<close> answers that it was applied, the six files hold what was rendered for a gateway that is
  a usable host of the requested subnet; when it answers that it was not, the configuration, the
  dnsmasq file, the firewall file and the legacy file are as before, a file that was missing is
  missing again. It may throw instead, and while no file operation fails the files are as before
  then, too.
\<close>

theorem setup_is_all_or_nothing:
  assumes "setup_apply (linuxSetup m paths isRoot pid numText) input s = (r, t)"
    and "plainPaths paths input" "activates input" "readable (su_files s)"
  shows "case r of
      Inl e \<Rightarrow> (\<forall>n. \<not> fi_fault (su_files s) n) \<longrightarrow> restored paths (su_files s) (su_files t)
    | Inr result \<Rightarrow> if ar_applied result
        then \<exists>gateway subnet rendered. networkOf (si_clientSubnet input) = Some subnet \<and> usableHost gateway subnet \<and>
          render (linuxSetup m paths isRoot pid numText) (input\<lparr>si_clientSubnet := subnet\<rparr>) gateway = Inr rendered \<and>
          holds (renderedFiles (linuxSetup m paths isRoot pid numText) rendered) (su_files t)
        else restored paths (su_files s) (su_files t)"
proof -
  have paths: "se_paths (linuxSetup m paths isRoot pid numText) = paths" by (simp add: linuxSetup_def)
  have "setupOutcome (linuxSetup m paths isRoot pid numText) input (su_files s) r (su_files t)"
    by (rule specD [OF linux_setup.apply_outcome assms(1)]) (use assms(2-4) in \<open>simp_all add: paths\<close>)
  then show ?thesis unfolding setupOutcome_def paths .
qed

section \<open>A machine\<close>

definition inQuotes :: "string \<Rightarrow> string" where
  "inQuotes w = [CHR 0x22] @ w @ [CHR 0x22]"

definition demoRun :: "string \<Rightarrow> string list \<Rightarrow> string option" where
  "demoRun command args =
     (if args = [''-j'', ''link'', ''show''] then Some (''[{'' @ inQuotes ''ifname'' @ '':'' @ inQuotes ''eno1'' @ ''}]'')
      else if args = [''-j'', ''-4'', ''addr'', ''show''] then Some (''[{'' @ inQuotes ''ifname'' @ '':'' @ inQuotes ''eno1'' @ '','' @
        inQuotes ''addr_info'' @ '':[{'' @ inQuotes ''family'' @ '':'' @ inQuotes ''inet'' @ '','' @ inQuotes ''local'' @ '':'' @ inQuotes ''10.0.0.1'' @
        '','' @ inQuotes ''prefixlen'' @ '':24}]}]'')
      else if command = ''dnsmasq'' then None
      else Some [])"

definition demoExec :: "string \<Rightarrow> string list \<Rightarrow> nat \<Rightarrow> unit \<Rightarrow> (ExecFailure + string \<times> string) \<times> unit" where
  "demoExec c a n k = (case demoRun c a of None \<Rightarrow> (Inl \<lparr>xf_message = ''failed'', xf_stderr = None\<rparr>, k) | Some out \<Rightarrow> (Inr (out, []), k))"

definition demoMachine :: "(string \<Rightarrow> string option) \<Rightarrow> unit Machine" where
  "demoMachine files = \<lparr>m_exec = demoExec, m_writeFile = (\<lambda>p c k. (Inr (), k)), m_unlink = (\<lambda>p k. (Inr (), k)),
     m_agent = m_agent simMachine, m_socketPath = None\<rparr>"

definition demoSpawn :: "(string \<Rightarrow> string option) \<Rightarrow> string \<Rightarrow> string list \<Rightarrow> unit \<Rightarrow> (SpawnFailure + string \<times> string) \<times> unit" where
  "demoSpawn files c a k = (case demoRun c a of
     None \<Rightarrow> (Inl \<lparr>sw_message = Some ''failed'', sw_stdout = None, sw_stderr = None\<rparr>, k) | Some out \<Rightarrow> (Inr (out, []), k))"

definition demoSetupMachine :: "unit SetupMachine" where
  "demoSetupMachine = \<lparr>hm_local = demoMachine, hm_spawn = demoSpawn\<rparr>"

definition demoNumText :: "rat \<Rightarrow> string" where
  "demoNumText r = showInt \<lfloor>r\<rfloor>"

definition demoPaths :: SetupPaths where
  "demoPaths = \<lparr>sp_configPath = ''/c'', sp_dnsmasqPath = ''/d'', sp_nftablesPath = ''/n'', sp_snapshotDir = ''/s'', sp_leasePath = None,
     sp_reservationsPath = Some ''/r'', sp_modulesLoadPath = Some ''/m'', sp_dnsmasqOverridePath = Some ''/o'', sp_legacyDnsmasqPath = Some ''/l''\<rparr>"

definition demoInput :: SetupApplyInput where
  "demoInput = \<lparr>si_clientInterface = ''eno1'', si_uplinkInterface = ''eno1'', si_clientSubnet = ''10.0.0.0/24'',
     si_uplinkBandwidthMbps = Some 100, si_dashboardPort = Some 80, si_sshPort = Some 22, si_dnsServers = [''1.1.1.1''],
     si_clientGatewayIp = None, si_dhcpReservationsPath = None, si_activate = None\<rparr>"

definition demoSetup :: "unit SetupState" where
  "demoSetup = \<lparr>su_files = \<lparr>fi_tick = 0, fi_fault = (\<lambda>n. False), fi_torn = (\<lambda>n. 0), fi_files = [(''/c'', ''A=1'')]\<rparr>,
     su_host = (), su_clock = (\<lambda>n. n), su_reads = 0, su_gatewayAdded = False, su_dnsmasqActivated = False, su_health = noHealth\<rparr>"

definition demoEnvironment :: "unit SetupEnv" where
  "demoEnvironment = linuxSetup demoSetupMachine demoPaths True ''7'' demoNumText"

text \<open>dnsmasq rejects its configuration, so no set-up is applied on this machine.\<close>

definition unapplied :: "js_error + SetupApplyResult \<Rightarrow> bool" where
  "unapplied r \<longleftrightarrow> (case r of Inl _ \<Rightarrow> True | Inr result \<Rightarrow> \<not> ar_applied result)"

lemma demo_dnsmasq: "spec (setup_safe demoEnvironment ''dnsmasq'' [''--test'']) s (\<lambda>r t. \<exists>o'. r = Inr o' \<and> \<not> oc_ok o')"
  by (simp add: spec_def setup_safe_def tryCatch_def bnd_def demoEnvironment_def linuxSetup_def LinuxSetupProbe_def LinuxSetupProbe_run_def
      onSetupHost_def demoSetupMachine_def demoSpawn_def demoRun_def)

lemma any_spec: "spec p s (\<lambda>r t. True)"
  by (rule specI) simp

lemma demo_activation: "spec (activateSetup demoEnvironment input gateway) s (\<lambda>r t. \<exists>e. r = Inl e)"
  unfolding activateSetup_def Let_def
  by (intro spec_thn [OF any_spec] spec_bnd [OF any_spec] spec_if spec_bnd [OF demo_dnsmasq])
    (auto intro!: spec_throw spec_thn [OF any_spec] spec_bnd [OF any_spec] spec_if spec_bnd [OF demo_dnsmasq])

lemma demo_body:
  assumes "activates input"
  shows "spec (applyBody demoEnvironment input gateway n) s (\<lambda>r t. \<exists>e. r = Inl e)"
proof -
  have act: "spec (whenP (activates input) (activateSetup demoEnvironment input gateway)) t (\<lambda>r t. \<exists>e. r = Inl e)" for t
    using assms demo_activation by simp
  show ?thesis unfolding applyBody_def
    by (rule spec_thn [OF any_spec], simp, rule spec_thn [OF any_spec], simp, rule spec_bnd [OF any_spec], simp,
        rule spec_thn [OF any_spec], simp, rule spec_thn [OF act]) auto
qed

lemma demo_unapplied:
  assumes "activates input"
  shows "spec (setup_apply demoEnvironment input) s (\<lambda>r t. unapplied r)"
proof -
  have ends: "spec (ret (failed demoEnvironment es)) t (\<lambda>r t. unapplied r)" for es t by (simp add: unapplied_def failed_def)
  have recovered: "spec (recover demoEnvironment input g n d e) t (\<lambda>r t. unapplied r)" for g n d e t
    unfolding recover_def
    by (rule spec_bnd [OF any_spec], simp add: unapplied_def, rule spec_thn [OF any_spec], simp add: unapplied_def,
        rule spec_bnd [OF any_spec], simp add: unapplied_def, rule spec_thn [OF any_spec], simp add: unapplied_def,
        rule spec_bnd [OF any_spec]) (simp_all add: unapplied_def)
  have body: "spec (tryCatch (applyBody demoEnvironment input g n) (recover demoEnvironment input g n d)) t (\<lambda>r t. unapplied r)" for g n d t
    by (rule spec_tryCatch [OF demo_body [OF assms]]) (auto intro: recovered)
  show ?thesis unfolding setup_apply_def Let_def
  proof (rule spec_if [OF ends], rule spec_bnd [OF any_spec], goal_cases)
    case (2 network t)
    show ?case
    proof (rule spec_if [OF ends], rule spec_bnd [OF any_spec], goal_cases)
      case (2 es u)
      show ?case
      proof (rule spec_if [OF ends], rule spec_bnd [OF any_spec], goal_cases)
        case (2 taken v)
        show ?case
        proof (cases taken)
          case (Inr d)
          show ?thesis unfolding Inr sum.case by (rule spec_thn [OF any_spec _ body]) (simp add: unapplied_def)
        qed (use ends in simp)
      qed (simp_all add: unapplied_def)
    qed (simp_all add: unapplied_def)
  qed (simp_all add: unapplied_def)
qed

theorem setup_is_all_or_nothing_witness:
  "contentOf (su_files (snd (setup_apply demoEnvironment demoInput demoSetup))) ''/c'' = Some ''A=1'' \<and>
   contentOf (su_files (snd (setup_apply demoEnvironment demoInput demoSetup))) ''/d'' = None"
proof -
  have facts: "plainPaths demoPaths demoInput" "activates demoInput" "readable (su_files demoSetup)" by code_simp+
  obtain r t where run: "setup_apply demoEnvironment demoInput demoSetup = (r, t)" by fastforce
  have "unapplied r" by (rule specD [OF demo_unapplied [OF facts(2)] run])
  moreover have "fi_fault (su_files demoSetup) n = False" for n by (simp add: demoSetup_def)
  ultimately have "restored demoPaths (su_files demoSetup) (su_files t)"
    using setup_is_all_or_nothing [OF run [unfolded demoEnvironment_def] facts]
    by (auto simp: unapplied_def split: sum.splits)
  then show ?thesis unfolding run by (simp add: restored_def snapshotFiles_def demoPaths_def demoSetup_def contentOf_def)
qed

section \<open>The DHCP pool\<close>

text \<open>
  The pool never holds the gateway. In a subnet that is smaller than a /28 it begins behind the
  subnet, and the range that is written runs backwards.
\<close>

lemma pool_without_gateway: "(a, b) \<in> set (poolRanges first end' gateway) \<Longrightarrow> \<not> (a \<le> gateway \<and> gateway \<le> b)"
  by (auto simp: poolRanges_def split: if_splits)

lemma small_subnet_pool_runs_backwards:
  "\<exists>rng. subnetRange ''10.0.0.0/29'' = Some rng \<and> snd rng < fst rng + 10 \<and>
     poolRanges (fst rng + 10) (snd rng - 1) (fst rng + 1) = [(fst rng + 10, snd rng - 1)]"
proof -
  have "subnetRange ''10.0.0.0/29'' = Some (167772160, 167772167)" by code_simp
  then show ?thesis by (simp add: poolRanges_def)
qed

end
