(* ===== verification/Spec2Isabelle.thy ===== *)
theory Spec2Isabelle
  imports Progress Control Rates Shaping Traffic Schedules Accounting UsageReader PortRules QuotaPeriods Delivery Whitelist QuotaFacts History Retention Notifications Presence VpnControl Scheduling Auth Reservations SetupFacts
begin

text \<open>
  A verification development for the backend of the network manager.
\<close>

end
